(* ===== verification/Prelude.thy ===== *)
theory Prelude
  imports Main "HOL-Library.Word" "HOL-Library.Monad_Syntax"
begin

unbundle bit_operations_syntax

text \<open>
  Shared vocabulary of the development: the machine integer types of the kernel, the
  \<open>errno\<close> enumeration, and the reading of a Rust function that may panic.

  The kernel is built in debug mode by default (\<^verbatim>\<open>MODE := debug\<close> in the Makefile), so a
  \<open>debug_assert!\<close>, an \<open>unwrap\<close> on nothing, an out-of-range index and an arithmetic
  overflow all abort the kernel. A function that may abort has an \<^typ>\<open>'a option\<close> result
  in the model, \<^term>\<open>None\<close> being the panic; one that may also fail with an \<open>errno\<close> has
  a result of type \<open>(SysError + 'a) option\<close>. Log calls and TLB flushes are left out
  throughout: they change nothing that the model keeps.
\<close>

section \<open>Types\<close>

type_synonym u8 = "8 word"
type_synonym u16 = "16 word"
type_synonym u32 = "32 word"
type_synonym u64 = "64 word"
type_synonym usize = "64 word"

text \<open>The \<open>LinuxError\<close> enumeration of \<^verbatim>\<open>tools/errors.rs\<close>, with its numeric codes.\<close>

datatype SysError =
    EPERM | ENOENT | ESRCH | EINTR | EIO | ENXIO | E2BIG | ENOEXEC | EBADF | ECHILD
  | EAGAIN | ENOMEM | EACCES | EFAULT | ENOTBLK | EBUSY | EEXIST | EXDEV | ENODEV
  | ENOTDIR | EISDIR | EINVAL | ENFILE | EMFILE | ENOTTY | ETXTBSY | EFBIG | ENOSPC
  | ESPIPE | EROFS | EMLINK | EPIPE | EDOM | ERANGE | EDEADLK | ENAMETOOLONG | ENOLCK
  | ENOSYS | ENOTEMPTY | ENOTCONN | ECONNREFUSED

type_synonym 'a SysResult = "SysError + 'a"

fun code :: "SysError \<Rightarrow> nat" where
  "code EPERM = 1" | "code ENOENT = 2" | "code ESRCH = 3" | "code EINTR = 4"
| "code EIO = 5" | "code ENXIO = 6" | "code E2BIG = 7" | "code ENOEXEC = 8"
| "code EBADF = 9" | "code ECHILD = 10" | "code EAGAIN = 11" | "code ENOMEM = 12"
| "code EACCES = 13" | "code EFAULT = 14" | "code ENOTBLK = 15" | "code EBUSY = 16"
| "code EEXIST = 17" | "code EXDEV = 18" | "code ENODEV = 19" | "code ENOTDIR = 20"
| "code EISDIR = 21" | "code EINVAL = 22" | "code ENFILE = 23" | "code EMFILE = 24"
| "code ENOTTY = 25" | "code ETXTBSY = 26" | "code EFBIG = 27" | "code ENOSPC = 28"
| "code ESPIPE = 29" | "code EROFS = 30" | "code EMLINK = 31" | "code EPIPE = 32"
| "code EDOM = 33" | "code ERANGE = 34" | "code EDEADLK = 35" | "code ENAMETOOLONG = 36"
| "code ENOLCK = 37" | "code ENOSYS = 38" | "code ENOTEMPTY = 39" | "code ENOTCONN = 107"
| "code ECONNREFUSED = 111"

section \<open>Panics\<close>

text \<open>\<open>rassert\<close> is \<open>assert!\<close>/\<open>debug_assert!\<close>: it returns the unit value or panics.\<close>

definition rassert :: "bool \<Rightarrow> unit option" where
  "rassert b = (if b then Some () else None)"

text \<open>Debug-build arithmetic on unsigned machine integers: overflow is a panic.\<close>

definition uadd :: "'a::len word \<Rightarrow> 'a word \<Rightarrow> 'a word option" where
  "uadd a b = (if unat a + unat b < 2 ^ LENGTH('a) then Some (a + b) else None)"

definition usub :: "'a::len word \<Rightarrow> 'a word \<Rightarrow> 'a word option" where
  "usub a b = (if b \<le> a then Some (a - b) else None)"

definition umul :: "'a::len word \<Rightarrow> 'a word \<Rightarrow> 'a word option" where
  "umul a b = (if unat a * unat b < 2 ^ LENGTH('a) then Some (a * b) else None)"

text \<open>A loop over a list whose body may panic.\<close>

fun foldM :: "('a \<Rightarrow> 's \<Rightarrow> 's option) \<Rightarrow> 'a list \<Rightarrow> 's \<Rightarrow> 's option" where
  "foldM f [] s = Some s"
| "foldM f (x # xs) s = do { s \<leftarrow> f x s; foldM f xs s }"

text \<open>The operator \<open>?\<close>: operations that may panic (\<open>None\<close>), fail (\<open>Inl\<close>) and change a state, in sequence.\<close>

definition sys_bind ::
  "('a SysResult \<times> 's) option \<Rightarrow> ('a \<Rightarrow> 's \<Rightarrow> ('b SysResult \<times> 's) option) \<Rightarrow> ('b SysResult \<times> 's) option" where
  "sys_bind m f = do { (r, s) \<leftarrow> m; case r of Inl e \<Rightarrow> Some (Inl e, s) | Inr x \<Rightarrow> f x s }"

named_theorems run_simps \<open>unfolding of the panic monad on a successful run\<close>

lemma rassert_True [simp]: "rassert True = Some ()"
  by (simp add: rassert_def)

lemma rassert_False [simp]: "rassert False = None"
  by (simp add: rassert_def)

lemma rassert_eq_Some [simp]: "rassert b = Some u \<longleftrightarrow> b"
  by (simp add: rassert_def)

lemma rassert_eq_None [simp]: "rassert b = None \<longleftrightarrow> \<not> b"
  by (simp add: rassert_def)

lemma bind_rassert [simp]: "rassert b \<bind> f = (if b then f () else None)"
  by (simp add: rassert_def)

lemma sys_bind_simps [simp]:
  "sys_bind None f = None" "sys_bind (Some (Inl e, s)) f = Some (Inl e, s)" "sys_bind (Some (Inr x, s)) f = f x s"
  by (simp_all add: sys_bind_def)

lemma sys_bind_assoc: "sys_bind (sys_bind m f) g = sys_bind m (\<lambda>x s. sys_bind (f x s) g)"
proof (cases m)
  case (Some a)
  thus ?thesis by (cases a; cases "fst a") auto
qed simp

lemma sys_bind_eq_Some:
  "sys_bind m f = Some (r, s') \<longleftrightarrow>
    (\<exists>e. m = Some (Inl e, s') \<and> r = Inl e) \<or> (\<exists>x s. m = Some (Inr x, s) \<and> f x s = Some (r, s'))"
proof (cases m)
  case (Some a)
  thus ?thesis by (cases a; cases "fst a") auto
qed simp

lemma unat_uadd: "uadd a b = Some c \<Longrightarrow> unat c = unat a + unat b"
  by (auto simp: uadd_def unat_word_ariths split: if_splits)

lemma uadd_SomeI: "unat a + unat b < 2 ^ LENGTH('a) \<Longrightarrow> uadd a (b::'a::len word) = Some (a + b)"
  by (simp add: uadd_def)

lemma unat_usub: "usub a b = Some c \<Longrightarrow> unat c = unat a - unat b"
  by (auto simp: usub_def unat_sub split: if_splits)

lemma usub_SomeI: "b \<le> a \<Longrightarrow> usub a b = Some (a - b)"
  by (simp add: usub_def)

lemma unat_umul: "umul a b = Some c \<Longrightarrow> unat c = unat a * unat b"
  by (auto simp: umul_def unat_word_ariths split: if_splits)

lemmas [run_simps] = bind_eq_Some_conv uadd_def usub_def umul_def

lemma foldM_append: "foldM f (xs @ ys) s = do { s \<leftarrow> foldM f xs s; foldM f ys s }"
  by (induction f xs s rule: foldM.induct) (auto split: bind_split)

lemma unat_lt2p: "unat (x :: 'a::len word) < 2 ^ LENGTH('a)"
  by (rule unsigned_less)

lemma unat_word_of_nat: "n < 2 ^ LENGTH('a) \<Longrightarrow> unat (word_of_nat n :: 'a::len word) = n"
  by (simp add: unsigned_of_nat take_bit_nat_eq_self)

end
