(* ===== verification/BTree_Map.thy ===== *)
theory BTree_Map
  imports Prelude
begin

text \<open>
  \<open>alloc::collections::BTreeMap\<close>, as far as the kernel uses it: a map ordered by its
  keys, kept as the list of its entries in key order. The operations are the ones the
  sources call (\<open>get\<close>, \<open>insert\<close>, \<open>try_insert\<close>, \<open>remove\<close>, \<open>get_mut\<close>, \<open>range\<close>,
  \<open>last_key_value\<close>); the lemmas characterise them by membership in the set of entries,
  which is what the components reason with. The locale \<open>ordered_map\<close> states the contract
  and \<open>bt\<close> discharges it for the list model.
\<close>

section \<open>Operations\<close>

type_synonym ('k, 'v) btree = "('k \<times> 'v) list"

definition bt_wf :: "('k::linorder, 'v) btree \<Rightarrow> bool" where
  "bt_wf m \<longleftrightarrow> sorted_wrt (<) (map fst m)"

definition bt_get :: "'k \<Rightarrow> ('k, 'v) btree \<Rightarrow> 'v option" where
  "bt_get k m = map_of m k"

fun bt_insert :: "'k::linorder \<Rightarrow> 'v \<Rightarrow> ('k, 'v) btree \<Rightarrow> ('k, 'v) btree" where
  "bt_insert k v [] = [(k, v)]"
| "bt_insert k v ((k', v') # m) =
     (if k < k' then (k, v) # (k', v') # m
      else if k = k' then (k, v) # m
      else (k', v') # bt_insert k v m)"

definition bt_remove :: "'k \<Rightarrow> ('k, 'v) btree \<Rightarrow> ('k, 'v) btree" where
  "bt_remove k m = filter (\<lambda>e. fst e \<noteq> k) m"

text \<open>\<open>map.try_insert(k, v).ok().unwrap()\<close>: a present key is a panic.\<close>

definition bt_try_insert :: "'k::linorder \<Rightarrow> 'v \<Rightarrow> ('k, 'v) btree \<Rightarrow> ('k, 'v) btree option" where
  "bt_try_insert k v m = (if bt_get k m = None then Some (bt_insert k v m) else None)"

text \<open>Writing through the reference that \<open>get_mut(&k)\<close> returns.\<close>

definition bt_modify :: "'k \<Rightarrow> ('v \<Rightarrow> 'v) \<Rightarrow> ('k, 'v) btree \<Rightarrow> ('k, 'v) btree" where
  "bt_modify k f m = map (\<lambda>e. if fst e = k then (k, f (snd e)) else e) m"

text \<open>\<open>range(..k).next_back()\<close>, \<open>range(..=k).next_back()\<close> and \<open>range(a..b)\<close>, which
  panics when \<open>a > b\<close>.\<close>

definition last_of :: "'a list \<Rightarrow> 'a option" where
  "last_of xs = (if xs = [] then None else Some (last xs))"

definition bt_last_lt :: "'k::linorder \<Rightarrow> ('k, 'v) btree \<Rightarrow> ('k \<times> 'v) option" where
  "bt_last_lt k m = last_of (filter (\<lambda>e. fst e < k) m)"

definition bt_last_le :: "'k::linorder \<Rightarrow> ('k, 'v) btree \<Rightarrow> ('k \<times> 'v) option" where
  "bt_last_le k m = last_of (filter (\<lambda>e. fst e \<le> k) m)"

definition bt_between :: "'k::linorder \<Rightarrow> 'k \<Rightarrow> ('k, 'v) btree \<Rightarrow> ('k, 'v) btree" where
  "bt_between a b m = filter (\<lambda>e. a \<le> fst e \<and> fst e < b) m"

definition bt_range :: "'k::linorder \<Rightarrow> 'k \<Rightarrow> ('k, 'v) btree \<Rightarrow> ('k, 'v) btree option" where
  "bt_range a b m = (if a \<le> b then Some (bt_between a b m) else None)"

section \<open>Well-formedness is kept\<close>

lemma bt_wf_Nil [simp, intro]: "bt_wf []"
  by (simp add: bt_wf_def)

lemma bt_wf_Cons: "bt_wf (e # m) \<longleftrightarrow> (\<forall>e'\<in>set m. fst e < fst e') \<and> bt_wf m"
  by (simp add: bt_wf_def)

lemma bt_wf_distinct: "bt_wf m \<Longrightarrow> distinct (map fst m)"
  by (induction m) (auto simp: bt_wf_Cons)

lemma bt_wf_filter [simp, intro]: "bt_wf m \<Longrightarrow> bt_wf (filter P m)"
  by (induction m) (auto simp: bt_wf_Cons)

lemma bt_wf_remove [simp, intro]: "bt_wf m \<Longrightarrow> bt_wf (bt_remove k m)"
  by (simp add: bt_remove_def)

lemma bt_wf_between [simp, intro]: "bt_wf m \<Longrightarrow> bt_wf (bt_between a b m)"
  by (simp add: bt_between_def)

lemma map_fst_modify [simp]: "map fst (bt_modify k f m) = map fst m"
  by (induction m) (auto simp: bt_modify_def)

lemma bt_wf_modify [simp, intro]: "bt_wf m \<Longrightarrow> bt_wf (bt_modify k f m)"
  by (simp add: bt_wf_def)

lemma fst_set_insert: "fst ` set (bt_insert k v m) = insert k (fst ` set m)"
  by (induction k v m rule: bt_insert.induct) auto

lemma bt_wf_insert [simp, intro]: "bt_wf m \<Longrightarrow> bt_wf (bt_insert k v m)"
proof (induction k v m rule: bt_insert.induct)
  case (1 k v)
  show ?case by (simp add: bt_wf_def)
next
  case (2 k v k' v' m)
  have "\<forall>e\<in>set (bt_insert k v m). fst e \<in> insert k (fst ` set m)"
    using fst_set_insert[of k v m] by auto
  with 2 show ?case by (fastforce simp: bt_wf_Cons)
qed

section \<open>Entries\<close>

lemma bt_wf_inj: "bt_wf m \<Longrightarrow> (k, v) \<in> set m \<Longrightarrow> (k, v') \<in> set m \<Longrightarrow> v = v'"
  by (meson bt_wf_distinct eq_key_imp_eq_value)

lemma bt_get_eq_Some: "bt_wf m \<Longrightarrow> bt_get k m = Some v \<longleftrightarrow> (k, v) \<in> set m"
  by (simp add: bt_get_def bt_wf_distinct)

lemma bt_get_eq_None: "bt_get k m = None \<longleftrightarrow> k \<notin> fst ` set m"
  by (simp add: bt_get_def map_of_eq_None_iff)

lemma bt_get_Nil [simp]: "bt_get k [] = None"
  by (simp add: bt_get_def)

lemma bt_get_insert: "bt_get k' (bt_insert k v m) = (if k' = k then Some v else bt_get k' m)"
  by (induction k v m rule: bt_insert.induct) (auto simp: bt_get_def)

lemma bt_get_remove: "bt_get k' (bt_remove k m) = (if k' = k then None else bt_get k' m)"
  by (induction m) (auto simp: bt_get_def bt_remove_def)

lemma bt_get_modify: "bt_get k' (bt_modify k f m) = (if k' = k then map_option f (bt_get k m) else bt_get k' m)"
  by (induction m) (auto simp: bt_get_def bt_modify_def)

lemma set_bt_insert: "bt_wf m \<Longrightarrow> set (bt_insert k v m) = insert (k, v) {e \<in> set m. fst e \<noteq> k}"
proof (induction k v m rule: bt_insert.induct)
  case (1 k v)
  show ?case by simp
next
  case (2 k v k' v' m)
  then show ?case by (cases k k' rule: linorder_cases) (auto simp: bt_wf_Cons)
qed

lemma set_bt_remove: "set (bt_remove k m) = {e \<in> set m. fst e \<noteq> k}"
  by (simp add: bt_remove_def)

lemma set_bt_modify:
  "set (bt_modify k f m) = {e \<in> set m. fst e \<noteq> k} \<union> {(k, f v) | v. (k, v) \<in> set m}"
  by (force simp: bt_modify_def)

lemma set_bt_between: "set (bt_between a b m) = {e \<in> set m. a \<le> fst e \<and> fst e < b}"
  by (simp add: bt_between_def)

lemma bt_try_insert_eq_Some:
  "bt_try_insert k v m = Some m' \<longleftrightarrow> k \<notin> fst ` set m \<and> m' = bt_insert k v m"
  by (auto simp: bt_try_insert_def bt_get_eq_None)

lemma set_bt_try_insert:
  "bt_wf m \<Longrightarrow> bt_try_insert k v m = Some m' \<Longrightarrow> set m' = insert (k, v) (set m)"
  by (auto simp: bt_try_insert_eq_Some set_bt_insert)

lemma bt_wf_try_insert: "bt_wf m \<Longrightarrow> bt_try_insert k v m = Some m' \<Longrightarrow> bt_wf m'"
  by (auto simp: bt_try_insert_eq_Some)

lemma last_of_eq_None [simp]: "last_of xs = None \<longleftrightarrow> xs = []"
  by (simp add: last_of_def)

lemma last_filter_greatest:
  "bt_wf m \<Longrightarrow> filter P m \<noteq> [] \<Longrightarrow>
   last (filter P m) \<in> set m \<and> P (last (filter P m)) \<and>
   (\<forall>e\<in>set m. P e \<longrightarrow> fst e \<le> fst (last (filter P m)))"
proof (induction m)
  case Nil
  then show ?case by simp
next
  case (Cons a m)
  show ?case
  proof (cases "filter P m = []")
    case True
    with Cons.prems show ?thesis
      by (auto simp: filter_empty_conv split: if_splits)
  next
    case False
    with Cons.IH Cons.prems have
      "last (filter P m) \<in> set m \<and> P (last (filter P m)) \<and>
       (\<forall>e\<in>set m. P e \<longrightarrow> fst e \<le> fst (last (filter P m)))"
      by (simp add: bt_wf_Cons)
    with False Cons.prems(1) show ?thesis
      by (auto simp: bt_wf_Cons)
  qed
qed

lemma last_of_filter_eq_Some:
  assumes "bt_wf m"
  shows "last_of (filter P m) = Some e \<longleftrightarrow>
         e \<in> set m \<and> P e \<and> (\<forall>e'\<in>set m. P e' \<longrightarrow> fst e' \<le> fst e)"
proof
  assume l: "last_of (filter P m) = Some e"
  then have "filter P m \<noteq> []" "e = last (filter P m)"
    by (auto simp: last_of_def split: if_splits)
  with last_filter_greatest[OF assms, of P]
  show "e \<in> set m \<and> P e \<and> (\<forall>e'\<in>set m. P e' \<longrightarrow> fst e' \<le> fst e)" by simp
next
  assume r: "e \<in> set m \<and> P e \<and> (\<forall>e'\<in>set m. P e' \<longrightarrow> fst e' \<le> fst e)"
  then have ne: "filter P m \<noteq> []" by (auto simp: filter_empty_conv)
  note g = last_filter_greatest[OF assms ne]
  with r have "fst (last (filter P m)) = fst e" by (meson order_antisym)
  then have "last (filter P m) = e"
    by (metis assms bt_wf_inj g prod.collapse r)
  with ne show "last_of (filter P m) = Some e" by (simp add: last_of_def)
qed

lemma bt_last_lt_eq_Some:
  "bt_wf m \<Longrightarrow> bt_last_lt k m = Some (s, v) \<longleftrightarrow>
   (s, v) \<in> set m \<and> s < k \<and> (\<forall>e\<in>set m. fst e < k \<longrightarrow> fst e \<le> s)"
  by (simp add: bt_last_lt_def last_of_filter_eq_Some)

lemma bt_last_le_eq_Some:
  "bt_wf m \<Longrightarrow> bt_last_le k m = Some (s, v) \<longleftrightarrow>
   (s, v) \<in> set m \<and> s \<le> k \<and> (\<forall>e\<in>set m. fst e \<le> k \<longrightarrow> fst e \<le> s)"
  by (simp add: bt_last_le_def last_of_filter_eq_Some)

lemma bt_last_lt_eq_None: "bt_last_lt k m = None \<longleftrightarrow> (\<forall>e\<in>set m. \<not> fst e < k)"
  by (simp add: bt_last_lt_def filter_empty_conv)

lemma bt_last_le_eq_None: "bt_last_le k m = None \<longleftrightarrow> (\<forall>e\<in>set m. \<not> fst e \<le> k)"
  by (simp add: bt_last_le_def filter_empty_conv)

lemmas bt_sets = set_bt_insert set_bt_remove set_bt_modify set_bt_between
lemmas bt_lasts = bt_last_lt_eq_Some bt_last_le_eq_Some bt_last_lt_eq_None bt_last_le_eq_None
lemmas bt_gets = bt_get_insert bt_get_remove bt_get_modify

section \<open>The map contract\<close>

locale ordered_map =
  fixes lookup :: "'k \<Rightarrow> 'm \<Rightarrow> 'v option"
    and insert_at :: "'k \<Rightarrow> 'v \<Rightarrow> 'm \<Rightarrow> 'm"
    and delete_at :: "'k \<Rightarrow> 'm \<Rightarrow> 'm"
    and inv :: "'m \<Rightarrow> bool"
  assumes lookup_insert: "lookup k' (insert_at k v m) = (if k' = k then Some v else lookup k' m)"
    and lookup_delete: "lookup k' (delete_at k m) = (if k' = k then None else lookup k' m)"
    and inv_insert: "inv m \<Longrightarrow> inv (insert_at k v m)"
    and inv_delete: "inv m \<Longrightarrow> inv (delete_at k m)"
begin

lemma insert_delete_fresh: "lookup k m = None \<Longrightarrow> lookup x (delete_at k (insert_at k v m)) = lookup x m"
  by (simp add: lookup_insert lookup_delete)

lemma delete_insert: "lookup x (insert_at k v (delete_at k m)) = lookup x (insert_at k v m)"
  by (simp add: lookup_insert lookup_delete)

end

interpretation bt: ordered_map bt_get bt_insert bt_remove bt_wf
  by unfold_locales (auto simp: bt_gets)

end
