(* ===== verification/Bytes.thy ===== *)
theory Bytes
  imports Prelude
begin

text \<open>
  Machine integers as little-endian bytes, as a C structure in user memory or on a disk holds them, and the round trips
  between the two.
\<close>

fun from_le :: "u8 list \<Rightarrow> 'a::len word" where
  "from_le [] = 0"
| "from_le (b # bs) = ucast b OR push_bit 8 (from_le bs)"

definition to_le :: "nat \<Rightarrow> 'a::len word \<Rightarrow> u8 list" where
  "to_le n w = map (\<lambda>i. ucast (drop_bit (8 * i) w)) [0..<n]"

lemma to_le_Suc: "to_le (Suc n) w = ucast w # to_le n (drop_bit 8 w)"
proof -
  have "map (\<lambda>i. ucast (drop_bit (8 * i) w)) [0..<Suc n] = ucast w # map (\<lambda>i. ucast (drop_bit (8 * Suc i) w)) [0..<n]"
    by (subst upt_conv_Cons) (simp_all add: map_Suc_upt[symmetric] comp_def del: upt_Suc)
  thus ?thesis by (simp add: to_le_def add.commute del: upt_Suc)
qed

lemma length_to_le [simp]: "length (to_le n w) = n"
  by (simp add: to_le_def)

lemma from_to_le: "from_le (to_le n w) = (take_bit (8 * n) w :: 'a::len word)"
proof (induction n arbitrary: w)
  case (Suc n)
  have "(ucast (ucast w :: u8) OR push_bit 8 (take_bit (8 * n) (drop_bit 8 w)) :: 'a word) = take_bit (8 * Suc n) w"
    by (rule bit_word_eqI) (auto simp: bit_simps)
  thus ?case by (simp add: to_le_Suc Suc)
qed (simp add: to_le_def)

lemma from_to_le_full: "LENGTH('a) \<le> 8 * n \<Longrightarrow> from_le (to_le n w) = (w :: 'a::len word)"
  by (simp add: from_to_le take_bit_word_eq_self)

lemma to_from_le: "8 * length bs \<le> LENGTH('a) \<Longrightarrow> to_le (length bs) (from_le bs :: 'a::len word) = bs"
proof (induction bs)
  case (Cons b bs)
  let ?r = "from_le bs :: 'a word"
  have "ucast (ucast b OR push_bit 8 ?r) = b"
    using Cons.prems by (intro bit_word_eqI) (auto simp: bit_simps)
  moreover have "to_le (length bs) (drop_bit 8 (ucast b OR push_bit 8 ?r)) = to_le (length bs) ?r"
    unfolding to_le_def
  proof (rule map_cong[OF refl])
    fix i assume "i \<in> set [0..<length bs]"
    thus "(ucast (drop_bit (8 * i) (drop_bit 8 (ucast b OR push_bit 8 ?r))) :: u8) = ucast (drop_bit (8 * i) ?r)"
      using Cons.prems by (intro bit_word_eqI) (auto simp: bit_simps dest: bit_imp_le_length)
  qed
  ultimately show ?case using Cons by (simp add: to_le_Suc)
qed (simp add: to_le_def)

end
