(* ===== verification/Range_Map.thy ===== *)
theory Range_Map
  imports BTree_Map
begin

text \<open>
  \<^verbatim>\<open>process/user_space/range_map.rs\<close>: a map from disjoint half-open ranges to values, kept
  in a \<open>BTreeMap\<close> keyed by the start of each range. Every method of \<open>RangeMap\<close> is one
  definition, \<open>rm_<method>\<close>, over the same state. The closures a caller passes are
  arguments: \<open>split_l\<close>/\<open>split_r\<close> take the value by mutable reference, so they return the
  updated value together with the new one, and may panic; \<open>release\<close> captures the page
  table, so it threads a state. A \<open>&mut V\<close> result is a function of the caller's update.
\<close>

section \<open>State and operations\<close>

record ('u, 'v) Node =
  node_end :: 'u
  node_value :: 'v

type_synonym ('u, 'v) range_map = "('u, ('u, 'v) Node) btree"

definition rm_new :: "('u, 'v) range_map" where
  "rm_new = []"

definition rm_try_insert ::
  "('u::linorder, 'v) range_map \<Rightarrow> 'u \<times> 'u \<Rightarrow> 'v \<Rightarrow> ('v + ('u, 'v) range_map) option" where
  "rm_try_insert m r value = (case r of (start, end') \<Rightarrow> do {
     rassert (start < end');
     (case bt_last_lt end' m of
        Some (_, n) \<Rightarrow>
          if node_end n > start then Some (Inl value)
          else map_option Inr (bt_try_insert start \<lparr>node_end = end', node_value = value\<rparr> m)
      | None \<Rightarrow> map_option Inr (bt_try_insert start \<lparr>node_end = end', node_value = value\<rparr> m))
   })"

definition rm_get :: "('u::linorder, 'v) range_map \<Rightarrow> 'u \<Rightarrow> (('u \<times> 'u) \<times> 'v) option" where
  "rm_get m key = (case bt_last_le key m of
     None \<Rightarrow> None
   | Some (start, n) \<Rightarrow>
       if node_end n > key then Some ((start, node_end n), node_value n) else None)"

definition rm_get_mut ::
  "('u::linorder, 'v) range_map \<Rightarrow> 'u \<Rightarrow> ('v \<Rightarrow> 'v) \<Rightarrow> (('u \<times> 'u) \<times> ('u, 'v) range_map) option" where
  "rm_get_mut m key f = (case bt_last_le key m of
     None \<Rightarrow> None
   | Some (start, n) \<Rightarrow>
       if node_end n > key
       then Some ((start, node_end n), bt_modify start (node_value_update f) m) else None)"

text \<open>The \<open>for\<close> loop of \<open>find_free_range\<close>: \<open>Inl ()\<close> is the early \<open>return None\<close>.\<close>

fun rm_find_free_loop ::
  "('u::linorder \<Rightarrow> usize \<Rightarrow> 'u option) \<Rightarrow> usize \<Rightarrow> 'u \<Rightarrow> ('u, 'v) range_map \<Rightarrow> 'u \<Rightarrow> (unit + 'u) option" where
  "rm_find_free_loop offset sz end' [] start = Some (Inr start)"
| "rm_find_free_loop offset sz end' ((n_start, n) # rest) start = do {
     xend \<leftarrow> offset (node_end n) sz;
     if xend > end' then Some (Inl ())
     else if xend \<le> n_start then Some (Inr start)
     else rm_find_free_loop offset sz end' rest (node_end n)
   }"

definition rm_find_free_range ::
  "('u::linorder, 'v) range_map \<Rightarrow> 'u \<times> 'u \<Rightarrow> usize \<Rightarrow> ('u \<Rightarrow> usize \<Rightarrow> 'u option) \<Rightarrow> ('u \<times> 'u) option option" where
  "rm_find_free_range m r sz offset = (case r of (start, end') \<Rightarrow> do {
     first \<leftarrow> offset start sz;
     if first > end' then Some None
     else do {
       start \<leftarrow> (case bt_last_lt start m of
           Some (_, n) \<Rightarrow> do {
             x \<leftarrow> offset (node_end n) sz;
             rassert (x \<le> end');
             Some (max start (node_end n)) }
         | None \<Rightarrow> Some start);
       entries \<leftarrow> bt_range start end' m;
       found \<leftarrow> rm_find_free_loop offset sz end' entries start;
       (case found of
          Inl _ \<Rightarrow> Some None
        | Inr start \<Rightarrow> do {
            stop \<leftarrow> offset start sz;
            rassert (stop \<le> end');
            Some (Some (start, stop)) })
     }
   })"

definition rm_range_is_free :: "('u::linorder, 'v) range_map \<Rightarrow> 'u \<times> 'u \<Rightarrow> bool" where
  "rm_range_is_free m r = (case r of (start, end') \<Rightarrow>
     if start \<ge> end' then False
     else if (case bt_last_lt start m of Some (_, n) \<Rightarrow> node_end n > start | None \<Rightarrow> False) then False
     else bt_between start end' m = [])"

definition rm_range_contain :: "('u::linorder, 'v) range_map \<Rightarrow> 'u \<times> 'u \<Rightarrow> 'v option" where
  "rm_range_contain m r = (case bt_last_le (fst r) m of
     None \<Rightarrow> None
   | Some (_, n) \<Rightarrow> if node_end n \<ge> snd r then Some (node_value n) else None)"

definition rm_range_contain_mut ::
  "('u::linorder, 'v) range_map \<Rightarrow> 'u \<times> 'u \<Rightarrow> ('v \<Rightarrow> 'v) \<Rightarrow> ('u, 'v) range_map option" where
  "rm_range_contain_mut m r f = (case bt_last_le (fst r) m of
     None \<Rightarrow> None
   | Some (start, n) \<Rightarrow>
       if node_end n \<ge> snd r then Some (bt_modify start (node_value_update f) m) else None)"

definition rm_range_match :: "('u::linorder, 'v) range_map \<Rightarrow> 'u \<times> 'u \<Rightarrow> 'v option" where
  "rm_range_match m r = (case bt_last_le (fst r) m of
     None \<Rightarrow> None
   | Some (start, n) \<Rightarrow>
       if start = fst r \<and> node_end n = snd r then Some (node_value n) else None)"

definition rm_force_remove_one ::
  "('u::linorder, 'v) range_map \<Rightarrow> 'u \<times> 'u \<Rightarrow> ('v \<times> ('u, 'v) range_map) option" where
  "rm_force_remove_one m r = (case r of (start, end') \<Rightarrow> do {
     n \<leftarrow> bt_get start m;
     rassert (node_end n = end');
     Some (node_value n, bt_remove start m)
   })"

type_synonym ('u, 'v) splitter = "'v \<Rightarrow> 'u \<Rightarrow> 'u \<times> 'u \<Rightarrow> ('v \<times> 'v) option"
type_synonym ('u, 'v, 's) releaser = "'v \<Rightarrow> 'u \<times> 'u \<Rightarrow> 's \<Rightarrow> 's option"

text \<open>The three passes of \<open>remove\<close>: the range that starts left of the hole, the range that
  ends right of it, and the \<open>while let\<close> loop over the ranges inside.\<close>

definition rm_remove_left ::
  "('u::linorder, 'v) splitter \<Rightarrow> ('u, 'v, 's) releaser \<Rightarrow> 'u \<Rightarrow> 'u \<Rightarrow>
   ('u, 'v) range_map \<Rightarrow> 's \<Rightarrow> (('u, 'v) range_map \<times> 's) option" where
  "rm_remove_left split_r release start end' m s = (case bt_last_lt start m of
     None \<Rightarrow> Some (m, s)
   | Some (n_start, n) \<Rightarrow>
       let n_end = node_end n in
       if start < n_end then do {
         (v_l, v_m) \<leftarrow> split_r (node_value n) start (n_start, n_end);
         let m = bt_modify n_start (\<lambda>_. \<lparr>node_end = start, node_value = v_l\<rparr>) m;
         if end' < n_end then do {
           (v_m, v_r) \<leftarrow> split_r v_m end' (start, n_end);
           s \<leftarrow> release v_m (start, end') s;
           m \<leftarrow> bt_try_insert end' \<lparr>node_end = n_end, node_value = v_r\<rparr> m;
           Some (m, s)
         } else do {
           s \<leftarrow> release v_m (start, n_end) s;
           Some (m, s)
         }
       } else Some (m, s))"

definition rm_remove_right ::
  "('u::linorder, 'v) splitter \<Rightarrow> ('u, 'v, 's) releaser \<Rightarrow> 'u \<Rightarrow>
   ('u, 'v) range_map \<Rightarrow> 's \<Rightarrow> (('u, 'v) range_map \<times> 's) option" where
  "rm_remove_right split_l release end' m s = (case bt_last_lt end' m of
     None \<Rightarrow> Some (m, s)
   | Some (n_start, n) \<Rightarrow>
       if end' < node_end n then do {
         (v_r, cut) \<leftarrow> split_l (node_value n) end' (n_start, node_end n);
         s \<leftarrow> release cut (n_start, end') s;
         m \<leftarrow> bt_try_insert end' (n\<lparr>node_value := v_r\<rparr>) (bt_remove n_start m);
         Some (m, s)
       } else Some (m, s))"

function rm_remove_inside ::
  "('u::linorder, 'v, 's) releaser \<Rightarrow> 'u \<Rightarrow> 'u \<Rightarrow>
   ('u, 'v) range_map \<Rightarrow> 's \<Rightarrow> (('u, 'v) range_map \<times> 's) option" where
  "rm_remove_inside release start end' m s = (case bt_between start end' m of
     [] \<Rightarrow> Some (m, s)
   | (n_start, n) # _ \<Rightarrow> do {
       s \<leftarrow> release (node_value n) (n_start, node_end n) s;
       rm_remove_inside release start end' (bt_remove n_start m) s
     })"
  by pat_completeness auto
termination
proof (relation "measure (\<lambda>(release, start, end', m, s). length m)", simp)
  fix release :: "('u::linorder, 'v, 's) releaser" and start end' m s e es n_start n s'
  assume "bt_between start end' m = e # es" "(n_start, n) = e"
  then have "(n_start, n) \<in> set m" by (auto simp: bt_between_def filter_eq_Cons_iff)
  then have "length (filter (\<lambda>e. fst e \<noteq> n_start) m) < length m"
    by (intro length_filter_less[of "(n_start, n)"]) auto
  then show "((release, start, end', bt_remove n_start m, s'), release, start, end', m, s)
       \<in> measure (\<lambda>(release, start, end', m, s). length m)"
    by (simp add: bt_remove_def)
qed

declare rm_remove_inside.simps [simp del]

definition rm_remove ::
  "('u::linorder, 'v) range_map \<Rightarrow> 'u \<times> 'u \<Rightarrow> ('u, 'v) splitter \<Rightarrow> ('u, 'v) splitter \<Rightarrow>
   ('u, 'v, 's) releaser \<Rightarrow> 's \<Rightarrow> (('u, 'v) range_map \<times> 's) option" where
  "rm_remove m r split_l split_r release s = (case r of (start, end') \<Rightarrow>
     if start \<ge> end' then Some (m, s)
     else do {
       (m, s) \<leftarrow> rm_remove_left split_r release start end' m s;
       (m, s) \<leftarrow> rm_remove_right split_l release end' m s;
       rm_remove_inside release start end' m s
     })"

definition rm_replace ::
  "('u::linorder, 'v) range_map \<Rightarrow> 'u \<times> 'u \<Rightarrow> 'v \<Rightarrow> ('u, 'v) splitter \<Rightarrow> ('u, 'v) splitter \<Rightarrow>
   ('u, 'v, 's) releaser \<Rightarrow> 's \<Rightarrow> (('u, 'v) range_map \<times> 's) option" where
  "rm_replace m r value split_l split_r release s = do {
     (m, s) \<leftarrow> rm_remove m r split_l split_r release s;
     m \<leftarrow> bt_try_insert (fst r) \<lparr>node_end = snd r, node_value = value\<rparr> m;
     Some (m, s)
   }"

definition rm_split_at ::
  "('u::linorder, 'v) range_map \<Rightarrow> 'u \<Rightarrow> ('u, 'v) splitter \<Rightarrow> ('u, 'v) range_map option" where
  "rm_split_at m p split_r = do {
     (start, n) \<leftarrow> bt_last_lt p m;
     let xend = node_end n;
     rassert (p < xend);
     (v_l, v_r) \<leftarrow> split_r (node_value n) p (start, xend);
     bt_try_insert p \<lparr>node_end = xend, node_value = v_r\<rparr>
       (bt_modify start (\<lambda>_. \<lparr>node_end = p, node_value = v_l\<rparr>) m)
   }"

definition rm_split_at_maybe ::
  "('u::linorder, 'v) range_map \<Rightarrow> 'u \<Rightarrow> ('u, 'v) splitter \<Rightarrow> ('u, 'v) range_map option" where
  "rm_split_at_maybe m p split_r = (case bt_last_lt p m of
     None \<Rightarrow> Some m
   | Some (start, n) \<Rightarrow>
       let xend = node_end n in
       if xend \<le> p then Some m
       else do {
         (v_l, v_r) \<leftarrow> split_r (node_value n) p (start, xend);
         bt_try_insert p \<lparr>node_end = xend, node_value = v_r\<rparr>
           (bt_modify start (\<lambda>_. \<lparr>node_end = p, node_value = v_l\<rparr>) m)
       })"

definition rm_split_at_run ::
  "('u::linorder, 'v) range_map \<Rightarrow> 'u \<Rightarrow> ('u, 'v) splitter \<Rightarrow>
   ('v \<Rightarrow> 'u \<times> 'u \<Rightarrow> 'v) \<Rightarrow> ('v \<Rightarrow> 'u \<times> 'u \<Rightarrow> 'v) \<Rightarrow> ('u, 'v) range_map option" where
  "rm_split_at_run m p split_r l_run r_run = do {
     (start, n) \<leftarrow> bt_last_lt p m;
     let xend = node_end n;
     rassert (p < xend);
     (v_l, v_r) \<leftarrow> split_r (node_value n) p (start, xend);
     bt_try_insert p \<lparr>node_end = xend, node_value = r_run v_r (p, xend)\<rparr>
       (bt_modify start (\<lambda>_. \<lparr>node_end = p, node_value = l_run v_l (start, p)\<rparr>) m)
   }"

fun rm_clear_loop :: "('u, 'v, 's) releaser \<Rightarrow> ('u, 'v) range_map \<Rightarrow> 's \<Rightarrow> 's option" where
  "rm_clear_loop release [] s = Some s"
| "rm_clear_loop release ((n_start, n) # rest) s = do {
     s \<leftarrow> release (node_value n) (n_start, node_end n) s;
     rm_clear_loop release rest s
   }"

definition rm_clear ::
  "('u, 'v) range_map \<Rightarrow> ('u, 'v, 's) releaser \<Rightarrow> 's \<Rightarrow> (('u, 'v) range_map \<times> 's) option" where
  "rm_clear m release s = do { s \<leftarrow> rm_clear_loop release m s; Some (rm_new, s) }"

fun rm_fork_loop ::
  "('v \<Rightarrow> 'v) \<Rightarrow> ('u::linorder, 'v) range_map \<Rightarrow> ('u, 'v) range_map \<Rightarrow> ('u, 'v) range_map option" where
  "rm_fork_loop f [] acc = Some acc"
| "rm_fork_loop f ((a, n) # rest) acc = do {
     acc \<leftarrow> bt_try_insert a \<lparr>node_end = node_end n, node_value = f (node_value n)\<rparr> acc;
     rm_fork_loop f rest acc
   }"

definition rm_fork :: "('u::linorder, 'v) range_map \<Rightarrow> ('v \<Rightarrow> 'v) \<Rightarrow> ('u, 'v) range_map option" where
  "rm_fork m f = rm_fork_loop f m rm_new"

definition rm_merge ::
  "('u::linorder, 'v) range_map \<Rightarrow> 'u \<times> 'u \<Rightarrow> ('v \<Rightarrow> 'v \<Rightarrow> bool) \<Rightarrow> ('u, 'v) range_map option" where
  "rm_merge m r f = (case r of (start, end') \<Rightarrow> do {
     cur \<leftarrow> bt_get start m;
     rassert (node_end cur = end');
     (m, cur) \<leftarrow> (case bt_get end' m of
         Some nxt \<Rightarrow>
           if f (node_value cur) (node_value nxt)
           then Some (bt_modify start (node_end_update (\<lambda>_. node_end nxt)) (bt_remove end' m),
                      cur\<lparr>node_end := node_end nxt\<rparr>)
           else Some (m, cur)
       | None \<Rightarrow> Some (m, cur));
     (case bt_last_lt start m of
        Some (s, n) \<Rightarrow>
          if node_end n = start \<and> f (node_value n) (node_value cur)
          then Some (bt_remove start (bt_modify s (node_end_update (\<lambda>_. node_end cur)) m))
          else Some m
      | None \<Rightarrow> Some m)
   })"

definition rm_extend_back ::
  "('u::linorder, 'v) range_map \<Rightarrow> 'u \<Rightarrow> 'u \<Rightarrow> (unit + ('u, 'v) range_map) option" where
  "rm_extend_back m start new_end = do {
     n \<leftarrow> bt_get start m;
     if rm_range_is_free m (node_end n, new_end)
     then Some (Inr (bt_modify start (node_end_update (\<lambda>_. new_end)) m))
     else Some (Inl ())
   }"

definition rm_reduce_back ::
  "('u::linorder, 'v) range_map \<Rightarrow> 'u \<Rightarrow> 'u \<Rightarrow> (unit + (('u \<times> 'u) \<times> ('u, 'v) range_map)) option" where
  "rm_reduce_back m start new_end = do {
     n \<leftarrow> bt_get start m;
     if start \<le> new_end \<and> new_end < node_end n
     then Some (Inr ((new_end, node_end n),
            if start = new_end then bt_remove start m
            else bt_modify start (node_end_update (\<lambda>_. new_end)) m))
     else Some (Inl ())
   }"

definition rm_iter :: "('u, 'v) range_map \<Rightarrow> (('u \<times> 'u) \<times> 'v) list" where
  "rm_iter m = map (\<lambda>(s, n). ((s, node_end n), node_value n)) m"

definition rm_range :: "('u::linorder, 'v) range_map \<Rightarrow> 'u \<times> 'u \<Rightarrow> (('u \<times> 'u) \<times> 'v) list option" where
  "rm_range m r = map_option rm_iter (bt_range (fst r) (snd r) m)"

end
