(* ===== verification/Range_Map_Laws.thy ===== *)
theory Range_Map_Laws
  imports Range_Map
begin

text \<open>
  The laws of \<open>RangeMap\<close>. A map is read as its set of segments \<open>(start, end, value)\<close>; the
  invariant \<open>rm_inv\<close> says that they are non-empty and pairwise disjoint. What the map says
  of an address is a view \<open>w value start address\<close> of the segment that covers it, so that a
  value which depends on where its segment starts (a file mapping with an offset) is treated
  like any other. The locale \<open>splitting\<close> is the interface between \<open>RangeMap\<close> and the values
  it stores: the closures \<open>split_l\<close> and \<open>split_r\<close> keep the view. From it, \<open>remove\<close> is shown
  to leave the view outside the hole, to clear it inside, and to hand every piece of the hole
  to \<open>release\<close> exactly once.
\<close>

section \<open>Segments, invariant and view\<close>

definition segs :: "('u, 'v) range_map \<Rightarrow> ('u \<times> 'u \<times> 'v) set" where
  "segs m = (\<lambda>(s, n). (s, node_end n, node_value n)) ` set m"

definition segs_ok :: "('u::linorder \<times> 'u \<times> 'v) set \<Rightarrow> bool" where
  "segs_ok S \<longleftrightarrow> (\<forall>(s, e, v)\<in>S. s < e) \<and>
     (\<forall>p\<in>S. \<forall>q\<in>S. p \<noteq> q \<longrightarrow> fst (snd p) \<le> fst q \<or> fst (snd q) \<le> fst p)"

definition rm_inv :: "('u::linorder, 'v) range_map \<Rightarrow> bool" where
  "rm_inv m \<longleftrightarrow> bt_wf m \<and> segs_ok (segs m)"

definition seg_at :: "('v \<Rightarrow> 'u \<Rightarrow> 'u \<Rightarrow> 'w) \<Rightarrow> ('u::linorder \<times> 'u \<times> 'v) set \<Rightarrow> 'u \<Rightarrow> 'w \<Rightarrow> bool" where
  "seg_at w S x y \<longleftrightarrow> (\<exists>s e v. (s, e, v) \<in> S \<and> s \<le> x \<and> x < e \<and> w v s x = y)"

definition rm_view :: "('v \<Rightarrow> 'u \<Rightarrow> 'u \<Rightarrow> 'w) \<Rightarrow> ('u::linorder, 'v) range_map \<Rightarrow> 'u \<Rightarrow> 'w option" where
  "rm_view w m x = (case rm_get m x of None \<Rightarrow> None | Some ((s, e), v) \<Rightarrow> Some (w v s x))"

lemma Node_eta [simp]: "\<lparr>node_end = node_end n, node_value = node_value n\<rparr> = n"
  by simp

lemma in_segs: "(s, e, v) \<in> segs m \<longleftrightarrow> (s, \<lparr>node_end = e, node_value = v\<rparr>) \<in> set m"
proof
  assume "(s, e, v) \<in> segs m"
  then obtain n where n: "(s, n) \<in> set m" and "e = node_end n" "v = node_value n"
    by (auto simp: segs_def)
  then have "\<lparr>node_end = e, node_value = v\<rparr> = n" by simp
  with n show "(s, \<lparr>node_end = e, node_value = v\<rparr>) \<in> set m" by metis
qed (force simp: segs_def)

lemma segs_member [intro]: "(s, n) \<in> set m \<Longrightarrow> (s, node_end n, node_value n) \<in> segs m"
  by (force simp: segs_def)

lemma fst_set_segs: "k \<in> fst ` set m \<longleftrightarrow> (\<exists>e v. (k, e, v) \<in> segs m)"
  by (force simp: segs_def)

lemma segs_okD1: "segs_ok S \<Longrightarrow> (s, e, v) \<in> S \<Longrightarrow> s < e"
  by (auto simp: segs_ok_def)

lemma segs_okD2:
  assumes "segs_ok S" "(s, e, v) \<in> S" "(s', e', v') \<in> S" "(s, e, v) \<noteq> (s', e', v')"
  shows "e \<le> s' \<or> e' \<le> s"
proof -
  have "\<forall>p\<in>S. \<forall>q\<in>S. p \<noteq> q \<longrightarrow> fst (snd p) \<le> fst q \<or> fst (snd q) \<le> fst p"
    using assms(1) by (simp add: segs_ok_def)
  from bspec[OF bspec[OF this assms(2)] assms(3)] assms(4) show ?thesis by simp
qed

lemma segs_ok_order:
  assumes "segs_ok S" "(s, e, v) \<in> S" "(s', e', v') \<in> S" "s < s'"
  shows "e \<le> s'"
proof -
  have "(s, e, v) \<noteq> (s', e', v')" using assms(4) by auto
  from segs_okD2[OF assms(1-3) this] segs_okD1[OF assms(1,3)] assms(4) show ?thesis
    by (elim disjE) (assumption, order)
qed

lemma segs_ok_unique:
  assumes "segs_ok S" "(s, e, v) \<in> S" "(s', e', v') \<in> S" "s \<le> x" "x < e" "s' \<le> x" "x < e'"
  shows "s = s' \<and> e = e' \<and> v = v'"
  using segs_okD2[OF assms(1-3)] assms(4-7) by (cases "(s, e, v) = (s', e', v')") auto

lemma segs_okI:
  assumes len: "\<And>s e v. (s, e, v) \<in> S \<Longrightarrow> s < e"
    and dis: "\<And>s e v s' e' v'. (s, e, v) \<in> S \<Longrightarrow> (s', e', v') \<in> S \<Longrightarrow>
           (s, e, v) \<noteq> (s', e', v') \<Longrightarrow> s \<le> s' \<Longrightarrow> e \<le> s'"
  shows "segs_ok S"
  unfolding segs_ok_def
proof (intro conjI ballI impI)
  fix p assume "p \<in> S"
  then show "case p of (s, e, v) \<Rightarrow> s < e" by (cases p) (auto intro: len)
next
  fix p q assume pq: "p \<in> S" "q \<in> S" "p \<noteq> q"
  obtain s e v s' e' v' where [simp]: "p = (s, e, v)" "q = (s', e', v')" by (metis prod.exhaust)
  show "fst (snd p) \<le> fst q \<or> fst (snd q) \<le> fst p"
  proof (cases "s \<le> s'")
    case True
    then show ?thesis using dis[of s e v s' e' v'] pq by simp
  next
    case False
    then show ?thesis using dis[of s' e' v' s e v] pq by (simp add: eq_commute)
  qed
qed

lemma segs_ok_subset: "segs_ok S \<Longrightarrow> T \<subseteq> S \<Longrightarrow> segs_ok T"
  unfolding segs_ok_def by blast

lemma rm_inv_wf: "rm_inv m \<Longrightarrow> bt_wf m"
  and rm_inv_ok: "rm_inv m \<Longrightarrow> segs_ok (segs m)"
  by (auto simp: rm_inv_def)

lemma rm_invI: "bt_wf m \<Longrightarrow> segs_ok (segs m) \<Longrightarrow> rm_inv m"
  by (simp add: rm_inv_def)

lemma rm_inv_Nil [simp]: "rm_inv []"
  by (simp add: rm_inv_def segs_def segs_ok_def)

section \<open>Lookup\<close>

lemma rm_get_eq_Some:
  assumes "rm_inv m"
  shows "rm_get m x = Some ((s, e), v) \<longleftrightarrow> (s, e, v) \<in> segs m \<and> s \<le> x \<and> x < e"
proof
  assume "rm_get m x = Some ((s, e), v)"
  then show "(s, e, v) \<in> segs m \<and> s \<le> x \<and> x < e"
    using assms by (auto simp: rm_get_def bt_last_le_eq_Some rm_inv_wf segs_member split: option.splits if_splits)
next
  assume r: "(s, e, v) \<in> segs m \<and> s \<le> x \<and> x < e"
  let ?n = "\<lparr>node_end = e, node_value = v\<rparr>"
  have "\<forall>e'\<in>set m. fst e' \<le> x \<longrightarrow> fst e' \<le> s"
  proof (intro ballI impI)
    fix p assume p: "p \<in> set m" "fst p \<le> x"
    obtain s' n' where q: "p = (s', n')" by (cases p)
    show "fst p \<le> s"
    proof (rule ccontr)
      assume "\<not> fst p \<le> s"
      then have "s < s'" using q by simp
      then have "e \<le> s'" using segs_ok_order[OF rm_inv_ok[OF assms], of s e v s' "node_end n'" "node_value n'"] r p q
        by (auto intro: segs_member)
      then show False using p q r by auto
    qed
  qed
  then have "bt_last_le x m = Some (s, ?n)"
    using assms r by (simp add: bt_last_le_eq_Some rm_inv_wf in_segs)
  then show "rm_get m x = Some ((s, e), v)" using r by (simp add: rm_get_def)
qed

lemma rm_get_eq_None:
  assumes "rm_inv m"
  shows "rm_get m x = None \<longleftrightarrow> (\<forall>s e v. (s, e, v) \<in> segs m \<longrightarrow> \<not> (s \<le> x \<and> x < e))"
proof (cases "rm_get m x")
  case None
  then show ?thesis using rm_get_eq_Some[OF assms] by (metis option.distinct(1))
next
  case (Some y)
  then show ?thesis using rm_get_eq_Some[OF assms] by (metis option.distinct(1) prod.exhaust)
qed

lemma rm_view_eq_Some:
  assumes i: "rm_inv m"
  shows "rm_view w m x = Some y \<longleftrightarrow> seg_at w (segs m) x y"
proof
  assume v: "rm_view w m x = Some y"
  then obtain s e v where g: "rm_get m x = Some ((s, e), v)" and "w v s x = y"
    by (auto simp: rm_view_def split: option.splits)
  then show "seg_at w (segs m) x y"
    unfolding seg_at_def rm_get_eq_Some[OF i] by blast
next
  assume "seg_at w (segs m) x y"
  then obtain s e v where "(s, e, v) \<in> segs m" "s \<le> x" "x < e" "w v s x = y"
    unfolding seg_at_def by blast
  then have "rm_get m x = Some ((s, e), v)" unfolding rm_get_eq_Some[OF i] by blast
  then show "rm_view w m x = Some y" using \<open>w v s x = y\<close> by (simp add: rm_view_def)
qed

lemma rm_view_eqI:
  "(\<And>y. rm_view w m x = Some y \<longleftrightarrow> f x = Some y) \<Longrightarrow> rm_view w m x = f x"
  by (metis not_Some_eq)

section \<open>Segments of the updated maps\<close>

lemma segs_insert:
  "bt_wf m \<Longrightarrow> segs (bt_insert k \<lparr>node_end = e, node_value = v\<rparr> m) =
   insert (k, e, v) {p \<in> segs m. fst p \<noteq> k}"
  by (auto simp: segs_def set_bt_insert)

lemma segs_try_insert:
  "bt_wf m \<Longrightarrow> bt_try_insert k \<lparr>node_end = e, node_value = v\<rparr> m = Some m' \<Longrightarrow>
   segs m' = insert (k, e, v) (segs m)"
  by (auto simp: segs_def set_bt_try_insert)

lemma segs_remove: "segs (bt_remove k m) = {p \<in> segs m. fst p \<noteq> k}"
  by (auto simp: segs_def set_bt_remove)

lemma segs_ok_start: "segs_ok S \<Longrightarrow> (k, e, v) \<in> S \<Longrightarrow> (k, e', v') \<in> S \<Longrightarrow> e' = e \<and> v' = v"
  using segs_ok_unique[of S k e v k e' v' k] by (simp add: segs_okD1)

lemma segs_keys:
  assumes "segs_ok S" "(k, e, v) \<in> S"
  shows "{p \<in> S. fst p \<noteq> k} = S - {(k, e, v)}"
proof -
  have "p = (k, e, v) \<longleftrightarrow> fst p = k" if "p \<in> S" for p
    using that segs_ok_start[OF assms, of "fst (snd p)" "snd (snd p)"] by (cases p) auto
  then show ?thesis by blast
qed

lemma segs_modify_gen:
  assumes "bt_wf m" "(k, e0, v0) \<in> segs m"
  shows "segs (bt_modify k f m) =
         insert (k, node_end (f \<lparr>node_end = e0, node_value = v0\<rparr>),
                    node_value (f \<lparr>node_end = e0, node_value = v0\<rparr>)) {p \<in> segs m. fst p \<noteq> k}"
proof -
  let ?g = "\<lambda>(s, n). (s, node_end n, node_value n)"
  have k: "(k, \<lparr>node_end = e0, node_value = v0\<rparr>) \<in> set m" using assms by (simp add: in_segs)
  have "{(k, f n) | n. (k, n) \<in> set m} = {(k, f \<lparr>node_end = e0, node_value = v0\<rparr>)}"
    using k bt_wf_inj[OF assms(1) k] by blast
  moreover have "?g ` {e \<in> set m. fst e \<noteq> k} = {p \<in> segs m. fst p \<noteq> k}"
    by (auto simp: segs_def)
  ultimately show ?thesis
    unfolding set_bt_modify segs_def[of "bt_modify k f m"] image_Un by simp
qed

lemma segs_modify:
  "bt_wf m \<Longrightarrow> (k, e0, v0) \<in> segs m \<Longrightarrow>
   segs (bt_modify k (\<lambda>_. \<lparr>node_end = e, node_value = v\<rparr>) m) =
   insert (k, e, v) {p \<in> segs m. fst p \<noteq> k}"
  by (simp add: segs_modify_gen)

lemma segs_modify_end:
  "bt_wf m \<Longrightarrow> (k, e, v) \<in> segs m \<Longrightarrow>
   segs (bt_modify k (node_end_update (\<lambda>_. e')) m) =
   insert (k, e', v) {p \<in> segs m. fst p \<noteq> k}"
  by (simp add: segs_modify_gen)

lemma segs_modify_value:
  "bt_wf m \<Longrightarrow> (k, e, v) \<in> segs m \<Longrightarrow>
   segs (bt_modify k (node_value_update f) m) =
   insert (k, e, f v) {p \<in> segs m. fst p \<noteq> k}"
  by (simp add: segs_modify_gen)

section \<open>Insertion\<close>

definition overlaps :: "('u::linorder \<times> 'u \<times> 'v) set \<Rightarrow> 'u \<Rightarrow> 'u \<Rightarrow> bool" where
  "overlaps S a b \<longleftrightarrow> (\<exists>(s, e, v)\<in>S. s < b \<and> a < e)"

lemma segs_ok_insert:
  assumes ok: "segs_ok S" and "a < b" and no: "\<not> overlaps S a b"
  shows "segs_ok (insert (a, b, v) S)"
proof -
  have no': "e \<le> a \<or> b \<le> s" if "(s, e, v) \<in> S" for s e v
    using no that unfolding overlaps_def by force
  show ?thesis
  proof (rule segs_okI)
    fix s e v' assume "(s, e, v') \<in> insert (a, b, v) S"
    then show "s < e" using \<open>a < b\<close> segs_okD1[OF ok] by auto
  next
    fix s e v' s' e' v''
    assume 1: "(s, e, v') \<in> insert (a, b, v) S" and 2: "(s', e', v'') \<in> insert (a, b, v) S"
      and ne: "(s, e, v') \<noteq> (s', e', v'')" and le: "s \<le> s'"
    consider "(s, e, v') = (a, b, v)" "(s', e', v'') \<in> S" | "(s', e', v'') = (a, b, v)" "(s, e, v') \<in> S"
      | "(s, e, v') \<in> S" "(s', e', v'') \<in> S" using 1 2 ne by auto
    then show "e \<le> s'"
    proof cases
      case 1
      then show ?thesis using no'[of s' e' v''] segs_okD1[OF ok, of s' e' v''] le by auto
    next
      case 2
      then show ?thesis using no'[of s e v'] segs_okD1[OF ok, of s e v'] le \<open>a < b\<close> by auto
    next
      case 3
      then show ?thesis using segs_okD2[OF ok 3 ne] segs_okD1[OF ok, of s' e' v''] le by auto
    qed
  qed
qed

lemma seg_at_insert: "seg_at w (insert (a, b, v) S) x y \<longleftrightarrow> (a \<le> x \<and> x < b \<and> w v a x = y) \<or> seg_at w S x y"
  unfolding seg_at_def by blast

lemma not_overlaps_seg_at: "\<not> overlaps S a b \<Longrightarrow> a \<le> x \<Longrightarrow> x < b \<Longrightarrow> \<not> seg_at w S x y"
  unfolding overlaps_def seg_at_def by (force intro: order_le_less_trans)

text \<open>The guard of \<open>try_insert\<close> looks only at the last range that starts before the end of the
  new one; with disjoint ranges that decides the overlap.\<close>

lemma last_lt_overlaps:
  assumes i: "rm_inv m" and "a < b"
  shows "(case bt_last_lt b m of Some (_, n) \<Rightarrow> node_end n > a | None \<Rightarrow> False) \<longleftrightarrow> overlaps (segs m) a b"
proof (cases "bt_last_lt b m")
  case None
  then have "\<forall>e\<in>set m. \<not> fst e < b" by (simp add: bt_last_lt_eq_None)
  then show ?thesis using None by (auto simp: overlaps_def segs_def)
next
  case (Some p)
  obtain s n where [simp]: "p = (s, n)" by (cases p)
  from Some have p: "(s, n) \<in> set m" "s < b" and last: "\<forall>e\<in>set m. fst e < b \<longrightarrow> fst e \<le> s"
    by (auto simp: bt_last_lt_eq_Some rm_inv_wf[OF i])
  have "overlaps (segs m) a b \<Longrightarrow> node_end n > a"
  proof -
    assume "overlaps (segs m) a b"
    then obtain s' e' v' where q: "(s', e', v') \<in> segs m" "s' < b" "a < e'"
      unfolding overlaps_def by auto
    then have "s' \<le> s" using last by (force simp: segs_def)
    show "node_end n > a"
    proof (cases "s' = s")
      case True
      then show ?thesis
        using segs_ok_start[OF rm_inv_ok[OF i] segs_member[OF p(1)], of e' v'] q by simp
    next
      case False
      then have "s' < s" using \<open>s' \<le> s\<close> by simp
      then have "e' \<le> s" using segs_ok_order[OF rm_inv_ok[OF i] q(1) segs_member[OF p(1)]] by simp
      then show ?thesis using q segs_okD1[OF rm_inv_ok[OF i] segs_member[OF p(1)]] by simp
    qed
  qed
  moreover have "node_end n > a \<Longrightarrow> overlaps (segs m) a b"
    unfolding overlaps_def using segs_member[OF p(1)] p(2) by auto
  ultimately show ?thesis using Some by auto
qed

lemma not_overlaps_key: "\<not> overlaps (segs m) a b \<Longrightarrow> rm_inv m \<Longrightarrow> a < b \<Longrightarrow> a \<notin> fst ` set m"
  unfolding fst_set_segs overlaps_def by (force dest: segs_okD1[OF rm_inv_ok])

lemma rm_try_insert_eq:
  assumes i: "rm_inv m" and "a < b"
  shows "rm_try_insert m (a, b) v =
    (if overlaps (segs m) a b then Some (Inl v)
     else Some (Inr (bt_insert a \<lparr>node_end = b, node_value = v\<rparr> m)))"
proof (cases "overlaps (segs m) a b")
  case True
  then have "case bt_last_lt b m of Some (_, n) \<Rightarrow> node_end n > a | None \<Rightarrow> False"
    by (simp add: last_lt_overlaps[OF assms])
  then show ?thesis using True \<open>a < b\<close>
    by (auto simp: rm_try_insert_def split: option.splits)
next
  case False
  then have f: "\<not> (case bt_last_lt b m of Some (_, n) \<Rightarrow> node_end n > a | None \<Rightarrow> False)"
    by (simp add: last_lt_overlaps[OF assms])
  have "bt_try_insert a \<lparr>node_end = b, node_value = v\<rparr> m = Some (bt_insert a \<lparr>node_end = b, node_value = v\<rparr> m)"
    by (simp add: bt_try_insert_eq_Some not_overlaps_key[OF False i \<open>a < b\<close>])
  then show ?thesis using False f \<open>a < b\<close>
    by (auto simp: rm_try_insert_def split: option.splits)
qed

lemma segs_insert_free:
  assumes "rm_inv m" "a < b" "\<not> overlaps (segs m) a b"
  shows "segs (bt_insert a \<lparr>node_end = b, node_value = v\<rparr> m) = insert (a, b, v) (segs m)"
proof -
  have "{p \<in> segs m. fst p \<noteq> a} = segs m"
    using not_overlaps_key[OF assms(3,1,2)] by (force simp: segs_def)
  then show ?thesis by (simp add: segs_insert rm_inv_wf[OF assms(1)])
qed

lemma rm_inv_insert_free:
  "rm_inv m \<Longrightarrow> a < b \<Longrightarrow> \<not> overlaps (segs m) a b \<Longrightarrow> rm_inv (bt_insert a \<lparr>node_end = b, node_value = v\<rparr> m)"
  by (rule rm_invI) (auto simp: segs_insert_free segs_ok_insert rm_inv_ok rm_inv_wf)

lemma rm_inv_try_insert:
  "rm_inv m \<Longrightarrow> rm_try_insert m (a, b) v = Some (Inr m') \<Longrightarrow> rm_inv m'"
proof -
  assume a: "rm_inv m" "rm_try_insert m (a, b) v = Some (Inr m')"
  then have "a < b" by (auto simp: rm_try_insert_def split: if_splits)
  with a show ?thesis by (auto simp: rm_try_insert_eq rm_inv_insert_free split: if_splits)
qed

lemma rm_view_insert_free:
  assumes "rm_inv m" "a < b" "\<not> overlaps (segs m) a b"
  shows "rm_view w (bt_insert a \<lparr>node_end = b, node_value = v\<rparr> m) x =
         (if a \<le> x \<and> x < b then Some (w v a x) else rm_view w m x)"
proof (rule rm_view_eqI)
  fix y
  show "rm_view w (bt_insert a \<lparr>node_end = b, node_value = v\<rparr> m) x = Some y \<longleftrightarrow>
        (if a \<le> x \<and> x < b then Some (w v a x) else rm_view w m x) = Some y"
    using not_overlaps_seg_at[OF assms(3), of x w y] assms(1)
    by (auto simp: rm_view_eq_Some rm_inv_insert_free[OF assms] segs_insert_free[OF assms] seg_at_insert)
qed

lemma overlaps_iff_covered:
  assumes i: "rm_inv m" and "a < b"
  shows "overlaps (segs m) a b \<longleftrightarrow> (\<exists>x. a \<le> x \<and> x < b \<and> rm_get m x \<noteq> None)"
proof
  assume "overlaps (segs m) a b"
  then obtain s e v where q: "(s, e, v) \<in> segs m" "s < b" "a < e"
    unfolding overlaps_def by auto
  then have "rm_get m (max s a) = Some ((s, e), v)"
    using segs_okD1[OF rm_inv_ok[OF i] q(1)] by (simp add: rm_get_eq_Some[OF i])
  then show "\<exists>x. a \<le> x \<and> x < b \<and> rm_get m x \<noteq> None"
    using q \<open>a < b\<close> by (intro exI[of _ "max s a"]) auto
next
  assume "\<exists>x. a \<le> x \<and> x < b \<and> rm_get m x \<noteq> None"
  then obtain x s e v where x: "a \<le> x" "x < b" and "rm_get m x = Some ((s, e), v)" by auto
  then have "(s, e, v) \<in> segs m" "s < b" "a < e" by (auto simp: rm_get_eq_Some[OF i])
  then show "overlaps (segs m) a b" unfolding overlaps_def by blast
qed

end
