(* ===== verification/Range_Map_Remove.thy ===== *)
theory Range_Map_Remove
  imports Range_Map_Laws
begin

text \<open>
  \<open>RangeMap::remove\<close>, the operation behind \<open>munmap\<close> and \<open>mprotect\<close>. The calls to \<open>release\<close>
  are first separated from the map update: \<open>remove\<close> equals its run with a logging \<open>release\<close>
  followed by a replay of the log. The log and the map that is left then partition the
  original segments, cut at the two ends of the hole.
\<close>

section \<open>Logging and replaying releases\<close>

definition log_release :: "('u, 'v, ('u \<times> 'u \<times> 'v) list) releaser" where
  "log_release v r L = Some (L @ [(fst r, snd r, v)])"

fun replay :: "('u, 'v, 's) releaser \<Rightarrow> ('u \<times> 'u \<times> 'v) list \<Rightarrow> 's \<Rightarrow> 's option" where
  "replay release [] s = Some s"
| "replay release ((a, b, v) # L) s = do { s \<leftarrow> release v (a, b) s; replay release L s }"

lemma replay_append:
  "replay release (L @ L') s = do { s \<leftarrow> replay release L s; replay release L' s }"
  by (induction release L s rule: replay.induct) (auto split: bind_split)

lemma replay_log [simp]: "replay log_release L L0 = Some (L0 @ L)"
  by (induction L arbitrary: L0) (auto simp: log_release_def)

lemma rm_remove_left_replay:
  "rm_remove_left split_r release a b m s =
   do { (m', L) \<leftarrow> rm_remove_left split_r log_release a b m [];
        s' \<leftarrow> replay release L s; Some (m', s') }"
  by (auto simp: rm_remove_left_def log_release_def Let_def split: option.splits prod.splits bind_split)

lemma rm_remove_right_replay:
  "rm_remove_right split_l release b m s =
   do { (m', L) \<leftarrow> rm_remove_right split_l log_release b m [];
        s' \<leftarrow> replay release L s; Some (m', s') }"
  by (auto simp: rm_remove_right_def log_release_def split: option.splits prod.splits bind_split)

lemma rm_remove_inside_Nil:
  "bt_between a b m = [] \<Longrightarrow> rm_remove_inside release a b m s = Some (m, s)"
  by (subst rm_remove_inside.simps) simp

lemma rm_remove_inside_Cons:
  "bt_between a b m = (k, n) # rest \<Longrightarrow> rm_remove_inside release a b m s =
   do { s \<leftarrow> release (node_value n) (k, node_end n) s; rm_remove_inside release a b (bt_remove k m) s }"
  by (subst rm_remove_inside.simps) simp

lemma length_remove_between:
  "bt_between a b m = (k, n) # rest \<Longrightarrow> length (bt_remove k m) < length m"
  unfolding bt_remove_def bt_between_def
  by (intro length_filter_less[of "(k, n)"]) (auto simp: filter_eq_Cons_iff)

lemma rm_remove_inside_log:
  "rm_remove_inside log_release a b m L0 =
   do { (m', L) \<leftarrow> rm_remove_inside log_release a b m []; Some (m', L0 @ L) }"
proof (induction "length m" arbitrary: m L0 rule: less_induct)
  case less
  show ?case
  proof (cases "bt_between a b m")
    case Nil
    then show ?thesis by (simp add: rm_remove_inside_Nil)
  next
    case (Cons p rest)
    obtain k n where p: "p = (k, n)" by (cases p)
    note IH = less[OF length_remove_between[OF Cons[unfolded p]]]
    show ?thesis
      using IH[of "L0 @ [(k, node_end n, node_value n)]"] IH[of "[(k, node_end n, node_value n)]"]
      by (auto simp: rm_remove_inside_Cons[OF Cons[unfolded p]] log_release_def split: bind_split)
  qed
qed

lemma rm_remove_inside_replay:
  "rm_remove_inside release a b m s =
   do { (m', L) \<leftarrow> rm_remove_inside log_release a b m [];
        s' \<leftarrow> replay release L s; Some (m', s') }"
proof (induction "length m" arbitrary: m s rule: less_induct)
  case less
  show ?case
  proof (cases "bt_between a b m")
    case Nil
    then show ?thesis by (simp add: rm_remove_inside_Nil)
  next
    case (Cons p rest)
    obtain k n where p: "p = (k, n)" by (cases p)
    note IH = less[OF length_remove_between[OF Cons[unfolded p]]]
    have V: "rm_remove_inside log_release a b m [] =
        do { (m', L) \<leftarrow> rm_remove_inside log_release a b (bt_remove k m) [];
             Some (m', (k, node_end n, node_value n) # L) }"
      using rm_remove_inside_log[of a b "bt_remove k m" "[(k, node_end n, node_value n)]"]
      by (simp add: rm_remove_inside_Cons[OF Cons[unfolded p]] log_release_def)
    show ?thesis
      unfolding rm_remove_inside_Cons[OF Cons[unfolded p], of release] IH V
      by (auto split: bind_split)
  qed
qed

lemma rm_remove_passes:
  assumes "a < b"
  shows "rm_remove m (a, b) split_l split_r release s =
    do { (m1, L1) \<leftarrow> rm_remove_left split_r log_release a b m [];
         (m2, L2) \<leftarrow> rm_remove_right split_l log_release b m1 [];
         (m3, L3) \<leftarrow> rm_remove_inside log_release a b m2 [];
         s \<leftarrow> replay release (L1 @ L2 @ L3) s; Some (m3, s) }"
proof -
  have "rm_remove m (a, b) split_l split_r release s =
    do { (m, s) \<leftarrow> rm_remove_left split_r release a b m s;
         (m, s) \<leftarrow> rm_remove_right split_l release b m s;
         rm_remove_inside release a b m s }"
    using assms leD[of b a] by (auto simp: rm_remove_def)
  also have "\<dots> = do { (m1, L1) \<leftarrow> rm_remove_left split_r log_release a b m [];
         s \<leftarrow> replay release L1 s;
         (m2, L2) \<leftarrow> rm_remove_right split_l log_release b m1 [];
         s \<leftarrow> replay release L2 s;
         (m3, L3) \<leftarrow> rm_remove_inside log_release a b m2 [];
         s \<leftarrow> replay release L3 s; Some (m3, s) }"
    unfolding rm_remove_left_replay[of split_r release] rm_remove_right_replay[of split_l release]
      rm_remove_inside_replay[of release]
    by (auto split: bind_split)
  also have "\<dots> = do { (m1, L1) \<leftarrow> rm_remove_left split_r log_release a b m [];
         (m2, L2) \<leftarrow> rm_remove_right split_l log_release b m1 [];
         (m3, L3) \<leftarrow> rm_remove_inside log_release a b m2 [];
         s \<leftarrow> replay release (L1 @ L2 @ L3) s; Some (m3, s) }"
    by (auto simp: replay_append split: bind_split)
  finally show ?thesis .
qed

lemma rm_remove_replay:
  "rm_remove m r split_l split_r release s =
   do { (m', L) \<leftarrow> rm_remove m r split_l split_r log_release [];
        s' \<leftarrow> replay release L s; Some (m', s') }"
proof (cases "fst r < snd r")
  case False
  then show ?thesis by (auto simp: rm_remove_def split: prod.splits)
next
  case True
  obtain a b where r: "r = (a, b)" by (cases r)
  then have "a < b" using True by simp
  show ?thesis unfolding r rm_remove_passes[OF \<open>a < b\<close>]
    by (auto split: bind_split)
qed

section \<open>Segments, cut and moved to the log\<close>

text \<open>
  \<open>part w S0 a b S L\<close>: the segments \<open>S\<close> still in the map and the released segments \<open>L\<close>
  together cover exactly what \<open>S0\<close> covered, with the same view at every address, no segment is
  in both, and what was released lies in the hole \<open>[a, b)\<close>.
\<close>

definition part ::
  "('v \<Rightarrow> 'u \<Rightarrow> 'u \<Rightarrow> 'w) \<Rightarrow> ('u::linorder \<times> 'u \<times> 'v) set \<Rightarrow> 'u \<Rightarrow> 'u \<Rightarrow>
   ('u \<times> 'u \<times> 'v) set \<Rightarrow> ('u \<times> 'u \<times> 'v) list \<Rightarrow> bool" where
  "part w S0 a b S L \<longleftrightarrow> segs_ok (S \<union> set L) \<and> S \<inter> set L = {} \<and> distinct L \<and>
     seg_at w (S \<union> set L) = seg_at w S0 \<and> (\<forall>(s, e, v)\<in>set L. a \<le> s \<and> e \<le> b)"

lemma seg_at_Un: "seg_at w (S \<union> T) x y \<longleftrightarrow> seg_at w S x y \<or> seg_at w T x y"
  unfolding seg_at_def by blast

lemma part_init: "segs_ok S \<Longrightarrow> part w S a b S []"
  by (simp add: part_def)

lemma part_ok: "part w S0 a b S L \<Longrightarrow> segs_ok S"
  by (auto simp: part_def intro: segs_ok_subset)

lemma part_move:
  assumes "part w S0 a b S L" "(k, e, v) \<in> S" "a \<le> k" "e \<le> b"
  shows "part w S0 a b (S - {(k, e, v)}) (L @ [(k, e, v)])"
proof -
  have "S - {(k, e, v)} \<union> set (L @ [(k, e, v)]) = S \<union> set L"
    using assms(2) by auto
  then show ?thesis using assms unfolding part_def by (auto split: prod.splits)
qed

lemma segs_ok_cut:
  assumes ok: "segs_ok T" and m: "(s, e, v) \<in> T" and p: "s < p" "p < e"
  shows "segs_ok (insert (s, p, v1) (insert (p, e, v2) (T - {(s, e, v)})))"
proof -
  let ?T = "T - {(s, e, v)}"
  have okT: "segs_ok ?T" using ok by (rule segs_ok_subset) auto
  have sep: "e' \<le> s \<or> e \<le> s'" if "(s', e', v') \<in> ?T" for s' e' v'
    using segs_okD2[OF ok m, of s' e' v'] that by auto
  have "\<not> overlaps ?T p e"
  proof
    assume "overlaps ?T p e"
    then obtain s' e' v' where q: "(s', e', v') \<in> ?T" "s' < e" "p < e'" by (auto simp: overlaps_def)
    show False using sep[OF q(1)] q(2,3) p by auto
  qed
  from segs_ok_insert[OF okT p(2) this]
  have ok2: "segs_ok (insert (p, e, v2) ?T)" .
  have "\<not> overlaps (insert (p, e, v2) ?T) s p"
  proof
    assume "overlaps (insert (p, e, v2) ?T) s p"
    then obtain s' e' v' where q: "(s', e', v') \<in> ?T" "s' < p" "s < e'" by (auto simp: overlaps_def)
    show False using sep[OF q(1)] q(2,3) p by auto
  qed
  from segs_ok_insert[OF ok2 p(1) this] show ?thesis .
qed

lemma seg_at_cut:
  assumes m: "(s, e, v) \<in> T" and p: "s < p" "p < e"
    and l: "\<And>x. s \<le> x \<Longrightarrow> x < p \<Longrightarrow> w v1 s x = w v s x"
    and r: "\<And>x. p \<le> x \<Longrightarrow> x < e \<Longrightarrow> w v2 p x = w v s x"
  shows "seg_at w (insert (s, p, v1) (insert (p, e, v2) (T - {(s, e, v)}))) = seg_at w T"
proof (intro ext)
  fix x y
  have T: "T = insert (s, e, v) (T - {(s, e, v)})" using m by auto
  have "(s \<le> x \<and> x < p \<and> w v1 s x = y \<or> p \<le> x \<and> x < e \<and> w v2 p x = y) \<longleftrightarrow>
        s \<le> x \<and> x < e \<and> w v s x = y"
    using l[of x] r[of x] p by (cases "x < p") auto
  then show "seg_at w (insert (s, p, v1) (insert (p, e, v2) (T - {(s, e, v)}))) x y = seg_at w T x y"
    by (subst (2) T) (auto simp only: seg_at_insert)
qed

lemma part_cut:
  assumes P: "part w S0 a b S L" and m: "(s, e, v) \<in> S" and p: "s < p" "p < e"
    and l: "\<And>x. s \<le> x \<Longrightarrow> x < p \<Longrightarrow> w v1 s x = w v s x"
    and r: "\<And>x. p \<le> x \<Longrightarrow> x < e \<Longrightarrow> w v2 p x = w v s x"
  shows "part w S0 a b (insert (s, p, v1) (insert (p, e, v2) (S - {(s, e, v)}))) L"
proof -
  let ?T = "S \<union> set L"
  have ok: "segs_ok ?T" and mT: "(s, e, v) \<in> ?T" and nL: "(s, e, v) \<notin> set L"
    using P m by (auto simp: part_def)
  have U: "insert (s, p, v1) (insert (p, e, v2) (S - {(s, e, v)})) \<union> set L =
           insert (s, p, v1) (insert (p, e, v2) (?T - {(s, e, v)}))"
    using nL by auto
  have n1: "(s, p, v1) \<notin> set L"
    using segs_ok_unique[OF ok mT, of s p v1 s] nL p by auto
  have n2: "(p, e, v2) \<notin> set L"
    using segs_ok_unique[OF ok mT, of p e v2 p] nL p less_imp_le[OF p(1)] by auto
  show ?thesis
    unfolding part_def U
    using segs_ok_cut[OF ok mT p, of v1 v2] seg_at_cut[of s e v ?T p w v1 v2, OF mT p l r] P n1 n2
    by (auto simp: part_def)
qed

lemma cut_fresh:
  assumes "segs_ok S" "(s, e, v) \<in> S" "s < p" "p < e"
  shows "(p, e', v') \<notin> S" "p \<notin> fst ` S"
proof -
  have "(p, e', v') \<notin> S" for e' v'
    using segs_ok_unique[OF assms(1,2), of p e' v' p] segs_okD1[OF assms(1), of p e' v'] assms(3,4)
      less_imp_le[OF assms(3)] by auto
  then show "(p, e', v') \<notin> S" "p \<notin> fst ` S" by auto
qed

section \<open>The passes, for splits that keep the view\<close>

text \<open>
  What \<open>remove\<close> needs of the stored values: \<open>split_r v p (s, e)\<close> gives the halves \<open>(left, right)\<close>,
  \<open>split_l v p (s, e)\<close> gives \<open>(right, left)\<close>, both keep what the value shows at every address of
  its half, and both succeed on the values that are \<open>fine\<close>.
\<close>

locale splitting =
  fixes w :: "'v \<Rightarrow> 'u::linorder \<Rightarrow> 'u \<Rightarrow> 'w"
    and split_l split_r :: "('u, 'v) splitter"
    and fine :: "'v \<Rightarrow> 'u \<Rightarrow> 'u \<Rightarrow> bool"
  assumes split_r_left: "s < p \<Longrightarrow> p < e \<Longrightarrow> split_r v p (s, e) = Some (v1, v2) \<Longrightarrow>
        s \<le> x \<Longrightarrow> x < p \<Longrightarrow> w v1 s x = w v s x"
    and split_r_right: "s < p \<Longrightarrow> p < e \<Longrightarrow> split_r v p (s, e) = Some (v1, v2) \<Longrightarrow>
        p \<le> x \<Longrightarrow> x < e \<Longrightarrow> w v2 p x = w v s x"
    and split_l_left: "s < p \<Longrightarrow> p < e \<Longrightarrow> split_l v p (s, e) = Some (v2, v1) \<Longrightarrow>
        s \<le> x \<Longrightarrow> x < p \<Longrightarrow> w v1 s x = w v s x"
    and split_l_right: "s < p \<Longrightarrow> p < e \<Longrightarrow> split_l v p (s, e) = Some (v2, v1) \<Longrightarrow>
        p \<le> x \<Longrightarrow> x < e \<Longrightarrow> w v2 p x = w v s x"
    and split_r_total: "s < p \<Longrightarrow> p < e \<Longrightarrow> fine v s e \<Longrightarrow>
        \<exists>v1 v2. split_r v p (s, e) = Some (v1, v2) \<and> fine v1 s p \<and> fine v2 p e"
    and split_l_total: "s < p \<Longrightarrow> p < e \<Longrightarrow> fine v s e \<Longrightarrow>
        \<exists>v1 v2. split_l v p (s, e) = Some (v2, v1) \<and> fine v1 s p \<and> fine v2 p e"
begin

lemma part_cut_r:
  assumes "part w S0 a b S L" "(s, e, v) \<in> S" "s < p" "p < e" "split_r v p (s, e) = Some (v1, v2)"
  shows "part w S0 a b (insert (s, p, v1) (insert (p, e, v2) (S - {(s, e, v)}))) L"
  by (rule part_cut[OF assms(1-4)])
    (blast intro: split_r_left[OF assms(3-5)] split_r_right[OF assms(3-5)])+

lemma part_cut_l:
  assumes "part w S0 a b S L" "(s, e, v) \<in> S" "s < p" "p < e" "split_l v p (s, e) = Some (v2, v1)"
  shows "part w S0 a b (insert (s, p, v1) (insert (p, e, v2) (S - {(s, e, v)}))) L"
  by (rule part_cut[OF assms(1-4)])
    (blast intro: split_l_left[OF assms(3-5)] split_l_right[OF assms(3-5)])+

end

text \<open>The last range starting before \<open>p\<close> decides whether some range straddles \<open>p\<close>.\<close>

lemma last_lt_no_straddle:
  assumes i: "bt_wf m" "segs_ok (segs m)"
    and c: "case bt_last_lt p m of None \<Rightarrow> True | Some (k, n) \<Rightarrow> node_end n \<le> p"
    and q: "(s, e, v) \<in> segs m" "s < p"
  shows "e \<le> p"
proof (cases "bt_last_lt p m")
  case None
  then have "\<forall>x\<in>set m. \<not> fst x < p" by (simp add: bt_last_lt_eq_None)
  then show ?thesis using q by (auto simp: in_segs)
next
  case (Some x)
  obtain k n where x: "x = (k, n)" by (cases x)
  have l: "(k, n) \<in> set m" "k < p" "\<forall>e\<in>set m. fst e < p \<longrightarrow> fst e \<le> k"
    using Some i(1) by (simp_all add: x bt_last_lt_eq_Some)
  have n: "node_end n \<le> p" using c Some x by simp
  have "s \<le> k" using l(3) q by (auto simp: in_segs)
  then consider "s = k" | "s < k" by fastforce
  then show ?thesis
  proof cases
    case 1
    then show ?thesis using segs_ok_start[OF i(2) segs_member[OF l(1)], of e v] q(1) n by auto
  next
    case 2
    then show ?thesis using segs_ok_order[OF i(2) q(1) segs_member[OF l(1)]] l(2) by auto
  qed
qed

lemma Node_value_upd: "n\<lparr>node_value := v\<rparr> = \<lparr>node_end = node_end n, node_value = v\<rparr>"
  by simp

text \<open>A segment beside one that straddles \<open>p\<close> does not itself straddle \<open>p\<close>.\<close>

lemma beside_straddle:
  assumes "segs_ok S" "(k, e, v) \<in> S" "k < p" "p < e" "(s', e', v') \<in> S - {(k, e, v)}" "s' < p"
  shows "e' \<le> p"
  using segs_okD2[OF assms(1,2), of s' e' v'] assms(3-6) by auto

context splitting
begin

lemma left_cut:
  assumes P: "part w S0 a b S L" and ab: "a < b" and m: "(k, e, v) \<in> S" and p: "k < a" "a < e"
    and eb: "e \<le> b" and sp: "split_r v a (k, e) = Some (v1, v2)"
  shows "part w S0 a b (insert (k, a, v1) (S - {(k, e, v)})) (L @ [(a, e, v2)])"
proof -
  have "insert (k, a, v1) (insert (a, e, v2) (S - {(k, e, v)})) - {(a, e, v2)} =
        insert (k, a, v1) (S - {(k, e, v)})"
    using cut_fresh(1)[OF part_ok[OF P] m p, of e v2] p by auto
  then show ?thesis
    using part_move[OF part_cut_r[OF P m p sp], of a e v2] eb by simp
qed

lemma left_cut2:
  assumes P: "part w S0 a b S L" and ab: "a < b" and m: "(k, e, v) \<in> S" and p: "k < a" "a < e"
    and be: "b < e" and sp: "split_r v a (k, e) = Some (v1, v2)"
    and sp2: "split_r v2 b (a, e) = Some (v3, v4)"
  shows "part w S0 a b (insert (b, e, v4) (insert (k, a, v1) (S - {(k, e, v)}))) (L @ [(a, b, v3)])"
proof -
  let ?S = "S - {(k, e, v)}"
  have f: "(a, e', v') \<notin> S" for e' v' using cut_fresh(1)[OF part_ok[OF P] m p] .
  have A: "insert (k, a, v1) (insert (a, e, v2) ?S) - {(a, e, v2)} = insert (k, a, v1) ?S"
    using f p by auto
  have B: "insert (a, b, v3) (insert (b, e, v4) (insert (k, a, v1) ?S)) - {(a, b, v3)} =
           insert (b, e, v4) (insert (k, a, v1) ?S)"
    using f p ab by auto
  have "part w S0 a b (insert (a, b, v3) (insert (b, e, v4) (insert (k, a, v1) ?S))) L"
    using part_cut_r[OF part_cut_r[OF P m p sp] _ ab be sp2] by (simp add: A)
  from part_move[OF this, of a b v3] show ?thesis by (simp add: B)
qed

lemma right_cut:
  assumes P: "part w S0 a b S L" and m: "(k, e, v) \<in> S" and p: "k < b" "b < e" "a \<le> k"
    and sp: "split_l v b (k, e) = Some (v2, v1)"
  shows "part w S0 a b (insert (b, e, v2) (S - {(k, e, v)})) (L @ [(k, b, v1)])"
proof -
  have "(k, b, v1) \<notin> S"
    using segs_ok_unique[OF part_ok[OF P] m, of k b v1 k] p less_trans[OF p(1,2)] by auto
  then have "insert (k, b, v1) (insert (b, e, v2) (S - {(k, e, v)})) - {(k, b, v1)} =
        insert (b, e, v2) (S - {(k, e, v)})"
    using p by auto
  then show ?thesis
    using part_move[OF part_cut_l[OF P m p(1,2) sp], of k b v1] p(3) by simp
qed

lemma left_pass:
  assumes P: "part w S0 a b (segs m) L" and wf: "bt_wf m" and ab: "a < b"
    and run: "rm_remove_left split_r log_release a b m L = Some (m', L')"
  shows "bt_wf m' \<and> part w S0 a b (segs m') L' \<and> (\<forall>(s, e, v)\<in>segs m'. s < a \<longrightarrow> e \<le> a) \<and>
    (\<forall>(s, e, v)\<in>segs m'. s < b \<and> b < e \<longrightarrow> (s, e, v) \<in> segs m)"
proof (cases "case bt_last_lt a m of None \<Rightarrow> True | Some (k, n) \<Rightarrow> node_end n \<le> a")
  case True
  then have "m' = m" "L' = L"
    using run leD[of _ a] by (auto simp: rm_remove_left_def Let_def split: option.splits prod.splits if_splits)
  then show ?thesis using P wf last_lt_no_straddle[OF wf part_ok[OF P] True] by blast
next
  case False
  then obtain k n where l: "bt_last_lt a m = Some (k, n)" and an: "a < node_end n"
    by (auto split: option.splits)
  then have km: "(k, n) \<in> set m" and ka: "k < a" using wf by (auto simp: bt_last_lt_eq_Some)
  define e v where ev: "e = node_end n" "v = node_value n"
  have kS: "(k, e, v) \<in> segs m" and ae: "a < e" using km an by (auto simp: ev)
  have rm: "{p \<in> segs m. fst p \<noteq> k} = segs m - {(k, e, v)}" by (rule segs_keys[OF part_ok[OF P] kS])
  have ns: "e' \<le> a" if "(s', e', v') \<in> segs m - {(k, e, v)}" "s' < a" for s' e' v'
    using beside_straddle[OF part_ok[OF P] kS ka ae that] .
  obtain v1 v2 where sp: "split_r v a (k, e) = Some (v1, v2)"
    using run l an by (auto simp: rm_remove_left_def Let_def ev split: bind_splits)
  have mod: "segs (bt_modify k (\<lambda>_. \<lparr>node_end = a, node_value = v1\<rparr>) m) =
      insert (k, a, v1) (segs m - {(k, e, v)})"
    by (simp add: segs_modify[OF wf kS] rm)
  show ?thesis
  proof (cases "b < e")
    case False
    then have "m' = bt_modify k (\<lambda>_. \<lparr>node_end = a, node_value = v1\<rparr>) m" "L' = L @ [(a, e, v2)]"
      using run l an sp by (auto simp: rm_remove_left_def Let_def ev log_release_def)
    then show ?thesis
      using left_cut[OF P ab kS ka ae _ sp] False ns wf ab by (auto simp: mod not_less)
  next
    case True
    obtain v3 v4 where sp2: "split_r v2 b (a, e) = Some (v3, v4)"
      and ti: "bt_try_insert b \<lparr>node_end = e, node_value = v4\<rparr>
                (bt_modify k (\<lambda>_. \<lparr>node_end = a, node_value = v1\<rparr>) m) = Some m'"
      and L': "L' = L @ [(a, b, v3)]"
      using run l an sp True by (auto simp: rm_remove_left_def Let_def ev log_release_def split: bind_splits)
    have "segs m' = insert (b, e, v4) (insert (k, a, v1) (segs m - {(k, e, v)}))"
      by (simp add: segs_try_insert[OF _ ti] wf mod)
    then show ?thesis
      using left_cut2[OF P ab kS ka ae True sp sp2] ns ab bt_wf_try_insert[OF _ ti] wf L'
      by auto
  qed
qed

lemma right_pass:
  assumes P: "part w S0 a b (segs m) L" and wf: "bt_wf m" and ab: "a < b"
    and na: "\<forall>(s, e, v)\<in>segs m. s < a \<longrightarrow> e \<le> a"
    and run: "rm_remove_right split_l log_release b m L = Some (m', L')"
  shows "bt_wf m' \<and> part w S0 a b (segs m') L' \<and> (\<forall>(s, e, v)\<in>segs m'. s < a \<longrightarrow> e \<le> a) \<and>
    (\<forall>(s, e, v)\<in>segs m'. s < b \<longrightarrow> e \<le> b)"
proof (cases "case bt_last_lt b m of None \<Rightarrow> True | Some (k, n) \<Rightarrow> node_end n \<le> b")
  case True
  then have "m' = m" "L' = L"
    using run leD[of _ b] by (auto simp: rm_remove_right_def split: option.splits prod.splits if_splits)
  then show ?thesis using P wf na last_lt_no_straddle[OF wf part_ok[OF P] True] by blast
next
  case False
  then obtain k n where l: "bt_last_lt b m = Some (k, n)" and bn: "b < node_end n"
    by (auto split: option.splits)
  then have km: "(k, n) \<in> set m" and kb: "k < b" using wf by (auto simp: bt_last_lt_eq_Some)
  define e v where ev: "e = node_end n" "v = node_value n"
  have kS: "(k, e, v) \<in> segs m" and be: "b < e" using km bn by (auto simp: ev)
  have ak: "a \<le> k" using na kS ab be by (auto simp: not_less[symmetric])
  have rm: "segs (bt_remove k m) = segs m - {(k, e, v)}"
    by (simp add: segs_remove segs_keys[OF part_ok[OF P] kS])
  have ns: "e' \<le> b" if "(s', e', v') \<in> segs m - {(k, e, v)}" "s' < b" for s' e' v'
    using beside_straddle[OF part_ok[OF P] kS kb be that] .
  obtain v1 v2 where sp: "split_l v b (k, e) = Some (v2, v1)"
      and ti: "bt_try_insert b \<lparr>node_end = e, node_value = v2\<rparr> (bt_remove k m) = Some m'"
      and L': "L' = L @ [(k, b, v1)]"
    using run l bn by (auto simp: rm_remove_right_def ev log_release_def Node_value_upd split: bind_splits)
  have "segs m' = insert (b, e, v2) (segs m - {(k, e, v)})"
    by (simp add: segs_try_insert[OF _ ti] wf rm)
  then show ?thesis
    using right_cut[OF P kS kb be ak sp] ns ab na bt_wf_try_insert[OF _ ti] wf L' by auto
qed

end

lemma inside_pass:
  assumes "part w S0 a b (segs m) L" "bt_wf m" "\<forall>(s, e, v)\<in>segs m. s < b \<longrightarrow> e \<le> b"
  shows "\<exists>m' L'. rm_remove_inside log_release a b m L = Some (m', L') \<and> bt_wf m' \<and>
    part w S0 a b (segs m') L' \<and> segs m' = {(s, e, v) \<in> segs m. \<not> (a \<le> s \<and> s < b)}"
  using assms
proof (induction "length m" arbitrary: m L rule: less_induct)
  case less
  show ?case
  proof (cases "bt_between a b m")
    case Nil
    then have "segs m = {(s, e, v) \<in> segs m. \<not> (a \<le> s \<and> s < b)}"
      by (force simp: bt_between_def filter_empty_conv in_segs)
    then show ?thesis using less.prems Nil by (auto simp: rm_remove_inside_Nil)
  next
    case (Cons q rest)
    obtain k n where q: "q = (k, n)" by (cases q)
    have k: "(k, n) \<in> set m" "a \<le> k" "k < b"
      using Cons by (auto simp: q bt_between_def filter_eq_Cons_iff)
    then have kS: "(k, node_end n, node_value n) \<in> segs m" by auto
    then have kb: "node_end n \<le> b" using less.prems(3) k(3) by auto
    have rm: "segs (bt_remove k m) = segs m - {(k, node_end n, node_value n)}"
      by (simp add: segs_remove segs_keys[OF part_ok[OF less.prems(1)] kS])
    have "\<exists>m' L'. rm_remove_inside log_release a b (bt_remove k m) (L @ [(k, node_end n, node_value n)]) =
        Some (m', L') \<and> bt_wf m' \<and> part w S0 a b (segs m') L' \<and>
        segs m' = {(s, e, v) \<in> segs (bt_remove k m). \<not> (a \<le> s \<and> s < b)}"
      using part_move[OF less.prems(1) kS k(2) kb] less.prems(2,3)
      by (intro less.hyps length_remove_between[OF Cons[unfolded q]]) (auto simp: rm)
    moreover have "{(s, e, v) \<in> segs (bt_remove k m). \<not> (a \<le> s \<and> s < b)} =
        {(s, e, v) \<in> segs m. \<not> (a \<le> s \<and> s < b)}"
      using k(2,3) by (auto simp: rm)
    ultimately show ?thesis
      by (simp add: rm_remove_inside_Cons[OF Cons[unfolded q]] log_release_def)
  qed
qed

context splitting
begin

lemma remove_part:
  assumes i: "rm_inv m" and ab: "a < b"
    and run: "rm_remove m (a, b) split_l split_r log_release [] = Some (m', L)"
  shows "rm_inv m'" "part w (segs m) a b (segs m') L" "\<forall>(s, e, v)\<in>segs m'. e \<le> a \<or> b \<le> s"
proof -
  obtain m1 L1 m2 L2 where
      r1: "rm_remove_left split_r log_release a b m [] = Some (m1, L1)"
      and r2: "rm_remove_right split_l log_release b m1 L1 = Some (m2, L2)"
      and r3: "rm_remove_inside log_release a b m2 L2 = Some (m', L)"
    using run leD[of b a] ab by (auto simp: rm_remove_def split: bind_splits if_splits)
  note p1 = left_pass[OF part_init[OF rm_inv_ok[OF i]] rm_inv_wf[OF i] ab r1]
  have p2: "bt_wf m2 \<and> part w (segs m) a b (segs m2) L2 \<and>
      (\<forall>(s, e, v)\<in>segs m2. s < a \<longrightarrow> e \<le> a) \<and> (\<forall>(s, e, v)\<in>segs m2. s < b \<longrightarrow> e \<le> b)"
    using right_pass[OF _ _ ab _ r2] p1 by blast
  then have p3: "bt_wf m' \<and> part w (segs m) a b (segs m') L \<and>
      segs m' = {(s, e, v) \<in> segs m2. \<not> (a \<le> s \<and> s < b)}"
    using inside_pass[of w "segs m" a b m2 L2] r3 by auto
  then show "rm_inv m'" "part w (segs m) a b (segs m') L" by (auto intro: rm_invI part_ok)
  show "\<forall>(s, e, v)\<in>segs m'. e \<le> a \<or> b \<le> s" using p2 p3 by fastforce
qed

lemma remove_view:
  assumes i: "rm_inv m" and ab: "a < b"
    and run: "rm_remove m (a, b) split_l split_r log_release [] = Some (m', L)"
  shows "rm_view w m' x = (if a \<le> x \<and> x < b then None else rm_view w m x)"
proof -
  note r = remove_part[OF i ab run]
  have out: "\<not> seg_at w (set L) x y" if "\<not> (a \<le> x \<and> x < b)" for y
    using r(2) that by (fastforce simp: part_def seg_at_def)
  have ins: "\<not> seg_at w (segs m') x y" if "a \<le> x \<and> x < b" for y
    using r(3) that by (fastforce simp: seg_at_def)
  have un: "seg_at w (segs m') x y \<or> seg_at w (set L) x y \<longleftrightarrow> seg_at w (segs m) x y" for y
    using r(2) by (simp add: part_def flip: seg_at_Un)
  show ?thesis
  proof (rule rm_view_eqI)
    fix y
    show "rm_view w m' x = Some y \<longleftrightarrow> (if a \<le> x \<and> x < b then None else rm_view w m x) = Some y"
      using out[of y] ins[of y] un[of y] by (auto simp: rm_view_eq_Some[OF r(1)] rm_view_eq_Some[OF i])
  qed
qed

lemma remove_log:
  assumes i: "rm_inv m" and ab: "a < b"
    and run: "rm_remove m (a, b) split_l split_r log_release [] = Some (m', L)"
  shows "segs_ok (set L)" "distinct L" "\<forall>(s, e, v)\<in>set L. a \<le> s \<and> e \<le> b"
    "seg_at w (set L) x y \<longleftrightarrow> a \<le> x \<and> x < b \<and> rm_view w m x = Some y"
proof -
  note r = remove_part[OF i ab run]
  show "segs_ok (set L)" "distinct L" "\<forall>(s, e, v)\<in>set L. a \<le> s \<and> e \<le> b"
    using r(2) by (auto simp: part_def intro: segs_ok_subset)
  have "seg_at w (set L) x y \<longrightarrow> a \<le> x \<and> x < b"
    using r(2) by (fastforce simp: part_def seg_at_def)
  moreover have "a \<le> x \<and> x < b \<longrightarrow> \<not> seg_at w (segs m') x y"
    using r(3) by (fastforce simp: seg_at_def)
  moreover have "seg_at w (segs m') x y \<or> seg_at w (set L) x y \<longleftrightarrow> seg_at w (segs m) x y"
    using r(2) by (simp add: part_def flip: seg_at_Un)
  ultimately show "seg_at w (set L) x y \<longleftrightarrow> a \<le> x \<and> x < b \<and> rm_view w m x = Some y"
    unfolding rm_view_eq_Some[OF i] by blast
qed

lemma left_total:
  assumes i: "rm_inv m" and ab: "a < b"
    and fine: "\<forall>(s, e, v)\<in>segs m. s < a \<and> a < e \<longrightarrow> fine v s e"
  shows "\<exists>r. rm_remove_left split_r log_release a b m L = Some r"
proof (cases "\<exists>k n. bt_last_lt a m = Some (k, n) \<and> a < node_end n")
  case False
  then show ?thesis by (auto simp: rm_remove_left_def Let_def split: option.splits)
next
  case True
  then obtain k n where l: "bt_last_lt a m = Some (k, n)" and an: "a < node_end n" by blast
  then have km: "(k, n) \<in> set m" and ka: "k < a" using rm_inv_wf[OF i] by (auto simp: bt_last_lt_eq_Some)
  have "fine (node_value n) k (node_end n)" using fine segs_member[OF km] ka an by auto
  from split_r_total[OF ka an this] obtain v1 v2
    where s1: "split_r (node_value n) a (k, node_end n) = Some (v1, v2)" and f2: "fine v2 a (node_end n)"
    by blast
  show ?thesis
  proof (cases "b < node_end n")
    case False
    then show ?thesis using l an s1 by (simp add: rm_remove_left_def log_release_def)
  next
    case True
    from split_r_total[OF ab this f2] obtain v3 v4
      where s2: "split_r v2 b (a, node_end n) = Some (v3, v4)" by blast
    have "b \<notin> fst ` segs m"
      using cut_fresh(2)[OF rm_inv_ok[OF i] segs_member[OF km], of b] ka ab True by auto
    then have "b \<notin> fst ` set m" by (force simp: segs_def)
    then have "b \<notin> fst ` set (bt_modify k f m)" for f
      by (simp flip: set_map)
    then show ?thesis using l an s1 s2 True
      by (simp add: rm_remove_left_def log_release_def bt_try_insert_def bt_get_eq_None)
  qed
qed

lemma right_total:
  assumes wf: "bt_wf m" and ok: "segs_ok (segs m)"
    and fine: "\<forall>(s, e, v)\<in>segs m. s < b \<and> b < e \<longrightarrow> fine v s e"
  shows "\<exists>r. rm_remove_right split_l log_release b m L = Some r"
proof (cases "\<exists>k n. bt_last_lt b m = Some (k, n) \<and> b < node_end n")
  case False
  then show ?thesis by (auto simp: rm_remove_right_def split: option.splits)
next
  case True
  then obtain k n where l: "bt_last_lt b m = Some (k, n)" and bn: "b < node_end n" by blast
  then have km: "(k, n) \<in> set m" and kb: "k < b" using wf by (auto simp: bt_last_lt_eq_Some)
  have "fine (node_value n) k (node_end n)" using fine segs_member[OF km] kb bn by auto
  from split_l_total[OF kb bn this] obtain v1 v2
    where s1: "split_l (node_value n) b (k, node_end n) = Some (v2, v1)" by blast
  have "b \<notin> fst ` segs m"
    using cut_fresh(2)[OF ok segs_member[OF km], of b] kb bn by auto
  then have "b \<notin> fst ` set (bt_remove k m)" by (force simp: segs_def set_bt_remove)
  then show ?thesis using l bn s1
    by (simp add: rm_remove_right_def log_release_def bt_try_insert_def bt_get_eq_None)
qed

lemma remove_total:
  assumes i: "rm_inv m"
    and fine: "\<forall>(s, e, v)\<in>segs m. s < a \<and> a < e \<or> s < b \<and> b < e \<longrightarrow> fine v s e"
  shows "\<exists>r. rm_remove m (a, b) split_l split_r log_release [] = Some r"
proof (cases "a < b")
  case False
  then show ?thesis by (auto simp: rm_remove_def not_less)
next
  case ab: True
  obtain m1 L1 where r1: "rm_remove_left split_r log_release a b m [] = Some (m1, L1)"
    using left_total[OF i ab, of "[]"] fine by fast
  note p1 = left_pass[OF part_init[OF rm_inv_ok[OF i]] rm_inv_wf[OF i] ab r1]
  then have wf1: "bt_wf m1" and ok1: "segs_ok (segs m1)" by (auto intro: part_ok)
  have "\<forall>(s, e, v)\<in>segs m1. s < b \<and> b < e \<longrightarrow> fine v s e" using p1 fine by fast
  from right_total[OF wf1 ok1 this, of L1] obtain m2 L2
    where r2: "rm_remove_right split_l log_release b m1 L1 = Some (m2, L2)" by fast
  have "bt_wf m2 \<and> part w (segs m) a b (segs m2) L2 \<and> (\<forall>(s, e, v)\<in>segs m2. s < b \<longrightarrow> e \<le> b)"
    using right_pass[OF _ _ ab _ r2] p1 by blast
  then show ?thesis
    using inside_pass[of w "segs m" a b m2 L2] r1 r2 ab by (auto simp: rm_remove_def)
qed

end

end
