(* ===== verification/Range_Map_Free.thy ===== *)
theory Range_Map_Free
  imports Range_Map_Remove
begin

text \<open>
  Laws of the range map for the operations that grow, shrink and place ranges: \<open>extend_back\<close>,
  \<open>reduce_back\<close>, \<open>range_is_free\<close> and \<open>find_free_range\<close>.
\<close>

section \<open>Ranges at a point\<close>

lemma last_lt_straddle:
  assumes i: "rm_inv m" and k: "(s, e, v) \<in> segs m" "s < p" "p < e"
  shows "bt_last_lt p m = Some (s, \<lparr>node_end = e, node_value = v\<rparr>)"
proof -
  have "fst x \<le> s" if x: "x \<in> set m" "fst x < p" for x
  proof (rule ccontr)
    assume "\<not> fst x \<le> s"
    moreover have "(fst x, node_end (snd x), node_value (snd x)) \<in> segs m"
      using x(1) segs_member[of "fst x" "snd x" m] by simp
    ultimately have "e \<le> fst x" using segs_ok_order[OF rm_inv_ok[OF i] k(1)] by auto
    then show False using x(2) k(3) by auto
  qed
  then show ?thesis using k by (auto simp: bt_last_lt_eq_Some[OF rm_inv_wf[OF i]] in_segs)
qed

lemma bt_get_segs: "rm_inv m \<Longrightarrow> (s, e, v) \<in> segs m \<Longrightarrow> bt_get s m = Some \<lparr>node_end = e, node_value = v\<rparr>"
  by (simp add: bt_get_eq_Some rm_inv_wf in_segs)

section \<open>Moving the end of a range\<close>

text \<open>Moving the end of a segment whose new extent meets no other segment.\<close>

lemma modify_end:
  assumes i: "rm_inv m" and k: "(s, e, v) \<in> segs m" and n: "s < n"
    and free: "\<not> overlaps (segs m - {(s, e, v)}) s n"
  shows "rm_inv (bt_modify s (node_end_update (\<lambda>_. n)) m)"
    "rm_view w (bt_modify s (node_end_update (\<lambda>_. n)) m) x =
       (if s \<le> x \<and> x < n then Some (w v s x) else if s \<le> x \<and> x < e then None else rm_view w m x)"
proof -
  let ?m = "bt_modify s (node_end_update (\<lambda>_. n)) m"
  note ok = rm_inv_ok[OF i]
  have S: "segs ?m = insert (s, n, v) (segs m - {(s, e, v)})"
    by (simp add: segs_modify_end[OF rm_inv_wf[OF i] k] segs_keys[OF ok k])
  have ok': "segs_ok (segs ?m)"
    unfolding S by (rule segs_ok_insert[OF segs_ok_subset[OF ok] n free]) auto
  then show im: "rm_inv ?m" using i by (intro rm_invI) (auto simp: rm_inv_wf)
  have old: "segs m = insert (s, e, v) (segs m - {(s, e, v)})" using k by auto
  have beside: "\<not> seg_at w (segs m - {(s, e, v)}) x y" if "s \<le> x" "x < e" for y
    using segs_ok_unique[OF ok k] that unfolding seg_at_def by blast
  have inside: "\<not> seg_at w (segs m - {(s, e, v)}) x y" if "s \<le> x" "x < n" for y
    using not_overlaps_seg_at[OF free that] .
  show "rm_view w ?m x =
       (if s \<le> x \<and> x < n then Some (w v s x) else if s \<le> x \<and> x < e then None else rm_view w m x)"
  proof (rule rm_view_eqI)
    fix y
    have "rm_view w ?m x = Some y \<longleftrightarrow> (s \<le> x \<and> x < n \<and> w v s x = y) \<or> seg_at w (segs m - {(s, e, v)}) x y"
      unfolding rm_view_eq_Some[OF im] S seg_at_insert ..
    moreover have "rm_view w m x = Some y \<longleftrightarrow> (s \<le> x \<and> x < e \<and> w v s x = y) \<or> seg_at w (segs m - {(s, e, v)}) x y"
      unfolding rm_view_eq_Some[OF i] by (subst old) (rule seg_at_insert)
    ultimately show "rm_view w ?m x = Some y \<longleftrightarrow>
        (if s \<le> x \<and> x < n then Some (w v s x) else if s \<le> x \<and> x < e then None else rm_view w m x) = Some y"
      using beside[of y] inside[of y] by auto
  qed
qed

lemma range_is_free_iff:
  assumes i: "rm_inv m"
  shows "rm_range_is_free m (a, b) \<longleftrightarrow> a < b \<and> \<not> overlaps (segs m) a b"
proof (cases "a < b")
  case False
  then show ?thesis by (simp add: rm_range_is_free_def not_less)
next
  case ab: True
  let ?c = "case bt_last_lt a m of Some (_, n) \<Rightarrow> node_end n > a | None \<Rightarrow> False"
  have left: "?c \<longleftrightarrow> (\<exists>(s, e, v)\<in>segs m. s < a \<and> a < e)"
  proof
    assume ?c
    then obtain s n where l: "bt_last_lt a m = Some (s, n)" "a < node_end n" by (auto split: option.splits)
    then have "(s, n) \<in> set m" "s < a" by (auto simp: bt_last_lt_eq_Some[OF rm_inv_wf[OF i]])
    then show "\<exists>(s, e, v)\<in>segs m. s < a \<and> a < e" using l(2) segs_member[of s n m] by blast
  next
    assume "\<exists>(s, e, v)\<in>segs m. s < a \<and> a < e"
    then show ?c using last_lt_straddle[OF i] by fastforce
  qed
  have right: "bt_between a b m \<noteq> [] \<longleftrightarrow> (\<exists>(s, e, v)\<in>segs m. a \<le> s \<and> s < b)"
    unfolding bt_between_def filter_empty_conv segs_def by fastforce
  have "overlaps (segs m) a b \<longleftrightarrow> (\<exists>(s, e, v)\<in>segs m. s < a \<and> a < e) \<or> (\<exists>(s, e, v)\<in>segs m. a \<le> s \<and> s < b)"
  proof
    assume "overlaps (segs m) a b"
    then obtain s e v where "(s, e, v) \<in> segs m" "s < b" "a < e" by (auto simp: overlaps_def)
    then show "(\<exists>(s, e, v)\<in>segs m. s < a \<and> a < e) \<or> (\<exists>(s, e, v)\<in>segs m. a \<le> s \<and> s < b)"
      by (cases "s < a") force+
  next
    assume "(\<exists>(s, e, v)\<in>segs m. s < a \<and> a < e) \<or> (\<exists>(s, e, v)\<in>segs m. a \<le> s \<and> s < b)"
    then obtain s e v where "(s, e, v) \<in> segs m" "s < b" "a < e"
      using segs_okD1[OF rm_inv_ok[OF i]] ab by (fastforce dest: order.strict_trans order.strict_trans1)
    then show "overlaps (segs m) a b" by (auto simp: overlaps_def)
  qed
  moreover have "rm_range_is_free m (a, b) \<longleftrightarrow> \<not> ?c \<and> bt_between a b m = []"
    using ab[unfolded not_le[symmetric]] by (simp add: rm_range_is_free_def)
  ultimately show ?thesis using ab left right by blast
qed

lemma overlaps_extend:
  assumes i: "rm_inv m" and k: "(s, e, v) \<in> segs m" and en: "e < n" and f: "\<not> overlaps (segs m) e n"
  shows "\<not> overlaps (segs m - {(s, e, v)}) s n"
proof
  assume "overlaps (segs m - {(s, e, v)}) s n"
  then obtain s' e' v' where q: "(s', e', v') \<in> segs m" "(s', e', v') \<noteq> (s, e, v)" "s' < n" "s < e'"
    by (auto simp: overlaps_def)
  have "e \<le> s' \<or> e' \<le> s" using segs_okD2[OF rm_inv_ok[OF i] k q(1)] q(2) by auto
  then have "e < e'" using segs_okD1[OF rm_inv_ok[OF i] q(1)] q(4) by auto
  then show False using f q(1,3) by (auto simp: overlaps_def)
qed

lemma overlaps_reduce:
  assumes i: "rm_inv m" and k: "(s, e, v) \<in> segs m" and ne: "n \<le> e"
  shows "\<not> overlaps (segs m - {(s, e, v)}) s n"
proof
  assume "overlaps (segs m - {(s, e, v)}) s n"
  then obtain s' e' v' where q: "(s', e', v') \<in> segs m" "(s', e', v') \<noteq> (s, e, v)" "s' < n" "s < e'"
    by (auto simp: overlaps_def)
  have "e \<le> s' \<or> e' \<le> s" using segs_okD2[OF rm_inv_ok[OF i] k q(1)] q(2) by auto
  then show False using q(3,4) ne by auto
qed

section \<open>Finding a free range\<close>

lemma find_free_loop_result:
  assumes infl: "\<And>a b. off a sz = Some b \<Longrightarrow> a \<le> b"
    and "\<forall>(s, n)\<in>set es. s < node_end n" "rm_find_free_loop off sz hi es st = Some (Inr r)"
  shows "r = (if es = [] then st else node_end (snd (last es))) \<and> (es \<noteq> [] \<longrightarrow> (\<exists>b. off r sz = Some b \<and> b \<le> hi))"
  using assms(2,3)
proof (induction es arbitrary: st)
  case (Cons p rest)
  obtain s n where p: "p = (s, n)" by (cases p)
  obtain x where x: "off (node_end n) sz = Some x" using Cons.prems(2) by (auto simp: p bind_eq_Some_conv)
  have "s < node_end n" using Cons.prems(1) by (simp add: p)
  then have "s < x" using infl[OF x] by simp
  then have "x \<le> hi" and run: "rm_find_free_loop off sz hi rest (node_end n) = Some (Inr r)"
    using Cons.prems(2) x by (auto simp: p split: if_splits)
  then show ?case using Cons.IH[OF _ run] Cons.prems(1) x by (auto simp: p)
qed simp

lemma between_last_end:
  assumes i: "rm_inv m" and ne: "bt_between a b m \<noteq> []" and k: "(s, e, v) \<in> segs m" "a \<le> s" "s < b"
  shows "e \<le> node_end (snd (last (bt_between a b m)))"
proof -
  let ?l = "last (bt_between a b m)"
  have g: "?l \<in> set m \<and> (\<forall>x\<in>set m. a \<le> fst x \<and> fst x < b \<longrightarrow> fst x \<le> fst ?l)"
    using last_filter_greatest[OF rm_inv_wf[OF i], of "\<lambda>x. a \<le> fst x \<and> fst x < b"] ne
    by (simp add: bt_between_def)
  have l: "(fst ?l, node_end (snd ?l), node_value (snd ?l)) \<in> segs m"
    using g segs_member[of "fst ?l" "snd ?l" m] by simp
  have "s \<le> fst ?l" using g k by (auto simp: in_segs)
  then consider "s = fst ?l" | "s < fst ?l" by fastforce
  then show ?thesis
  proof cases
    case 1
    then show ?thesis using segs_ok_start[OF rm_inv_ok[OF i] l, of e v] k(1) by auto
  next
    case 2
    have "fst ?l < node_end (snd ?l)" using segs_okD1[OF rm_inv_ok[OF i] l] .
    moreover have "e \<le> fst ?l" using segs_ok_order[OF rm_inv_ok[OF i] k(1) l 2] .
    ultimately show ?thesis by order
  qed
qed

text \<open>Where the search starts: past the segment that begins before the window.\<close>

definition search_start :: "('u::linorder, 'v) range_map \<Rightarrow> 'u \<Rightarrow> 'u" where
  "search_start m lo = (case bt_last_lt lo m of Some (_, n) \<Rightarrow> max lo (node_end n) | None \<Rightarrow> lo)"

lemma search_start_ge: "lo \<le> search_start m lo"
  by (auto simp: search_start_def split: option.splits)

lemma find_free_range_unfold:
  assumes "rm_find_free_range m (lo, hi) sz off = Some (Some (s, t))"
  shows "rm_find_free_loop off sz hi (bt_between (search_start m lo) hi m) (search_start m lo) = Some (Inr s) \<and>
    off s sz = Some t \<and> t \<le> hi"
proof -
  let ?st = "search_start m lo"
  have r: "(do { entries \<leftarrow> bt_range ?st hi m;
       rm_find_free_loop off sz hi entries ?st \<bind>
       case_sum (\<lambda>_. Some None)
         (\<lambda>start. do { stop \<leftarrow> off start sz; if stop \<le> hi then Some (Some (start, stop)) else None }) })
      = Some (Some (s, t))"
    (is "?rest = _")
  proof -
    obtain first where f: "off lo sz = Some first" using assms by (cases "off lo sz") (simp_all add: rm_find_free_range_def)
    have nf: "\<not> first > hi" using assms by (simp add: rm_find_free_range_def f split: if_splits)
    show ?thesis
    proof (cases "bt_last_lt lo m")
      case None
      then show ?thesis using assms nf by (simp add: rm_find_free_range_def f search_start_def)
    next
      case (Some x)
      obtain k n where x: "x = (k, n)" by (cases x)
      obtain y where y: "off (node_end n) sz = Some y"
        using assms nf by (cases "off (node_end n) sz") (simp_all add: rm_find_free_range_def f Some x)
      have "y \<le> hi" using assms nf by (simp add: rm_find_free_range_def f Some x y split: if_splits)
      then show ?thesis using assms nf by (simp add: rm_find_free_range_def f Some x y search_start_def)
    qed
  qed
  have "?st \<le> hi" using r by (simp add: bt_range_def split: if_splits)
  then obtain found where l: "rm_find_free_loop off sz hi (bt_between ?st hi m) ?st = Some found"
      and c: "case_sum (\<lambda>_. Some None) (\<lambda>start. do { stop \<leftarrow> off start sz;
          if stop \<le> hi then Some (Some (start, stop)) else None }) found = Some (Some (s, t))"
    using r by (cases "rm_find_free_loop off sz hi (bt_between ?st hi m) ?st") (simp_all add: bt_range_def)
  then show ?thesis by (cases found) (auto simp: bind_eq_Some_conv split: if_splits unit.splits)
qed

lemma below_search_start:
  assumes i: "rm_inv m" and k: "(s, e, v) \<in> segs m" "s < search_start m lo"
  shows "e \<le> search_start m lo"
proof (cases "bt_last_lt lo m")
  case None
  have "\<forall>x\<in>set m. \<not> fst x < lo" using None by (simp add: bt_last_lt_eq_None)
  moreover have "search_start m lo = lo" using None by (simp add: search_start_def)
  ultimately show ?thesis using k by (force simp: in_segs)
next
  case (Some x)
  obtain k' n where x: "x = (k', n)" by (cases x)
  have q: "(k', n) \<in> set m" "k' < lo" "\<And>y. y \<in> set m \<Longrightarrow> fst y < lo \<Longrightarrow> fst y \<le> k'"
    using Some by (auto simp: x bt_last_lt_eq_Some[OF rm_inv_wf[OF i]])
  have st: "search_start m lo = max lo (node_end n)" by (simp add: search_start_def Some x)
  note sg = segs_member[OF q(1)]
  consider "s = k'" | "s < k'" | "k' < s" by fastforce
  then show ?thesis
  proof cases
    case 1
    then show ?thesis using segs_ok_start[OF rm_inv_ok[OF i] sg, of e v] k(1) by (simp add: st)
  next
    case 2
    have "e \<le> k'" by (rule segs_ok_order[OF rm_inv_ok[OF i] k(1) sg 2])
    moreover have "k' < node_end n" using segs_okD1[OF rm_inv_ok[OF i] sg] .
    ultimately have "e \<le> node_end n" by order
    then show ?thesis by (simp add: st le_max_iff_disj)
  next
    case 3
    have "lo \<le> s" using q(3)[of "(s, \<lparr>node_end = e, node_value = v\<rparr>)"] k(1) 3 by (auto simp: in_segs not_less[symmetric])
    moreover have "node_end n \<le> s" by (rule segs_ok_order[OF rm_inv_ok[OF i] sg k(1) 3])
    ultimately show ?thesis using k(2) by (auto simp: st less_max_iff_disj)
  qed
qed

lemma find_free_range_free:
  assumes i: "rm_inv m" and infl: "\<And>a b. off a sz = Some b \<Longrightarrow> a \<le> b"
    and run: "rm_find_free_range m (lo, hi) sz off = Some (Some (s, t))"
  shows "lo \<le> s \<and> off s sz = Some t \<and> t \<le> hi \<and> \<not> overlaps (segs m) s t"
proof -
  let ?st = "search_start m lo"
  define es where "es = bt_between ?st hi m"
  have l: "rm_find_free_loop off sz hi es ?st = Some (Inr s)" and t: "off s sz = Some t" "t \<le> hi"
    using find_free_range_unfold[OF run] by (auto simp: es_def)
  have pos: "\<forall>(s, n)\<in>set es. s < node_end n"
    using segs_okD1[OF rm_inv_ok[OF i]] by (auto simp: es_def set_bt_between dest!: segs_member)
  have s: "s = (if es = [] then ?st else node_end (snd (last es)))"
    using find_free_loop_result[OF infl pos l] by blast
  have st: "?st \<le> s"
  proof (cases "es = []")
    case False
    then have "last es \<in> set es" by simp
    then have "?st \<le> fst (last es)" "fst (last es) < node_end (snd (last es))"
      using pos by (auto simp: es_def set_bt_between)
    then show ?thesis using s False by simp
  qed (simp add: s)
  have "e \<le> s" if k: "(s', e, v) \<in> segs m" "s' < hi" for s' e v
  proof (cases "s' < ?st")
    case True
    then show ?thesis using below_search_start[OF i k(1) True] st by simp
  next
    case False
    then have ne: "es \<noteq> []" using k by (force simp: es_def bt_between_def filter_empty_conv in_segs)
    then show ?thesis using between_last_end[OF i, of ?st hi s' e v] k False s by (auto simp: es_def)
  qed
  then have "\<not> overlaps (segs m) s t" using t(2) by (force simp: overlaps_def)
  then show ?thesis using t st search_start_ge[of lo m] by auto
qed

lemma find_free_loop_eq:
  assumes infl: "\<And>a b. off a sz = Some b \<Longrightarrow> a \<le> b"
    and mono: "\<And>a b x y. a \<le> b \<Longrightarrow> off a sz = Some x \<Longrightarrow> off b sz = Some y \<Longrightarrow> x \<le> y"
    and pos: "\<forall>(s, n)\<in>set es. s < node_end n \<and> off (node_end n) sz \<noteq> None"
    and asc: "sorted_wrt (\<lambda>x y. node_end (snd x) \<le> node_end (snd y)) es" and ne: "es \<noteq> []"
  shows "rm_find_free_loop off sz hi es st =
    Some (if the (off (node_end (snd (last es))) sz) \<le> hi then Inr (node_end (snd (last es))) else Inl ())"
  using pos asc ne
proof (induction es arbitrary: st)
  case (Cons p rest)
  obtain s n where p: "p = (s, n)" by (cases p)
  obtain x where x: "off (node_end n) sz = Some x" using Cons.prems (1) by (auto simp: p)
  have "s < node_end n" using Cons.prems (1) by (simp add: p)
  then have sx: "\<not> x \<le> s" using infl [OF x] by auto
  show ?case
  proof (cases "rest = []")
    case True
    then show ?thesis using x sx by (auto simp: p)
  next
    case False
    then have l: "last rest \<in> set rest" by simp
    then obtain y where y: "off (node_end (snd (last rest))) sz = Some y" using Cons.prems (1) by (fastforce dest: bspec [OF _ l])
    have "node_end n \<le> node_end (snd (last rest))" using Cons.prems (2) l by (simp add: p)
    then have "x \<le> y" using mono x y by blast
    then show ?thesis using Cons.IH [of "node_end n"] Cons.prems False x sx y by (auto simp: p)
  qed
qed simp


text \<open>Where the search ends: behind the last range that begins in the window.\<close>

definition window_top :: "('u::linorder, 'v) range_map \<Rightarrow> 'u \<Rightarrow> 'u \<Rightarrow> 'u" where
  "window_top m lo hi = (let es = bt_between lo hi m in if es = [] then lo else node_end (snd (last es)))"

lemma ends_ascend:
  assumes "rm_inv m"
  shows "sorted_wrt (\<lambda>x y. node_end (snd x) \<le> node_end (snd y)) (bt_between lo hi m)"
proof -
  have "sorted_wrt (\<lambda>x y. fst x < fst y) (bt_between lo hi m)"
    using rm_inv_wf [OF assms] by (simp add: bt_wf_def bt_between_def sorted_wrt_filter sorted_wrt_map)
  then show ?thesis
  proof (rule sorted_wrt_mono_rel [rotated])
    fix x y assume xy: "x \<in> set (bt_between lo hi m)" "y \<in> set (bt_between lo hi m)" "fst x < fst y"
    have sx: "(fst x, node_end (snd x), node_value (snd x)) \<in> segs m" and sy: "(fst y, node_end (snd y), node_value (snd y)) \<in> segs m"
      using xy segs_member [of "fst x" "snd x" m] segs_member [of "fst y" "snd y" m] by (auto simp: set_bt_between)
    have "node_end (snd x) \<le> fst y" by (rule segs_ok_order [OF rm_inv_ok [OF assms] sx sy xy (3)])
    moreover have "fst y < node_end (snd y)" by (rule segs_okD1 [OF rm_inv_ok [OF assms] sy])
    ultimately show "node_end (snd x) \<le> node_end (snd y)" by order
  qed
qed

lemma window_top_seg:
  assumes "rm_inv m" "bt_between lo hi m \<noteq> []"
  shows "\<exists>s v. (s, window_top m lo hi, v) \<in> segs m \<and> lo \<le> s \<and> s < hi \<and> s < window_top m lo hi"
proof -
  let ?l = "last (bt_between lo hi m)"
  have "?l \<in> set (bt_between lo hi m)" using assms (2) by simp
  then have l: "?l \<in> set m" "lo \<le> fst ?l" "fst ?l < hi" by (simp_all add: set_bt_between)
  then have "(fst ?l, node_end (snd ?l), node_value (snd ?l)) \<in> segs m" using segs_member [of "fst ?l" "snd ?l" m] by simp
  moreover from segs_okD1 [OF rm_inv_ok [OF assms (1)] this] have "fst ?l < node_end (snd ?l)" .
  ultimately show ?thesis using l assms (2) by (auto simp: window_top_def Let_def)
qed

lemma window_top_props:
  assumes "rm_inv m"
  shows "lo \<le> window_top m lo hi"
    "window_top m lo hi = lo \<or> (\<exists>s v. (s, window_top m lo hi, v) \<in> segs m \<and> lo \<le> s \<and> s < hi)"
    "(s, e, v) \<in> segs m \<Longrightarrow> lo \<le> s \<Longrightarrow> s < hi \<Longrightarrow> e \<le> window_top m lo hi"
proof -
  have seg: "\<exists>s v. (s, window_top m lo hi, v) \<in> segs m \<and> lo \<le> s \<and> s < hi \<and> s < window_top m lo hi" if "bt_between lo hi m \<noteq> []"
    by (rule window_top_seg [OF assms that])
  have nil: "window_top m lo hi = lo" if "bt_between lo hi m = []" using that by (simp add: window_top_def)
  show "lo \<le> window_top m lo hi" using seg nil by (cases "bt_between lo hi m = []") (simp, fastforce)
  show "window_top m lo hi = lo \<or> (\<exists>s v. (s, window_top m lo hi, v) \<in> segs m \<and> lo \<le> s \<and> s < hi)" using seg nil by blast
  assume k: "(s, e, v) \<in> segs m" "lo \<le> s" "s < hi"
  then have "bt_between lo hi m \<noteq> []" by (force simp: bt_between_def filter_empty_conv in_segs)
  then show "e \<le> window_top m lo hi" using between_last_end [OF assms _ k] by (simp add: window_top_def Let_def)
qed

text \<open>The result of the search when offsets can be computed up to the end of the window and no range crosses either end of the
  window: the range behind the last one in the window, if it fits, and nothing otherwise, whatever gaps lie before.\<close>

lemma find_free_range_exact:
  assumes i: "rm_inv m" and infl: "\<And>a b. off a sz = Some b \<Longrightarrow> a \<le> b"
    and tot: "\<And>a. a \<le> hi \<Longrightarrow> off a sz \<noteq> None"
    and mono: "\<And>a b x y. a \<le> b \<Longrightarrow> off a sz = Some x \<Longrightarrow> off b sz = Some y \<Longrightarrow> x \<le> y"
    and win: "lo \<le> hi" "\<And>s e v. (s, e, v) \<in> segs m \<Longrightarrow> s < lo \<Longrightarrow> e \<le> lo"
      "\<And>s e v. (s, e, v) \<in> segs m \<Longrightarrow> s < hi \<Longrightarrow> e \<le> hi"
    and t: "off (window_top m lo hi) sz = Some t"
  shows "rm_find_free_range m (lo, hi) sz off = Some (if t \<le> hi then Some (window_top m lo hi, t) else None)"
proof -
  let ?top = "window_top m lo hi"
  define es where "es = bt_between lo hi m"
  obtain first where f: "off lo sz = Some first" using tot [OF win (1)] by blast
  have ft: "first \<le> t" using mono [OF window_top_props (1) [OF i] f t] .
  have ends: "s < node_end n \<and> node_end n \<le> hi" if "(s, n) \<in> set es" for s n
    using that segs_okD1 [OF rm_inv_ok [OF i] segs_member] win (3) [OF segs_member] by (auto simp: es_def set_bt_between)
  then have pos: "\<forall>(s, n)\<in>set es. s < node_end n \<and> off (node_end n) sz \<noteq> None" using tot by fastforce
  have loop: "rm_find_free_loop off sz hi es lo = Some (if t \<le> hi then Inr ?top else Inl ())" if "first \<le> hi"
  proof (cases "es = []")
    case True
    then have "?top = lo" by (simp add: window_top_def es_def)
    then show ?thesis using that f t True by simp
  next
    case False
    then have "?top = node_end (snd (last es))" by (simp add: window_top_def es_def Let_def)
    moreover have "rm_find_free_loop off sz hi es lo =
        Some (if the (off (node_end (snd (last es))) sz) \<le> hi then Inr (node_end (snd (last es))) else Inl ())"
      by (rule find_free_loop_eq) (fact infl, fact mono, fact pos, unfold es_def, rule ends_ascend [OF i], fact False [unfolded es_def])
    ultimately show ?thesis using t by simp
  qed
  have range: "bt_range lo hi m = Some es" using win (1) by (simp add: bt_range_def es_def)
  have start: "(case bt_last_lt lo m of
      Some (_, n) \<Rightarrow> do { x \<leftarrow> off (node_end n) sz; rassert (x \<le> hi); Some (max lo (node_end n)) } | None \<Rightarrow> Some lo) = Some lo"
    if "first \<le> hi"
  proof (cases "bt_last_lt lo m")
    case (Some x)
    obtain k n where x: "x = (k, n)" by (cases x)
    have kn: "(k, n) \<in> set m" "k < lo" using Some by (auto simp: x bt_last_lt_eq_Some [OF rm_inv_wf [OF i]])
    have ne: "node_end n \<le> lo" using win (2) [OF segs_member [OF kn (1)] kn (2)] .
    obtain y where y: "off (node_end n) sz = Some y" using tot [of "node_end n"] ne win (1) by force
    have "y \<le> hi" using mono [OF ne y f] that by order
    then show ?thesis using Some x y ne by (simp add: max_absorb1)
  qed simp
  show ?thesis
  proof (cases "first \<le> hi")
    case True
    then have "\<not> first > hi" by simp
    then show ?thesis unfolding rm_find_free_range_def using start [OF True] range loop [OF True] f t by simp
  next
    case False
    then show ?thesis using f ft by (auto simp: rm_find_free_range_def)
  qed
qed

end
