(* ===== verification/Address.thy ===== *)
theory Address
  imports Prelude
begin

text \<open>
  The address arithmetic of the kernel: the constants of \<^verbatim>\<open>consts/\<close>, the linear map between
  physical and kernel addresses of \<^verbatim>\<open>memory/address/mod.rs\<close>, and the page rounding of
  \<^verbatim>\<open>memory/address/phys.rs\<close> and \<^verbatim>\<open>virt.rs\<close>. The wrapper structs \<open>PhysAddr\<close>, \<open>PhysAddr4K\<close>,
  \<open>PhysPageNum\<close> and their virtual counterparts hold one \<open>usize\<close> each and are represented by it.
\<close>

section \<open>Constants\<close>

definition PAGE_SIZE_BITS :: nat where "PAGE_SIZE_BITS = 12"
definition PAGE_SIZE :: usize where "PAGE_SIZE = push_bit PAGE_SIZE_BITS 1"
definition HUGE_PAGE_SIZE :: usize where "HUGE_PAGE_SIZE = push_bit 30 1"
definition PAGE_MASK :: usize where "PAGE_MASK = PAGE_SIZE - 1"
definition PTE_FLAGS_BITS :: nat where "PTE_FLAGS_BITS = 10"
definition PTE_FLAGS_MASK :: usize where "PTE_FLAGS_MASK = push_bit PTE_FLAGS_BITS 1 - 1"
definition PTE_PPN_MASK_SV39 :: usize where
  "PTE_PPN_MASK_SV39 = (push_bit 54 1 - 1) AND NOT PTE_FLAGS_MASK"

definition U_SEG_HEAP_BEG :: usize where "U_SEG_HEAP_BEG = 0x40000000"
definition U_SEG_HEAP_END :: usize where "U_SEG_HEAP_END = 0x80000000"
definition U_SEG_STACK_BEG :: usize where "U_SEG_STACK_BEG = 0x100000000"
definition U_SEG_STACK_END :: usize where "U_SEG_STACK_END = 0x200000000"
definition U_SEG_FILE_BEG :: usize where "U_SEG_FILE_BEG = 0x200000000"
definition U_SEG_FILE_END :: usize where "U_SEG_FILE_END = 0x400000000"
definition U_SEG_SHARE_BEG :: usize where "U_SEG_SHARE_BEG = 0x400000000"
definition U_SEG_SHARE_END :: usize where "U_SEG_SHARE_END = 0x600000000"
definition U_SEG_END :: usize where "U_SEG_END = 0x600000000"
definition K_SEG_BEG :: usize where "K_SEG_BEG = 0xffffffc000000000"
definition K_SEG_PHY_MEM_BEG :: usize where "K_SEG_PHY_MEM_BEG = 0xfffffff000000000"
definition K_SEG_TEXT_BEG :: usize where "K_SEG_TEXT_BEG = 0xffffffff80000000"
definition K_SEG_HARDWARE_BEG :: usize where "K_SEG_HARDWARE_BEG = 0xffffffffc0000000"
definition DEVICE_START :: usize where "DEVICE_START = 0xc000000"

lemmas page_consts = PAGE_SIZE_BITS_def PAGE_SIZE_def PAGE_MASK_def
  PTE_FLAGS_BITS_def PTE_FLAGS_MASK_def PTE_PPN_MASK_SV39_def
lemmas user_segs = U_SEG_HEAP_BEG_def U_SEG_HEAP_END_def U_SEG_STACK_BEG_def U_SEG_STACK_END_def
  U_SEG_FILE_BEG_def U_SEG_FILE_END_def U_SEG_SHARE_BEG_def U_SEG_SHARE_END_def U_SEG_END_def
lemmas kernel_segs = K_SEG_BEG_def K_SEG_PHY_MEM_BEG_def K_SEG_TEXT_BEG_def K_SEG_HARDWARE_BEG_def

text \<open>The values the device-tree parser writes at boot (\<open>register_mut_const!\<close>), and the linker
  symbol \<open>kernel_end\<close>.\<close>

record platform =
  phymem_start :: usize
  max_physical_memory :: usize
  platform_boot_pc :: usize
  kernel_end :: usize
  boot_pagetable_paddr :: usize

section \<open>Kernel address translation\<close>

definition kernel_phys_to_virt :: "platform \<Rightarrow> usize \<Rightarrow> usize option" where
  "kernel_phys_to_virt P addr =
     (if addr \<ge> K_SEG_BEG then Some addr
      else do {
        offset \<leftarrow> usub addr (phymem_start P);
        uadd offset K_SEG_PHY_MEM_BEG
      })"

definition kernel_virt_text_to_phys :: "platform \<Rightarrow> usize \<Rightarrow> usize option" where
  "kernel_virt_text_to_phys P addr =
     (if addr < K_SEG_TEXT_BEG then Some addr
      else do {
        offset \<leftarrow> usub addr K_SEG_TEXT_BEG;
        uadd offset (platform_boot_pc P)
      })"

definition kernel_virt_to_phys :: "platform \<Rightarrow> usize \<Rightarrow> usize option" where
  "kernel_virt_to_phys P addr =
     (if addr \<le> K_SEG_PHY_MEM_BEG then Some addr
      else do {
        offset \<leftarrow> usub addr K_SEG_PHY_MEM_BEG;
        uadd offset (phymem_start P)
      })"

definition kernel_phys_dev_to_virt :: "usize \<Rightarrow> usize option" where
  "kernel_phys_dev_to_virt addr =
     (if addr \<ge> K_SEG_BEG then Some addr
      else do {
        offset \<leftarrow> usub addr DEVICE_START;
        uadd offset K_SEG_HARDWARE_BEG
      })"

section \<open>Page rounding\<close>

definition PhysAddr4K_is_valid :: "usize \<Rightarrow> bool" where
  "PhysAddr4K_is_valid b \<longleftrightarrow> b < 0xffffffff00000000 \<and> b AND PAGE_MASK = 0"

definition assert_4k :: "usize \<Rightarrow> usize option" where
  "assert_4k b = do { rassert (b AND PAGE_MASK = 0); Some b }"

definition page_num :: "usize \<Rightarrow> usize" where
  "page_num a = a div PAGE_SIZE"

definition page_num_addr :: "usize \<Rightarrow> usize option" where
  "page_num_addr n = umul n PAGE_SIZE"

definition next_page :: "usize \<Rightarrow> usize option" where
  "next_page a = uadd a PAGE_SIZE"

definition prev_page :: "usize \<Rightarrow> usize option" where
  "prev_page a = usub a PAGE_SIZE"

definition page_num_down :: "usize \<Rightarrow> usize" where
  "page_num_down a = a div PAGE_SIZE"

definition page_num_up :: "usize \<Rightarrow> usize option" where
  "page_num_up a = uadd (page_num_down a) 1"

definition round_down :: "usize \<Rightarrow> usize" where
  "round_down a = a AND NOT PAGE_MASK"

definition round_up :: "usize \<Rightarrow> usize option" where
  "round_up a = uadd (a AND NOT PAGE_MASK) PAGE_SIZE"

definition floor4k :: "usize \<Rightarrow> usize" where
  "floor4k a = round_down a"

definition ceil4k :: "usize \<Rightarrow> usize option" where
  "ceil4k a = do { b \<leftarrow> uadd a PAGE_SIZE; b \<leftarrow> usub b 1; Some (b AND NOT PAGE_MASK) }"

definition PhysAddr_floor :: "usize \<Rightarrow> usize" where
  "PhysAddr_floor a = a AND NOT PAGE_MASK"

definition PhysAddr_ceil :: "usize \<Rightarrow> usize option" where
  "PhysAddr_ceil a = do { b \<leftarrow> uadd a PAGE_SIZE; b \<leftarrow> usub b 1; Some (b AND NOT PAGE_MASK) }"

definition page_offset :: "usize \<Rightarrow> usize" where
  "page_offset a = a AND PAGE_MASK"

section \<open>Ranges of addresses\<close>

type_synonym VirtAddrRange = "usize \<times> usize"

definition round_range :: "VirtAddrRange \<Rightarrow> VirtAddrRange option" where
  "round_range r = do { e \<leftarrow> ceil4k (snd r); Some (floor4k (fst r), e) }"

definition round_range_4k :: "VirtAddrRange \<Rightarrow> VirtAddrRange option" where
  "round_range_4k r = do { e \<leftarrow> ceil4k (snd r); Some (floor4k (fst r), e) }"

definition round_range_vpn :: "VirtAddrRange \<Rightarrow> (usize \<times> usize) option" where
  "round_range_vpn r = do { (s, e) \<leftarrow> round_range_4k r; Some (page_num s, page_num e) }"

function iter_vpn_loop :: "usize \<Rightarrow> usize \<Rightarrow> (usize \<Rightarrow> 's \<Rightarrow> 's option) \<Rightarrow> 's \<Rightarrow> 's option" where
  "iter_vpn_loop vpn end' f s =
     (if vpn < end' then do { s \<leftarrow> f vpn s; vpn' \<leftarrow> uadd vpn 1; iter_vpn_loop vpn' end' f s }
      else Some s)"
  by pat_completeness auto
termination
  by (relation "measure (\<lambda>(vpn, end', f, s). unat end' - unat vpn)")
    (auto dest!: unat_uadd simp: word_less_nat_alt)

declare iter_vpn_loop.simps [simp del]

definition iter_vpn :: "VirtAddrRange \<Rightarrow> (usize \<Rightarrow> 's \<Rightarrow> 's option) \<Rightarrow> 's \<Rightarrow> 's option" where
  "iter_vpn r f s = do { (a, b) \<leftarrow> round_range_vpn r; iter_vpn_loop a b f s }"

section \<open>Laws\<close>

lemma PAGE_SIZE_eq [simp]: "PAGE_SIZE = 4096" and PAGE_MASK_eq: "PAGE_MASK = mask 12"
  by (simp_all add: page_consts mask_eq_exp_minus_1)

lemma and_not_mask: "(x::'a::len word) AND NOT (mask n) = push_bit n (drop_bit n x)"
  by (rule bit_word_eqI) (auto simp: bit_simps)

lemma unat_and_not_mask: "unat ((x::'a::len word) AND NOT (mask n)) = unat x div 2 ^ n * 2 ^ n"
proof -
  have "unat x div 2 ^ n * 2 ^ n < 2 ^ LENGTH('a)"
    by (rule le_less_trans[OF _ unat_lt2p[of x]]) simp
  moreover have "unat (x AND NOT (mask n)) = take_bit LENGTH('a) (push_bit n (drop_bit n (unat x)))"
    using unat_lt2p[of x] by (simp only: and_not_mask unsigned_push_bit_eq unsigned_drop_bit_eq take_bit_nat_eq_self)
  ultimately show ?thesis
    by (simp add: push_bit_eq_mult drop_bit_eq_div take_bit_eq_mod)
qed

lemma unat_and_mask: "unat ((x::'a::len word) AND mask n) = unat x mod 2 ^ n"
  by (metis take_bit_eq_mask take_bit_eq_mod unsigned_take_bit_eq)

lemma unat_floor4k: "unat (floor4k a) = unat a div 4096 * 4096"
  by (simp add: floor4k_def round_down_def PAGE_MASK_eq unat_and_not_mask)

lemma unat_page_offset: "unat (page_offset a) = unat a mod 4096"
  by (simp add: page_offset_def PAGE_MASK_eq unat_and_mask)

lemma unat_page_num: "unat (page_num a) = unat a div 4096"
  by (simp add: page_num_def unat_div)

lemma aligned_iff: "a AND PAGE_MASK = 0 \<longleftrightarrow> unat a mod 4096 = 0"
proof -
  have "a AND PAGE_MASK = 0 \<longleftrightarrow> unat (a AND PAGE_MASK) = 0" by (simp only: unat_eq_zero)
  then show ?thesis by (simp add: PAGE_MASK_eq unat_and_mask)
qed

lemma ceil4k_eq:
  "ceil4k a = (if unat a + 4096 < 2 ^ 64 then Some (word_of_nat ((unat a + 4095) div 4096 * 4096)) else None)"
proof (cases "unat a + 4096 < 2 ^ 64")
  case True
  have u: "unat (a + 4096) = unat a + 4096" using True by (simp add: unat_word_ariths)
  have le: "1 \<le> a + 4096" using u by (simp add: word_le_nat_alt)
  have "unat (a + 4096 - 1) = unat a + 4095" using u by (simp only: unat_sub[OF le]) simp
  then have "unat ((a + 4096 - 1) AND NOT PAGE_MASK) = (unat a + 4095) div 4096 * 4096"
    by (simp add: PAGE_MASK_eq unat_and_not_mask)
  then have "(a + 4096 - 1) AND NOT PAGE_MASK = word_of_nat ((unat a + 4095) div 4096 * 4096)"
    by (metis of_nat_unat ucast_id)
  then show ?thesis using True le by (simp add: ceil4k_def uadd_def usub_def)
qed (simp add: ceil4k_def uadd_def)

lemma unat_ceil4k:
  assumes "ceil4k a = Some c"
  shows "unat c = (unat a + 4095) div 4096 * 4096"
proof -
  have b: "unat a + 4096 < 2 ^ 64" and c: "c = word_of_nat ((unat a + 4095) div 4096 * 4096)"
    using assms by (auto simp: ceil4k_eq split: if_splits)
  have "(unat a + 4095) div 4096 * 4096 \<le> unat a + 4095" by simp
  also have "\<dots> < 2 ^ 64" using b by simp
  finally show ?thesis unfolding c by (intro unat_word_of_nat) simp
qed

lemma iter_vpn_loop_eq:
  "iter_vpn_loop vpn end' f s = foldM f (map word_of_nat [unat vpn..<unat end']) s"
proof (induction vpn end' f s rule: iter_vpn_loop.induct)
  case (1 vpn end' f s)
  show ?case
  proof (cases "vpn < end'")
    case True
    then have lt: "unat vpn < unat end'" by (simp add: word_less_nat_alt)
    then have u: "uadd vpn 1 = Some (vpn + 1)"
      using unat_lt2p[of end'] by (simp add: uadd_def)
    then have "unat (vpn + 1) = unat vpn + 1" using unat_uadd by fastforce
    then have l: "[unat vpn..<unat end'] = unat vpn # [unat (vpn + 1)..<unat end']"
      using lt by (simp add: upt_conv_Cons)
    show ?thesis
      using "1.IH"[OF True _ u] True
      by (subst iter_vpn_loop.simps) (auto simp: u l split: bind_split)
  next
    case False
    then show ?thesis by (subst iter_vpn_loop.simps) (simp add: word_less_nat_alt)
  qed
qed

lemma iter_vpn_eq:
  "iter_vpn (a, b) f s =
    (if unat b + 4096 < 2 ^ 64
     then foldM f (map word_of_nat [unat a div 4096..<(unat b + 4095) div 4096]) s else None)"
proof (cases "ceil4k b")
  case None
  then show ?thesis
    by (auto simp: iter_vpn_def round_range_vpn_def round_range_4k_def ceil4k_eq split: if_splits)
next
  case (Some c)
  then have "unat b + 4096 < 2 ^ 64" by (auto simp: ceil4k_eq split: if_splits)
  then show ?thesis using Some
    by (simp add: iter_vpn_def round_range_vpn_def round_range_4k_def iter_vpn_loop_eq
        unat_page_num unat_floor4k unat_ceil4k)
qed

text \<open>The pages that \<open>iter_vpn\<close> visits: those that hold an address of the range.\<close>

definition vpns_of :: "usize \<Rightarrow> usize \<Rightarrow> usize list" where
  "vpns_of a b = map word_of_nat [unat a div 4096..<(unat b + 4095) div 4096]"

lemma vpns_of_bound:
  assumes "n < (unat (b::usize) + 4095) div 4096"
  shows "unat (word_of_nat n :: usize) = n"
proof (rule unat_word_of_nat)
  have "n \<le> unat b + 4095" using assms by (simp add: less_mult_imp_div_less)
  have "(unat b + 4095) div 4096 \<le> (2 ^ 64 + 4095) div 4096"
    using unat_lt2p[of b] by (intro div_le_mono) simp
  then show "n < 2 ^ LENGTH(64)" using assms by simp
qed

lemma sorted_vpns_of: "sorted (vpns_of a b)" and distinct_vpns_of: "distinct (vpns_of a b)"
proof -
  let ?xs = "[unat a div 4096..<(unat b + 4095) div 4096]"
  have u: "map unat (vpns_of a b) = ?xs"
    unfolding vpns_of_def by (simp, intro map_idI) (auto intro: vpns_of_bound)
  have "sorted (map unat (vpns_of a b))" "distinct (map unat (vpns_of a b))"
    by (simp_all only: u sorted_upt distinct_upt)
  then show "sorted (vpns_of a b)" "distinct (vpns_of a b)"
    by (simp_all add: sorted_wrt_map distinct_map flip: word_le_nat_alt)
qed

lemma set_vpns_of: "vpn \<in> set (vpns_of a b) \<longleftrightarrow> unat a div 4096 \<le> unat vpn \<and> unat vpn < (unat b + 4095) div 4096"
proof
  assume "unat a div 4096 \<le> unat vpn \<and> unat vpn < (unat b + 4095) div 4096"
  then have "unat vpn \<in> set [unat a div 4096..<(unat b + 4095) div 4096]" by simp
  then have "word_of_nat (unat vpn) \<in> set (vpns_of a b)" unfolding vpns_of_def by (metis image_eqI set_map)
  then show "vpn \<in> set (vpns_of a b)" by simp
qed (auto simp: vpns_of_def vpns_of_bound)

lemma set_vpns_of_pages:
  assumes "a < b"
  shows "set (vpns_of a b) = page_num ` {a..<b}"
proof (intro set_eqI iffI)
  fix v assume "v \<in> set (vpns_of a b)"
  then have v: "unat a div 4096 \<le> unat v" "unat v < (unat b + 4095) div 4096"
    by (simp_all add: set_vpns_of)
  define n where "n = max (unat a) (unat v * 4096)"
  have lt: "unat v * 4096 < unat b" using v(2) by linarith
  have nb: "n < unat b" using lt assms by (simp add: n_def word_less_nat_alt)
  have u: "unat (word_of_nat n :: usize) = n" using nb unat_lt2p[of b] by (intro unat_word_of_nat) linarith
  have "n div 4096 = unat v" using v(1) by (auto simp: n_def max_def)
  then have "unat (page_num (word_of_nat n)) = unat v" by (simp add: unat_page_num u)
  then have "v = page_num (word_of_nat n)" by (metis unsigned_word_eqI)
  moreover have "word_of_nat n \<in> {a..<b}" using nb u by (simp add: word_le_nat_alt word_less_nat_alt n_def)
  ultimately show "v \<in> page_num ` {a..<b}" by blast
next
  fix v assume "v \<in> page_num ` {a..<b}"
  then obtain x where "v = page_num x" "unat a \<le> unat x" "unat x < unat b"
    by (auto simp: word_le_nat_alt word_less_nat_alt)
  then show "v \<in> set (vpns_of a b)" by (auto simp: set_vpns_of unat_page_num)
qed

section \<open>Properties\<close>

text \<open>
  The direct map of physical memory is invertible: for a physical address in the window
  the direct map covers, \<open>kernel_phys_to_virt\<close> succeeds and \<open>kernel_virt_to_phys\<close> takes its
  result back to the address, except for the very first byte of physical memory, whose kernel
  address \<open>K_SEG_PHY_MEM_BEG\<close> is returned unchanged because the guard is \<open><=\<close>.
\<close>

theorem phys_virt_roundtrip:
  assumes "phymem_start P \<le> addr" "addr < K_SEG_BEG"
    and "unat addr - unat (phymem_start P) < 2 ^ 36"
  shows "\<exists>v. kernel_phys_to_virt P addr = Some v \<and> K_SEG_PHY_MEM_BEG \<le> v \<and>
    kernel_virt_to_phys P v = Some (if addr = phymem_start P then v else addr)"
proof -
  let ?o = "addr - phymem_start P"
  have o: "unat ?o = unat addr - unat (phymem_start P)" using assms(1) by (simp add: unat_sub)
  have K: "unat K_SEG_PHY_MEM_BEG = 0xfffffff000000000" by (simp add: K_SEG_PHY_MEM_BEG_def)
  have add: "uadd ?o K_SEG_PHY_MEM_BEG = Some (?o + K_SEG_PHY_MEM_BEG)"
    using assms(3) by (intro uadd_SomeI) (simp add: o K)
  note v = unat_uadd[OF add]
  have p: "kernel_phys_to_virt P addr = Some (?o + K_SEG_PHY_MEM_BEG)"
    using assms(1) assms(2)[unfolded not_le[symmetric]] add by (auto simp: kernel_phys_to_virt_def usub_def)
  have eq: "?o + K_SEG_PHY_MEM_BEG \<le> K_SEG_PHY_MEM_BEG \<longleftrightarrow> addr = phymem_start P"
  proof -
    have "?o + K_SEG_PHY_MEM_BEG \<le> K_SEG_PHY_MEM_BEG \<longleftrightarrow> unat ?o = 0" using v by (simp add: word_le_nat_alt)
    then show ?thesis by (simp add: unat_eq_zero)
  qed
  have "unat ?o + unat (phymem_start P) < 2 ^ 64"
    using o unat_lt2p[of addr] assms(1) by (simp add: word_le_nat_alt)
  then have "uadd ?o (phymem_start P) = Some addr" by (simp add: uadd_def)
  moreover have "K_SEG_PHY_MEM_BEG \<le> ?o + K_SEG_PHY_MEM_BEG" using v by (simp add: word_le_nat_alt)
  ultimately show ?thesis using p eq by (auto simp: kernel_virt_to_phys_def usub_def)
qed

theorem phys_virt_roundtrip_witness:
  "\<exists>v. kernel_phys_to_virt \<lparr>phymem_start = 0x80000000, max_physical_memory = 0x8000000,
      platform_boot_pc = 0x80200000, kernel_end = 0xffffffff80400000, boot_pagetable_paddr = 0x80300000\<rparr>
      0x80201000 = Some v \<and> K_SEG_PHY_MEM_BEG \<le> v \<and>
    kernel_virt_to_phys \<lparr>phymem_start = 0x80000000, max_physical_memory = 0x8000000,
      platform_boot_pc = 0x80200000, kernel_end = 0xffffffff80400000, boot_pagetable_paddr = 0x80300000\<rparr>
      v = Some 0x80201000"
  using phys_virt_roundtrip[of "\<lparr>phymem_start = 0x80000000, max_physical_memory = 0x8000000,
      platform_boot_pc = 0x80200000, kernel_end = 0xffffffff80400000, boot_pagetable_paddr = 0x80300000\<rparr>"
      "0x80201000"] by (simp add: K_SEG_BEG_def)

text \<open>
  \<open>iter_vpn\<close> visits the pages of a non-empty address range in ascending order, each once,
  and exactly those pages that hold an address of the range; a panic of the visitor ends the
  iteration.
\<close>

theorem iter_vpn_visits:
  assumes "a < b" "unat b + 4096 < 2 ^ 64"
  shows "\<exists>vpns. sorted vpns \<and> distinct vpns \<and> set vpns = page_num ` {a..<b} \<and>
    iter_vpn (a, b) f s = foldM f vpns s"
  using sorted_vpns_of distinct_vpns_of set_vpns_of_pages[OF assms(1)] assms(2)
  by (intro exI[of _ "vpns_of a b"]) (simp add: iter_vpn_eq vpns_of_def)

theorem iter_vpn_visits_witness:
  "\<exists>vpns. sorted vpns \<and> distinct vpns \<and> set vpns = page_num ` {0x1800..<0x4001} \<and>
    iter_vpn (0x1800, 0x4001) (\<lambda>vpn s. Some (s @ [vpn])) [] = foldM (\<lambda>vpn s. Some (s @ [vpn])) vpns []"
  using iter_vpn_visits[of "0x1800" "0x4001"] by simp

end
