(* ===== verification/Pte.thy ===== *)
theory Pte
  imports Address
begin

text \<open>
  Page-table entries, \<^verbatim>\<open>memory/pagetable/pte.rs\<close>: \<open>PTEFlags\<close> is a 16-bit flag set, a
  \<open>PageTableEntry\<close> one 64-bit word that packs the physical page number above ten flag bits.
  The operations that also allocate or free a frame are in \<open>Frame\<close>.
\<close>

section \<open>Flags\<close>

type_synonym PTEFlags = u16

definition F_V :: PTEFlags where "F_V = push_bit 0 1"
definition F_R :: PTEFlags where "F_R = push_bit 1 1"
definition F_W :: PTEFlags where "F_W = push_bit 2 1"
definition F_X :: PTEFlags where "F_X = push_bit 3 1"
definition F_U :: PTEFlags where "F_U = push_bit 4 1"
definition F_G :: PTEFlags where "F_G = push_bit 5 1"
definition F_A :: PTEFlags where "F_A = push_bit 6 1"
definition F_D :: PTEFlags where "F_D = push_bit 7 1"
definition F_SHARED :: PTEFlags where "F_SHARED = push_bit 8 1"
definition F_RSW2 :: PTEFlags where "F_RSW2 = push_bit 9 1"

lemmas pte_flag_defs = F_V_def F_R_def F_W_def F_X_def F_U_def F_G_def F_A_def F_D_def
  F_SHARED_def F_RSW2_def

text \<open>What the \<open>bitflags\<close> macro derives: inclusion, intersection and the checked conversion
  from raw bits, which fails on a bit that names no flag.\<close>

definition flags_contains :: "PTEFlags \<Rightarrow> PTEFlags \<Rightarrow> bool" where
  "flags_contains f g \<longleftrightarrow> f AND g = g"

definition flags_intersects :: "PTEFlags \<Rightarrow> PTEFlags \<Rightarrow> bool" where
  "flags_intersects f g \<longleftrightarrow> f AND g \<noteq> 0"

definition flags_all :: PTEFlags where
  "flags_all = F_V OR F_R OR F_W OR F_X OR F_U OR F_G OR F_A OR F_D OR F_SHARED OR F_RSW2"

definition flags_from_bits :: "u16 \<Rightarrow> PTEFlags option" where
  "flags_from_bits b = (if b AND NOT flags_all = 0 then Some b else None)"

definition flags_writable :: "PTEFlags \<Rightarrow> bool" where
  "flags_writable f = flags_contains f F_W"

definition flags_executable :: "PTEFlags \<Rightarrow> bool" where
  "flags_executable f = flags_contains f F_X"

definition flags_valid :: "PTEFlags \<Rightarrow> bool" where
  "flags_valid f = flags_contains f F_V"

definition flags_rwx :: PTEFlags where
  "flags_rwx = F_R OR F_W OR F_X OR F_A OR F_D"

definition flags_rw :: PTEFlags where
  "flags_rw = F_R OR F_W OR F_A OR F_D"

section \<open>Entries\<close>

type_synonym PageTableEntry = usize

definition pte_new :: "usize \<Rightarrow> PTEFlags \<Rightarrow> PageTableEntry" where
  "pte_new paddr perm = (drop_bit 2 paddr AND PTE_PPN_MASK_SV39) OR ucast perm"

definition pte_EMPTY :: PageTableEntry where "pte_EMPTY = 0"

definition pte_clear :: "PageTableEntry \<Rightarrow> PageTableEntry" where
  "pte_clear _ = pte_EMPTY"

definition pte_ppn :: "PageTableEntry \<Rightarrow> usize" where
  "pte_ppn e = drop_bit 10 (e AND PTE_PPN_MASK_SV39)"

definition pte_paddr :: "PageTableEntry \<Rightarrow> usize option" where
  "pte_paddr e = page_num_addr (pte_ppn e)"

definition pte_flags :: "PageTableEntry \<Rightarrow> PTEFlags option" where
  "pte_flags e = flags_from_bits (ucast (e AND PTE_FLAGS_MASK))"

definition pte_has :: "PTEFlags \<Rightarrow> PageTableEntry \<Rightarrow> bool option" where
  "pte_has g e = do { f \<leftarrow> pte_flags e; Some (flags_contains f g) }"

definition pte_is_valid :: "PageTableEntry \<Rightarrow> bool option" where
  "pte_is_valid e = do { f \<leftarrow> pte_flags e; Some (flags_valid f) }"

definition pte_kind_mask :: PTEFlags where
  "pte_kind_mask = F_R OR F_W OR F_X OR F_U"

definition pte_is_directory :: "PageTableEntry \<Rightarrow> bool option" where
  "pte_is_directory e = do {
     v \<leftarrow> pte_is_valid e; f \<leftarrow> pte_flags e; Some (v \<and> f AND pte_kind_mask = 0) }"

definition pte_is_leaf :: "PageTableEntry \<Rightarrow> bool option" where
  "pte_is_leaf e = do {
     v \<leftarrow> pte_is_valid e; f \<leftarrow> pte_flags e; Some (v \<and> f AND pte_kind_mask \<noteq> 0) }"

definition pte_readable :: "PageTableEntry \<Rightarrow> bool option" where
  "pte_readable e = pte_has F_R e"

definition pte_writable :: "PageTableEntry \<Rightarrow> bool option" where
  "pte_writable e = pte_has F_W e"

definition pte_executable :: "PageTableEntry \<Rightarrow> bool option" where
  "pte_executable e = pte_has F_X e"

definition pte_is_user :: "PageTableEntry \<Rightarrow> bool option" where
  "pte_is_user e = pte_has F_U e"

definition pte_shared :: "PageTableEntry \<Rightarrow> bool option" where
  "pte_shared e = pte_has F_SHARED e"

definition pte_rsw_8 :: "PageTableEntry \<Rightarrow> bool" where
  "pte_rsw_8 e \<longleftrightarrow> e AND push_bit 8 1 \<noteq> 0"

definition pte_rsw_9 :: "PageTableEntry \<Rightarrow> bool" where
  "pte_rsw_9 e \<longleftrightarrow> e AND push_bit 9 1 \<noteq> 0"

definition pte_reserved_bits :: "PageTableEntry \<Rightarrow> usize" where
  "pte_reserved_bits e = e AND push_bit 54 (push_bit 10 1 - 1)"

definition pte_set_rwx :: "PTEFlags \<Rightarrow> PageTableEntry \<Rightarrow> PageTableEntry" where
  "pte_set_rwx flag e = (let m = ucast (F_R OR F_W OR F_X); fl = ucast flag AND m
     in (e AND NOT m) OR fl)"

definition pte_set_writable :: "PageTableEntry \<Rightarrow> PageTableEntry" where
  "pte_set_writable e = e OR ucast F_W"

definition pte_clear_writable :: "PageTableEntry \<Rightarrow> PageTableEntry" where
  "pte_clear_writable e = e AND NOT (ucast F_W)"

definition pte_set_user :: "PageTableEntry \<Rightarrow> PageTableEntry" where
  "pte_set_user e = e OR ucast F_U"

definition pte_clear_user :: "PageTableEntry \<Rightarrow> PageTableEntry" where
  "pte_clear_user e = e AND NOT (ucast F_U)"

definition pte_set_shared :: "PageTableEntry \<Rightarrow> PageTableEntry" where
  "pte_set_shared e = e OR ucast F_SHARED"

text \<open>\<open>!\<close> binds tighter than \<open>as\<close>: the negation is taken in the 16-bit flag type and the result
  is then zero-extended.\<close>

definition pte_clear_shared :: "PageTableEntry \<Rightarrow> PageTableEntry" where
  "pte_clear_shared e = e AND ucast (NOT F_SHARED)"

definition pte_become_shared :: "bool \<Rightarrow> PageTableEntry \<Rightarrow> PageTableEntry option" where
  "pte_become_shared shared_writable e = do {
     s \<leftarrow> pte_shared e; rassert (\<not> s);
     let e = pte_set_shared e;
     Some (if shared_writable then e else pte_clear_writable e) }"

definition pte_become_unique :: "bool \<Rightarrow> PageTableEntry \<Rightarrow> PageTableEntry option" where
  "pte_become_unique unique_writable e = do {
     s \<leftarrow> pte_shared e; rassert s;
     let e = pte_clear_shared e;
     Some (if unique_writable then pte_set_writable e else e) }"

definition pte_map_frame :: "PTEFlags \<Rightarrow> usize \<Rightarrow> PageTableEntry \<Rightarrow> PageTableEntry option" where
  "pte_map_frame perm pa e = do {
     v \<leftarrow> pte_is_valid e; rassert (\<not> v);
     Some (pte_new pa (perm OR F_D OR F_A OR F_V)) }"

section \<open>Laws\<close>

text \<open>Reading flags never fails: the ten bits that are kept all name a flag. So each predicate
  of an entry is a test of its bits.\<close>

lemma flags_all_mask: "flags_all = mask 10"
  by (simp add: flags_all_def pte_flag_defs mask_eq_exp_minus_1)

lemma pte_flags_mask: "PTE_FLAGS_MASK = mask 10"
  by (simp add: page_consts mask_eq_exp_minus_1)

lemma pte_flags_eq [simp]: "pte_flags e = Some (ucast (e AND mask 10))"
proof -
  have "(ucast (e AND mask 10) :: u16) AND NOT (mask 10) = 0"
    by (rule bit_word_eqI) (auto simp: bit_simps)
  then show ?thesis by (simp add: pte_flags_def flags_from_bits_def flags_all_mask pte_flags_mask)
qed

lemma contains_iff: "flags_contains f g \<longleftrightarrow> (\<forall>m. bit g m \<longrightarrow> bit f m)"
  unfolding flags_contains_def bit_eq_iff bit_and_iff by (blast dest: bit_imp_possible_bit)

lemma bit_flag: "bit (push_bit n 1 :: 'a::len word) m \<longleftrightarrow> m = n \<and> n < LENGTH('a)"
  by (auto simp: bit_exp_iff)

lemma contains_bit: "flags_contains f (push_bit n 1) \<longleftrightarrow> bit f n \<or> n \<ge> 16"
  unfolding contains_iff bit_flag by auto

lemma contains_flags [simp]:
  "flags_contains f F_V = bit f 0" "flags_contains f F_R = bit f 1" "flags_contains f F_W = bit f 2"
  "flags_contains f F_X = bit f 3" "flags_contains f F_U = bit f 4" "flags_contains f F_SHARED = bit f 8"
  unfolding pte_flag_defs contains_bit by simp_all

lemma pte_tests [simp]:
  "pte_is_valid e = Some (bit e 0)" "pte_readable e = Some (bit e 1)" "pte_writable e = Some (bit e 2)"
  "pte_executable e = Some (bit e 3)" "pte_is_user e = Some (bit e 4)" "pte_shared e = Some (bit e 8)"
  by (simp_all add: pte_is_valid_def flags_valid_def pte_readable_def pte_writable_def pte_executable_def
      pte_is_user_def pte_shared_def pte_has_def bit_simps)

definition leafy :: "PageTableEntry \<Rightarrow> bool" where
  "leafy e \<longleftrightarrow> bit e 1 \<or> bit e 2 \<or> bit e 3 \<or> bit e 4"

lemma kind_mask_zero: "(ucast (e AND mask 10) :: u16) AND pte_kind_mask = 0 \<longleftrightarrow> \<not> leafy e"
proof -
  have k: "bit pte_kind_mask n \<longleftrightarrow> n \<in> {1, 2, 3, 4}" for n
    unfolding pte_kind_mask_def pte_flag_defs bit_or_iff bit_flag by auto
  have "(ucast (e AND mask 10) :: u16) AND pte_kind_mask = 0 \<longleftrightarrow>
      (\<forall>n<16. \<not> (bit e n \<and> n < 10 \<and> n \<in> {1, 2, 3, 4}))"
    by (subst bit_eq_iff) (auto simp: bit_simps k)
  also have "\<dots> \<longleftrightarrow> (\<forall>n\<in>{1, 2, 3, 4}. \<not> bit e n)"
  proof -
    have "n < 16 \<and> n < 10" if "n \<in> {1, 2, 3, 4}" for n :: nat using that by auto
    then show ?thesis by blast
  qed
  also have "\<dots> \<longleftrightarrow> \<not> leafy e" by (simp add: leafy_def)
  finally show ?thesis .
qed

lemma pte_kinds [simp]:
  "pte_is_directory e = Some (bit e 0 \<and> \<not> leafy e)" "pte_is_leaf e = Some (bit e 0 \<and> leafy e)"
  by (simp_all add: pte_is_directory_def pte_is_leaf_def kind_mask_zero)

text \<open>Packing a frame address and flags, and reading them back.\<close>

lemma bit_flags_mask: "bit (PTE_PPN_MASK_SV39) n \<longleftrightarrow> 10 \<le> n \<and> n < 54"
proof -
  have m: "PTE_PPN_MASK_SV39 = mask 54 AND NOT (mask 10)"
    by (simp add: page_consts mask_eq_exp_minus_1)
  show ?thesis unfolding m by (auto simp: bit_simps)
qed

lemma bit_pte_new:
  "bit (pte_new pa fl) n \<longleftrightarrow> bit pa (n + 2) \<and> 10 \<le> n \<and> n < 54 \<or> bit fl n"
  by (auto simp: pte_new_def bit_simps bit_flags_mask add.commute dest: bit_imp_le_length)

lemma pte_ppn_new:
  assumes "fl AND NOT (mask 10) = 0"
  shows "pte_ppn (pte_new pa fl) = drop_bit 12 (pa AND mask 56)"
proof (rule bit_word_eqI)
  fix n :: nat assume "n < LENGTH(64)"
  have "\<not> bit fl (n + 10)"
  proof
    assume f: "bit fl (n + 10)"
    then have "bit (fl AND NOT (mask 10)) (n + 10)"
      using bit_imp_le_length[OF f] by (simp add: bit_simps)
    then show False using assms by simp
  qed
  then show "bit (pte_ppn (pte_new pa fl)) n = bit (drop_bit 12 (pa AND mask 56)) n"
    by (auto simp: pte_ppn_def bit_simps bit_flags_mask bit_pte_new add.commute)
qed

lemma page_num_drop: "drop_bit 12 (a::usize) = page_num a"
proof -
  have "unat (drop_bit 12 a) = unat (page_num a)"
    by (simp only: unat_page_num unsigned_drop_bit_eq) (simp add: drop_bit_eq_div take_bit_nat_eq_self unat_lt2p[of a, simplified])
  then show ?thesis by (rule unsigned_word_eqI)
qed

lemma and_mask_56: "unat (pa::usize) < 2 ^ 56 \<Longrightarrow> pa AND mask 56 = pa"
  by (metis less_mask_eq take_bit_eq_mask take_bit_nat_eq_self unsigned_take_bit_eq unsigned_word_eqI)

lemma page_num_addr_page_num:
  assumes "unat a mod 4096 = 0"
  shows "page_num_addr (page_num a) = Some a"
proof -
  have e: "unat (page_num a) * 4096 = unat a" using assms by (auto simp: unat_page_num)
  then have "unat (page_num a * 4096) = unat a"
    using unat_lt2p[of a] by (simp add: unat_word_ariths)
  then have "page_num a * 4096 = a" by (rule unsigned_word_eqI)
  then show ?thesis using e unat_lt2p[of a] by (simp add: page_num_addr_def umul_def)
qed

lemma pte_paddr_new:
  assumes "unat pa mod 4096 = 0" "unat pa < 2 ^ 56" "fl AND NOT (mask 10) = 0"
  shows "pte_paddr (pte_new pa fl) = Some pa"
  using assms by (simp add: pte_paddr_def pte_ppn_new and_mask_56 page_num_drop page_num_addr_page_num)

lemma bit_ucast_flag: "bit (ucast (push_bit k 1 :: u16) :: usize) n \<longleftrightarrow> n = k \<and> k < 16"
  by (auto simp: bit_simps bit_flag simp del: push_bit_of_1)

lemma bit_set_shared: "bit (pte_set_shared e) n \<longleftrightarrow> bit e n \<or> n = 8"
  and bit_set_writable: "bit (pte_set_writable e) n \<longleftrightarrow> bit e n \<or> n = 2"
  and bit_set_user: "bit (pte_set_user e) n \<longleftrightarrow> bit e n \<or> n = 4"
  unfolding pte_set_shared_def pte_set_writable_def pte_set_user_def pte_flag_defs bit_or_iff bit_ucast_flag
  by auto

lemma bit_clear_writable: "bit (pte_clear_writable e) n \<longleftrightarrow> bit e n \<and> n \<noteq> 2"
  and bit_clear_user: "bit (pte_clear_user e) n \<longleftrightarrow> bit e n \<and> n \<noteq> 4"
  unfolding pte_clear_writable_def pte_clear_user_def pte_flag_defs bit_and_iff bit_not_iff bit_ucast_flag
  by (auto dest: bit_imp_possible_bit)

lemma bit_set_rwx: "bit (pte_set_rwx f e) n \<longleftrightarrow> (if n \<in> {1, 2, 3} then bit f n else bit e n)"
proof -
  have m: "bit (ucast (F_R OR F_W OR F_X) :: usize) n \<longleftrightarrow> n \<in> {1, 2, 3}"
    unfolding pte_flag_defs unsigned_or_eq bit_or_iff bit_ucast_flag by auto
  show ?thesis
    unfolding pte_set_rwx_def Let_def bit_or_iff bit_and_iff bit_not_iff m
    by (auto simp: bit_simps dest: bit_imp_le_length)
qed

lemmas pte_bits = bit_set_shared bit_set_writable bit_set_user bit_clear_writable bit_clear_user
  bit_set_rwx

text \<open>The frame of an entry is its bits 10 to 53, so an update of flag bits keeps it.\<close>

lemma pte_ppn_eqI:
  assumes "\<And>n. 10 \<le> n \<Longrightarrow> n < 54 \<Longrightarrow> bit e n = bit e' n"
  shows "pte_ppn e = pte_ppn e'"
  by (rule bit_word_eqI) (auto simp: pte_ppn_def bit_simps bit_flags_mask assms)

lemma pte_paddr_eqI:
  "(\<And>n. 10 \<le> n \<Longrightarrow> n < 54 \<Longrightarrow> bit e n = bit e' n) \<Longrightarrow> pte_paddr e = pte_paddr e'"
  unfolding pte_paddr_def using pte_ppn_eqI[of e e'] by simp

lemma pte_paddr_kept [simp]:
  "pte_paddr (pte_set_shared e) = pte_paddr e" "pte_paddr (pte_set_writable e) = pte_paddr e"
  "pte_paddr (pte_clear_writable e) = pte_paddr e" "pte_paddr (pte_set_rwx f e) = pte_paddr e"
  by (rule pte_paddr_eqI; auto simp: pte_bits)+

text \<open>A 44-bit page number fits, so reading the frame of an entry never panics.\<close>

lemma pte_ppn_bound: "unat (pte_ppn e) < 2 ^ 44"
proof -
  have "take_bit 44 (pte_ppn e) = pte_ppn e"
    by (rule bit_word_eqI) (auto simp: pte_ppn_def bit_simps bit_flags_mask)
  then have "unat (pte_ppn e) = unat (take_bit 44 (pte_ppn e))" by simp
  also have "\<dots> = take_bit 44 (unat (pte_ppn e))" by (rule unsigned_take_bit_eq)
  also have "\<dots> < 2 ^ 44" by (rule take_bit_nat_less_exp)
  finally show ?thesis .
qed

lemma pte_paddr_total: "pte_paddr e = Some (pte_ppn e * 4096)"
  and unat_pte_paddr: "unat (pte_ppn e * 4096) = unat (pte_ppn e) * 4096"
  using pte_ppn_bound[of e]
  by (simp_all add: pte_paddr_def page_num_addr_def umul_def unat_word_ariths)

section \<open>Properties\<close>

text \<open>
  Packing and unpacking: for a page-aligned frame address below \<open>2\<^sup>5\<^sup>6\<close> and a set of flags
  among the ten that exist, the entry built by \<open>PageTableEntry::new\<close> gives back exactly that
  address and exactly those flags.
\<close>

theorem pte_new_roundtrip:
  assumes "unat pa mod 4096 = 0" "unat pa < 2 ^ 56" "fl AND NOT flags_all = 0"
  shows "pte_paddr (pte_new pa fl) = Some pa \<and> pte_flags (pte_new pa fl) = Some fl"
proof
  have fl: "fl AND NOT (mask 10) = 0" using assms(3) by (simp add: flags_all_mask)
  show "pte_paddr (pte_new pa fl) = Some pa" by (rule pte_paddr_new[OF assms(1,2) fl])
  have "bit fl n \<longrightarrow> n < 10" for n
  proof
    assume b: "bit fl n"
    then have "bit (fl AND NOT (mask 10)) n \<or> n < 10" using bit_imp_le_length[OF b] by (simp add: bit_simps)
    then show "n < 10" by (simp add: fl)
  qed
  then have "ucast (pte_new pa fl AND mask 10) = fl"
    by (intro bit_word_eqI) (auto simp: bit_simps bit_pte_new)
  then show "pte_flags (pte_new pa fl) = Some fl" by simp
qed

theorem pte_new_roundtrip_witness:
  "pte_paddr (pte_new 0x80201000 (F_V OR F_R OR F_U)) = Some 0x80201000 \<and>
   pte_flags (pte_new 0x80201000 (F_V OR F_R OR F_U)) = Some (F_V OR F_R OR F_U)"
  using pte_new_roundtrip[of "0x80201000" "F_V OR F_R OR F_U"]
  by (simp add: flags_all_def pte_flag_defs)

text \<open>
  \<open>clear_shared\<close> negates the flag before widening it, so besides the SHARED bit it clears
  every bit from 16 up: whatever frame the entry named, the entry that \<open>become_unique\<close> leaves
  names one of the first 64 page frames.
\<close>

theorem clear_shared_loses_frame:
  "(\<forall>n. bit (pte_clear_shared e) n \<longleftrightarrow> bit e n \<and> n < 16 \<and> n \<noteq> 8) \<and> unat (pte_ppn (pte_clear_shared e)) < 64"
proof -
  have b: "bit (pte_clear_shared e) n \<longleftrightarrow> bit e n \<and> n < 16 \<and> n \<noteq> 8" for n
    unfolding pte_clear_shared_def pte_flag_defs bit_and_iff
    by (auto simp: bit_simps bit_flag simp del: push_bit_of_1)
  have "take_bit 6 (pte_ppn (pte_clear_shared e)) = pte_ppn (pte_clear_shared e)"
    by (rule bit_word_eqI) (auto simp: pte_ppn_def bit_simps bit_flags_mask b)
  then have "unat (pte_ppn (pte_clear_shared e)) = unat (take_bit 6 (pte_ppn (pte_clear_shared e)))" by simp
  also have "\<dots> = take_bit 6 (unat (pte_ppn (pte_clear_shared e)))" by (rule unsigned_take_bit_eq)
  also have "\<dots> < 2 ^ 6" by (rule take_bit_nat_less_exp)
  finally show ?thesis using b by simp
qed

end
