(* ===== verification/Frame.thy ===== *)
theory Frame
  imports Pte
begin

text \<open>
  Physical frames: the global frame allocator of \<^verbatim>\<open>memory/frame.rs\<close>, the reference counts of
  \<^verbatim>\<open>memory/frame_ref_cnt.rs\<close>, and the allocating operations of \<^verbatim>\<open>pte.rs\<close>. The bitmap the
  allocator stores is the crate \<open>bitmap_allocator\<close>: its operations are the parameter \<open>B\<close>, and
  \<open>bit_alloc_ok\<close> states what its documentation promises.
\<close>

section \<open>State\<close>

record 'fa BitAlloc =
  ba_alloc :: "'fa \<Rightarrow> usize option \<times> 'fa"
  ba_alloc_contiguous :: "usize \<Rightarrow> usize \<Rightarrow> 'fa \<Rightarrow> usize option \<times> 'fa"
  ba_dealloc :: "usize \<Rightarrow> 'fa \<Rightarrow> 'fa option"
  ba_insert :: "usize \<times> usize \<Rightarrow> 'fa \<Rightarrow> 'fa"
  ba_remove :: "usize \<times> usize \<Rightarrow> 'fa \<Rightarrow> 'fa"

text \<open>
  The memory state: the allocator, the contents of physical memory by page address and 64-bit
  word, and the array of reference counts by page number, absent before \<open>init_frame_ref_cnt\<close>.
\<close>

record 'fa kmem =
  falloc :: 'fa
  phys :: "usize \<Rightarrow> nat \<Rightarrow> u64"
  ref_cnts :: "(usize \<Rightarrow> u32) option"

definition junk_word :: u64 where "junk_word = 0x0505050505050505"

text \<open>\<open>as_mut_page_slice().fill(..)\<close>: the address of the slice is a direct-map address, whose
  computation may panic.\<close>

definition page_fill :: "platform \<Rightarrow> usize \<Rightarrow> u64 \<Rightarrow> 'fa kmem \<Rightarrow> 'fa kmem option" where
  "page_fill P pa w m = do {
     _ \<leftarrow> kernel_phys_to_virt P pa;
     Some (m\<lparr>phys := (phys m)(pa := (\<lambda>_. w))\<rparr>) }"

section \<open>Reference counts\<close>

definition init_frame_ref_cnt :: "'fa kmem \<Rightarrow> 'fa kmem" where
  "init_frame_ref_cnt m = m\<lparr>ref_cnts := Some (\<lambda>_. 0)\<rparr>"

definition is_frame_ref_cnt_inited :: "'fa kmem \<Rightarrow> bool" where
  "is_frame_ref_cnt_inited m \<longleftrightarrow> ref_cnts m \<noteq> None"

definition get_ref_cnt_ptr :: "platform \<Rightarrow> usize \<Rightarrow> usize option" where
  "get_ref_cnt_ptr P ppn = do {
     rassert (ppn < max_physical_memory P div PAGE_SIZE);
     a \<leftarrow> page_num_addr ppn;
     rassert (PhysAddr4K_is_valid a);
     Some ppn }"

definition get_ref_cnt :: "platform \<Rightarrow> usize \<Rightarrow> 'fa kmem \<Rightarrow> u32 option" where
  "get_ref_cnt P ppn m = do {
     i \<leftarrow> get_ref_cnt_ptr P ppn; t \<leftarrow> ref_cnts m; Some (t i) }"

definition set_ref_cnt :: "platform \<Rightarrow> usize \<Rightarrow> u32 \<Rightarrow> 'fa kmem \<Rightarrow> 'fa kmem option" where
  "set_ref_cnt P ppn value m = do {
     i \<leftarrow> get_ref_cnt_ptr P ppn; t \<leftarrow> ref_cnts m; Some (m\<lparr>ref_cnts := Some (t(i := value))\<rparr>) }"

text \<open>The atomic add and subtract wrap; the previous value is returned.\<close>

definition add_ref_cnt :: "platform \<Rightarrow> usize \<Rightarrow> int \<Rightarrow> 'fa kmem \<Rightarrow> (u32 \<times> 'fa kmem) option" where
  "add_ref_cnt P ppn offset m =
     (if offset > 0 then do {
        i \<leftarrow> get_ref_cnt_ptr P ppn; t \<leftarrow> ref_cnts m;
        Some (t i, m\<lparr>ref_cnts := Some (t(i := t i + word_of_int offset))\<rparr>) }
      else if offset < 0 then do {
        i \<leftarrow> get_ref_cnt_ptr P ppn; t \<leftarrow> ref_cnts m;
        Some (t i, m\<lparr>ref_cnts := Some (t(i := t i - word_of_int (- offset)))\<rparr>) }
      else do { c \<leftarrow> get_ref_cnt P ppn m; Some (c, m) })"

definition is_free :: "platform \<Rightarrow> usize \<Rightarrow> 'fa kmem \<Rightarrow> bool option" where
  "is_free P ppn m = do { c \<leftarrow> get_ref_cnt P ppn m; Some (c = 0) }"

definition is_unique :: "platform \<Rightarrow> usize \<Rightarrow> 'fa kmem \<Rightarrow> bool option" where
  "is_unique P ppn m = do { c \<leftarrow> get_ref_cnt P ppn m; Some (c = 1) }"

definition is_shared :: "platform \<Rightarrow> usize \<Rightarrow> 'fa kmem \<Rightarrow> bool option" where
  "is_shared P ppn m = do { c \<leftarrow> get_ref_cnt P ppn m; Some (c > 1) }"

definition increase :: "platform \<Rightarrow> usize \<Rightarrow> 'fa kmem \<Rightarrow> 'fa kmem option" where
  "increase P ppn m = do { (_, m) \<leftarrow> add_ref_cnt P ppn 1 m; Some m }"

definition decrease :: "platform \<Rightarrow> usize \<Rightarrow> 'fa kmem \<Rightarrow> 'fa kmem option" where
  "decrease P ppn m = do {
     c \<leftarrow> get_ref_cnt P ppn m; rassert (c \<noteq> 0);
     (_, m) \<leftarrow> add_ref_cnt P ppn (-1) m; Some m }"

section \<open>The allocator\<close>

definition GlobalFrameAlloc_alloc ::
  "platform \<Rightarrow> 'fa BitAlloc \<Rightarrow> 'fa kmem \<Rightarrow> (usize option \<times> 'fa kmem) option" where
  "GlobalFrameAlloc_alloc P B m = (case ba_alloc B (falloc m) of
     (None, fa) \<Rightarrow> Some (None, m\<lparr>falloc := fa\<rparr>)
   | (Some fid, fa) \<Rightarrow> do {
       o' \<leftarrow> umul fid PAGE_SIZE;
       a \<leftarrow> uadd o' (phymem_start P);
       a \<leftarrow> assert_4k a;
       Some (Some a, m\<lparr>falloc := fa\<rparr>) })"

definition GlobalFrameAlloc_alloc_contiguous ::
  "platform \<Rightarrow> 'fa BitAlloc \<Rightarrow> usize \<Rightarrow> usize \<Rightarrow> 'fa kmem \<Rightarrow> (usize option \<times> 'fa kmem) option" where
  "GlobalFrameAlloc_alloc_contiguous P B sz align_log2 m =
    (case ba_alloc_contiguous B sz align_log2 (falloc m) of
       (None, fa) \<Rightarrow> Some (None, m\<lparr>falloc := fa\<rparr>)
     | (Some fid, fa) \<Rightarrow> do {
         o' \<leftarrow> umul fid PAGE_SIZE;
         a \<leftarrow> uadd o' (phymem_start P);
         a \<leftarrow> assert_4k a;
         Some (Some a, m\<lparr>falloc := fa\<rparr>) })"

definition GlobalFrameAlloc_dealloc ::
  "platform \<Rightarrow> 'fa BitAlloc \<Rightarrow> usize \<Rightarrow> 'fa kmem \<Rightarrow> 'fa kmem option" where
  "GlobalFrameAlloc_dealloc P B target m = do {
     o' \<leftarrow> usub target (phymem_start P);
     fa \<leftarrow> ba_dealloc B (o' div PAGE_SIZE) (falloc m);
     Some (m\<lparr>falloc := fa\<rparr>) }"

definition frame_init :: "platform \<Rightarrow> 'fa BitAlloc \<Rightarrow> 'fa kmem \<Rightarrow> 'fa kmem option" where
  "frame_init P B m = do {
     let m = m\<lparr>falloc := ba_insert B (0, max_physical_memory P div PAGE_SIZE) (falloc m)\<rparr>;
     ke \<leftarrow> kernel_virt_text_to_phys P (kernel_end P);
     o' \<leftarrow> usub ke (phymem_start P);
     Some (m\<lparr>falloc := ba_remove B (0, o' div PAGE_SIZE) (falloc m)\<rparr>) }"

definition alloc_frame ::
  "platform \<Rightarrow> 'fa BitAlloc \<Rightarrow> 'fa kmem \<Rightarrow> (usize option \<times> 'fa kmem) option" where
  "alloc_frame P B m = do {
     (r, m) \<leftarrow> GlobalFrameAlloc_alloc P B m;
     case r of
       None \<Rightarrow> Some (None, m)
     | Some pa \<Rightarrow> do {
         m \<leftarrow> page_fill P pa junk_word m;
         rassert (PhysAddr4K_is_valid pa);
         m \<leftarrow> (if is_frame_ref_cnt_inited m then do {
                 f \<leftarrow> is_free P (page_num pa) m;
                 rassert f;
                 increase P (page_num pa) m }
               else Some m);
         Some (Some pa, m) } }"

definition dealloc_frame :: "platform \<Rightarrow> 'fa BitAlloc \<Rightarrow> usize \<Rightarrow> 'fa kmem \<Rightarrow> 'fa kmem option" where
  "dealloc_frame P B target m = do {
     rassert (PhysAddr4K_is_valid target);
     f \<leftarrow> is_free P (page_num target) m;
     rassert f;
     GlobalFrameAlloc_dealloc P B target m }"

definition alloc_frame_contiguous ::
  "platform \<Rightarrow> 'fa BitAlloc \<Rightarrow> usize \<Rightarrow> usize \<Rightarrow> 'fa kmem \<Rightarrow> (usize option \<times> 'fa kmem) option" where
  "alloc_frame_contiguous P B sz align_log2 m = GlobalFrameAlloc_alloc_contiguous P B sz align_log2 m"

definition dealloc_frames ::
  "platform \<Rightarrow> 'fa BitAlloc \<Rightarrow> usize \<Rightarrow> nat \<Rightarrow> 'fa kmem \<Rightarrow> 'fa kmem option" where
  "dealloc_frames P B target pages m = foldM (\<lambda>i m. do {
     o' \<leftarrow> umul (word_of_nat i) PAGE_SIZE;
     a \<leftarrow> uadd target o';
     a \<leftarrow> assert_4k a;
     GlobalFrameAlloc_dealloc P B a m }) [0..<pages] m"

definition decrease_and_try_dealloc :: "platform \<Rightarrow> 'fa BitAlloc \<Rightarrow> usize \<Rightarrow> 'fa kmem \<Rightarrow> 'fa kmem option" where
  "decrease_and_try_dealloc P B ppn m = do {
     (prev, m) \<leftarrow> add_ref_cnt P ppn (-1) m;
     if prev = 1 then do {
       a \<leftarrow> page_num_addr ppn;
       m \<leftarrow> page_fill P a junk_word m;
       dealloc_frame P B a m }
     else Some m }"

definition decrease_and_must_dealloc :: "platform \<Rightarrow> 'fa BitAlloc \<Rightarrow> usize \<Rightarrow> 'fa kmem \<Rightarrow> 'fa kmem option" where
  "decrease_and_must_dealloc P B ppn m = do {
     (prev, m) \<leftarrow> add_ref_cnt P ppn (-1) m;
     rassert (prev = 1);
     a \<leftarrow> page_num_addr ppn;
     dealloc_frame P B a m }"

section \<open>Entries that own a frame\<close>

definition pte_alloc_non_leaf ::
  "platform \<Rightarrow> 'fa BitAlloc \<Rightarrow> PTEFlags \<Rightarrow> PageTableEntry \<Rightarrow> 'fa kmem \<Rightarrow> (PageTableEntry \<times> 'fa kmem) option" where
  "pte_alloc_non_leaf P B perm e m = do {
     v \<leftarrow> pte_is_valid e; rassert (\<not> v);
     rassert (\<not> flags_intersects perm (F_U OR F_R OR F_W));
     (r, m) \<leftarrow> alloc_frame P B m;
     pa \<leftarrow> r;
     Some (pte_new pa (perm OR F_V), m) }"

definition pte_alloc ::
  "platform \<Rightarrow> 'fa BitAlloc \<Rightarrow> PTEFlags \<Rightarrow> PageTableEntry \<Rightarrow> 'fa kmem \<Rightarrow> (PageTableEntry \<times> 'fa kmem) option" where
  "pte_alloc P B perm e m = do {
     v \<leftarrow> pte_is_valid e; rassert (\<not> v);
     (r, m) \<leftarrow> alloc_frame P B m;
     pa \<leftarrow> r;
     Some (pte_new pa (perm OR F_D OR F_A OR F_V), m) }"

definition pte_dealloc ::
  "platform \<Rightarrow> 'fa BitAlloc \<Rightarrow> PageTableEntry \<Rightarrow> 'fa kmem \<Rightarrow> (PageTableEntry \<times> 'fa kmem) option" where
  "pte_dealloc P B e m = do {
     v \<leftarrow> pte_is_valid e; l \<leftarrow> pte_is_leaf e; rassert (v \<and> l);
     pa \<leftarrow> pte_paddr e;
     m \<leftarrow> dealloc_frame P B pa m;
     Some (pte_EMPTY, m) }"

definition pte_dealloc_non_leaf ::
  "platform \<Rightarrow> 'fa BitAlloc \<Rightarrow> PageTableEntry \<Rightarrow> 'fa kmem \<Rightarrow> (PageTableEntry \<times> 'fa kmem) option" where
  "pte_dealloc_non_leaf P B e m = do {
     v \<leftarrow> pte_is_valid e; d \<leftarrow> pte_is_directory e; rassert (v \<and> d);
     pa \<leftarrow> pte_paddr e;
     m \<leftarrow> dealloc_frame P B pa m;
     Some (pte_EMPTY, m) }"

section \<open>Invariant\<close>

text \<open>
  The contract of the bitmap: \<open>free\<close> reads the set of free frame numbers off its state. It holds
  \<open>2\<^sup>2\<^sup>4\<close> frames (\<open>BitAlloc16M\<close>), and freeing a frame that is in use never panics.
\<close>

definition bit_alloc_ok :: "'fa BitAlloc \<Rightarrow> ('fa \<Rightarrow> usize set) \<Rightarrow> bool" where
  "bit_alloc_ok B free \<longleftrightarrow>
     (\<forall>fa. case ba_alloc B fa of
        (None, fa') \<Rightarrow> free fa = {} \<and> free fa' = {}
      | (Some i, fa') \<Rightarrow> i \<in> free fa \<and> free fa' = free fa - {i}) \<and>
     (\<forall>fa i. i \<notin> free fa \<and> i < 0x1000000 \<longrightarrow>
        (\<exists>fa'. ba_dealloc B i fa = Some fa' \<and> free fa' = insert i (free fa)))"

text \<open>What the documentation of the bitmap promises of \<open>insert\<close> and \<open>remove\<close>, for ranges within its capacity.\<close>

definition bit_ranges_ok :: "'fa BitAlloc \<Rightarrow> ('fa \<Rightarrow> usize set) \<Rightarrow> bool" where
  "bit_ranges_ok B free \<longleftrightarrow> (\<forall>a b fa. b \<le> 0x1000000 \<longrightarrow>
     free (ba_insert B (a, b) fa) = free fa \<union> {a..<b} \<and> free (ba_remove B (a, b) fa) = free fa - {a..<b})"

definition platform_ok :: "platform \<Rightarrow> bool" where
  "platform_ok P \<longleftrightarrow> unat (phymem_start P) mod 4096 = 0 \<and> unat (max_physical_memory P) < 2 ^ 56"

text \<open>A frame number whose address lies in the table of reference counts.\<close>

definition managed :: "platform \<Rightarrow> usize \<Rightarrow> bool" where
  "managed P i \<longleftrightarrow> i < 0x1000000 \<and>
     (unat i * 4096 + unat (phymem_start P)) div 4096 < unat (max_physical_memory P) div 4096"

definition frame_addr :: "platform \<Rightarrow> usize \<Rightarrow> usize" where
  "frame_addr P i = i * 4096 + phymem_start P"

definition frame_ppn :: "platform \<Rightarrow> usize \<Rightarrow> usize" where
  "frame_ppn P i = page_num (frame_addr P i)"

text \<open>
  Agreement of the bitmap with the counts: a free frame has no references. A free frame that is not managed has no slot in the table;
  \<open>frame_inv\<close> says in addition that there are none, which holds after booting only when memory starts at address zero.
\<close>

definition count_inv :: "platform \<Rightarrow> ('fa \<Rightarrow> usize set) \<Rightarrow> 'fa kmem \<Rightarrow> bool" where
  "count_inv P free m \<longleftrightarrow> (\<exists>t. ref_cnts m = Some t \<and>
     (\<forall>i\<in>free (falloc m). i < 0x1000000 \<and> (managed P i \<longrightarrow> t (frame_ppn P i) = 0)))"

definition frame_inv :: "platform \<Rightarrow> ('fa \<Rightarrow> usize set) \<Rightarrow> 'fa kmem \<Rightarrow> bool" where
  "frame_inv P free m \<longleftrightarrow> (\<exists>t. ref_cnts m = Some t \<and>
     (\<forall>i\<in>free (falloc m). managed P i \<and> t (frame_ppn P i) = 0))"

definition count_of :: "'fa kmem \<Rightarrow> usize \<Rightarrow> u32" where
  "count_of m ppn = (case ref_cnts m of Some t \<Rightarrow> t ppn | None \<Rightarrow> 0)"

lemma frame_inv_iff: "frame_inv P free m \<longleftrightarrow> count_inv P free m \<and> (\<forall>i\<in>free (falloc m). managed P i)"
  by (auto simp: frame_inv_def count_inv_def managed_def)

lemma managed_bounds:
  assumes ok: "platform_ok P" and mi: "managed P i"
  shows "unat i < 2 ^ 24" "unat i * 4096 + unat (phymem_start P) < 2 ^ 56"
proof -
  show 1: "unat i < 2 ^ 24" using mi by (simp add: managed_def word_less_nat_alt)
  have "(unat i * 4096 + unat (phymem_start P)) div 4096 < unat (max_physical_memory P) div 4096"
    using mi by (simp add: managed_def)
  then have "unat i * 4096 + unat (phymem_start P) < unat (max_physical_memory P)"
    by (metis div_le_mono not_le)
  then show "unat i * 4096 + unat (phymem_start P) < 2 ^ 56" using ok by (simp add: platform_ok_def)
qed

lemma umul_managed:
  assumes ok: "platform_ok P" and mi: "managed P i"
  shows "umul i 4096 = Some (i * 4096)" and unat_mul_managed: "unat (i * 4096) = unat i * 4096"
  using managed_bounds(1)[OF ok mi] by (simp_all add: umul_def unat_word_ariths)

lemma uadd_managed:
  assumes ok: "platform_ok P" and mi: "managed P i"
  shows "uadd (i * 4096) (phymem_start P) = Some (frame_addr P i)"
    and unat_frame_addr: "unat (frame_addr P i) = unat i * 4096 + unat (phymem_start P)"
  using managed_bounds(2)[OF ok mi] unat_mul_managed[OF ok mi]
  by (simp_all add: uadd_def frame_addr_def unat_word_ariths)

lemma aligned_frame_addr:
  assumes ok: "platform_ok P" and mi: "managed P i"
  shows "unat (frame_addr P i) mod 4096 = 0"
  using ok by (simp add: unat_frame_addr[OF ok mi] platform_ok_def)

lemma assert_frame_addr:
  assumes ok: "platform_ok P" and mi: "managed P i"
  shows "assert_4k (frame_addr P i) = Some (frame_addr P i)"
  by (simp add: assert_4k_def aligned_iff aligned_frame_addr[OF ok mi])

lemma valid_frame_addr:
  assumes ok: "platform_ok P" and mi: "managed P i"
  shows "PhysAddr4K_is_valid (frame_addr P i)"
  using managed_bounds(2)[OF ok mi] aligned_frame_addr[OF ok mi]
  by (simp add: PhysAddr4K_is_valid_def aligned_iff word_less_nat_alt unat_frame_addr[OF ok mi])

lemma phymem_le_frame:
  assumes ok: "platform_ok P" and mi: "managed P i"
  shows "phymem_start P \<le> frame_addr P i"
  by (simp add: word_le_nat_alt unat_frame_addr[OF ok mi])

lemma virt_frame_addr:
  assumes ok: "platform_ok P" and mi: "managed P i"
  shows "\<exists>v. kernel_phys_to_virt P (frame_addr P i) = Some v"
proof -
  have lt: "frame_addr P i < K_SEG_BEG"
    using managed_bounds(2)[OF ok mi] by (simp add: word_less_nat_alt unat_frame_addr[OF ok mi] K_SEG_BEG_def)
  have "unat (frame_addr P i - phymem_start P) = unat i * 4096"
    by (simp add: unat_sub[OF phymem_le_frame[OF ok mi]] unat_frame_addr[OF ok mi])
  then have "unat (frame_addr P i - phymem_start P) + unat K_SEG_PHY_MEM_BEG < 2 ^ 64"
    using managed_bounds(1)[OF ok mi] by (simp add: K_SEG_PHY_MEM_BEG_def)
  then show ?thesis
    using lt[unfolded not_le[symmetric]] phymem_le_frame[OF ok mi]
    by (simp add: kernel_phys_to_virt_def usub_def uadd_def)
qed

lemma fill_frame:
  assumes ok: "platform_ok P" and mi: "managed P i"
  shows "page_fill P (frame_addr P i) w m = Some (m\<lparr>phys := (phys m)(frame_addr P i := (\<lambda>_. w))\<rparr>)"
  using virt_frame_addr[OF ok mi] by (auto simp: page_fill_def)

lemma ppn_addr:
  assumes ok: "platform_ok P" and mi: "managed P i"
  shows "page_num_addr (frame_ppn P i) = Some (frame_addr P i)"
  unfolding frame_ppn_def by (rule page_num_addr_page_num[OF aligned_frame_addr[OF ok mi]])

lemma ref_cnt_ptr:
  assumes ok: "platform_ok P" and mi: "managed P i"
  shows "get_ref_cnt_ptr P (frame_ppn P i) = Some (frame_ppn P i)"
proof -
  have "frame_ppn P i < max_physical_memory P div PAGE_SIZE"
    using mi by (simp add: word_less_nat_alt frame_ppn_def unat_page_num unat_frame_addr[OF ok mi] managed_def unat_div)
  then show ?thesis by (simp add: get_ref_cnt_ptr_def ppn_addr[OF ok mi] valid_frame_addr[OF ok mi])
qed

lemma ref_cnt_ops:
  assumes ok: "platform_ok P" and mi: "managed P i" and t: "ref_cnts m = Some t"
  shows "get_ref_cnt P (frame_ppn P i) m = Some (t (frame_ppn P i))"
    "add_ref_cnt P (frame_ppn P i) 1 m =
       Some (t (frame_ppn P i), m\<lparr>ref_cnts := Some (t(frame_ppn P i := t (frame_ppn P i) + 1))\<rparr>)"
    "add_ref_cnt P (frame_ppn P i) (-1) m =
       Some (t (frame_ppn P i), m\<lparr>ref_cnts := Some (t(frame_ppn P i := t (frame_ppn P i) - 1))\<rparr>)"
  using t ref_cnt_ptr[OF ok mi] by (simp_all add: get_ref_cnt_def add_ref_cnt_def)

lemma frame_id:
  assumes ok: "platform_ok P" and mi: "managed P i"
  shows "(frame_addr P i - phymem_start P) div PAGE_SIZE = i"
proof -
  have "unat ((frame_addr P i - phymem_start P) div PAGE_SIZE) = unat i"
    by (simp add: unat_div unat_sub[OF phymem_le_frame[OF ok mi]] unat_frame_addr[OF ok mi])
  then show ?thesis by (rule unsigned_word_eqI)
qed

lemma frame_ppn_inj:
  assumes "platform_ok P" "managed P i" "managed P j" "frame_ppn P i = frame_ppn P j"
  shows "i = j"
proof -
  have "frame_addr P i = frame_addr P j"
    using ppn_addr[OF assms(1,2)] ppn_addr[OF assms(1,3)] assms(4) by simp
  then show ?thesis using frame_id[OF assms(1,2)] frame_id[OF assms(1,3)] by metis
qed

lemma frame_invE:
  assumes "frame_inv P free m"
  obtains t where "ref_cnts m = Some t" "\<forall>i\<in>free (falloc m). managed P i \<and> t (frame_ppn P i) = 0"
  using assms by (auto simp: frame_inv_def)

lemma alloc_frame_run:
  assumes ok: "platform_ok P" and mi: "managed P i" and t: "ref_cnts m = Some t"
    and z: "t (frame_ppn P i) = 0" and a: "ba_alloc B (falloc m) = (Some i, fa)"
  shows "alloc_frame P B m = Some (Some (frame_addr P i),
    m\<lparr>falloc := fa, phys := (phys m)(frame_addr P i := (\<lambda>_. junk_word)),
      ref_cnts := Some (t(frame_ppn P i := 1))\<rparr>)"
proof -
  have "is_free P (frame_ppn P i) m' = Some True" "increase P (frame_ppn P i) m' =
      Some (m'\<lparr>ref_cnts := Some (t(frame_ppn P i := 1))\<rparr>)" if "ref_cnts m' = Some t" for m' :: "'a kmem"
    using ref_cnt_ops[OF ok mi that] z by (simp_all add: is_free_def increase_def)
  then show ?thesis
    using a t by (simp add: alloc_frame_def GlobalFrameAlloc_alloc_def umul_managed[OF ok mi]
        uadd_managed[OF ok mi] assert_frame_addr[OF ok mi] fill_frame[OF ok mi]
        valid_frame_addr[OF ok mi] is_frame_ref_cnt_inited_def flip: frame_ppn_def)
qed

lemma dealloc_frame_run:
  assumes ok: "platform_ok P" and mi: "managed P i" and t: "ref_cnts m = Some t"
    and z: "t (frame_ppn P i) = 0"
  shows "dealloc_frame P B (frame_addr P i) m =
    do { fa \<leftarrow> ba_dealloc B i (falloc m); Some (m\<lparr>falloc := fa\<rparr>) }"
  using ref_cnt_ops(1)[OF ok mi t] z phymem_le_frame[OF ok mi]
  by (simp add: dealloc_frame_def GlobalFrameAlloc_dealloc_def valid_frame_addr[OF ok mi] is_free_def
      usub_def frame_id[OF ok mi, unfolded PAGE_SIZE_eq] flip: frame_ppn_def)

lemma count_of_fun: "count_of m = (case ref_cnts m of Some t \<Rightarrow> t | None \<Rightarrow> (\<lambda>_. 0))"
  by (auto simp: count_of_def fun_eq_iff split: option.splits)

lemma alloc_frame_cases:
  assumes "platform_ok P" "bit_alloc_ok B free" "frame_inv P free m"
  shows "if free (falloc m) = {} then \<exists>m'. alloc_frame P B m = Some (None, m') \<and> ref_cnts m' = ref_cnts m \<and> phys m' = phys m
    else \<exists>i m'. alloc_frame P B m = Some (Some (frame_addr P i), m') \<and>
      i \<in> free (falloc m) \<and> free (falloc m') = free (falloc m) - {i} \<and>
      unat (frame_addr P i) mod 4096 = 0 \<and>
      count_of m (frame_ppn P i) = 0 \<and> count_of m' = (count_of m)(frame_ppn P i := 1) \<and>
      (\<forall>pa. pa \<noteq> frame_addr P i \<longrightarrow> phys m' pa = phys m pa) \<and> frame_inv P free m'"
proof -
  obtain t where t: "ref_cnts m = Some t" and fr: "\<forall>i\<in>free (falloc m). managed P i \<and> t (frame_ppn P i) = 0"
    using assms(3) by (rule frame_invE)
  obtain r fa where a: "ba_alloc B (falloc m) = (r, fa)" by (cases "ba_alloc B (falloc m)")
  have B: "case r of None \<Rightarrow> free (falloc m) = {} \<and> free fa = {}
      | Some i \<Rightarrow> i \<in> free (falloc m) \<and> free fa = free (falloc m) - {i}"
    using assms(2) a unfolding bit_alloc_ok_def by (auto dest!: spec[of _ "falloc m"] split: option.splits)
  show ?thesis
  proof (cases r)
    case None
    then show ?thesis using a B by (simp add: alloc_frame_def GlobalFrameAlloc_alloc_def)
  next
    case (Some i)
    then have i: "i \<in> free (falloc m)" "free fa = free (falloc m) - {i}" using B by auto
    then have mi: "managed P i" "t (frame_ppn P i) = 0" using fr by auto
    have "frame_ppn P j \<noteq> frame_ppn P i" if "j \<in> free (falloc m) - {i}" for j
      using frame_ppn_inj[OF assms(1) _ mi(1)] fr that by blast
    then show ?thesis
      using alloc_frame_run[OF assms(1) mi(1) t mi(2) a[unfolded Some]] i mi(2) fr
      by (auto simp: count_of_fun t frame_inv_def aligned_frame_addr[OF assms(1) mi(1)])
  qed
qed

text \<open>
  The table of reference counts is indexed by the absolute page number but has one slot per
  page of memory: once it is set up, a frame whose address is not below the memory size cannot be
  handed out. If the bitmap selects such a frame, \<open>alloc_frame\<close> panics instead of returning it.
\<close>

lemma alloc_frame_beyond_table:
  assumes "ref_cnts m \<noteq> None" "ba_alloc B (falloc m) = (Some i, fa)"
    and "unat (max_physical_memory P) div 4096 \<le> (unat i * 4096 + unat (phymem_start P)) div 4096"
  shows "alloc_frame P B m = None"
proof (rule ccontr)
  assume "alloc_frame P B m \<noteq> None"
  then obtain o' a where o': "umul i PAGE_SIZE = Some o'" and a: "uadd o' (phymem_start P) = Some a"
      and f: "get_ref_cnt_ptr P (page_num a) \<noteq> None"
    using assms(1,2) by (auto simp: alloc_frame_def GlobalFrameAlloc_alloc_def page_fill_def assert_4k_def
        is_frame_ref_cnt_inited_def is_free_def get_ref_cnt_def bind_eq_Some_conv split: if_splits)
  have "unat a = unat i * 4096 + unat (phymem_start P)"
    using unat_uadd[OF a] unat_umul[OF o'] by simp
  then have "\<not> page_num a < max_physical_memory P div PAGE_SIZE"
    using assms(3) by (simp add: word_less_nat_alt unat_page_num unat_div)
  then show False using f by (auto simp: get_ref_cnt_ptr_def)
qed

lemma alloc_frame_outcome:
  assumes ok: "platform_ok P" and B: "bit_alloc_ok B free" and inv: "count_inv P free m"
  shows "if free (falloc m) = {} then \<exists>m'. alloc_frame P B m = Some (None, m') \<and> ref_cnts m' = ref_cnts m \<and> phys m' = phys m
    else \<exists>i\<in>free (falloc m). if managed P i
      then \<exists>m'. alloc_frame P B m = Some (Some (frame_addr P i), m') \<and>
        free (falloc m') = free (falloc m) - {i} \<and> unat (frame_addr P i) = unat i * 4096 + unat (phymem_start P) \<and>
        count_of m (frame_ppn P i) = 0 \<and> count_of m' = (count_of m)(frame_ppn P i := 1) \<and>
        (\<forall>pa. pa \<noteq> frame_addr P i \<longrightarrow> phys m' pa = phys m pa) \<and> count_inv P free m' \<and>
        (frame_inv P free m \<longrightarrow> frame_inv P free m')
      else alloc_frame P B m = None"
proof -
  obtain t where t: "ref_cnts m = Some t"
      and fr: "\<And>i. i \<in> free (falloc m) \<Longrightarrow> i < 0x1000000 \<and> (managed P i \<longrightarrow> t (frame_ppn P i) = 0)"
    using inv by (auto simp: count_inv_def)
  obtain r fa where a: "ba_alloc B (falloc m) = (r, fa)" by (cases "ba_alloc B (falloc m)")
  have c: "case r of None \<Rightarrow> free (falloc m) = {} \<and> free fa = {}
      | Some i \<Rightarrow> i \<in> free (falloc m) \<and> free fa = free (falloc m) - {i}"
    using B a unfolding bit_alloc_ok_def by (auto dest!: spec[of _ "falloc m"] split: option.splits)
  show ?thesis
  proof (cases r)
    case None
    then show ?thesis using a c by (simp add: alloc_frame_def GlobalFrameAlloc_alloc_def)
  next
    case (Some i)
    then have i: "i \<in> free (falloc m)" "free fa = free (falloc m) - {i}" using c by auto
    have out: "alloc_frame P B m = None" if "\<not> managed P i"
      using that fr[OF i(1)] t a Some by (intro alloc_frame_beyond_table[of m B i fa]) (auto simp: managed_def)
    have "\<exists>m'. alloc_frame P B m = Some (Some (frame_addr P i), m') \<and>
        free (falloc m') = free (falloc m) - {i} \<and> unat (frame_addr P i) = unat i * 4096 + unat (phymem_start P) \<and>
        count_of m (frame_ppn P i) = 0 \<and> count_of m' = (count_of m)(frame_ppn P i := 1) \<and>
        (\<forall>pa. pa \<noteq> frame_addr P i \<longrightarrow> phys m' pa = phys m pa) \<and> count_inv P free m' \<and>
        (frame_inv P free m \<longrightarrow> frame_inv P free m')" if mi: "managed P i"
    proof -
      have z: "t (frame_ppn P i) = 0" using fr[OF i(1)] mi by blast
      have ne: "frame_ppn P j \<noteq> frame_ppn P i" if "j \<in> free (falloc m) - {i}" "managed P j" for j
        using frame_ppn_inj[OF ok that(2) mi] that(1) by blast
      let ?m = "m\<lparr>falloc := fa, phys := (phys m)(frame_addr P i := (\<lambda>_. junk_word)), ref_cnts := Some (t(frame_ppn P i := 1))\<rparr>"
      have ci: "count_inv P free ?m" using fr ne i(2) by (auto simp: count_inv_def)
      then have "frame_inv P free m \<longrightarrow> frame_inv P free ?m" using i(2) by (auto simp: frame_inv_iff)
      then show ?thesis
        using alloc_frame_run[OF ok mi t z a[unfolded Some]] i(2) z ci unat_frame_addr[OF ok mi]
        by (intro exI[of _ ?m]) (simp add: count_of_fun t)
    qed
    then show ?thesis using i(1) out by (cases "managed P i") auto
  qed
qed

text \<open>A bitmap kept as a list of free frame numbers, used to evaluate the model.\<close>

definition list_alloc :: "usize list BitAlloc" where
  "list_alloc = \<lparr>
     ba_alloc = (\<lambda>fa. case fa of [] \<Rightarrow> (None, []) | i # is \<Rightarrow> (Some i, removeAll i is)),
     ba_alloc_contiguous = (\<lambda>n al fa. (None, fa)),
     ba_dealloc = (\<lambda>i fa. Some (i # fa)),
     ba_insert = (\<lambda>(a, b) fa. map word_of_nat [unat a..<unat b] @ fa),
     ba_remove = (\<lambda>(a, b) fa. filter (\<lambda>i. \<not> (a \<le> i \<and> i < b)) fa)\<rparr>"

lemma list_alloc_ok: "bit_alloc_ok list_alloc set"
  by (auto simp: bit_alloc_ok_def list_alloc_def split: list.splits)

definition board :: platform where
  "board = \<lparr>phymem_start = 0x80000000, max_physical_memory = 0x100000000,
     platform_boot_pc = 0x80200000, kernel_end = 0xffffffff80400000, boot_pagetable_paddr = 0x80300000\<rparr>"

definition small_mem :: "usize list kmem" where
  "small_mem = \<lparr>falloc = [5, 7], phys = (\<lambda>_ _. 0), ref_cnts = Some (\<lambda>_. 0)\<rparr>"

lemma board_ok: "platform_ok board"
  by (simp add: platform_ok_def board_def)

lemma board_managed: "i < 0x1000 \<Longrightarrow> managed board i"
  by (simp add: managed_def board_def word_less_nat_alt)

lemma small_mem_inv: "frame_inv board set small_mem"
  by (simp add: frame_inv_def small_mem_def board_managed)

lemma list_ranges_ok: "bit_ranges_ok list_alloc set"
proof -
  have "set (map word_of_nat [unat a..<unat b]) = {a..<b}" for a b :: usize
  proof -
    have "x \<in> word_of_nat ` {unat a..<unat b} \<longleftrightarrow> x \<in> {a..<b}" for x
    proof -
      have "x = word_of_nat (unat x)" by simp
      moreover have "unat (word_of_nat n :: usize) = n" if "n < unat b" for n
        using that unat_lt2p[of b] by (simp add: unat_word_of_nat)
      ultimately show ?thesis by (force simp: word_le_nat_alt word_less_nat_alt)
    qed
    then show ?thesis unfolding set_map set_upt by (intro set_eqI)
  qed
  then show ?thesis by (auto simp: bit_ranges_ok_def list_alloc_def)
qed

section \<open>Properties\<close>

text \<open>
  (C3) Frame allocation, once the table of counts is set up and while every free frame it has a slot for has count zero: with no free
  frame \<open>alloc_frame\<close> returns nothing and changes neither counts nor memory. Otherwise the bitmap picks a free frame. If the table has a
  slot for it, its address is returned; it is no longer free, its reference count goes from 0 to 1, every other count and the
  contents of every other page are unchanged, and the agreement of the bitmap with the counts is kept. If its address is not below
  the size of memory, so that the table has no slot for it, the call panics.
\<close>

theorem alloc_frame_spec:
  assumes "platform_ok P" "bit_alloc_ok B free" "count_inv P free m"
  shows "if free (falloc m) = {} then \<exists>m'. alloc_frame P B m = Some (None, m') \<and> ref_cnts m' = ref_cnts m \<and> phys m' = phys m
    else \<exists>i\<in>free (falloc m). if managed P i
      then \<exists>m'. alloc_frame P B m = Some (Some (frame_addr P i), m') \<and>
        free (falloc m') = free (falloc m) - {i} \<and> unat (frame_addr P i) = unat i * 4096 + unat (phymem_start P) \<and>
        count_of m (frame_ppn P i) = 0 \<and> count_of m' = (count_of m)(frame_ppn P i := 1) \<and>
        (\<forall>pa. pa \<noteq> frame_addr P i \<longrightarrow> phys m' pa = phys m pa) \<and> count_inv P free m' \<and>
        (frame_inv P free m \<longrightarrow> frame_inv P free m')
      else alloc_frame P B m = None"
  by (rule alloc_frame_outcome[OF assms])

theorem alloc_frame_spec_witness:
  "(\<exists>i m'. alloc_frame board list_alloc small_mem = Some (Some (frame_addr board i), m') \<and>
      i \<in> {5, 7} \<and> set (falloc m') = {5, 7} - {i} \<and> count_of m' (frame_ppn board i) = 1) \<and>
   alloc_frame (board\<lparr>max_physical_memory := 0x8000000\<rparr>) list_alloc small_mem = None"
proof -
  let ?P = "board\<lparr>max_physical_memory := 0x8000000\<rparr>"
  have f: "set (falloc small_mem) = {5, 7}" by (simp add: small_mem_def)
  have ok: "platform_ok ?P" "count_inv ?P set small_mem"
    by (simp_all add: platform_ok_def board_def count_inv_def small_mem_def)
  have no: "\<not> managed ?P i" if "i \<in> {5, 7}" for i using that by (auto simp: managed_def board_def)
  have man: "managed board i" if "i \<in> {5, 7}" for i using that board_managed by auto
  have "alloc_frame ?P list_alloc small_mem = None"
    using alloc_frame_spec[OF ok(1) list_alloc_ok ok(2)] no unfolding f by (auto split: if_splits)
  moreover have "count_inv board set small_mem" using small_mem_inv by (simp add: frame_inv_iff)
  then obtain i m' where "alloc_frame board list_alloc small_mem = Some (Some (frame_addr board i), m')"
      "i \<in> {5, 7}" "set (falloc m') = {5, 7} - {i}" "count_of m' = (count_of small_mem)(frame_ppn board i := 1)"
    using alloc_frame_spec[OF board_ok list_alloc_ok, of small_mem] man unfolding f by (auto split: if_splits)
  ultimately show ?thesis by (intro conjI exI[of _ i] exI[of _ m']) simp_all
qed

text \<open>
  (C4) Dropping a reference, once the table of counts is set up and while every free frame it has a slot for has count zero: for a frame
  in use that the table has a slot for, \<open>decrease_and_try_dealloc\<close> lowers its count by one without a panic and gives the frame back to the
  bitmap exactly when the count was one; no other count changes, and the bitmap keeps agreeing with the counts.
\<close>

theorem decrease_and_try_dealloc_spec:
  assumes "platform_ok P" "bit_alloc_ok B free" "count_inv P free m"
    and "managed P i" "i \<notin> free (falloc m)" "count_of m (frame_ppn P i) \<noteq> 0"
  shows "\<exists>m'. decrease_and_try_dealloc P B (frame_ppn P i) m = Some m' \<and>
    count_of m' = (count_of m)(frame_ppn P i := count_of m (frame_ppn P i) - 1) \<and>
    free (falloc m') = (if count_of m (frame_ppn P i) = 1 then insert i (free (falloc m)) else free (falloc m)) \<and>
    count_inv P free m' \<and> (frame_inv P free m \<longrightarrow> frame_inv P free m')"
proof -
  obtain t where t: "ref_cnts m = Some t"
      and fr: "\<And>i. i \<in> free (falloc m) \<Longrightarrow> i < 0x1000000 \<and> (managed P i \<longrightarrow> t (frame_ppn P i) = 0)"
    using assms(3) by (auto simp: count_inv_def)
  note ops = ref_cnt_ops[OF assms(1,4) t]
  have i: "i < 0x1000000" using assms(4) by (simp add: managed_def)
  have other: "frame_ppn P j \<noteq> frame_ppn P i" if "j \<in> free (falloc m)" "managed P j" for j
    using frame_ppn_inj[OF assms(1) that(2) assms(4)] that(1) assms(5) by blast
  have "\<exists>m'. decrease_and_try_dealloc P B (frame_ppn P i) m = Some m' \<and>
    count_of m' = (count_of m)(frame_ppn P i := count_of m (frame_ppn P i) - 1) \<and>
    free (falloc m') = (if count_of m (frame_ppn P i) = 1 then insert i (free (falloc m)) else free (falloc m)) \<and>
    count_inv P free m'"
  proof (cases "t (frame_ppn P i) = 1")
    case False
    then show ?thesis
      using ops(3) fr other by (auto simp: decrease_and_try_dealloc_def count_of_fun t count_inv_def)
  next
    case True
    obtain fa where fa: "ba_dealloc B i (falloc m) = Some fa" "free fa = insert i (free (falloc m))"
      using assms(2,5) i unfolding bit_alloc_ok_def by blast
    let ?m = "m\<lparr>ref_cnts := Some (t(frame_ppn P i := 0)), phys := (phys m)(frame_addr P i := (\<lambda>_. junk_word))\<rparr>"
    have "decrease_and_try_dealloc P B (frame_ppn P i) m = dealloc_frame P B (frame_addr P i) ?m"
      using ops(3) True by (simp add: decrease_and_try_dealloc_def ppn_addr[OF assms(1,4)] fill_frame[OF assms(1,4)])
    also have "\<dots> = Some (?m\<lparr>falloc := fa\<rparr>)"
      using dealloc_frame_run[OF assms(1,4), of ?m "t(frame_ppn P i := 0)" B] fa by simp
    finally show ?thesis
      using fa fr i True by (auto simp: count_of_fun t count_inv_def)
  qed
  then show ?thesis using assms(4) by (auto simp: frame_inv_iff split: if_splits)
qed

theorem decrease_and_try_dealloc_spec_witness:
  "\<exists>m'. decrease_and_try_dealloc board list_alloc (frame_ppn board 6)
      (small_mem\<lparr>ref_cnts := Some (\<lambda>n. if n = frame_ppn board 6 then 1 else 0)\<rparr>) = Some m' \<and>
    6 \<in> set (falloc m') \<and> count_of m' (frame_ppn board 6) = 0"
proof -
  let ?m = "small_mem\<lparr>ref_cnts := Some (\<lambda>n. if n = frame_ppn board 6 then 1 else 0)\<rparr>"
  have "count_inv board set ?m"
    by (simp add: count_inv_def small_mem_def frame_ppn_def frame_addr_def board_def page_num_def)
  moreover have "count_of ?m (frame_ppn board 6) = 1" "6 \<notin> set (falloc ?m)"
    by (simp_all add: count_of_def small_mem_def)
  ultimately show ?thesis
    using decrease_and_try_dealloc_spec[OF board_ok list_alloc_ok, of ?m 6] board_managed[of 6]
    by fastforce
qed

text \<open>
  What the boot code sets up when the image of the kernel lies in memory of at most 64 GiB: \<open>frame::init\<close> leaves exactly the frames
  behind the kernel free, and with the counts that \<open>init_frame_ref_cnt\<close> clears they agree. But the frames whose address is not below the
  size of memory have no slot in the table: unless memory starts at address zero, or no frame is left, some free frame is one of them.
\<close>

theorem frame_init_counts:
  assumes "platform_ok P" "bit_ranges_ok B free" "free (falloc m) = {}" "unat (max_physical_memory P) \<le> 2 ^ 36"
    and "kernel_virt_text_to_phys P (kernel_end P) = Some ke" "phymem_start P \<le> ke" "ke - phymem_start P \<le> max_physical_memory P"
  shows "\<exists>m'. frame_init P B m = Some m' \<and>
    free (falloc m') = {(ke - phymem_start P) div 4096..<max_physical_memory P div 4096} \<and>
    count_inv P free (init_frame_ref_cnt m') \<and>
    (frame_inv P free (init_frame_ref_cnt m') \<longleftrightarrow> phymem_start P = 0 \<or> free (falloc m') = {})"
proof -
  define n k where "n = max_physical_memory P div 4096" and "k = (ke - phymem_start P) div 4096"
  have un: "unat n = unat (max_physical_memory P) div 4096" and uk: "unat k = unat (ke - phymem_start P) div 4096"
    by (simp_all add: n_def k_def unat_div)
  have kn: "k \<le> n" using assms(7) by (simp add: word_le_nat_alt un uk div_le_mono)
  have cap: "n \<le> 0x1000000" "k \<le> 0x1000000" using assms(4) kn un by (auto simp: word_le_nat_alt)
  let ?m = "m\<lparr>falloc := ba_remove B (0, k) (ba_insert B (0, n) (falloc m))\<rparr>"
  have run: "frame_init P B m = Some ?m"
    using assms(5,6) by (simp add: frame_init_def usub_def Let_def n_def k_def)
  have fr: "free (falloc ?m) = {k..<n}" using assms(2,3) cap by (auto simp: bit_ranges_ok_def)
  have lt: "i < 0x1000000" if "i \<in> {k..<n}" for i using that cap(1) by auto
  have ci: "count_inv P free (init_frame_ref_cnt ?m)"
    using lt by (simp add: count_inv_def init_frame_ref_cnt_def fr[simplified])
  define s where "s = unat (phymem_start P) div 4096"
  have s: "unat (phymem_start P) = s * 4096" using assms(1) by (simp add: platform_ok_def s_def minus_mod_eq_div_mult[symmetric])
  have man: "managed P i \<longleftrightarrow> unat i + s < unat n" if "i \<in> {k..<n}" for i
  proof -
    have "(unat i * 4096 + s * 4096) div 4096 = unat i + s" by linarith
    then show ?thesis using lt[OF that] by (simp only: managed_def s un simp_thms)
  qed
  have "(\<forall>i\<in>{k..<n}. managed P i) \<longleftrightarrow> s = 0 \<or> {k..<n} = {}"
  proof (cases "{k..<n} = {}")
    case False
    then have "k < n" by simp
    then have p: "0 < unat n" and "1 \<le> n" by (auto simp: word_le_nat_alt word_less_nat_alt)
    then have u: "unat (n - 1) = unat n - 1" by (simp add: unat_sub)
    have l: "n - 1 \<in> {k..<n}" using \<open>k < n\<close> p by (simp add: word_le_nat_alt word_less_nat_alt u)
    have "unat i < unat n" if "i \<in> {k..<n}" for i using that by (simp add: word_less_nat_alt)
    moreover have "\<not> managed P (n - 1)" if "s \<noteq> 0" using man[OF l] that p u by simp
    ultimately show ?thesis using man l False by (cases "s = 0") auto
  qed simp
  then have "frame_inv P free (init_frame_ref_cnt ?m) \<longleftrightarrow> phymem_start P = 0 \<or> {k..<n} = {}"
    using ci s fr by (simp add: frame_inv_iff init_frame_ref_cnt_def unat_eq_0[symmetric])
  then show ?thesis using run fr ci unfolding n_def k_def by (intro exI[of _ ?m]) (simp add: n_def k_def)
qed

text \<open>The board, with memory from \<open>0x80000000\<close> on, is not such an exception.\<close>

lemma board_init_counts:
  assumes "falloc m = []"
  shows "\<exists>m'. frame_init board list_alloc m = Some m' \<and> count_inv board set (init_frame_ref_cnt m') \<and>
    \<not> frame_inv board set (init_frame_ref_cnt m')"
proof -
  have k: "kernel_virt_text_to_phys board (kernel_end board) = Some 0x80600000"
    by (simp add: kernel_virt_text_to_phys_def board_def K_SEG_TEXT_BEG_def usub_def uadd_def)
  have b: "unat (max_physical_memory board) \<le> 2 ^ 36" "phymem_start board \<le> 0x80600000"
      "0x80600000 - phymem_start board \<le> max_physical_memory board" "phymem_start board \<noteq> 0"
      "{(0x80600000 - phymem_start board) div 4096..<max_physical_memory board div 4096} \<noteq> {}"
    by (simp_all add: board_def)
  have e: "set (falloc m) = {}" using assms by simp
  show ?thesis using frame_init_counts[OF board_ok list_ranges_ok e b(1) k b(2,3)] b(4,5) by metis
qed

end
