(* ===== verification/Pagetable.thy ===== *)
theory Pagetable
  imports Frame
begin

text \<open>
  The three-level page tables of \<^verbatim>\<open>memory/pagetable/pagetable.rs\<close>. A table is a page of physical
  memory, a reference to an entry is a pair of a table address and an index, and every operation
  threads the page-table struct and the memory.
\<close>

section \<open>Indices\<close>

definition ENTRY_COUNT :: nat where "ENTRY_COUNT = 512"

definition p4_index :: "usize \<Rightarrow> nat" where
  "p4_index va = unat (drop_bit (12 + 27) va AND (word_of_nat ENTRY_COUNT - 1))"

definition p3_index :: "usize \<Rightarrow> nat" where
  "p3_index va = unat (drop_bit (12 + 18) va AND (word_of_nat ENTRY_COUNT - 1))"

definition p2_index :: "usize \<Rightarrow> nat" where
  "p2_index va = unat (drop_bit (12 + 9) va AND (word_of_nat ENTRY_COUNT - 1))"

definition p1_index :: "usize \<Rightarrow> nat" where
  "p1_index va = unat (drop_bit 12 va AND (word_of_nat ENTRY_COUNT - 1))"

section \<open>Tables\<close>

record PageTable =
  root_paddr :: usize
  intrm_tables :: "usize list"
  no_alloc :: bool

definition read_entry :: "usize \<times> nat \<Rightarrow> 'fa kmem \<Rightarrow> PageTableEntry" where
  "read_entry r m = phys m (fst r) (snd r)"

definition write_entry :: "usize \<times> nat \<Rightarrow> PageTableEntry \<Rightarrow> 'fa kmem \<Rightarrow> 'fa kmem" where
  "write_entry r e m = m\<lparr>phys := (phys m)(fst r := (phys m (fst r))(snd r := e))\<rparr>"

definition alloc_table :: "platform \<Rightarrow> 'fa BitAlloc \<Rightarrow> 'fa kmem \<Rightarrow> (usize \<times> 'fa kmem) option" where
  "alloc_table P B m = do {
     (r, m) \<leftarrow> alloc_frame P B m;
     pa \<leftarrow> r;
     m \<leftarrow> page_fill P pa 0 m;
     Some (pa, m) }"

text \<open>\<open>table_of\<close> and \<open>table_of_mut\<close> give a slice over the direct map; the slice is named by the
  physical address of the table.\<close>

definition table_of_mut :: "platform \<Rightarrow> usize \<Rightarrow> usize option" where
  "table_of_mut P paddr = do { _ \<leftarrow> kernel_phys_to_virt P paddr; Some paddr }"

definition next_table_mut_opt :: "platform \<Rightarrow> PageTableEntry \<Rightarrow> usize option option" where
  "next_table_mut_opt P e = do {
     v \<leftarrow> pte_is_valid e;
     if v then do {
       d \<leftarrow> pte_is_directory e; rassert d;
       pa \<leftarrow> pte_paddr e;
       t \<leftarrow> table_of_mut P pa;
       Some (Some t) }
     else Some None }"

definition next_table_mut :: "platform \<Rightarrow> PageTableEntry \<Rightarrow> usize option" where
  "next_table_mut P e = do {
     v \<leftarrow> pte_is_valid e; rassert v;
     pa \<leftarrow> pte_paddr e;
     table_of_mut P pa }"

definition next_table_mut_or_create ::
  "platform \<Rightarrow> 'fa BitAlloc \<Rightarrow> usize \<times> nat \<Rightarrow> PageTable \<times> 'fa kmem \<Rightarrow> (usize \<times> PageTable \<times> 'fa kmem) option" where
  "next_table_mut_or_create P B r s = (case s of (pt, m) \<Rightarrow> do {
     v \<leftarrow> pte_is_valid (read_entry r m);
     if \<not> v then do {
       (paddr, m) \<leftarrow> alloc_table P B m;
       let pt = (if no_alloc pt then pt else pt\<lparr>intrm_tables := intrm_tables pt @ [paddr]\<rparr>);
       let m = write_entry r (pte_new paddr F_V) m;
       t \<leftarrow> table_of_mut P paddr;
       Some (t, pt, m) }
     else do {
       t \<leftarrow> next_table_mut P (read_entry r m);
       Some (t, pt, m) } })"

definition get_entry_mut_opt ::
  "platform \<Rightarrow> PageTable \<Rightarrow> usize \<Rightarrow> 'fa kmem \<Rightarrow> (usize \<times> nat) option option" where
  "get_entry_mut_opt P pt va m = do {
     p3 \<leftarrow> table_of_mut P (root_paddr pt);
     n2 \<leftarrow> next_table_mut_opt P (read_entry (p3, p3_index va) m);
     case n2 of None \<Rightarrow> Some None | Some p2 \<Rightarrow> do {
       n1 \<leftarrow> next_table_mut_opt P (read_entry (p2, p2_index va) m);
       case n1 of None \<Rightarrow> Some None | Some p1 \<Rightarrow> do {
         v \<leftarrow> pte_is_valid (read_entry (p1, p1_index va) m);
         Some (if v then Some (p1, p1_index va) else None) } } }"

definition get_entry_mut :: "platform \<Rightarrow> PageTable \<Rightarrow> usize \<Rightarrow> 'fa kmem \<Rightarrow> (usize \<times> nat) option" where
  "get_entry_mut P pt va m = do {
     p3 \<leftarrow> table_of_mut P (root_paddr pt);
     p2 \<leftarrow> next_table_mut P (read_entry (p3, p3_index va) m);
     p1 \<leftarrow> next_table_mut P (read_entry (p2, p2_index va) m);
     Some (p1, p1_index va) }"

definition get_entry_mut_or_create ::
  "platform \<Rightarrow> 'fa BitAlloc \<Rightarrow> usize \<Rightarrow> PageTable \<times> 'fa kmem \<Rightarrow> ((usize \<times> nat) \<times> PageTable \<times> 'fa kmem) option" where
  "get_entry_mut_or_create P B va s = do {
     p3 \<leftarrow> table_of_mut P (root_paddr (fst s));
     (p2, s) \<leftarrow> next_table_mut_or_create P B (p3, p3_index va) s;
     (p1, s) \<leftarrow> next_table_mut_or_create P B (p2, p2_index va) s;
     Some ((p1, p1_index va), s) }"

section \<open>Creation\<close>

definition pt_new :: "platform \<Rightarrow> 'fa BitAlloc \<Rightarrow> 'fa kmem \<Rightarrow> (PageTable \<times> 'fa kmem) option" where
  "pt_new P B m = do {
     (root, m) \<leftarrow> alloc_table P B m;
     Some (\<lparr>root_paddr = root, intrm_tables = [root], no_alloc = False\<rparr>, m) }"

text \<open>\<open>copy_from_slice\<close> between two pages.\<close>

definition page_copy :: "platform \<Rightarrow> usize \<Rightarrow> usize \<Rightarrow> 'fa kmem \<Rightarrow> 'fa kmem option" where
  "page_copy P dst src m = do {
     _ \<leftarrow> kernel_phys_to_virt P dst;
     _ \<leftarrow> kernel_phys_to_virt P src;
     Some (m\<lparr>phys := (phys m)(dst := phys m src)\<rparr>) }"

definition new_with_kernel_seg :: "platform \<Rightarrow> 'fa BitAlloc \<Rightarrow> 'fa kmem \<Rightarrow> (PageTable \<times> 'fa kmem) option" where
  "new_with_kernel_seg P B m = do {
     (root, m) \<leftarrow> alloc_table P B m;
     boot \<leftarrow> assert_4k (boot_pagetable_paddr P);
     m \<leftarrow> page_copy P root boot m;
     Some (\<lparr>root_paddr = root, intrm_tables = [root], no_alloc = False\<rparr>, m) }"

definition new_with_paddr :: "usize \<Rightarrow> PageTable" where
  "new_with_paddr paddr = \<lparr>root_paddr = paddr, intrm_tables = [paddr], no_alloc = False\<rparr>"

definition new_with_paddr_no_heap_alloc :: "usize \<Rightarrow> PageTable" where
  "new_with_paddr_no_heap_alloc paddr = \<lparr>root_paddr = paddr, intrm_tables = [], no_alloc = True\<rparr>"

definition unmap_user_space :: "platform \<Rightarrow> PageTable \<Rightarrow> 'fa kmem \<Rightarrow> 'fa kmem option" where
  "unmap_user_space P pt m = do {
     t \<leftarrow> table_of_mut P (root_paddr pt);
     Some (fold (\<lambda>i. write_entry (t, i) pte_EMPTY) [0..<ENTRY_COUNT div 2] m) }"

text \<open>The boot page table, reached by its physical address while the boot mapping is active.\<close>

function map_kernel_phys_loop :: "platform \<Rightarrow> usize \<Rightarrow> 'fa kmem \<Rightarrow> 'fa kmem option" where
  "map_kernel_phys_loop P i m =
     (if i < max_physical_memory P then do {
        paddr \<leftarrow> uadd i (phymem_start P);
        vaddr \<leftarrow> uadd i K_SEG_PHY_MEM_BEG;
        let m = write_entry (boot_pagetable_paddr P, p3_index vaddr) (drop_bit 2 paddr OR 0xc7) m;
        case uadd i HUGE_PAGE_SIZE of
          None \<Rightarrow> Some m
        | Some i' \<Rightarrow> map_kernel_phys_loop P i' m }
      else Some m)"
  by pat_completeness auto
termination
  by (relation "measure (\<lambda>(P, i, m). unat (max_physical_memory P) - unat i)")
    (auto dest!: unat_uadd simp: word_less_nat_alt HUGE_PAGE_SIZE_def)

definition map_kernel_phys_seg :: "platform \<Rightarrow> 'fa kmem \<Rightarrow> 'fa kmem option" where
  "map_kernel_phys_seg P m = map_kernel_phys_loop P 0 m"

definition unmap_boot_seg :: "platform \<Rightarrow> 'fa kmem \<Rightarrow> 'fa kmem" where
  "unmap_boot_seg P m =
     fold (\<lambda>i. write_entry (boot_pagetable_paddr P, i) pte_EMPTY) [0..<ENTRY_COUNT div 2] m"

section \<open>Mapping\<close>

definition map_page ::
  "platform \<Rightarrow> 'fa BitAlloc \<Rightarrow> usize \<Rightarrow> usize \<Rightarrow> PTEFlags \<Rightarrow> PageTable \<times> 'fa kmem \<Rightarrow> (PageTable \<times> 'fa kmem) option" where
  "map_page P B va pa fl s = do {
     rassert (PhysAddr4K_is_valid pa);
     let new_pte = pte_new pa (F_V OR fl);
     (r, pt, m) \<leftarrow> get_entry_mut_or_create P B va s;
     v \<leftarrow> pte_is_valid (read_entry r m);
     rassert (\<not> v);
     Some (pt, write_entry r new_pte m) }"

definition remap_page ::
  "platform \<Rightarrow> 'fa BitAlloc \<Rightarrow> usize \<Rightarrow> usize \<Rightarrow> PTEFlags \<Rightarrow> PageTable \<times> 'fa kmem \<Rightarrow> (PageTable \<times> 'fa kmem) option" where
  "remap_page P B va pa fl s = do {
     rassert (PhysAddr4K_is_valid pa);
     let new_pte = pte_new pa (F_V OR fl);
     (r, pt, m) \<leftarrow> get_entry_mut_or_create P B va s;
     Some (pt, write_entry r new_pte m) }"

definition unmap_page :: "platform \<Rightarrow> usize \<Rightarrow> PageTable \<Rightarrow> 'fa kmem \<Rightarrow> (usize \<times> 'fa kmem) option" where
  "unmap_page P va pt m = do {
     r \<leftarrow> get_entry_mut P pt va m;
     paddr \<leftarrow> pte_paddr (read_entry r m);
     v \<leftarrow> pte_is_valid (read_entry r m);
     rassert v;
     Some (paddr, write_entry r (pte_clear (read_entry r m)) m) }"

function map_region ::
  "platform \<Rightarrow> 'fa BitAlloc \<Rightarrow> usize \<Rightarrow> usize \<Rightarrow> usize \<Rightarrow> PTEFlags \<Rightarrow> PageTable \<times> 'fa kmem \<Rightarrow>
   (PageTable \<times> 'fa kmem) option" where
  "map_region P B va pa sz fl s =
     (if sz > 0 then do {
        s \<leftarrow> map_page P B va pa fl s;
        va \<leftarrow> next_page va;
        pa \<leftarrow> next_page pa;
        sz' \<leftarrow> usub sz PAGE_SIZE;
        map_region P B va pa sz' fl s }
      else Some s)"
  by pat_completeness auto
termination
  by (relation "measure (\<lambda>(P, B, va, pa, sz, fl, s). unat sz)")
    (auto simp: usub_def word_le_nat_alt unat_sub word_less_nat_alt split: if_splits)

function unmap_region :: "platform \<Rightarrow> usize \<Rightarrow> usize \<Rightarrow> PageTable \<Rightarrow> 'fa kmem \<Rightarrow> 'fa kmem option" where
  "unmap_region P va sz pt m =
     (if sz > 0 then do {
        (_, m) \<leftarrow> unmap_page P va pt m;
        va \<leftarrow> next_page va;
        sz' \<leftarrow> usub sz PAGE_SIZE;
        unmap_region P va sz' pt m }
      else Some m)"
  by pat_completeness auto
termination
  by (relation "measure (\<lambda>(P, va, sz, pt, m). unat sz)")
    (auto simp: usub_def word_le_nat_alt unat_sub word_less_nat_alt split: if_splits)

declare map_kernel_phys_loop.simps [simp del] map_region.simps [simp del] unmap_region.simps [simp del]

section \<open>Lookup\<close>

definition get_pte_copied_from_vpn ::
  "platform \<Rightarrow> PageTable \<Rightarrow> usize \<Rightarrow> 'fa kmem \<Rightarrow> PageTableEntry option option" where
  "get_pte_copied_from_vpn P pt vpn m = do {
     va \<leftarrow> page_num_addr vpn;
     r \<leftarrow> get_entry_mut_opt P pt va m;
     Some (map_option (\<lambda>r. read_entry r m) r) }"

definition get_pte_mut_from_vpn ::
  "platform \<Rightarrow> PageTable \<Rightarrow> usize \<Rightarrow> 'fa kmem \<Rightarrow> (usize \<times> nat) option option" where
  "get_pte_mut_from_vpn P pt vpn m = do {
     va \<leftarrow> page_num_addr vpn;
     get_entry_mut_opt P pt va m }"

definition get_paddr_from_vaddr :: "platform \<Rightarrow> PageTable \<Rightarrow> usize \<Rightarrow> 'fa kmem \<Rightarrow> usize option" where
  "get_paddr_from_vaddr P pt va m = do {
     r \<leftarrow> get_entry_mut P pt va m;
     pa \<leftarrow> pte_paddr (read_entry r m);
     uadd pa (page_offset va) }"

section \<open>Copy on write\<close>

text \<open>The bodies of the three nested loops of \<open>copy_table_and_mark_self_cow\<close>, from the inside out.\<close>

definition cow_leaf ::
  "(usize \<Rightarrow> 'fa kmem \<Rightarrow> 'fa kmem option) \<Rightarrow> nat \<Rightarrow> nat \<Rightarrow> usize \<Rightarrow> usize \<Rightarrow> nat \<Rightarrow> 'fa kmem \<Rightarrow> 'fa kmem option" where
  "cow_leaf do_with_frame idx1 idx2 ot nt idx3 m = (
     let va = push_bit 12 ((push_bit 18 (word_of_nat idx1) OR push_bit 9 (word_of_nat idx2)) OR word_of_nat idx3) :: usize;
         in_share_seg = (U_SEG_SHARE_BEG \<le> va \<and> va < U_SEG_SHARE_END);
         op3 = read_entry (ot, idx3) m
     in do {
       v \<leftarrow> pte_is_valid op3;
       if v then do {
         l \<leftarrow> pte_is_leaf op3; rassert l;
         u \<leftarrow> pte_is_user op3;
         m \<leftarrow> (if u then do {
                 pa \<leftarrow> pte_paddr op3;
                 m \<leftarrow> do_with_frame pa m;
                 Some (if in_share_seg then m
                       else write_entry (ot, idx3) (pte_set_shared (pte_clear_writable op3)) m) }
               else Some m);
         Some (write_entry (nt, idx3) (read_entry (ot, idx3) m) m) }
       else Some m })"

definition cow_mid ::
  "platform \<Rightarrow> 'fa BitAlloc \<Rightarrow> (usize \<Rightarrow> 'fa kmem \<Rightarrow> 'fa kmem option) \<Rightarrow> nat \<Rightarrow> usize \<Rightarrow> usize \<Rightarrow> nat \<Rightarrow>
   PageTable \<times> 'fa kmem \<Rightarrow> (PageTable \<times> 'fa kmem) option" where
  "cow_mid P B do_with_frame idx1 ot nt idx2 s = (case s of (new, m) \<Rightarrow> do {
     l \<leftarrow> pte_is_leaf (read_entry (ot, idx2) m);
     if l then Some (new, write_entry (nt, idx2) (read_entry (ot, idx2) m) m)
     else do {
       op3t \<leftarrow> next_table_mut_opt P (read_entry (ot, idx2) m);
       case op3t of
         None \<Rightarrow> Some (new, m)
       | Some ot3 \<Rightarrow> do {
           (nt3, new, m) \<leftarrow> next_table_mut_or_create P B (nt, idx2) (new, m);
           m \<leftarrow> foldM (cow_leaf do_with_frame idx1 idx2 ot3 nt3) [0..<ENTRY_COUNT] m;
           Some (new, m) } } })"

definition cow_top ::
  "platform \<Rightarrow> 'fa BitAlloc \<Rightarrow> (usize \<Rightarrow> 'fa kmem \<Rightarrow> 'fa kmem option) \<Rightarrow> usize \<Rightarrow> usize \<Rightarrow> nat \<Rightarrow>
   PageTable \<times> 'fa kmem \<Rightarrow> (PageTable \<times> 'fa kmem) option" where
  "cow_top P B do_with_frame ot nt idx1 s = (case s of (new, m) \<Rightarrow> do {
     l \<leftarrow> pte_is_leaf (read_entry (ot, idx1) m);
     if l then Some (new, write_entry (nt, idx1) (read_entry (ot, idx1) m) m)
     else do {
       op2t \<leftarrow> next_table_mut_opt P (read_entry (ot, idx1) m);
       case op2t of
         None \<Rightarrow> Some (new, m)
       | Some ot2 \<Rightarrow> do {
           (nt2, new, m) \<leftarrow> next_table_mut_or_create P B (nt, idx1) (new, m);
           foldM (cow_mid P B do_with_frame idx1 ot2 nt2) [0..<ENTRY_COUNT] (new, m) } } })"

definition copy_table_and_mark_self_cow ::
  "platform \<Rightarrow> 'fa BitAlloc \<Rightarrow> (usize \<Rightarrow> 'fa kmem \<Rightarrow> 'fa kmem option) \<Rightarrow> PageTable \<Rightarrow> 'fa kmem \<Rightarrow>
   (PageTable \<times> 'fa kmem) option" where
  "copy_table_and_mark_self_cow P B do_with_frame old m = do {
     (new, m) \<leftarrow> pt_new P B m;
     m \<leftarrow> page_copy P (root_paddr new) (root_paddr old) m;
     m \<leftarrow> unmap_user_space P new m;
     ot \<leftarrow> table_of_mut P (root_paddr old);
     nt \<leftarrow> table_of_mut P (root_paddr new);
     foldM (cow_top P B do_with_frame ot nt) [0..<ENTRY_COUNT] (new, m) }"

section \<open>Destruction\<close>

definition drop_table_page :: "platform \<Rightarrow> 'fa BitAlloc \<Rightarrow> usize \<Rightarrow> 'fa kmem \<Rightarrow> 'fa kmem option" where
  "drop_table_page P B frame m = do {
     c \<leftarrow> get_ref_cnt P (page_num frame) m;
     rassert (c = 1);
     t \<leftarrow> table_of_mut P frame;
     m \<leftarrow> foldM (\<lambda>i m. do {
         v \<leftarrow> pte_is_valid (read_entry (t, i) m);
         l \<leftarrow> pte_is_leaf (read_entry (t, i) m);
         u \<leftarrow> pte_is_user (read_entry (t, i) m);
         rassert (\<not> (v \<and> l \<and> u));
         Some m }) [0..<ENTRY_COUNT] m;
     m \<leftarrow> page_fill P frame junk_word m;
     rassert (PhysAddr4K_is_valid frame);
     m \<leftarrow> decrease P (page_num frame) m;
     dealloc_frame P B frame m }"

definition pt_drop :: "platform \<Rightarrow> 'fa BitAlloc \<Rightarrow> PageTable \<Rightarrow> 'fa kmem \<Rightarrow> 'fa kmem option" where
  "pt_drop P B pt m = foldM (drop_table_page P B) (intrm_tables pt) m"

end
