(* ===== verification/Pagetable_Laws.thy ===== *)
theory Pagetable_Laws
  imports Pagetable
begin

text \<open>
  A page table as a finite map from virtual page numbers to entries: the tree invariant, and the
  refinement of \<open>map_page\<close>, \<open>remap_page\<close> and \<open>unmap_page\<close> to updates of that map at one page of
  the user half.
\<close>

section \<open>Walking the tables\<close>

definition sub_table :: "(usize \<Rightarrow> nat \<Rightarrow> u64) \<Rightarrow> usize \<Rightarrow> nat \<Rightarrow> usize option" where
  "sub_table \<phi> t i = (if bit (\<phi> t i) 0 then Some (pte_ppn (\<phi> t i) * 4096) else None)"

fun walk :: "(usize \<Rightarrow> nat \<Rightarrow> u64) \<Rightarrow> usize \<Rightarrow> nat list \<Rightarrow> usize option" where
  "walk \<phi> t [] = Some t"
| "walk \<phi> t (i # is) = (case sub_table \<phi> t i of None \<Rightarrow> None | Some t' \<Rightarrow> walk \<phi> t' is)"

text \<open>The paths to the tables of the user half: the root, its first 256 children, and theirs.\<close>

definition upath :: "nat list \<Rightarrow> bool" where
  "upath p \<longleftrightarrow> length p \<le> 2 \<and> (p \<noteq> [] \<longrightarrow> hd p < 256) \<and> (\<forall>i\<in>set p. i < 512)"

definition table_ok :: "platform \<Rightarrow> 'fa kmem \<Rightarrow> usize \<Rightarrow> bool" where
  "table_ok P m t \<longleftrightarrow> kernel_phys_to_virt P t \<noteq> None \<and> count_of m (page_num t) \<noteq> 0"

definition pt_inv :: "platform \<Rightarrow> 'fa kmem \<Rightarrow> usize \<Rightarrow> bool" where
  "pt_inv P m r \<longleftrightarrow> ref_cnts m \<noteq> None \<and>
     (\<forall>p q t. upath p \<and> upath q \<and> walk (phys m) r p = Some t \<and> walk (phys m) r q = Some t \<longrightarrow> p = q) \<and>
     (\<forall>p t. upath p \<and> walk (phys m) r p = Some t \<longrightarrow> table_ok P m t) \<and>
     (\<forall>p i t. upath (p @ [i]) \<and> walk (phys m) r p = Some t \<and> bit (phys m t i) 0 \<longrightarrow> \<not> leafy (phys m t i))"

definition leaf_at :: "(usize \<Rightarrow> nat \<Rightarrow> u64) \<Rightarrow> usize \<Rightarrow> nat \<Rightarrow> nat \<Rightarrow> nat \<Rightarrow> u64 option" where
  "leaf_at \<phi> r i j k = (case walk \<phi> r [i, j] of None \<Rightarrow> None
     | Some t \<Rightarrow> if bit (\<phi> t k) 0 then Some (\<phi> t k) else None)"

definition user_tables :: "(usize \<Rightarrow> nat \<Rightarrow> u64) \<Rightarrow> usize \<Rightarrow> usize set" where
  "user_tables \<phi> r = {t. \<exists>p. upath p \<and> walk \<phi> r p = Some t}"

lemma not_user_table: "pa \<notin> user_tables \<phi> r \<Longrightarrow> upath q \<Longrightarrow> walk \<phi> r q = Some t \<Longrightarrow> t \<noteq> pa"
  by (auto simp: user_tables_def)

lemma upath_Nil [simp]: "upath []" and upath_1 [simp]: "upath [i] \<longleftrightarrow> i < 256"
  and upath_2 [simp]: "upath [i, j] \<longleftrightarrow> i < 256 \<and> j < 512"
  by (auto simp: upath_def)

lemma upath_prefix: "upath (p @ [i]) \<Longrightarrow> upath p"
  by (auto simp: upath_def)

lemma upath_cases:
  assumes "upath p"
  obtains "p = []" | i where "p = [i]" "i < 256" | i j where "p = [i, j]" "i < 256" "j < 512"
proof -
  consider "p = []" | i where "p = [i]" | i j where "p = [i, j]"
    using assms unfolding upath_def
    by (cases p; cases "tl p"; cases "tl (tl p)") auto
  then show ?thesis using assms that by cases auto
qed

lemma pt_inv_inj:
  "pt_inv P m r \<Longrightarrow> upath p \<Longrightarrow> upath q \<Longrightarrow> walk (phys m) r p = Some t \<Longrightarrow> walk (phys m) r q = Some t \<Longrightarrow> p = q"
  unfolding pt_inv_def by blast

lemma pt_inv_ok: "pt_inv P m r \<Longrightarrow> upath p \<Longrightarrow> walk (phys m) r p = Some t \<Longrightarrow> table_ok P m t"
  unfolding pt_inv_def by blast

lemma pt_inv_dir:
  "pt_inv P m r \<Longrightarrow> upath (p @ [i]) \<Longrightarrow> walk (phys m) r p = Some t \<Longrightarrow> bit (phys m t i) 0 \<Longrightarrow> \<not> leafy (phys m t i)"
  unfolding pt_inv_def by blast

lemma walk_snoc: "walk \<phi> r (p @ [i]) = (case walk \<phi> r p of None \<Rightarrow> None | Some t \<Rightarrow> sub_table \<phi> t i)"
  by (induction \<phi> r p rule: walk.induct) (auto split: option.splits)

section \<open>The indices of an address\<close>

lemma index_eq:
  "p3_index va = unat va div 2 ^ 30 mod 512" "p2_index va = unat va div 2 ^ 21 mod 512"
  "p1_index va = unat va div 2 ^ 12 mod 512"
proof -
  have m: "(word_of_nat ENTRY_COUNT - 1 :: usize) = mask 9"
    by (simp add: ENTRY_COUNT_def mask_eq_exp_minus_1)
  have d: "unat (drop_bit n va) = unat va div 2 ^ n" for n
    by (simp only: unsigned_drop_bit_eq take_bit_nat_eq_self[OF unat_lt2p]) (simp only: drop_bit_eq_div)
  show "p3_index va = unat va div 2 ^ 30 mod 512" "p2_index va = unat va div 2 ^ 21 mod 512"
    "p1_index va = unat va div 2 ^ 12 mod 512"
    by (simp_all only: p3_index_def p2_index_def p1_index_def m unat_and_mask d) simp_all
qed

lemma index_bounds [simp]: "p3_index va < 512" "p2_index va < 512" "p1_index va < 512"
  by (simp_all add: index_eq)

text \<open>Below \<open>2\<^sup>3\<^sup>9\<close> the three indices determine the page.\<close>

lemma index_page:
  assumes "unat va < 2 ^ 39"
  shows "unat (page_num va) = (p3_index va * 512 + p2_index va) * 512 + p1_index va"
proof -
  let ?n = "unat va div 4096"
  have n: "?n < 512 * 512 * 512" using assms by (simp add: less_mult_imp_div_less)
  have "p1_index va = ?n mod 512" "p2_index va = ?n div 512 mod 512" "p3_index va = ?n div 512 div 512 mod 512"
    by (simp_all add: index_eq flip: div_mult2_eq)
  moreover have "?n div 512 div 512 mod 512 = ?n div 512 div 512"
    using n by (simp add: less_mult_imp_div_less)
  ultimately show ?thesis by (simp add: unat_page_num)
qed

lemma same_index:
  assumes "unat va < 2 ^ 39" "unat va' < 2 ^ 39"
  shows "p3_index va = p3_index va' \<and> p2_index va = p2_index va' \<and> p1_index va = p1_index va' \<longleftrightarrow>
         page_num va = page_num va'"
proof
  assume "page_num va = page_num va'"
  then have e: "unat va div 4096 = unat va' div 4096" by (metis unat_page_num)
  have "unat va div 2 ^ 30 = unat va div 4096 div 2 ^ 18" "unat va div 2 ^ 21 = unat va div 4096 div 2 ^ 9" for va :: usize
    by (simp_all flip: div_mult2_eq)
  then show "p3_index va = p3_index va' \<and> p2_index va = p2_index va' \<and> p1_index va = p1_index va'"
    using e by (simp add: index_eq)
next
  assume "p3_index va = p3_index va' \<and> p2_index va = p2_index va' \<and> p1_index va = p1_index va'"
  then have "unat (page_num va) = unat (page_num va')"
    by (simp add: index_page[OF assms(1)] index_page[OF assms(2)])
  then show "page_num va = page_num va'" by (rule unsigned_word_eqI)
qed

lemma user_index: "unat va < 2 ^ 38 \<Longrightarrow> p3_index va < 256"
  by (simp add: index_eq less_mult_imp_div_less)

section \<open>Lookup\<close>

lemma table_of_mut_ok: "table_ok P m t \<Longrightarrow> table_of_mut P t = Some t"
  by (auto simp: table_ok_def table_of_mut_def)

lemma next_table_ok:
  assumes i: "pt_inv P m r" and p: "upath (p @ [i])" and w: "walk (phys m) r p = Some t"
  shows "next_table_mut_opt P (phys m t i) = Some (walk (phys m) r (p @ [i]))"
    "bit (phys m t i) 0 \<Longrightarrow> next_table_mut P (phys m t i) = walk (phys m) r (p @ [i])"
proof -
  have s: "walk (phys m) r (p @ [i]) = sub_table (phys m) t i" using w by (simp add: walk_snoc)
  have t: "table_of_mut P (pte_ppn (phys m t i) * 4096) = Some (pte_ppn (phys m t i) * 4096)"
    if "bit (phys m t i) 0"
    using pt_inv_ok[OF i p] that by (intro table_of_mut_ok) (simp add: s sub_table_def)
  show "next_table_mut_opt P (phys m t i) = Some (walk (phys m) r (p @ [i]))"
    unfolding s using pt_inv_dir[OF i p w] t
    by (auto simp: next_table_mut_opt_def sub_table_def pte_paddr_total)
  show "bit (phys m t i) 0 \<Longrightarrow> next_table_mut P (phys m t i) = walk (phys m) r (p @ [i])"
    unfolding s using t by (simp add: next_table_mut_def sub_table_def pte_paddr_total)
qed

lemma get_entry_opt_eq:
  assumes i: "pt_inv P m (root_paddr pt)" and u: "p3_index va < 256"
  shows "get_entry_mut_opt P pt va m =
    Some (case walk (phys m) (root_paddr pt) [p3_index va, p2_index va] of None \<Rightarrow> None
          | Some t \<Rightarrow> if bit (phys m t (p1_index va)) 0 then Some (t, p1_index va) else None)"
proof -
  let ?r = "root_paddr pt"
  have "table_of_mut P ?r = Some ?r" by (rule table_of_mut_ok[OF pt_inv_ok[OF i upath_Nil]]) simp
  moreover have "next_table_mut_opt P (phys m ?r (p3_index va)) = Some (walk (phys m) ?r [p3_index va])"
    using next_table_ok(1)[OF i, of "[]" "p3_index va"] u by simp
  moreover have "next_table_mut_opt P (phys m t (p2_index va)) = Some (walk (phys m) ?r [p3_index va, p2_index va])"
    if "walk (phys m) ?r [p3_index va] = Some t" for t
    using next_table_ok(1)[OF i, of "[p3_index va]" "p2_index va" t] that u by simp
  ultimately show ?thesis
    by (cases "walk (phys m) ?r [p3_index va]")
      (auto simp: get_entry_mut_opt_def read_entry_def split: option.splits)
qed

lemma get_pte_eq:
  assumes i: "pt_inv P m (root_paddr pt)" and v: "unat vpn < 2 ^ 26"
  shows "get_pte_copied_from_vpn P pt vpn m = Some (leaf_at (phys m) (root_paddr pt)
    (p3_index (vpn * 4096)) (p2_index (vpn * 4096)) (p1_index (vpn * 4096)))"
proof -
  have u: "unat (vpn * 4096) = unat vpn * 4096" using v by (simp add: unat_word_ariths)
  have a: "page_num_addr vpn = Some (vpn * 4096)" using v by (simp add: page_num_addr_def umul_def)
  have "p3_index (vpn * 4096) < 256" using v by (intro user_index) (simp add: u)
  from get_entry_opt_eq[OF i this] show ?thesis
    by (auto simp: get_pte_copied_from_vpn_def a leaf_at_def read_entry_def split: option.splits)
qed

section \<open>Creating tables\<close>

lemma alloc_table_post:
  assumes ok: "platform_ok P" and rc: "ref_cnts m \<noteq> None" and run: "alloc_table P B m = Some (pa, m')"
  shows "phys m' = (phys m)(pa := (\<lambda>_. 0))" "count_of m (page_num pa) = 0"
    "count_of m' = (count_of m)(page_num pa := 1)" "ref_cnts m' \<noteq> None"
    "unat pa mod 4096 = 0" "unat pa < 2 ^ 56" "kernel_phys_to_virt P pa \<noteq> None"
proof -
  obtain t where t: "ref_cnts m = Some t" using rc by blast
  obtain m1 where a: "alloc_frame P B m = Some (Some pa, m1)" and k: "kernel_phys_to_virt P pa \<noteq> None"
      and m': "m' = m1\<lparr>phys := (phys m1)(pa := (\<lambda>_. 0))\<rparr>"
    using run by (auto simp: alloc_table_def page_fill_def bind_eq_Some_conv)
  obtain fa where g: "GlobalFrameAlloc_alloc P B m = Some (Some pa, m\<lparr>falloc := fa\<rparr>)"
      and va: "PhysAddr4K_is_valid pa" and f: "get_ref_cnt_ptr P (page_num pa) = Some (page_num pa)"
      and z: "t (page_num pa) = 0"
      and m1: "m1 = m\<lparr>falloc := fa, phys := (phys m)(pa := (\<lambda>_. junk_word)), ref_cnts := Some (t(page_num pa := 1))\<rparr>"
    using a t by (auto simp: alloc_frame_def GlobalFrameAlloc_alloc_def page_fill_def is_free_def get_ref_cnt_def
        get_ref_cnt_ptr_def is_frame_ref_cnt_inited_def increase_def add_ref_cnt_def bind_eq_Some_conv
        split: option.splits prod.splits if_splits)
  show "phys m' = (phys m)(pa := (\<lambda>_. 0))" "count_of m (page_num pa) = 0" "ref_cnts m' \<noteq> None"
    "count_of m' = (count_of m)(page_num pa := 1)" "kernel_phys_to_virt P pa \<noteq> None"
    using m' m1 t z k by (auto simp: count_of_fun)
  show "unat pa mod 4096 = 0" using va by (simp add: PhysAddr4K_is_valid_def aligned_iff)
  have "unat pa div 4096 < unat (max_physical_memory P) div 4096"
    using f by (auto simp: get_ref_cnt_ptr_def word_less_nat_alt unat_page_num unat_div bind_eq_Some_conv split: if_splits)
  then have "unat pa < unat (max_physical_memory P)" by (metis div_le_mono not_le)
  then show "unat pa < 2 ^ 56" using ok by (simp add: platform_ok_def)
qed

lemma dir_entry:
  assumes "unat pa mod 4096 = 0" "unat pa < 2 ^ 56"
  shows "bit (pte_new pa F_V) 0" "\<not> leafy (pte_new pa F_V)" "pte_ppn (pte_new pa F_V) * 4096 = pa"
proof -
  have V: "F_V AND NOT (mask 10) = 0" by (simp add: F_V_def mask_eq_exp_minus_1)
  have "bit F_V n \<longleftrightarrow> n = 0" for n unfolding F_V_def bit_flag by simp
  then show "bit (pte_new pa F_V) 0" "\<not> leafy (pte_new pa F_V)"
    by (auto simp: bit_pte_new leafy_def)
  show "pte_ppn (pte_new pa F_V) * 4096 = pa"
    using pte_paddr_new[OF assms V] by (simp add: pte_paddr_total)
qed

text \<open>Memory after a fresh zeroed table \<open>pa\<close> is linked into entry \<open>k\<close> of table \<open>t\<close>.\<close>

definition linked :: "(usize \<Rightarrow> nat \<Rightarrow> u64) \<Rightarrow> usize \<Rightarrow> nat \<Rightarrow> u64 \<Rightarrow> usize \<Rightarrow> usize \<Rightarrow> nat \<Rightarrow> u64" where
  "linked \<phi> t k e pa = (\<phi>(pa := (\<lambda>_. 0)))(t := (\<phi> t)(k := e))"

lemma walk_linked:
  assumes i: "pt_inv P m r" and p: "upath (p @ [k])" and w: "walk (phys m) r p = Some t"
    and nb: "\<not> bit (phys m t k) 0"
    and nt: "pa \<notin> user_tables (phys m) r"
    and e: "bit e 0" "pte_ppn e * 4096 = pa" and q: "upath q"
  shows "walk (linked (phys m) t k e pa) r q = (if q = p @ [k] then Some pa else walk (phys m) r q)"
proof -
  let ?f = "phys m" and ?g = "linked (phys m) t k e pa"
  note fresh = not_user_table[OF nt]
  have tp: "t \<noteq> pa" using fresh[OF upath_prefix[OF p] w] .
  have sub: "sub_table ?g t1 j = (if t1 = t \<and> j = k then Some pa else sub_table ?f t1 j)" if "t1 \<noteq> pa" for t1 j
    using that e by (auto simp: linked_def sub_table_def)
  have new: "sub_table ?g pa j = None" for j using tp by (simp add: linked_def sub_table_def)
  have miss: "walk ?f r (p @ [k]) = None" using w nb by (simp add: walk_snoc sub_table_def)
  have top: "walk ?g r [a] = (if [a] = p @ [k] then Some pa else walk ?f r [a])" if a: "a < 256" for a
  proof -
    have "r = t \<longleftrightarrow> p = []" using pt_inv_inj[OF i upath_Nil upath_prefix[OF p], of t] w by auto
    then show ?thesis using sub[of r a] fresh[OF upath_Nil] by (auto split: option.splits)
  qed
  from q show ?thesis
  proof (cases rule: upath_cases)
    case (3 a b)
    have step: "walk \<phi> r [a, b] = (case walk \<phi> r [a] of None \<Rightarrow> None | Some t1 \<Rightarrow> sub_table \<phi> t1 b)" for \<phi>
      by (auto split: option.splits)
    show ?thesis
    proof (cases "[a] = p @ [k]")
      case True
      then have "walk ?g r [a] = Some pa" "walk ?f r [a] = None" using top[OF 3(2)] miss by simp_all
      then show ?thesis unfolding 3(1) step using True new by (auto simp del: walk.simps)
    next
      case False
      show ?thesis
      proof (cases "walk ?f r [a]")
        case None
        then have "[a] \<noteq> p" using w by auto
        then show ?thesis unfolding 3(1) step using None top[OF 3(2)] False by (auto simp del: walk.simps)
      next
        case (Some t1)
        have "t1 = t \<longleftrightarrow> [a] = p"
          using pt_inv_inj[OF i _ upath_prefix[OF p], of "[a]" t1] Some w 3(2) by auto
        moreover have "t1 \<noteq> pa" using fresh[of "[a]" t1] Some 3(2) by simp
        moreover have "walk ?g r [a] = Some t1" using top[OF 3(2)] False Some by simp
        ultimately show ?thesis unfolding 3(1) step using Some sub[of t1 b] by (auto simp del: walk.simps)
      qed
    qed
  qed (use top in auto)
qed

lemma leaf_at_linked:
  assumes i: "pt_inv P m r" and p: "upath (p @ [k])" and w: "walk (phys m) r p = Some t"
    and nb: "\<not> bit (phys m t k) 0"
    and nt: "pa \<notin> user_tables (phys m) r"
    and e: "bit e 0" "pte_ppn e * 4096 = pa" and ab: "a < 256" "b < 512"
  shows "leaf_at (linked (phys m) t k e pa) r a b c = leaf_at (phys m) r a b c"
proof -
  have q: "upath [a, b]" using ab by simp
  note fresh = not_user_table[OF nt]
  note wl = walk_linked[OF i p w nb nt e q]
  have tp: "t \<noteq> pa" using fresh[OF upath_prefix[OF p] w] .
  show ?thesis
  proof (cases "[a, b] = p @ [k]")
    case True
    have "walk (phys m) r [a, b] = None" using True w nb by (simp only: walk_snoc) (simp add: sub_table_def)
    moreover have "walk (linked (phys m) t k e pa) r [a, b] = Some pa" using wl by (simp only: True simp_thms if_True)
    ultimately show ?thesis using tp by (simp add: leaf_at_def linked_def del: walk.simps)
  next
    case False
    have "t1 \<noteq> pa \<and> t1 \<noteq> t" if "walk (phys m) r [a, b] = Some t1" for t1
      using fresh[OF q that] pt_inv_inj[OF i q upath_prefix[OF p] that] w p by (auto simp: upath_def)
    then show ?thesis using wl False
      by (auto simp: leaf_at_def linked_def simp del: walk.simps split: option.splits)
  qed
qed

lemma pt_inv_linked:
  assumes i: "pt_inv P m r" and p: "upath (p @ [k])" and w: "walk (phys m) r p = Some t"
    and nb: "\<not> bit (phys m t k) 0" and fresh: "pa \<notin> user_tables (phys m) r"
    and e: "bit e 0" "pte_ppn e * 4096 = pa" and nl: "\<not> leafy e"
    and ph: "phys m' = linked (phys m) t k e pa" and rc: "ref_cnts m' \<noteq> None"
    and keep: "\<And>x. table_ok P m x \<Longrightarrow> table_ok P m' x" and new: "table_ok P m' pa"
  shows "pt_inv P m' r"
  unfolding pt_inv_def
proof (intro conjI allI impI; (elim conjE)?)
  note wl = walk_linked[OF i p w nb fresh e]
  show "ref_cnts m' \<noteq> None" by (rule rc)
  show "q = q'" if "upath q" "upath q'" "walk (phys m') r q = Some x" "walk (phys m') r q' = Some x" for q q' x
    using that pt_inv_inj[OF i that(1,2), of x] not_user_table[OF fresh that(1), of x]
      not_user_table[OF fresh that(2), of x] unfolding ph wl[OF that(1)] wl[OF that(2)]
    by (auto split: if_splits)
  show "table_ok P m' x" if "upath q" "walk (phys m') r q = Some x" for q x
    using that(2) keep new pt_inv_ok[OF i that(1), of x] unfolding ph wl[OF that(1)] by (auto split: if_splits)
  show "\<not> leafy (phys m' x j)" if q: "upath (q @ [j])" "walk (phys m') r q = Some x" and b: "bit (phys m' x j) 0" for q j x
  proof (cases "q = p @ [k]")
    case True
    then have "x = pa" using q(2) unfolding ph wl[OF upath_prefix[OF q(1)]] by simp
    then show ?thesis using b not_user_table[OF fresh upath_prefix[OF p] w] by (simp add: ph linked_def)
  next
    case False
    then have x: "walk (phys m) r q = Some x" using q(2) unfolding ph wl[OF upath_prefix[OF q(1)]] by simp
    then have "x \<noteq> pa" using not_user_table[OF fresh upath_prefix[OF q(1)]] by blast
    then show ?thesis using b pt_inv_dir[OF i q(1) x] nl by (auto simp: ph linked_def)
  qed
qed

text \<open>One level of \<open>get_entry_mut_or_create\<close>: the invariant and every leaf are kept, and the table
  that is returned is the one the path leads to.\<close>

lemma next_create_step:
  assumes ok: "platform_ok P" and i: "pt_inv P m (root_paddr pt)" and p: "upath (p @ [k])"
    and w: "walk (phys m) (root_paddr pt) p = Some t"
    and run: "next_table_mut_or_create P B (t, k) (pt, m) = Some (t', pt', m')"
  shows "pt_inv P m' (root_paddr pt') \<and> root_paddr pt' = root_paddr pt \<and>
    walk (phys m') (root_paddr pt) (p @ [k]) = Some t' \<and>
    (\<forall>a b c. a < 256 \<longrightarrow> b < 512 \<longrightarrow> leaf_at (phys m') (root_paddr pt) a b c = leaf_at (phys m) (root_paddr pt) a b c)"
proof -
  let ?r = "root_paddr pt"
  have r: "root_paddr pt' = ?r"
    using run by (auto simp: next_table_mut_or_create_def Let_def bind_eq_Some_conv split: if_splits)
  show ?thesis
  proof (cases "bit (phys m t k) 0")
    case True
    then have "m' = m" "next_table_mut P (phys m t k) = Some t'"
      using run by (auto simp: next_table_mut_or_create_def read_entry_def bind_eq_Some_conv)
    then show ?thesis using i r next_table_ok(2)[OF i p w True] by simp
  next
    case False
    obtain m1 where a: "alloc_table P B m = Some (t', m1)" and m': "m' = write_entry (t, k) (pte_new t' F_V) m1"
      using run False by (auto simp: next_table_mut_or_create_def read_entry_def table_of_mut_def Let_def bind_eq_Some_conv)
    have rc: "ref_cnts m \<noteq> None" using i by (simp add: pt_inv_def)
    note al = alloc_table_post[OF ok rc a] and de = dir_entry[OF alloc_table_post(5,6)[OF ok rc a]]
    have fresh: "t' \<notin> user_tables (phys m) ?r"
      using pt_inv_ok[OF i] al(2) by (auto simp: user_tables_def table_ok_def)
    have "t \<noteq> t'" using not_user_table[OF fresh upath_prefix[OF p] w] .
    then have ph: "phys m' = linked (phys m) t k (pte_new t' F_V) t'"
      by (simp add: m' write_entry_def al(1) linked_def)
    have co: "count_of m' = (count_of m)(page_num t' := 1)"
      using al(3) by (simp add: m' write_entry_def count_of_fun)
    have "pt_inv P m' ?r"
      by (rule pt_inv_linked[OF i p w False fresh de(1,3,2) ph])
        (use al(4,7) co in \<open>auto simp: table_ok_def m' write_entry_def\<close>)
    moreover have "walk (phys m') ?r (p @ [k]) = Some t'"
      unfolding ph walk_linked[OF i p w False fresh de(1,3) p] by simp
    ultimately show ?thesis
      using leaf_at_linked[OF i p w False fresh de(1,3)] r by (simp add: ph)
  qed
qed

lemma get_or_create_step:
  assumes ok: "platform_ok P" and i: "pt_inv P m (root_paddr pt)" and u: "p3_index va < 256"
    and run: "get_entry_mut_or_create P B va (pt, m) = Some (r, pt', m')"
  shows "pt_inv P m' (root_paddr pt') \<and> root_paddr pt' = root_paddr pt \<and>
    (\<exists>t. r = (t, p1_index va) \<and> walk (phys m') (root_paddr pt) [p3_index va, p2_index va] = Some t) \<and>
    (\<forall>a b c. a < 256 \<longrightarrow> b < 512 \<longrightarrow> leaf_at (phys m') (root_paddr pt) a b c = leaf_at (phys m) (root_paddr pt) a b c)"
proof -
  have t: "table_of_mut P (root_paddr pt) = Some (root_paddr pt)"
    by (rule table_of_mut_ok[OF pt_inv_ok[OF i upath_Nil]]) simp
  obtain t2 pt1 m1 t1 where
      r1: "next_table_mut_or_create P B (root_paddr pt, p3_index va) (pt, m) = Some (t2, pt1, m1)"
      and r2: "next_table_mut_or_create P B (t2, p2_index va) (pt1, m1) = Some (t1, pt', m')"
      and r: "r = (t1, p1_index va)"
    using run t by (auto simp: get_entry_mut_or_create_def bind_eq_Some_conv)
  note s1 = next_create_step[OF ok i, of "[]" "p3_index va", OF _ _ r1, simplified]
  have w1: "walk (phys m1) (root_paddr pt1) [p3_index va] = Some t2"
    using s1 u by simp
  note s2 = next_create_step[OF ok _ _ w1 r2]
  show ?thesis using s1 s2 u r by (auto simp del: walk.simps)
qed

section \<open>Writing a leaf\<close>

lemma walk_leaf_write:
  assumes i: "pt_inv P m r" and w: "walk (phys m) r [a, b] = Some t" and ab: "a < 256" "b < 512" and q: "upath q"
  shows "walk (phys (write_entry (t, c) e m)) r q = walk (phys m) r q"
proof -
  let ?g = "phys (write_entry (t, c) e m)"
  have keep: "sub_table ?g x j = sub_table (phys m) x j" if "walk (phys m) r p = Some x" "upath p" "length p < 2" for p x j
  proof -
    have "x \<noteq> t" using pt_inv_inj[OF i that(2), of "[a, b]" x] that w ab by auto
    then show ?thesis by (simp add: sub_table_def write_entry_def)
  qed
  have top: "walk ?g r [j] = walk (phys m) r [j]" for j
    using keep[of "[]" r j] by (simp split: option.splits)
  from q show ?thesis
  proof (cases rule: upath_cases)
    case (3 j k)
    have step: "walk \<phi> r [j, k] = (case walk \<phi> r [j] of None \<Rightarrow> None | Some t1 \<Rightarrow> sub_table \<phi> t1 k)" for \<phi>
      by (auto split: option.splits)
    show ?thesis unfolding 3(1) step top using keep[of "[j]" _ k] 3(2)
      by (auto simp del: walk.simps split: option.splits)
  next
    case (2 j)
    then show ?thesis by (simp only: top)
  qed simp
qed

lemma pt_inv_leaf_write:
  assumes i: "pt_inv P m r" and w: "walk (phys m) r [a, b] = Some t" and ab: "a < 256" "b < 512"
  shows "pt_inv P (write_entry (t, c) e m) r"
proof -
  let ?m = "write_entry (t, c) e m"
  note wk = walk_leaf_write[OF i w ab]
  have ok: "table_ok P ?m x = table_ok P m x" for x by (simp add: table_ok_def write_entry_def count_of_def)
  have "phys ?m x j = phys m x j" if "upath (p @ [j])" "walk (phys m) r p = Some x" for p j x
  proof -
    have "length p < 2" using that(1) by (simp add: upath_def)
    then have "x \<noteq> t" using pt_inv_inj[OF i upath_prefix[OF that(1)], of "[a, b]" x] that(2) w ab by auto
    then show ?thesis by (simp add: write_entry_def)
  qed
  moreover have "ref_cnts ?m \<noteq> None" using i by (simp add: pt_inv_def write_entry_def)
  ultimately show ?thesis
    using i unfolding pt_inv_def ok by (auto simp: wk wk[OF upath_prefix])
qed

lemma leaf_at_write:
  assumes i: "pt_inv P m r" and w: "walk (phys m) r [a, b] = Some t" and ab: "a < 256" "b < 512"
    and ab': "a' < 256" "b' < 512"
  shows "leaf_at (phys (write_entry (t, c) e m)) r a' b' c' =
    (if a' = a \<and> b' = b \<and> c' = c then if bit e 0 then Some e else None else leaf_at (phys m) r a' b' c')"
proof -
  have q: "upath [a', b']" using ab' by simp
  note wk = walk_leaf_write[OF i w ab q, of c e]
  have "x = t \<longleftrightarrow> [a', b'] = [a, b]" if "walk (phys m) r [a', b'] = Some x" for x
    using pt_inv_inj[OF i q, of "[a, b]" x] that w ab by auto
  then show ?thesis
    unfolding leaf_at_def wk using w
    by (auto simp: write_entry_def simp del: walk.simps split: option.splits)
qed

text \<open>What a caller sees: the entries of the pages of the user half before and after an update of
  the entry of one page.\<close>

definition updates_pte ::
  "platform \<Rightarrow> PageTable \<Rightarrow> 'fa kmem \<Rightarrow> PageTable \<Rightarrow> 'fa kmem \<Rightarrow> usize \<Rightarrow> PageTableEntry option \<Rightarrow> bool" where
  "updates_pte P pt m pt' m' vpn e \<longleftrightarrow>
     (\<forall>n. unat n < 2 ^ 26 \<longrightarrow> get_pte_copied_from_vpn P pt' n m' =
        (if n = vpn then Some e else get_pte_copied_from_vpn P pt n m))"

lemma vpn_indices:
  assumes "unat n < 2 ^ 26" "unat va < 2 ^ 38"
  shows "p3_index (n * 4096) = p3_index va \<and> p2_index (n * 4096) = p2_index va \<and> p1_index (n * 4096) = p1_index va \<longleftrightarrow>
         n = page_num va"
proof -
  have u: "unat (n * 4096) = unat n * 4096" using assms(1) by (simp add: unat_word_ariths)
  have "unat (page_num (n * 4096)) = unat n" by (simp add: unat_page_num u)
  then have "page_num (n * 4096) = n" by (rule unsigned_word_eqI)
  then show ?thesis using same_index[of "n * 4096" va] assms u by simp
qed

lemma updates_pteI:
  assumes i: "pt_inv P m (root_paddr pt)" and i': "pt_inv P m' (root_paddr pt')" and va: "unat va < 2 ^ 38"
    and leaf: "\<And>a b c. a < 256 \<Longrightarrow> b < 512 \<Longrightarrow> leaf_at (phys m') (root_paddr pt') a b c =
      (if a = p3_index va \<and> b = p2_index va \<and> c = p1_index va then e else leaf_at (phys m) (root_paddr pt) a b c)"
  shows "updates_pte P pt m pt' m' (page_num va) e"
  unfolding updates_pte_def
proof (intro allI impI)
  fix n :: usize assume n: "unat n < 2 ^ 26"
  have "unat (n * 4096) = unat n * 4096" using n by (simp add: unat_word_ariths)
  then have "p3_index (n * 4096) < 256" using n by (intro user_index) simp
  then show "get_pte_copied_from_vpn P pt' n m' =
      (if n = page_num va then Some e else get_pte_copied_from_vpn P pt n m)"
    by (simp add: get_pte_eq[OF i n] get_pte_eq[OF i' n] leaf vpn_indices[OF n va])
qed

lemma leaf_at_va:
  assumes "pt_inv P m (root_paddr pt)" "unat va < 2 ^ 38"
  shows "get_pte_copied_from_vpn P pt (page_num va) m =
    Some (leaf_at (phys m) (root_paddr pt) (p3_index va) (p2_index va) (p1_index va))"
proof -
  have "unat (page_num va) < 2 ^ 26" using assms(2) by (simp add: unat_page_num less_mult_imp_div_less)
  then show ?thesis
    using get_pte_eq[OF assms(1)] vpn_indices[of "page_num va" va] assms(2) by simp
qed

section \<open>Success of the creating operations\<close>

lemma alloc_table_total:
  assumes ok: "platform_ok P" "bit_alloc_ok B free" "frame_inv P free m" and ne: "1 \<le> card (free (falloc m))"
  shows "\<exists>pa m'. alloc_table P B m = Some (pa, m') \<and> frame_inv P free m' \<and>
    card (free (falloc m')) = card (free (falloc m)) - 1"
proof -
  have "free (falloc m) \<noteq> {}" using ne by auto
  then obtain i m1 where a: "alloc_frame P B m = Some (Some (frame_addr P i), m1)" and i: "i \<in> free (falloc m)"
      and f: "free (falloc m1) = free (falloc m) - {i}" and inv: "frame_inv P free m1"
    using alloc_frame_cases[OF ok] by auto
  have mi: "managed P i" using ok(3) i by (auto simp: frame_inv_def)
  let ?m = "m1\<lparr>phys := (phys m1)(frame_addr P i := (\<lambda>_. 0))\<rparr>"
  have "alloc_table P B m = Some (frame_addr P i, ?m)"
    by (simp add: alloc_table_def a fill_frame[OF ok(1) mi])
  moreover have "frame_inv P free ?m" using inv by (simp add: frame_inv_def)
  moreover have "card (free (falloc ?m)) = card (free (falloc m)) - 1" using f i by simp
  ultimately show ?thesis by blast
qed

lemma next_create_total:
  assumes ok: "platform_ok P" "bit_alloc_ok B free" "frame_inv P free m" and ne: "1 \<le> card (free (falloc m))"
    and i: "pt_inv P m (root_paddr pt)" and p: "upath (p @ [k])" and w: "walk (phys m) (root_paddr pt) p = Some t"
  shows "\<exists>t' pt' m'. next_table_mut_or_create P B (t, k) (pt, m) = Some (t', pt', m') \<and>
    frame_inv P free m' \<and> card (free (falloc m)) - 1 \<le> card (free (falloc m'))"
proof (cases "bit (phys m t k) 0")
  case True
  then have "next_table_mut P (phys m t k) = Some (pte_ppn (phys m t k) * 4096)"
    using next_table_ok(2)[OF i p w True] w by (simp add: walk_snoc sub_table_def)
  then show ?thesis using True ok(3) by (simp add: next_table_mut_or_create_def read_entry_def)
next
  case False
  obtain pa m1 where a: "alloc_table P B m = Some (pa, m1)" "frame_inv P free m1"
      "card (free (falloc m1)) = card (free (falloc m)) - 1"
    using alloc_table_total[OF ok ne] by blast
  have "kernel_phys_to_virt P pa \<noteq> None"
    using alloc_table_post(7)[OF ok(1) _ a(1)] i by (simp add: pt_inv_def)
  then show ?thesis using a False
    by (auto simp: next_table_mut_or_create_def read_entry_def table_of_mut_def write_entry_def frame_inv_def Let_def)
qed

lemma get_or_create_total:
  assumes ok: "platform_ok P" "bit_alloc_ok B free" "frame_inv P free m" and ne: "2 \<le> card (free (falloc m))"
    and i: "pt_inv P m (root_paddr pt)" and u: "p3_index va < 256"
  shows "\<exists>r pt' m'. get_entry_mut_or_create P B va (pt, m) = Some (r, pt', m') \<and> frame_inv P free m'"
proof -
  have t: "table_of_mut P (root_paddr pt) = Some (root_paddr pt)"
    by (rule table_of_mut_ok[OF pt_inv_ok[OF i upath_Nil]]) simp
  obtain t2 pt1 m1 where r1: "next_table_mut_or_create P B (root_paddr pt, p3_index va) (pt, m) = Some (t2, pt1, m1)"
      and f1: "frame_inv P free m1" "1 \<le> card (free (falloc m1))"
    using next_create_total[OF ok _ i, of "[]" "p3_index va" "root_paddr pt"] ne u by fastforce
  have s1: "pt_inv P m1 (root_paddr pt1)" "walk (phys m1) (root_paddr pt1) [p3_index va] = Some t2"
    using next_create_step[OF ok(1) i, of "[]" "p3_index va", OF _ _ r1] u by (auto simp del: walk.simps(2))
  show ?thesis
    using next_create_total[OF ok(1,2) f1 s1(1), of "[p3_index va]" "p2_index va" t2] s1(2) u
    by (auto simp: get_entry_mut_or_create_def t r1)
qed

lemma map_page_run:
  assumes "platform_ok P" "bit_alloc_ok B free" "frame_inv P free m" "2 \<le> card (free (falloc m))"
    and "pt_inv P m (root_paddr pt)" "unat va < 2 ^ 38" "PhysAddr4K_is_valid pa"
    and "get_pte_copied_from_vpn P pt (page_num va) m = Some None"
  shows "\<exists>pt' m'. map_page P B va pa fl (pt, m) = Some (pt', m') \<and>
    updates_pte P pt m pt' m' (page_num va) (Some (pte_new pa (F_V OR fl))) \<and>
    pt_inv P m' (root_paddr pt') \<and> frame_inv P free m'"
proof -
  have u: "p3_index va < 256" using assms(6) by (rule user_index)
  obtain r pt1 m1 where g: "get_entry_mut_or_create P B va (pt, m) = Some (r, pt1, m1)" and f: "frame_inv P free m1"
    using get_or_create_total[OF assms(1-5) u] by blast
  obtain t where i1: "pt_inv P m1 (root_paddr pt1)" and ro: "root_paddr pt1 = root_paddr pt"
      and r: "r = (t, p1_index va)" and w: "walk (phys m1) (root_paddr pt) [p3_index va, p2_index va] = Some t"
      and lf: "\<And>a b c. a < 256 \<Longrightarrow> b < 512 \<Longrightarrow> leaf_at (phys m1) (root_paddr pt) a b c = leaf_at (phys m) (root_paddr pt) a b c"
    using get_or_create_step[OF assms(1,5) u g] by blast
  let ?e = "pte_new pa (F_V OR fl)" and ?m = "write_entry (t, p1_index va) (pte_new pa (F_V OR fl)) m1"
  have "leaf_at (phys m) (root_paddr pt) (p3_index va) (p2_index va) (p1_index va) = None"
    using leaf_at_va[OF assms(5,6)] assms(8) by simp
  then have nb: "\<not> bit (phys m1 t (p1_index va)) 0"
    using lf[OF u, of "p2_index va" "p1_index va"] w by (auto simp: leaf_at_def simp del: walk.simps split: if_splits)
  have V: "bit ?e 0"
  proof -
    have "bit F_V 0" unfolding F_V_def bit_flag by simp
    then show ?thesis by (simp add: bit_pte_new bit_or_iff)
  qed
  note lw = leaf_at_write[OF i1[unfolded ro] w u, of _ _ "p1_index va" ?e] and iw = pt_inv_leaf_write[OF i1[unfolded ro] w u, of "p1_index va" ?e]
  have "map_page P B va pa fl (pt, m) = Some (pt1, ?m)"
    using assms(7) nb by (simp add: map_page_def g r read_entry_def)
  moreover have "updates_pte P pt m pt1 ?m (page_num va) (Some ?e)"
    by (rule updates_pteI[OF assms(5) _ assms(6)]) (use iw lw lf V ro in \<open>simp_all\<close>)
  moreover have "frame_inv P free ?m" using f by (simp add: frame_inv_def write_entry_def)
  ultimately show ?thesis using iw ro by auto
qed

section \<open>An empty table\<close>

lemma pt_inv_empty:
  assumes "ref_cnts m \<noteq> None" "table_ok P m r" "phys m r = (\<lambda>_. 0)"
  shows "pt_inv P m r"
proof -
  have "walk (phys m) r p = (if p = [] then Some r else None)" for p
    using assms(3) by (cases p) (auto simp: sub_table_def)
  then show ?thesis using assms by (auto simp: pt_inv_def)
qed

definition empty_mem :: "usize list kmem" where
  "empty_mem = small_mem\<lparr>ref_cnts := Some ((\<lambda>_. 0)(frame_ppn board 9 := 1))\<rparr>"

definition empty_pt :: PageTable where
  "empty_pt = \<lparr>root_paddr = frame_addr board 9, intrm_tables = [frame_addr board 9], no_alloc = False\<rparr>"

lemma empty_mem_inv: "frame_inv board set empty_mem"
proof -
  have "frame_ppn board i \<noteq> frame_ppn board 9" if "i \<in> {5, 7}" for i
    using frame_ppn_inj[OF board_ok, of i 9] board_managed[of i] board_managed[of 9] that by auto
  then show ?thesis by (simp add: frame_inv_def empty_mem_def small_mem_def board_managed)
qed

lemma empty_pt_inv: "pt_inv board empty_mem (root_paddr empty_pt)"
  using virt_frame_addr[OF board_ok board_managed[of 9]]
  by (intro pt_inv_empty) (auto simp: empty_mem_def small_mem_def empty_pt_def table_ok_def count_of_def frame_ppn_def)

lemma empty_pt_none: "get_pte_copied_from_vpn board empty_pt 0x40001 empty_mem = Some None"
  using get_pte_eq[OF empty_pt_inv, of "0x40001"]
  by (simp add: leaf_at_def sub_table_def empty_mem_def small_mem_def)

lemma empty_page: "page_num 0x40001000 = 0x40001" "PhysAddr4K_is_valid 0x80200000"
  by (simp_all add: page_num_def PhysAddr4K_is_valid_def PAGE_MASK_eq mask_eq_exp_minus_1)

lemma empty_free: "2 \<le> card (set (falloc empty_mem))"
  by (simp add: empty_mem_def small_mem_def)

lemmas map_in_empty = board_ok list_alloc_ok empty_mem_inv empty_free empty_pt_inv

section \<open>Properties\<close>

text \<open>
  (C1) Mapping a page: with at least two free frames for new tables, when every free frame has a slot in
  the table of counts, \<open>map_page\<close> of a user page
  that is not mapped succeeds and changes the page table at that page only: a lookup of the page
  gives the new entry, and a lookup of every other page of the user half gives what it gave
  before. The tree of tables stays well formed and the frame allocator consistent.
\<close>

theorem map_page_updates:
  assumes "platform_ok P" "bit_alloc_ok B free" "frame_inv P free m" "2 \<le> card (free (falloc m))"
    and "pt_inv P m (root_paddr pt)" "unat va < 2 ^ 38" "PhysAddr4K_is_valid pa"
    and "get_pte_copied_from_vpn P pt (page_num va) m = Some None"
  shows "\<exists>pt' m'. map_page P B va pa fl (pt, m) = Some (pt', m') \<and>
    updates_pte P pt m pt' m' (page_num va) (Some (pte_new pa (F_V OR fl))) \<and>
    pt_inv P m' (root_paddr pt') \<and> frame_inv P free m'"
  by (rule map_page_run[OF assms])

theorem map_page_updates_witness:
  "\<exists>pt' m'. map_page board list_alloc 0x40001000 0x80200000 (F_R OR F_U) (empty_pt, empty_mem) = Some (pt', m') \<and>
    updates_pte board empty_pt empty_mem pt' m' 0x40001 (Some (pte_new 0x80200000 (F_V OR (F_R OR F_U)))) \<and>
    pt_inv board m' (root_paddr pt') \<and> frame_inv board set m'"
  using map_page_updates[OF map_in_empty, of "0x40001000" "0x80200000"] empty_pt_none
  by (simp add: empty_page)

text \<open>
  (C2) Unmapping a page: \<open>unmap_page\<close> of a mapped user page returns the frame its entry named and
  removes that page's entry; a lookup of every other page of the user half is unchanged.
\<close>

theorem unmap_page_updates:
  assumes "pt_inv P m (root_paddr pt)" "unat va < 2 ^ 38"
    and "get_pte_copied_from_vpn P pt (page_num va) m = Some (Some e)"
  shows "\<exists>pa m'. unmap_page P va pt m = Some (pa, m') \<and> pte_paddr e = Some pa \<and>
    updates_pte P pt m pt m' (page_num va) None \<and> pt_inv P m' (root_paddr pt)"
proof -
  let ?r = "root_paddr pt"
  have u: "p3_index va < 256" using assms(2) by (rule user_index)
  have "leaf_at (phys m) ?r (p3_index va) (p2_index va) (p1_index va) = Some e"
    using leaf_at_va[OF assms(1,2)] assms(3) by simp
  then obtain t where w: "walk (phys m) ?r [p3_index va, p2_index va] = Some t"
      and b: "bit (phys m t (p1_index va)) 0" and e: "e = phys m t (p1_index va)"
    by (auto simp: leaf_at_def simp del: walk.simps split: option.splits if_splits)
  then obtain t2 where w2: "walk (phys m) ?r [p3_index va] = Some t2" by (auto split: option.splits)
  have "table_of_mut P ?r = Some ?r" by (rule table_of_mut_ok[OF pt_inv_ok[OF assms(1) upath_Nil]]) simp
  moreover have "next_table_mut P (phys m ?r (p3_index va)) = Some t2"
    using next_table_ok(2)[OF assms(1), of "[]" "p3_index va"] u w2
    by (auto simp: sub_table_def split: option.splits if_splits)
  moreover have "next_table_mut P (phys m t2 (p2_index va)) = Some t"
    using next_table_ok(2)[OF assms(1), of "[p3_index va]" "p2_index va" t2] u w w2
    by (auto simp: sub_table_def split: option.splits if_splits)
  ultimately have g: "get_entry_mut P pt va m = Some (t, p1_index va)"
    by (simp add: get_entry_mut_def read_entry_def)
  let ?m = "write_entry (t, p1_index va) 0 m"
  note lw = leaf_at_write[OF assms(1) w u, of _ _ "p1_index va" 0] and iw = pt_inv_leaf_write[OF assms(1) w u, of "p1_index va" 0]
  have "unmap_page P va pt m = Some (pte_ppn e * 4096, ?m)"
    using b by (simp add: unmap_page_def g read_entry_def e pte_paddr_total pte_clear_def pte_EMPTY_def)
  moreover have "updates_pte P pt m pt ?m (page_num va) None"
    by (rule updates_pteI[OF assms(1) _ assms(2)]) (use iw lw in \<open>simp_all\<close>)
  ultimately show ?thesis using iw by (auto simp: pte_paddr_total)
qed

theorem unmap_page_updates_witness:
  "\<exists>pt m pa m'. map_page board list_alloc 0x40001000 0x80200000 (F_R OR F_U) (empty_pt, empty_mem) = Some (pt, m) \<and>
    unmap_page board 0x40001000 pt m = Some (pa, m') \<and> get_pte_copied_from_vpn board pt 0x40001 m' = Some None"
proof -
  obtain pt m where r: "map_page board list_alloc 0x40001000 0x80200000 (F_R OR F_U) (empty_pt, empty_mem) = Some (pt, m)"
      and u: "updates_pte board empty_pt empty_mem pt m 0x40001 (Some (pte_new 0x80200000 (F_V OR (F_R OR F_U))))"
      and i: "pt_inv board m (root_paddr pt)"
    using map_page_run[OF map_in_empty, of "0x40001000" "0x80200000" "F_R OR F_U"] empty_pt_none
    by (auto simp: empty_page)
  have "get_pte_copied_from_vpn board pt 0x40001 m = Some (Some (pte_new 0x80200000 (F_V OR (F_R OR F_U))))"
    using u by (simp add: updates_pte_def)
  then obtain pa m' where "unmap_page board 0x40001000 pt m = Some (pa, m')" "updates_pte board pt m pt m' 0x40001 None"
    using unmap_page_updates[OF i, of "0x40001000"] by (auto simp: empty_page)
  then show ?thesis using r by (auto simp: updates_pte_def)
qed

end
