(* ===== verification/User_Area.thy ===== *)
theory User_Area
  imports Pagetable_Laws Range_Map_Remove
begin

text \<open>
  The segments of a user address space, \<^verbatim>\<open>process/user_space/user_area.rs\<close>: permissions, the
  kinds of segment, the page-fault handler, and \<open>UserAreaManager\<close>, which keeps the segments in a
  range map. A file behind a private mapping is an opaque reference of type \<open>'f\<close>; reading one of
  its pages is the method \<open>VfsFile::get_page\<close>, dispatched dynamically in the code and the argument
  \<open>gp\<close> here.
\<close>

section \<open>Permissions and access types\<close>

type_synonym UserAreaPerm = u8

definition P_READ :: UserAreaPerm where "P_READ = push_bit 0 1"
definition P_WRITE :: UserAreaPerm where "P_WRITE = push_bit 1 1"
definition P_EXECUTE :: UserAreaPerm where "P_EXECUTE = push_bit 2 1"

definition perm_contains :: "u8 \<Rightarrow> u8 \<Rightarrow> bool" where
  "perm_contains p q \<longleftrightarrow> p AND q = q"

definition perm_intersects :: "u8 \<Rightarrow> u8 \<Rightarrow> bool" where
  "perm_intersects p q \<longleftrightarrow> p AND q \<noteq> 0"

definition match_area_perm :: "PTEFlags \<Rightarrow> UserAreaPerm \<Rightarrow> bool" where
  "match_area_perm f perm =
     (if perm_contains perm P_READ \<and> \<not> flags_contains f F_R then False
      else if perm_contains perm P_WRITE \<and> \<not> flags_contains f F_W then False
      else if perm_contains perm P_EXECUTE \<and> \<not> flags_contains f F_X then False
      else True)"

definition perm_to_flags :: "UserAreaPerm \<Rightarrow> PTEFlags" where
  "perm_to_flags val = (
     let f = F_V OR F_U;
         f = (if perm_contains val P_READ then f OR (F_R OR F_A) else f);
         f = (if perm_contains val P_WRITE then f OR (F_W OR F_D) else f)
     in if perm_contains val P_EXECUTE then f OR F_X else f)"

type_synonym PageFaultAccessType = u8

definition A_READ :: PageFaultAccessType where "A_READ = push_bit 1 1"
definition A_WRITE :: PageFaultAccessType where "A_WRITE = push_bit 2 1"
definition A_EXECUTE :: PageFaultAccessType where "A_EXECUTE = push_bit 3 1"
definition A_RO :: PageFaultAccessType where "A_RO = A_READ"
definition A_RW :: PageFaultAccessType where "A_RW = A_RO OR A_WRITE"
definition A_RX :: PageFaultAccessType where "A_RX = A_RO OR A_EXECUTE"

definition perm_to_access :: "UserAreaPerm \<Rightarrow> PageFaultAccessType" where
  "perm_to_access val =
     (if perm_intersects val P_WRITE then A_RW
      else if perm_intersects val P_EXECUTE then A_RX
      else A_RO)"

datatype Exception = InstructionPageFault | LoadPageFault | StorePageFault | OtherException

definition access_from_exception :: "Exception \<Rightarrow> PageFaultAccessType option" where
  "access_from_exception e = (case e of
     InstructionPageFault \<Rightarrow> Some A_RX
   | LoadPageFault \<Rightarrow> Some A_RO
   | StorePageFault \<Rightarrow> Some A_RW
   | OtherException \<Rightarrow> None)"

definition can_access :: "PageFaultAccessType \<Rightarrow> UserAreaPerm \<Rightarrow> bool" where
  "can_access acc flag =
     (if perm_contains acc A_WRITE \<and> \<not> perm_contains flag P_WRITE then False
      else if perm_contains acc A_EXECUTE \<and> \<not> perm_contains flag P_EXECUTE then False
      else True)"

section \<open>Areas\<close>

text \<open>The \<open>Arc<Shm>\<close> of a shared area is the number of the shared object in the table of \<open>Shm_Mgr\<close>.\<close>

datatype 'f UserAreaType =
    MmapAnonymous
  | MmapPrivate (priv_file: 'f) (priv_offset: usize)
  | ShmArea (shm_id: usize) (shm_ref: nat)

datatype PageFaultErr = NoSegment | PermUnmatch | KernelOOM

record 'f UserArea =
  kind :: "'f UserAreaType"
  perm :: UserAreaPerm

definition new_with_same_kind :: "'f UserArea \<Rightarrow> UserAreaPerm \<Rightarrow> 'f UserArea" where
  "new_with_same_kind old p = \<lparr>kind = kind old, perm = p\<rparr>"

definition new_anonymous :: "UserAreaPerm \<Rightarrow> 'f UserArea" where
  "new_anonymous p = \<lparr>kind = MmapAnonymous, perm = p\<rparr>"

definition new_private :: "UserAreaPerm \<Rightarrow> 'f \<Rightarrow> usize \<Rightarrow> 'f UserArea" where
  "new_private p file off = \<lparr>kind = MmapPrivate file off, perm = p\<rparr>"

definition new_shm :: "UserAreaPerm \<Rightarrow> usize \<Rightarrow> nat \<Rightarrow> 'f UserArea" where
  "new_shm p i shm = \<lparr>kind = ShmArea i shm, perm = p\<rparr>"

definition set_perm :: "UserAreaPerm \<Rightarrow> 'f UserArea \<Rightarrow> 'f UserArea" where
  "set_perm p a = a\<lparr>perm := p\<rparr>"

section \<open>The page-fault handler\<close>

type_synonym ('f, 'fa) get_page = "'f \<Rightarrow> usize \<Rightarrow> 'fa kmem \<Rightarrow> (usize SysResult \<times> 'fa kmem) option"
type_synonym 'fa fault_result = "((PageFaultErr + unit) \<times> PageTable \<times> 'fa kmem) option"

text \<open>The last part of \<open>page_fault\<close>, once the frame is at hand.\<close>

definition fault_remap ::
  "platform \<Rightarrow> 'fa BitAlloc \<Rightarrow> 'f UserArea \<Rightarrow> usize \<Rightarrow> usize \<Rightarrow> PageTable \<times> 'fa kmem \<Rightarrow> 'fa fault_result" where
  "fault_remap P B a vpn frame s = do {
     rassert (frame \<noteq> 0);
     va \<leftarrow> page_num_addr vpn;
     (pt, m) \<leftarrow> remap_page P B va frame (perm_to_flags (perm a)) s;
     Some (Inr (), pt, m) }"

text \<open>The branch for a page that has an entry: either nothing is to do, or the entry is copy on
  write. \<open>cur\<close> is the table that \<open>satp\<close> holds.\<close>

definition fault_present ::
  "platform \<Rightarrow> 'fa BitAlloc \<Rightarrow> usize \<Rightarrow> 'f UserArea \<Rightarrow> usize \<Rightarrow> usize \<times> nat \<Rightarrow> PageTable \<times> 'fa kmem \<Rightarrow>
   'fa fault_result" where
  "fault_present P B cur a vpn r s = (case s of (pt, m) \<Rightarrow> do {
     f \<leftarrow> pte_flags (read_entry r m);
     if match_area_perm f (perm a) then Some (Inr (), pt, m)
     else do {
       rassert (flags_contains f F_SHARED);
       rassert (\<not> flags_contains f F_W);
       rassert (perm_contains (perm a) P_WRITE);
       let old_frame = pte_ppn (read_entry r m);
       sh \<leftarrow> is_shared P old_frame m;
       if sh then do {
         m \<leftarrow> decrease P old_frame m;
         fr \<leftarrow> is_free P old_frame m;
         rassert (\<not> fr);
         rassert (root_paddr pt = cur);
         (nf, m) \<leftarrow> alloc_frame P B m;
         case nf of
           None \<Rightarrow> Some (Inl KernelOOM, pt, m)
         | Some frame \<Rightarrow> do {
             old_addr \<leftarrow> page_num_addr old_frame;
             m \<leftarrow> page_copy P frame old_addr m;
             fault_remap P B a vpn frame (pt, m) } }
       else do {
         frame \<leftarrow> page_num_addr old_frame;
         fault_remap P B a vpn frame (pt, m) } } })"

text \<open>The branch for a page without an entry: a zeroed frame or a page of the file.\<close>

definition fault_absent ::
  "platform \<Rightarrow> 'fa BitAlloc \<Rightarrow> ('f, 'fa) get_page \<Rightarrow> 'f UserArea \<Rightarrow> usize \<Rightarrow> usize \<Rightarrow> PageTable \<times> 'fa kmem \<Rightarrow>
   'fa fault_result" where
  "fault_absent P B gp a range_begin vpn s = (case s of (pt, m) \<Rightarrow> (case kind a of
       MmapAnonymous \<Rightarrow> do {
         (nf, m) \<leftarrow> alloc_frame P B m;
         case nf of
           None \<Rightarrow> Some (Inl KernelOOM, pt, m)
         | Some frame \<Rightarrow> do {
             m \<leftarrow> page_fill P frame 0 m;
             fault_remap P B a vpn frame (pt, m) } }
     | MmapPrivate file off \<Rightarrow> do {
         va \<leftarrow> page_num_addr vpn;
         d \<leftarrow> usub va range_begin;
         real_offset \<leftarrow> uadd off d;
         (r, m) \<leftarrow> gp file real_offset m;
         case r of
           Inl e \<Rightarrow> None
         | Inr frame \<Rightarrow> fault_remap P B a vpn frame (pt, m) }
     | ShmArea i shm \<Rightarrow> None))"

definition area_page_fault ::
  "platform \<Rightarrow> 'fa BitAlloc \<Rightarrow> ('f, 'fa) get_page \<Rightarrow> usize \<Rightarrow> 'f UserArea \<Rightarrow> usize \<Rightarrow> usize \<Rightarrow> PageFaultAccessType \<Rightarrow>
   PageTable \<times> 'fa kmem \<Rightarrow> 'fa fault_result" where
  "area_page_fault P B gp cur a range_begin vpn acc s = (case s of (pt, m) \<Rightarrow>
     if \<not> can_access acc (perm a) then Some (Inl PermUnmatch, pt, m)
     else do {
       pte \<leftarrow> get_pte_mut_from_vpn P pt vpn m;
       case pte of
         Some r \<Rightarrow> fault_present P B cur a vpn r (pt, m)
       | None \<Rightarrow> fault_absent P B gp a range_begin vpn (pt, m) })"

section \<open>Splitting\<close>

text \<open>The closures of \<open>remove\<close> mutate the area in place and return the other half; here both
  halves are returned, the mutated one first.\<close>

definition split_and_make_left :: "'f UserArea \<Rightarrow> usize \<Rightarrow> VirtAddrRange \<Rightarrow> ('f UserArea \<times> 'f UserArea) option" where
  "split_and_make_left a split_at rng = (case kind a of
     MmapAnonymous \<Rightarrow> Some (a, new_anonymous (perm a))
   | MmapPrivate file off \<Rightarrow> do {
       d \<leftarrow> usub split_at (fst rng);
       off' \<leftarrow> uadd off d;
       Some (a\<lparr>kind := MmapPrivate file off'\<rparr>, new_private (perm a) file off) }
   | ShmArea i shm \<Rightarrow> None)"

definition split_and_make_right :: "'f UserArea \<Rightarrow> usize \<Rightarrow> VirtAddrRange \<Rightarrow> ('f UserArea \<times> 'f UserArea) option" where
  "split_and_make_right a split_at rng = (case kind a of
     MmapAnonymous \<Rightarrow> Some (a, new_anonymous (perm a))
   | MmapPrivate file off \<Rightarrow> do {
       d \<leftarrow> usub split_at (fst rng);
       off' \<leftarrow> uadd off d;
       Some (a, new_private (perm a) file off') }
   | ShmArea i shm \<Rightarrow> None)"

section \<open>The area manager\<close>

type_synonym 'f UserAreaManager = "(usize, 'f UserArea) range_map"

definition HEAP_BEG :: usize where "HEAP_BEG = U_SEG_HEAP_BEG"
definition STACK_RANGE :: VirtAddrRange where "STACK_RANGE = (U_SEG_STACK_BEG, U_SEG_STACK_END)"
definition MMAP_RANGE :: VirtAddrRange where "MMAP_RANGE = (U_SEG_FILE_BEG, U_SEG_FILE_END)"
definition SHARE_RANGE :: VirtAddrRange where "SHARE_RANGE = (U_SEG_SHARE_BEG, U_SEG_SHARE_END)"

definition areas_new :: "'f UserAreaManager" where
  "areas_new = rm_new"

definition get_area :: "'f UserAreaManager \<Rightarrow> usize \<Rightarrow> 'f UserArea option" where
  "get_area am va = map_option snd (rm_get am va)"

definition offset_round_up :: "usize \<Rightarrow> usize \<Rightarrow> usize option" where
  "offset_round_up va n = do { x \<leftarrow> uadd va n; round_up x }"

definition offset_ceil :: "usize \<Rightarrow> usize \<Rightarrow> usize option" where
  "offset_ceil va n = do { x \<leftarrow> uadd va n; ceil4k x }"

definition alloc_stack :: "usize \<Rightarrow> 'f UserAreaManager \<Rightarrow> (usize \<times> 'f UserAreaManager) option" where
  "alloc_stack sz am = do {
     r \<leftarrow> rm_find_free_range am STACK_RANGE sz offset_round_up;
     rng \<leftarrow> r;
     e \<leftarrow> usub (snd rng) 1;
     let sp_init = e AND NOT 0xf;
     ins \<leftarrow> rm_try_insert am rng (new_anonymous (P_READ OR P_WRITE));
     (case ins of Inl _ \<Rightarrow> None | Inr am \<Rightarrow> Some (sp_init, am)) }"

definition insert_heap :: "usize \<Rightarrow> 'f UserAreaManager \<Rightarrow> 'f UserAreaManager option" where
  "insert_heap init_size am = do {
     e \<leftarrow> uadd HEAP_BEG init_size;
     ins \<leftarrow> rm_try_insert am (HEAP_BEG, e) (new_anonymous (P_READ OR P_WRITE));
     (case ins of Inl _ \<Rightarrow> None | Inr am \<Rightarrow> Some am) }"

definition get_heap_break :: "'f UserAreaManager \<Rightarrow> usize option" where
  "get_heap_break am = do { (r, _) \<leftarrow> rm_get am HEAP_BEG; Some (snd r) }"

definition reset_heap_break :: "usize \<Rightarrow> 'f UserAreaManager \<Rightarrow> ('f UserAreaManager SysResult) option" where
  "reset_heap_break new_brk am = do {
     (r, _) \<leftarrow> rm_get am HEAP_BEG;
     if snd r < new_brk then do {
       x \<leftarrow> rm_extend_back am (fst r) new_brk;
       Some (case x of Inl _ \<Rightarrow> Inl ENOMEM | Inr am \<Rightarrow> Inr am) }
     else if new_brk < snd r then do {
       x \<leftarrow> rm_reduce_back am (fst r) new_brk;
       Some (case x of Inl _ \<Rightarrow> Inl ENOMEM | Inr (_, am) \<Rightarrow> Inr am) }
     else Some (Inr am) }"

definition find_free_area :: "VirtAddrRange \<Rightarrow> 'f UserAreaManager \<Rightarrow> usize \<Rightarrow> ((usize \<times> usize) SysResult) option" where
  "find_free_area seg am sz = do {
     r \<leftarrow> rm_find_free_range am seg sz offset_ceil;
     case r of
       None \<Rightarrow> Some (Inl ENOMEM)
     | Some rng \<Rightarrow> do { n \<leftarrow> usub (snd rng) (fst rng); Some (Inr (fst rng, n)) } }"

definition find_free_mmap_area :: "'f UserAreaManager \<Rightarrow> usize \<Rightarrow> ((usize \<times> usize) SysResult) option" where
  "find_free_mmap_area am sz = find_free_area MMAP_RANGE am sz"

definition find_free_share_area :: "'f UserAreaManager \<Rightarrow> usize \<Rightarrow> ((usize \<times> usize) SysResult) option" where
  "find_free_share_area am sz = find_free_area SHARE_RANGE am sz"

type_synonym 'f insert_result = "((VirtAddrRange \<times> 'f UserAreaManager) SysResult) option"

definition insert_at :: "usize \<Rightarrow> usize \<Rightarrow> 'f UserArea \<Rightarrow> 'f UserAreaManager \<Rightarrow> 'f insert_result" where
  "insert_at begin_va sz area am = do {
     e \<leftarrow> uadd begin_va sz;
     ins \<leftarrow> rm_try_insert am (begin_va, e) area;
     Some (case ins of Inl _ \<Rightarrow> Inl ENOMEM | Inr am \<Rightarrow> Inr ((begin_va, e), am)) }"

definition insert_mmap_anonymous_at :: "usize \<Rightarrow> usize \<Rightarrow> UserAreaPerm \<Rightarrow> 'f UserAreaManager \<Rightarrow> 'f insert_result" where
  "insert_mmap_anonymous_at begin_va sz p am = insert_at begin_va sz (new_anonymous p) am"

definition insert_mmap_private_at ::
  "usize \<Rightarrow> usize \<Rightarrow> UserAreaPerm \<Rightarrow> 'f \<Rightarrow> usize \<Rightarrow> 'f UserAreaManager \<Rightarrow> 'f insert_result" where
  "insert_mmap_private_at begin_va sz p file off am = insert_at begin_va sz (new_private p file off) am"

text \<open>A shared object is given by its number and its size.\<close>

definition insert_shm_at :: "usize \<Rightarrow> UserAreaPerm \<Rightarrow> usize \<Rightarrow> nat \<times> usize \<Rightarrow> 'f UserAreaManager \<Rightarrow> 'f insert_result" where
  "insert_shm_at begin_va p i shm am = do {
     rassert (fst SHARE_RANGE \<le> begin_va \<and> begin_va < snd SHARE_RANGE);
     insert_at begin_va (snd shm) (new_shm p i (fst shm)) am }"

definition insert_mmap_anonymous :: "usize \<Rightarrow> UserAreaPerm \<Rightarrow> 'f UserAreaManager \<Rightarrow> 'f insert_result" where
  "insert_mmap_anonymous sz p am = do {
     r \<leftarrow> find_free_mmap_area am sz;
     case r of Inl e \<Rightarrow> Some (Inl e) | Inr (b, n) \<Rightarrow> insert_mmap_anonymous_at b n p am }"

definition insert_mmap_private :: "usize \<Rightarrow> UserAreaPerm \<Rightarrow> 'f \<Rightarrow> usize \<Rightarrow> 'f UserAreaManager \<Rightarrow> 'f insert_result" where
  "insert_mmap_private sz p file off am = do {
     r \<leftarrow> find_free_mmap_area am sz;
     case r of Inl e \<Rightarrow> Some (Inl e) | Inr (b, n) \<Rightarrow> insert_mmap_private_at b n p file off am }"

definition insert_shm :: "UserAreaPerm \<Rightarrow> usize \<Rightarrow> nat \<times> usize \<Rightarrow> 'f UserAreaManager \<Rightarrow> 'f insert_result" where
  "insert_shm p i shm am = do {
     r \<leftarrow> find_free_share_area am (snd shm);
     case r of Inl e \<Rightarrow> Some (Inl e) | Inr (b, _) \<Rightarrow> insert_shm_at b p i shm am }"

definition areas_page_fault ::
  "platform \<Rightarrow> 'fa BitAlloc \<Rightarrow> ('f, 'fa) get_page \<Rightarrow> usize \<Rightarrow> 'f UserAreaManager \<Rightarrow> usize \<Rightarrow> PageFaultAccessType \<Rightarrow>
   PageTable \<times> 'fa kmem \<Rightarrow> 'fa fault_result" where
  "areas_page_fault P B gp cur am vpn acc s = do {
     va \<leftarrow> page_num_addr vpn;
     case rm_get am va of
       None \<Rightarrow> Some (Inl NoSegment, s)
     | Some (rng, area) \<Rightarrow> area_page_fault P B gp cur area (fst rng) vpn acc s }"

definition areas_force_map_range ::
  "platform \<Rightarrow> 'fa BitAlloc \<Rightarrow> ('f, 'fa) get_page \<Rightarrow> usize \<Rightarrow> 'f UserAreaManager \<Rightarrow> VirtAddrRange \<Rightarrow> UserAreaPerm \<Rightarrow>
   PageTable \<times> 'fa kmem \<Rightarrow> (PageTable \<times> 'fa kmem) option" where
  "areas_force_map_range P B gp cur am rng p s = iter_vpn rng (\<lambda>vpn s. do {
     (r, s) \<leftarrow> areas_page_fault P B gp cur am vpn (perm_to_access p) s;
     case r of Inl e \<Rightarrow> None | Inr _ \<Rightarrow> Some s }) s"

definition remove_shm :: "usize \<Rightarrow> 'f UserAreaManager \<Rightarrow> ((VirtAddrRange \<times> 'f UserAreaManager) SysResult) option" where
  "remove_shm va am = (case rm_get am va of
     None \<Rightarrow> Some (Inl EINVAL)
   | Some (rng, _) \<Rightarrow> do { (_, am) \<leftarrow> rm_force_remove_one am rng; Some (Inr (rng, am)) })"

definition release_page :: "platform \<Rightarrow> 'fa BitAlloc \<Rightarrow> PageTable \<Rightarrow> usize \<Rightarrow> 'fa kmem \<Rightarrow> 'fa kmem option" where
  "release_page P B pt vpn m = do {
     pte \<leftarrow> get_pte_copied_from_vpn P pt vpn m;
     case pte of
       None \<Rightarrow> Some m
     | Some e \<Rightarrow> do {
         va \<leftarrow> page_num_addr vpn;
         (_, m) \<leftarrow> unmap_page P va pt m;
         decrease_and_try_dealloc P B (pte_ppn e) m } }"

definition release_range :: "platform \<Rightarrow> 'fa BitAlloc \<Rightarrow> PageTable \<Rightarrow> VirtAddrRange \<Rightarrow> 'fa kmem \<Rightarrow> 'fa kmem option" where
  "release_range P B pt rng m = iter_vpn rng (release_page P B pt) m"

definition areas_unmap_range ::
  "platform \<Rightarrow> 'fa BitAlloc \<Rightarrow> PageTable \<Rightarrow> VirtAddrRange \<Rightarrow> 'f UserAreaManager \<times> 'fa kmem \<Rightarrow>
   ('f UserAreaManager \<times> 'fa kmem) option" where
  "areas_unmap_range P B pt rng s = (case s of (am, m) \<Rightarrow>
     rm_remove am rng split_and_make_left split_and_make_right (\<lambda>_ r m. release_range P B pt r m) m)"

definition areas_remap_range :: "VirtAddrRange \<Rightarrow> UserAreaPerm \<Rightarrow> 'f UserAreaManager \<Rightarrow> 'f UserAreaManager option" where
  "areas_remap_range rng new_perm am = do {
     old_area \<leftarrow> get_area am (fst rng);
     let new_area = new_with_same_kind old_area new_perm;
     (am, _) \<leftarrow> rm_remove am rng split_and_make_left split_and_make_right (\<lambda>_ _ s. Some s) ();
     ins \<leftarrow> rm_try_insert am rng new_area;
     (case ins of Inl _ \<Rightarrow> None | Inr am \<Rightarrow> Some am) }"

end
