(* ===== verification/User_Area_Laws.thy ===== *)
theory User_Area_Laws
  imports User_Area Range_Map_Free
begin

text \<open>
  What the segments of an address space show at each address, and how \<open>munmap\<close>, \<open>mprotect\<close>, \<open>brk\<close>
  and \<open>mmap\<close> change that. The two split functions satisfy the contract \<open>splitting\<close>, so the laws
  of \<open>RangeMap::remove\<close> hold for the area manager.
\<close>

section \<open>The view of an area\<close>

datatype 'f page_source = ZeroPage | FilePage 'f nat | ShmPage usize nat nat

fun source_at :: "'f UserAreaType \<Rightarrow> usize \<Rightarrow> usize \<Rightarrow> 'f page_source" where
  "source_at MmapAnonymous s x = ZeroPage"
| "source_at (MmapPrivate file off) s x = FilePage file (unat off + (unat x - unat s))"
| "source_at (ShmArea i shm) s x = ShmPage i shm (unat x - unat s)"

definition area_view :: "'f UserArea \<Rightarrow> usize \<Rightarrow> usize \<Rightarrow> UserAreaPerm \<times> 'f page_source" where
  "area_view a s x = (perm a, source_at (kind a) s x)"

text \<open>An area that can be split anywhere: not shared memory, and no file offset overflows.\<close>

definition area_fine :: "'f UserArea \<Rightarrow> usize \<Rightarrow> usize \<Rightarrow> bool" where
  "area_fine a s e \<longleftrightarrow> (case kind a of
     MmapAnonymous \<Rightarrow> True
   | MmapPrivate file off \<Rightarrow> unat off + (unat e - unat s) < 2 ^ 64
   | ShmArea i shm \<Rightarrow> False)"

lemma split_offset:
  assumes "usub p s = Some d" "uadd off d = Some off'" "(p::usize) \<le> x" "s < p"
  shows "unat off' + (unat x - unat p) = unat off + (unat x - unat s)"
  using unat_usub[OF assms(1)] unat_uadd[OF assms(2)] assms(3,4)
  by (simp add: word_le_nat_alt word_less_nat_alt)

lemma split_total:
  assumes "s < (p::usize)" "p < e" "unat off + (unat e - unat s) < 2 ^ 64"
  shows "\<exists>d off'. usub p s = Some d \<and> uadd off d = Some off' \<and> unat off' + (unat e - unat p) < 2 ^ 64"
proof -
  have le: "unat s \<le> unat p" "unat p \<le> unat e" using assms(1,2) by (simp_all add: word_less_nat_alt)
  have d: "usub p s = Some (p - s)" using assms(1) by (simp add: usub_def)
  note ud = unat_usub[OF d]
  have "unat off + unat (p - s) < 2 ^ 64" using assms(3) ud le by simp
  then have o: "uadd off (p - s) = Some (off + (p - s))" by (simp add: uadd_def)
  show ?thesis using d o unat_uadd[OF o] ud le assms(3) by auto
qed

lemma area_fine_shorter: "area_fine v s e \<Longrightarrow> p < e \<Longrightarrow> area_fine v s p"
  by (auto simp: area_fine_def word_less_nat_alt split: UserAreaType.splits)

lemma split_right_total:
  assumes "s < p" "p < e" "area_fine v s e"
  shows "\<exists>v1 v2. split_and_make_right v p (s, e) = Some (v1, v2) \<and> area_fine v1 s p \<and> area_fine v2 p e"
proof (cases "kind v")
  case (MmapPrivate f off)
  then obtain d off' where "usub p s = Some d" "uadd off d = Some off'" "unat off' + (unat e - unat p) < 2 ^ 64"
    using split_total[OF assms(1,2), of off] assms(3) by (auto simp: area_fine_def)
  then show ?thesis using MmapPrivate area_fine_shorter[OF assms(3,2)]
    by (simp add: split_and_make_right_def new_private_def area_fine_def)
qed (use assms area_fine_shorter[OF assms(3,2)] in
  \<open>auto simp: split_and_make_right_def area_fine_def new_anonymous_def\<close>)

lemma split_left_total:
  assumes "s < p" "p < e" "area_fine v s e"
  shows "\<exists>v1 v2. split_and_make_left v p (s, e) = Some (v2, v1) \<and> area_fine v1 s p \<and> area_fine v2 p e"
proof (cases "kind v")
  case (MmapPrivate f off)
  then obtain d off' where "usub p s = Some d" "uadd off d = Some off'" "unat off' + (unat e - unat p) < 2 ^ 64"
    using split_total[OF assms(1,2), of off] assms(3) by (auto simp: area_fine_def)
  then show ?thesis using MmapPrivate area_fine_shorter[OF assms(3,2)]
    by (simp add: split_and_make_left_def new_private_def area_fine_def)
qed (use assms area_fine_shorter[OF assms(3,2)] in
  \<open>auto simp: split_and_make_left_def area_fine_def new_anonymous_def\<close>)

interpretation area: splitting area_view split_and_make_left split_and_make_right area_fine
proof
  fix s p e x :: usize and v v1 v2 :: "'a UserArea"
  assume sp: "s < p" "p < e"
  show "area_view v1 s x = area_view v s x" if "split_and_make_right v p (s, e) = Some (v1, v2)" "s \<le> x" "x < p"
    using that by (auto simp: split_and_make_right_def bind_eq_Some_conv split: UserAreaType.splits)
  show "area_view v2 p x = area_view v s x" if "split_and_make_right v p (s, e) = Some (v1, v2)" "p \<le> x" "x < e"
    using that sp by (auto simp: split_and_make_right_def area_view_def new_anonymous_def new_private_def
        bind_eq_Some_conv split_offset split: UserAreaType.splits)
  show "area_view v1 s x = area_view v s x" if "split_and_make_left v p (s, e) = Some (v2, v1)" "s \<le> x" "x < p"
    using that by (auto simp: split_and_make_left_def area_view_def new_anonymous_def new_private_def
        bind_eq_Some_conv split: UserAreaType.splits)
  show "area_view v2 p x = area_view v s x" if "split_and_make_left v p (s, e) = Some (v2, v1)" "p \<le> x" "x < e"
    using that sp by (auto simp: split_and_make_left_def area_view_def bind_eq_Some_conv split_offset
        split: UserAreaType.splits)
  show "\<exists>v1 v2. split_and_make_right v p (s, e) = Some (v1, v2) \<and> area_fine v1 s p \<and> area_fine v2 p e"
    if "area_fine v s e" by (rule split_right_total[OF sp that])
  show "\<exists>v1 v2. split_and_make_left v p (s, e) = Some (v2, v1) \<and> area_fine v1 s p \<and> area_fine v2 p e"
    if "area_fine v s e" by (rule split_left_total[OF sp that])
qed

abbreviation areas_view :: "'f UserAreaManager \<Rightarrow> usize \<Rightarrow> (UserAreaPerm \<times> 'f page_source) option" where
  "areas_view \<equiv> rm_view area_view"

section \<open>Removing a range\<close>

lemma replay_foldM: "replay release L s = foldM (\<lambda>(a, b, v). release v (a, b)) L s"
  by (induction release L s rule: replay.induct) (auto split: bind_split)

definition splittable :: "'f UserAreaManager \<Rightarrow> usize \<Rightarrow> usize \<Rightarrow> bool" where
  "splittable am a b \<longleftrightarrow> (\<forall>(s, e, v)\<in>segs am. s < a \<and> a < e \<or> s < b \<and> b < e \<longrightarrow> area_fine v s e)"

lemma areas_remove:
  assumes i: "rm_inv am" and ab: "a < b" and fine: "splittable am a b"
  shows "\<exists>am' L. rm_remove am (a, b) split_and_make_left split_and_make_right release s =
        map_option (Pair am') (foldM (\<lambda>(a, b, v). release v (a, b)) L s) \<and>
      rm_inv am' \<and> (\<forall>x. areas_view am' x = (if a \<le> x \<and> x < b then None else areas_view am x)) \<and>
      distinct L \<and> segs_ok (set L) \<and>
      (\<forall>x y. seg_at area_view (set L) x y \<longleftrightarrow> a \<le> x \<and> x < b \<and> areas_view am x = Some y) \<and>
      (\<forall>(s, e, v)\<in>segs am'. e \<le> a \<or> b \<le> s)"
proof -
  obtain am' L where run: "rm_remove am (a, b) split_and_make_left split_and_make_right log_release [] = Some (am', L)"
    using area.remove_total[OF i, of a b] fine unfolding splittable_def by auto
  have "rm_remove am (a, b) split_and_make_left split_and_make_right release s =
      map_option (Pair am') (foldM (\<lambda>(a, b, v). release v (a, b)) L s)"
    by (simp add: rm_remove_replay[where release = release] run replay_foldM map_conv_bind_option comp_def)
  then show ?thesis
    using area.remove_part[OF i ab run] area.remove_view[OF i ab run] area.remove_log[OF i ab run] by blast
qed

section \<open>Heap\<close>

lemma rm_get_HEAP:
  assumes "rm_inv am" "(HEAP_BEG, e, v) \<in> segs am"
  shows "rm_get am HEAP_BEG = Some ((HEAP_BEG, e), v)"
  using assms segs_okD1[OF rm_inv_ok[OF assms(1)] assms(2)] by (simp add: rm_get_eq_Some)

lemma foldM_Some: "foldM (\<lambda>(a, b, v). Some) L s = Some s"
  by (induction L) auto

section \<open>Placing a mapping\<close>

lemma offset_ceil_eq:
  "offset_ceil a n = (if unat a + unat n + 4096 < 2 ^ 64
     then Some (word_of_nat ((unat a + unat n + 4095) div 4096 * 4096)) else None)"
  by (auto simp: offset_ceil_def uadd_def ceil4k_eq unat_word_ariths)

lemma unat_offset_ceil:
  assumes "offset_ceil a n = Some b"
  shows "unat b = (unat a + unat n + 4095) div 4096 * 4096"
proof -
  obtain x where x: "uadd a n = Some x" "ceil4k x = Some b"
    using assms by (auto simp: offset_ceil_def bind_eq_Some_conv)
  show ?thesis using unat_ceil4k[OF x(2)] unat_uadd[OF x(1)] by simp
qed

lemma round_up_bounds: "(n::nat) \<le> (n + 4095) div 4096 * 4096"
proof -
  have "n + 4095 = (n + 4095) div 4096 * 4096 + (n + 4095) mod 4096" by simp
  moreover have "(n + 4095) mod 4096 < 4096" by simp
  ultimately show ?thesis by linarith
qed

lemma offset_ceil_ge:
  assumes "offset_ceil a n = Some b"
  shows "unat a + unat n \<le> unat b"
  unfolding unat_offset_ceil[OF assms] by (rule round_up_bounds)

lemma offset_ceil_infl: "offset_ceil a n = Some b \<Longrightarrow> a \<le> b"
  using offset_ceil_ge[of a n b] by (simp add: word_le_nat_alt)

lemma offset_ceil_mono:
  "a \<le> b \<Longrightarrow> offset_ceil a n = Some x \<Longrightarrow> offset_ceil b n = Some y \<Longrightarrow> x \<le> y"
  by (simp add: word_le_nat_alt unat_offset_ceil div_le_mono)

text \<open>No segment crosses an end of the window that the kernel maps files into.\<close>

definition mmap_ok :: "'f UserAreaManager \<Rightarrow> bool" where
  "mmap_ok am \<longleftrightarrow> (\<forall>(s, e, v)\<in>segs am.
     (s < fst MMAP_RANGE \<longrightarrow> e \<le> fst MMAP_RANGE) \<and> (s < snd MMAP_RANGE \<longrightarrow> e \<le> snd MMAP_RANGE))"

lemma find_mmap_exact:
  assumes i: "rm_inv am" and w: "mmap_ok am" and sz: "unat sz < 2 ^ 63"
  shows "\<exists>t. offset_ceil (window_top am (fst MMAP_RANGE) (snd MMAP_RANGE)) sz = Some t \<and>
    rm_find_free_range am MMAP_RANGE sz offset_ceil =
      Some (if t \<le> snd MMAP_RANGE then Some (window_top am (fst MMAP_RANGE) (snd MMAP_RANGE), t) else None)"
proof -
  let ?top = "window_top am (fst MMAP_RANGE) (snd MMAP_RANGE)"
  have lh: "fst MMAP_RANGE \<le> snd MMAP_RANGE" by (simp add: MMAP_RANGE_def user_segs)
  have win: "e \<le> fst MMAP_RANGE" if "(s, e, v) \<in> segs am" "s < fst MMAP_RANGE" for s e v using w that by (auto simp: mmap_ok_def)
  have win': "e \<le> snd MMAP_RANGE" if "(s, e, v) \<in> segs am" "s < snd MMAP_RANGE" for s e v using w that by (auto simp: mmap_ok_def)
  have tot: "offset_ceil a sz \<noteq> None" if "a \<le> snd MMAP_RANGE" for a
  proof -
    have "unat a \<le> 0x400000000" using that by (simp add: MMAP_RANGE_def U_SEG_FILE_END_def word_le_nat_alt)
    then show ?thesis using sz by (simp add: offset_ceil_eq)
  qed
  have "?top \<le> snd MMAP_RANGE" using window_top_props (2) [OF i, of "fst MMAP_RANGE" "snd MMAP_RANGE"] lh win' by auto
  then obtain t where t: "offset_ceil ?top sz = Some t" using tot by blast
  have "rm_find_free_range am (fst MMAP_RANGE, snd MMAP_RANGE) sz offset_ceil =
      Some (if t \<le> snd MMAP_RANGE then Some (?top, t) else None)"
    by (rule find_free_range_exact)
      (fact i, rule offset_ceil_infl, assumption, fact tot, rule offset_ceil_mono, assumption+, fact lh, fact win, fact win', fact t)
  then show ?thesis using t by simp
qed

lemma insert_at_free:
  assumes "rm_inv am" "s < t" "\<not> overlaps (segs am) s t"
  shows "insert_at s (t - s) area am = Some (Inr ((s, t), bt_insert s \<lparr>node_end = t, node_value = area\<rparr> am))"
proof -
  have "unat s + unat (t - s) = unat t" using assms(2) unat_sub[of s t] by (simp add: word_less_nat_alt word_le_nat_alt)
  then have "uadd s (t - s) = Some t" using unat_lt2p[of t] by (simp add: uadd_def)
  then show ?thesis using rm_try_insert_eq[OF assms(1,2)] assms(3) by (simp add: insert_at_def)
qed

section \<open>A small address space\<close>

text \<open>A heap of sixteen pages and four pages of the file 7.\<close>

definition small_areas :: "nat UserAreaManager" where
  "small_areas =
     [(0x40000000, \<lparr>node_end = 0x40010000, node_value = new_anonymous (P_READ OR P_WRITE)\<rparr>),
      (0x200000000, \<lparr>node_end = 0x200004000, node_value = new_private P_READ 7 0\<rparr>)]"

lemma segs_small: "segs small_areas =
    {(0x40000000, 0x40010000, new_anonymous (P_READ OR P_WRITE)), (0x200000000, 0x200004000, new_private P_READ 7 0)}"
  by (simp add: small_areas_def segs_def)

lemma small_inv: "rm_inv small_areas"
  unfolding rm_inv_def segs_small by (simp add: segs_ok_def) (simp add: small_areas_def bt_wf_def)

lemma small_splittable: "splittable small_areas 0x200001000 0x200003000"
  unfolding splittable_def segs_small by (simp add: area_fine_def new_private_def)

lemma small_heap: "(HEAP_BEG, 0x40010000, new_anonymous (P_READ OR P_WRITE)) \<in> segs small_areas"
  unfolding segs_small by (simp add: HEAP_BEG_def U_SEG_HEAP_BEG_def)

lemma small_mmap_ok: "mmap_ok small_areas"
  unfolding mmap_ok_def segs_small by (simp add: MMAP_RANGE_def user_segs)

text \<open>An address space with one page mapped at the very end of the window.\<close>

definition top_areas :: "nat UserAreaManager" where
  "top_areas = [(0x3fffff000, \<lparr>node_end = 0x400000000, node_value = new_private P_READ 7 0\<rparr>)]"

lemma segs_top: "segs top_areas = {(0x3fffff000, 0x400000000, new_private P_READ 7 0)}"
  by (simp add: top_areas_def segs_def)

lemma top_inv: "rm_inv top_areas"
  unfolding rm_inv_def segs_top by (simp add: segs_ok_def) (simp add: top_areas_def bt_wf_def)

lemma top_mmap_ok: "mmap_ok top_areas"
  unfolding mmap_ok_def segs_top by (simp add: MMAP_RANGE_def user_segs)

lemma MMAP_ends: "fst MMAP_RANGE = 0x200000000" "snd MMAP_RANGE = 0x400000000"
  by (simp_all add: MMAP_RANGE_def user_segs)

lemma small_get: "rm_get small_areas 0x200001000 = Some ((0x200000000, 0x200004000), new_private P_READ 7 0)"
  by (simp add: rm_get_eq_Some[OF small_inv] segs_small)

section \<open>Properties\<close>

text \<open>
  (C33) \<open>munmap\<close>: when the segments that straddle an end of the range can be split,
  \<open>UserAreaManager::unmap_range\<close> leaves a well-formed map that shows nothing inside the range and
  exactly what it showed outside, file offsets and permissions included. The physical pages it
  releases are those of a duplicate-free list of disjoint pieces that together cover exactly the
  mapped part of the range, released in that order; it fails only if releasing one of them fails.
\<close>

theorem unmap_range_view:
  assumes "rm_inv am" "a < b" "splittable am a b"
  shows "\<exists>am' L. areas_unmap_range P B pt (a, b) (am, m) =
        map_option (Pair am') (foldM (\<lambda>(s, e, v). release_range P B pt (s, e)) L m) \<and>
      rm_inv am' \<and> (\<forall>x. areas_view am' x = (if a \<le> x \<and> x < b then None else areas_view am x)) \<and>
      distinct L \<and> segs_ok (set L) \<and>
      (\<forall>x y. seg_at area_view (set L) x y \<longleftrightarrow> a \<le> x \<and> x < b \<and> areas_view am x = Some y)"
  using areas_remove[OF assms, where release = "\<lambda>_. release_range P B pt" and s = m]
  unfolding areas_unmap_range_def by (auto simp only: prod.case)

theorem unmap_range_view_witness:
  "\<exists>am' (L :: (usize \<times> usize \<times> nat UserArea) list). areas_unmap_range board list_alloc empty_pt (0x200001000, 0x200003000) (small_areas, empty_mem) =
        map_option (Pair am') (foldM (\<lambda>(s, e, v). release_range board list_alloc empty_pt (s, e)) L empty_mem) \<and>
      rm_inv am' \<and> areas_view am' 0x200001000 = None \<and> areas_view am' 0x200000000 = areas_view small_areas 0x200000000"
proof -
  have ab: "(0x200001000 :: usize) < 0x200003000" by simp
  obtain am' and L :: "(usize \<times> usize \<times> nat UserArea) list" where
      "areas_unmap_range board list_alloc empty_pt (0x200001000, 0x200003000) (small_areas, empty_mem) =
        map_option (Pair am') (foldM (\<lambda>(s, e, v). release_range board list_alloc empty_pt (s, e)) L empty_mem)"
      "rm_inv am'" "\<forall>x. areas_view am' x = (if 0x200001000 \<le> x \<and> x < 0x200003000 then None else areas_view small_areas x)"
    using unmap_range_view[OF small_inv ab small_splittable, of board list_alloc empty_pt empty_mem] by blast
  then show ?thesis by (intro exI[of _ am'] exI[of _ L]) simp
qed

text \<open>
  \<open>brk\<close>: growing or shrinking the heap to a new end above its start either fails with \<open>ENOMEM\<close>,
  exactly when it grows into another segment, or yields a well-formed map in which the heap is
  the segment from its start to the new end and nothing else has changed.
\<close>

theorem reset_heap_break_spec:
  assumes "rm_inv am" "(HEAP_BEG, e, v) \<in> segs am" "HEAP_BEG < n"
  shows "if e < n \<and> overlaps (segs am) e n then reset_heap_break n am = Some (Inl ENOMEM)
    else \<exists>am'. reset_heap_break n am = Some (Inr am') \<and> rm_inv am' \<and> get_heap_break am' = Some n \<and>
      (\<forall>x. areas_view am' x = (if HEAP_BEG \<le> x \<and> x < n then Some (area_view v HEAP_BEG x)
         else if HEAP_BEG \<le> x \<and> x < e then None else areas_view am x))"
proof -
  note g = rm_get_HEAP[OF assms(1,2)] and bg = bt_get_segs[OF assms(1,2)]
  let ?m = "bt_modify HEAP_BEG (node_end_update (\<lambda>_. n)) am"
  have moved: "\<exists>am'. ?m = am' \<and> rm_inv am' \<and> get_heap_break am' = Some n \<and>
      (\<forall>x. areas_view am' x = (if HEAP_BEG \<le> x \<and> x < n then Some (area_view v HEAP_BEG x)
         else if HEAP_BEG \<le> x \<and> x < e then None else areas_view am x))"
    if "\<not> overlaps (segs am - {(HEAP_BEG, e, v)}) HEAP_BEG n"
  proof -
    note me = modify_end[OF assms(1,2,3) that]
    have "(HEAP_BEG, n, v) \<in> segs ?m"
      by (simp add: segs_modify_end[OF rm_inv_wf[OF assms(1)] assms(2)])
    then have "get_heap_break ?m = Some n" using rm_get_HEAP[OF me(1)] by (simp add: get_heap_break_def)
    then show ?thesis using me by blast
  qed
  consider "e < n" | "n < e" | "n = e" by fastforce
  then show ?thesis
  proof cases
    case 1
    then show ?thesis
      using moved overlaps_extend[OF assms(1,2) 1] range_is_free_iff[OF assms(1), of e n]
      by (simp add: reset_heap_break_def g rm_extend_back_def bg)
  next
    case 2
    have "\<not> e < n" "HEAP_BEG \<le> n" "HEAP_BEG \<noteq> n" "n \<le> e" using 2 assms(3) by auto
    then show ?thesis
      using 2 moved overlaps_reduce[OF assms(1,2)]
      by (simp add: reset_heap_break_def g rm_reduce_back_def bg)
  next
    case 3
    have "areas_view am x = Some (area_view v HEAP_BEG x)" if "HEAP_BEG \<le> x" "x < e" for x
      using assms(2) that by (auto simp: rm_view_eq_Some[OF assms(1)] seg_at_def)
    then show ?thesis using 3 assms(1) g by (auto simp: reset_heap_break_def get_heap_break_def)
  qed
qed

theorem reset_heap_break_spec_witness:
  "\<exists>am'. reset_heap_break 0x40020000 small_areas = Some (Inr am') \<and> get_heap_break am' = Some 0x40020000"
proof -
  have "HEAP_BEG < 0x40020000" "\<not> overlaps (segs small_areas) 0x40010000 0x40020000"
    unfolding segs_small by (simp_all add: HEAP_BEG_def U_SEG_HEAP_BEG_def overlaps_def)
  then show ?thesis using reset_heap_break_spec[OF small_inv small_heap, of "0x40020000"] by auto
qed

text \<open>
  (C34) \<open>mmap\<close> of anonymous memory: for a non-zero length below \<open>2\<^sup>6\<^sup>3\<close> and segments that do not cross
  the ends of the mmap window, \<open>insert_mmap_anonymous\<close> does not panic and its result depends only on \<open>top\<close>,
  the end of the last segment in the window, or its start when it has none. If the length, rounded up to
  whole pages, fits between \<open>top\<close> and the end of the window, the mapping begins at \<open>top\<close>: nothing was mapped
  there, the new map shows zero pages with the requested permissions there and is unchanged elsewhere.
  Otherwise the result is \<open>ENOMEM\<close>, also when a gap before \<open>top\<close> would be large enough.
\<close>

theorem insert_mmap_anonymous_spec:
  assumes "rm_inv am" "mmap_ok am" "0 < sz" "unat sz < 2 ^ 63"
  shows "\<exists>top. fst MMAP_RANGE \<le> top \<and>
    (top = fst MMAP_RANGE \<or> (\<exists>s v. (s, top, v) \<in> segs am \<and> fst MMAP_RANGE \<le> s \<and> s < snd MMAP_RANGE)) \<and>
    (\<forall>s e v. (s, e, v) \<in> segs am \<and> s < snd MMAP_RANGE \<longrightarrow> e \<le> top) \<and>
    (if (unat top + unat sz + 4095) div 4096 * 4096 \<le> unat (snd MMAP_RANGE)
     then \<exists>t am'. insert_mmap_anonymous sz p am = Some (Inr ((top, t), am')) \<and> unat t = (unat top + unat sz + 4095) div 4096 * 4096 \<and>
       rm_inv am' \<and> (\<forall>x. top \<le> x \<and> x < t \<longrightarrow> areas_view am x = None) \<and>
       (\<forall>x. areas_view am' x = (if top \<le> x \<and> x < t then Some (p, ZeroPage) else areas_view am x))
     else insert_mmap_anonymous sz p am = Some (Inl ENOMEM))"
proof -
  define top where "top = window_top am (fst MMAP_RANGE) (snd MMAP_RANGE)"
  note top = window_top_props [OF assms (1), where lo = "fst MMAP_RANGE" and hi = "snd MMAP_RANGE", folded top_def]
  have below: "e \<le> top" if "(s, e, v) \<in> segs am" "s < snd MMAP_RANGE" for s e v
  proof (cases "s < fst MMAP_RANGE")
    case True
    then have "e \<le> fst MMAP_RANGE" using assms (2) that by (auto simp: mmap_ok_def)
    then show ?thesis using top (1) by order
  next
    case False
    then have "fst MMAP_RANGE \<le> s" by simp
    then show ?thesis by (rule top (3) [OF that (1) _ that (2)])
  qed
  obtain t where t: "offset_ceil top sz = Some t"
    and find: "rm_find_free_range am MMAP_RANGE sz offset_ceil = Some (if t \<le> snd MMAP_RANGE then Some (top, t) else None)"
    using find_mmap_exact [OF assms (1,2,4)] by (auto simp: top_def)
  have ut: "unat t = (unat top + unat sz + 4095) div 4096 * 4096" by (rule unat_offset_ceil [OF t])
  have tt: "top < t" using offset_ceil_ge [OF t] assms (3) by (simp add: word_less_nat_alt)
  let ?am = "bt_insert top \<lparr>node_end = t, node_value = new_anonymous p\<rparr> am"
  have placed: "\<exists>t am'. insert_mmap_anonymous sz p am = Some (Inr ((top, t), am')) \<and> unat t = (unat top + unat sz + 4095) div 4096 * 4096 \<and>
       rm_inv am' \<and> (\<forall>x. top \<le> x \<and> x < t \<longrightarrow> areas_view am x = None) \<and>
       (\<forall>x. areas_view am' x = (if top \<le> x \<and> x < t then Some (p, ZeroPage) else areas_view am x))"
    if fits: "t \<le> snd MMAP_RANGE"
  proof -
    have no: "\<not> overlaps (segs am) top t" using below fits by (fastforce simp: overlaps_def)
    have "insert_mmap_anonymous sz p am = Some (Inr ((top, t), ?am))"
      using find fits tt by (simp add: insert_mmap_anonymous_def find_free_mmap_area_def find_free_area_def usub_def
          insert_mmap_anonymous_at_def insert_at_free [OF assms (1) tt no])
    moreover have "areas_view am x = None" if "top \<le> x" "x < t" for x
      using not_overlaps_seg_at [OF no that, of area_view] by (metis not_Some_eq rm_view_eq_Some [OF assms (1)])
    moreover have "areas_view ?am x = (if top \<le> x \<and> x < t then Some (p, ZeroPage) else areas_view am x)" for x
      by (simp add: rm_view_insert_free [OF assms (1) tt no] area_view_def new_anonymous_def)
    ultimately show ?thesis using ut rm_inv_insert_free [OF assms (1) tt no] by blast
  qed
  have "insert_mmap_anonymous sz p am = Some (Inl ENOMEM)" if "\<not> t \<le> snd MMAP_RANGE"
    using find that by (simp add: insert_mmap_anonymous_def find_free_mmap_area_def find_free_area_def)
  then have res: "if (unat top + unat sz + 4095) div 4096 * 4096 \<le> unat (snd MMAP_RANGE)
     then \<exists>t am'. insert_mmap_anonymous sz p am = Some (Inr ((top, t), am')) \<and> unat t = (unat top + unat sz + 4095) div 4096 * 4096 \<and>
       rm_inv am' \<and> (\<forall>x. top \<le> x \<and> x < t \<longrightarrow> areas_view am x = None) \<and>
       (\<forall>x. areas_view am' x = (if top \<le> x \<and> x < t then Some (p, ZeroPage) else areas_view am x))
     else insert_mmap_anonymous sz p am = Some (Inl ENOMEM)"
    using placed unfolding word_le_nat_alt [of t] ut by (cases "(unat top + unat sz + 4095) div 4096 * 4096 \<le> unat (snd MMAP_RANGE)") simp_all
  show ?thesis by (rule exI [of _ top], intro conjI) (fact top (1), fact top (2), use below in blast, fact res)
qed

theorem insert_mmap_anonymous_spec_witness:
  "(\<exists>am'. insert_mmap_anonymous 0x1800 P_READ small_areas = Some (Inr ((0x200004000, 0x200006000), am')) \<and> rm_inv am' \<and>
     areas_view am' 0x200005fff = Some (P_READ, ZeroPage)) \<and>
   insert_mmap_anonymous 1 P_READ top_areas = Some (Inl ENOMEM) \<and>
   dom (areas_view top_areas) = {0x3fffff000..<0x400000000}"
proof (intro conjI)
  have sz: "0 < (0x1800 :: usize)" "unat (0x1800 :: usize) < 2 ^ 63" by simp_all
  obtain top where top: "top = 0x200000000 \<or> (\<exists>s v. (s, top, v) \<in> segs small_areas \<and> 0x200000000 \<le> s \<and> s < 0x400000000)"
      "\<forall>s e v. (s, e, v) \<in> segs small_areas \<and> s < 0x400000000 \<longrightarrow> e \<le> top"
    and p: "if (unat top + unat (0x1800 :: usize) + 4095) div 4096 * 4096 \<le> unat (0x400000000 :: usize)
     then \<exists>t am'. insert_mmap_anonymous 0x1800 P_READ small_areas = Some (Inr ((top, t), am')) \<and>
       unat t = (unat top + unat (0x1800 :: usize) + 4095) div 4096 * 4096 \<and>
       rm_inv am' \<and> (\<forall>x. top \<le> x \<and> x < t \<longrightarrow> areas_view small_areas x = None) \<and>
       (\<forall>x. areas_view am' x = (if top \<le> x \<and> x < t then Some (P_READ, ZeroPage) else areas_view small_areas x))
     else insert_mmap_anonymous 0x1800 P_READ small_areas = Some (Inl ENOMEM)"
    using insert_mmap_anonymous_spec [OF small_inv small_mmap_ok sz (1,2), of P_READ, unfolded MMAP_ends]
    by (elim exE conjE) (rule that)
  have "0x200004000 \<le> top" using top (2) [rule_format, of "0x200000000" "0x200004000" "new_private P_READ 7 0"] by (simp add: segs_small)
  then have t: "top = 0x200004000" using top (1) unfolding segs_small by auto
  obtain e am' where r: "insert_mmap_anonymous 0x1800 P_READ small_areas = Some (Inr ((0x200004000, e), am'))" "unat e = 0x200006000"
    "rm_inv am'" "\<forall>x. areas_view am' x = (if 0x200004000 \<le> x \<and> x < e then Some (P_READ, ZeroPage) else areas_view small_areas x)"
    using p unfolding t by auto
  have "e = 0x200006000" using r (2) by (simp add: word_unat_eq_iff)
  then show "\<exists>am'. insert_mmap_anonymous 0x1800 P_READ small_areas = Some (Inr ((0x200004000, 0x200006000), am')) \<and> rm_inv am' \<and>
     areas_view am' 0x200005fff = Some (P_READ, ZeroPage)" using r by auto
next
  have sz: "0 < (1 :: usize)" "unat (1 :: usize) < 2 ^ 63" by simp_all
  obtain top where top: "\<forall>s e v. (s, e, v) \<in> segs top_areas \<and> s < 0x400000000 \<longrightarrow> e \<le> top"
    and p: "if (unat top + unat (1 :: usize) + 4095) div 4096 * 4096 \<le> unat (0x400000000 :: usize)
     then \<exists>t am'. insert_mmap_anonymous 1 P_READ top_areas = Some (Inr ((top, t), am')) \<and>
       unat t = (unat top + unat (1 :: usize) + 4095) div 4096 * 4096 \<and>
       rm_inv am' \<and> (\<forall>x. top \<le> x \<and> x < t \<longrightarrow> areas_view top_areas x = None) \<and>
       (\<forall>x. areas_view am' x = (if top \<le> x \<and> x < t then Some (P_READ, ZeroPage) else areas_view top_areas x))
     else insert_mmap_anonymous 1 P_READ top_areas = Some (Inl ENOMEM)"
    using insert_mmap_anonymous_spec [OF top_inv top_mmap_ok sz, of P_READ, unfolded MMAP_ends]
    by (elim exE conjE) (rule that)
  have "0x400000000 \<le> top" using top [rule_format, of "0x3fffff000" "0x400000000" "new_private P_READ 7 0"] by (simp add: segs_top)
  then have "0x400000000 \<le> unat top" by (simp add: word_le_nat_alt)
  then have "\<not> (unat top + 1 + 4095) div 4096 * 4096 \<le> 0x400000000" by linarith
  then show "insert_mmap_anonymous 1 P_READ top_areas = Some (Inl ENOMEM)" using p by simp
  show "dom (areas_view top_areas) = {0x3fffff000..<0x400000000}"
    by (auto simp: dom_def rm_view_eq_Some [OF top_inv] seg_at_def segs_top)
qed

text \<open>
  (C35) \<open>mprotect\<close> of part of a segment: when the straddling segments can be split, \<open>remap_range\<close>
  gives the whole range the new permissions and changes nothing outside. The range takes its kind
  from the segment at its first address together with that segment's file offset, unadjusted: if
  the segment maps a file and starts before the range, every page of the range now shows a page of
  the file other than before.
\<close>

theorem remap_range_view:
  assumes "rm_inv am" "a < b" "splittable am a b" "rm_get am a = Some ((s, e), area)"
  shows "\<exists>am'. areas_remap_range (a, b) p am = Some am' \<and> rm_inv am' \<and>
    (\<forall>x. areas_view am' x = (if a \<le> x \<and> x < b then Some (p, source_at (kind area) a x) else areas_view am x)) \<and>
    (\<forall>f off x. kind area = MmapPrivate f off \<and> s < a \<and> a \<le> x \<longrightarrow>
       source_at (kind area) a x \<noteq> source_at (kind area) s x)"
proof -
  obtain am1 where r: "rm_remove am (a, b) split_and_make_left split_and_make_right (\<lambda>_ _. Some) () = Some (am1, ())"
      and i1: "rm_inv am1" and v1: "\<forall>x. areas_view am1 x = (if a \<le> x \<and> x < b then None else areas_view am x)"
      and out: "\<forall>(s, e, v)\<in>segs am1. e \<le> a \<or> b \<le> s"
    using areas_remove[OF assms(1-3), where release = "\<lambda>_ _. Some" and s = "()"]
    unfolding foldM_Some option.map by blast
  have no: "\<not> overlaps (segs am1) a b" using out by (force simp: overlaps_def)
  have "areas_remap_range (a, b) p am = Some (bt_insert a \<lparr>node_end = b, node_value = new_with_same_kind area p\<rparr> am1)"
    using r assms(4) by (simp add: areas_remap_range_def get_area_def Let_def rm_try_insert_eq[OF i1 assms(2)] no)
  moreover have "areas_view (bt_insert a \<lparr>node_end = b, node_value = new_with_same_kind area p\<rparr> am1) x =
      (if a \<le> x \<and> x < b then Some (p, source_at (kind area) a x) else areas_view am x)" for x
    by (simp add: rm_view_insert_free[OF i1 assms(2) no] v1 area_view_def new_with_same_kind_def)
  moreover have "source_at (kind area) a x \<noteq> source_at (kind area) s x"
    if "kind area = MmapPrivate f off" "s < a" "a \<le> x" for f off x
    using that by (simp add: word_less_nat_alt word_le_nat_alt)
  ultimately show ?thesis using rm_inv_insert_free[OF i1 assms(2) no] by blast
qed

theorem remap_range_view_witness:
  "\<exists>am'. areas_remap_range (0x200001000, 0x200003000) (P_READ OR P_WRITE) small_areas = Some am' \<and>
    areas_view small_areas 0x200001000 = Some (P_READ, FilePage 7 0x1000) \<and>
    areas_view am' 0x200001000 = Some (P_READ OR P_WRITE, FilePage 7 0)"
proof -
  obtain am' where r: "areas_remap_range (0x200001000, 0x200003000) (P_READ OR P_WRITE) small_areas = Some am'"
      and v: "\<forall>x. areas_view am' x = (if 0x200001000 \<le> x \<and> x < 0x200003000
         then Some (P_READ OR P_WRITE, source_at (kind (new_private P_READ (7::nat) 0)) 0x200001000 x)
         else areas_view small_areas x)"
    using remap_range_view[OF small_inv _ small_splittable small_get, of "P_READ OR P_WRITE"] by auto
  have "areas_view small_areas 0x200001000 = Some (P_READ, FilePage 7 0x1000)"
    by (simp add: rm_view_def small_get area_view_def new_private_def)
  then show ?thesis using r v by (simp add: new_private_def)
qed

end
