(* ===== verification/Page_Fault.thy ===== *)
theory Page_Fault
  imports User_Area_Laws
begin

text \<open>
  The page-fault handler \<open>UserArea::page_fault\<close> against the page-table map: demand paging of
  anonymous memory, copy on write with and without another owner, and its failures.
\<close>

section \<open>Pages that creating tables leaves alone\<close>

text \<open>A page in use that is no table of the user half.\<close>

definition data_page :: "'fa kmem \<Rightarrow> usize \<Rightarrow> usize \<Rightarrow> bool" where
  "data_page m r x \<longleftrightarrow> count_of m (page_num x) \<noteq> 0 \<and> x \<notin> user_tables (phys m) r"

definition keeps_page :: "'fa kmem \<Rightarrow> 'fa kmem \<Rightarrow> usize \<Rightarrow> usize \<Rightarrow> bool" where
  "keeps_page m m' r x \<longleftrightarrow> phys m' x = phys m x \<and>
     count_of m' (page_num x) = count_of m (page_num x) \<and> x \<notin> user_tables (phys m') r"

lemma keeps_data_page: "data_page m r x \<Longrightarrow> keeps_page m m' r x \<Longrightarrow> data_page m' r x"
  by (simp add: data_page_def keeps_page_def)

lemma keeps_refl: "data_page m r x \<Longrightarrow> keeps_page m m r x"
  by (simp add: data_page_def keeps_page_def)

lemma keeps_trans: "keeps_page m m1 r x \<Longrightarrow> keeps_page m1 m2 r x \<Longrightarrow> keeps_page m m2 r x"
  by (simp add: keeps_page_def)

lemma next_create_keeps:
  assumes ok: "platform_ok P" and i: "pt_inv P m (root_paddr pt)" and p: "upath (p @ [k])"
    and w: "walk (phys m) (root_paddr pt) p = Some t"
    and run: "next_table_mut_or_create P B (t, k) (pt, m) = Some (t', pt', m')"
    and x: "data_page m (root_paddr pt) x"
  shows "keeps_page m m' (root_paddr pt) x"
proof (cases "bit (phys m t k) 0")
  case True
  then have "m' = m" using run by (auto simp: next_table_mut_or_create_def read_entry_def bind_eq_Some_conv)
  then show ?thesis using x by (simp add: keeps_refl)
next
  case False
  let ?r = "root_paddr pt"
  obtain m1 where a: "alloc_table P B m = Some (t', m1)" and m': "m' = write_entry (t, k) (pte_new t' F_V) m1"
    using run False by (auto simp: next_table_mut_or_create_def read_entry_def table_of_mut_def Let_def bind_eq_Some_conv)
  have rc: "ref_cnts m \<noteq> None" using i by (simp add: pt_inv_def)
  note al = alloc_table_post[OF ok rc a] and de = dir_entry[OF alloc_table_post(5,6)[OF ok rc a]]
  have fresh: "t' \<notin> user_tables (phys m) ?r"
    using pt_inv_ok[OF i] al(2) by (auto simp: user_tables_def table_ok_def)
  have tt: "t \<noteq> t'" using not_user_table[OF fresh upath_prefix[OF p] w] .
  then have ph: "phys m' = linked (phys m) t k (pte_new t' F_V) t'"
    by (simp add: m' write_entry_def al(1) linked_def)
  have "t \<in> user_tables (phys m) ?r" using upath_prefix[OF p] w by (auto simp: user_tables_def)
  then have "x \<noteq> t" using x by (auto simp: data_page_def)
  moreover have "page_num x \<noteq> page_num t'" using x al(2) by (auto simp: data_page_def)
  moreover have "x \<notin> user_tables (phys m') ?r"
  proof
    assume "x \<in> user_tables (phys m') ?r"
    then obtain q where q: "upath q" "walk (phys m') ?r q = Some x" by (auto simp: user_tables_def)
    then have "x = t' \<or> walk (phys m) ?r q = Some x"
      using walk_linked[OF i p w False fresh de(1,3) q(1)] by (auto simp: ph split: if_splits)
    then show False using x q(1) \<open>page_num x \<noteq> page_num t'\<close> by (auto simp: data_page_def user_tables_def)
  qed
  moreover have "count_of m' = (count_of m)(page_num t' := 1)"
    using al(3) by (simp add: m' write_entry_def count_of_fun)
  ultimately show ?thesis by (auto simp: keeps_page_def ph linked_def)
qed

lemma get_or_create_keeps:
  assumes ok: "platform_ok P" and i: "pt_inv P m (root_paddr pt)" and u: "p3_index va < 256"
    and run: "get_entry_mut_or_create P B va (pt, m) = Some (r, pt', m')"
    and x: "data_page m (root_paddr pt) x"
  shows "keeps_page m m' (root_paddr pt) x"
proof -
  have t: "table_of_mut P (root_paddr pt) = Some (root_paddr pt)"
    by (rule table_of_mut_ok[OF pt_inv_ok[OF i upath_Nil]]) simp
  obtain t2 pt1 m1 t1 where
      r1: "next_table_mut_or_create P B (root_paddr pt, p3_index va) (pt, m) = Some (t2, pt1, m1)"
      and r2: "next_table_mut_or_create P B (t2, p2_index va) (pt1, m1) = Some (t1, pt', m')"
    using run t by (auto simp: get_entry_mut_or_create_def bind_eq_Some_conv)
  have s1: "pt_inv P m1 (root_paddr pt1)" "root_paddr pt1 = root_paddr pt"
      "walk (phys m1) (root_paddr pt1) [p3_index va] = Some t2"
    using next_create_step[OF ok i, of "[]" "p3_index va", OF _ _ r1] u by (auto simp del: walk.simps(2))
  have k1: "keeps_page m m1 (root_paddr pt) x"
    using next_create_keeps[OF ok i, of "[]" "p3_index va", OF _ _ r1 x] u by simp
  have "keeps_page m1 m' (root_paddr pt) x"
    using next_create_keeps[OF ok s1(1), of "[p3_index va]" "p2_index va", OF _ s1(3) r2] u s1(2)
      keeps_data_page[OF x k1] by simp
  then show ?thesis using k1 keeps_trans by blast
qed

section \<open>Remapping one page\<close>

lemma user_tables_leaf_write:
  assumes i: "pt_inv P m r" and w: "walk (phys m) r [a, b] = Some t" and ab: "a < 256" "b < 512"
  shows "user_tables (phys (write_entry (t, c) e m)) r = user_tables (phys m) r"
  using walk_leaf_write[OF i w ab] by (auto simp: user_tables_def)

lemma remap_page_run:
  assumes "platform_ok P" "bit_alloc_ok B free" "frame_inv P free m" "2 \<le> card (free (falloc m))"
    and "pt_inv P m (root_paddr pt)" "unat va < 2 ^ 38" "PhysAddr4K_is_valid pa"
  shows "\<exists>pt' m'. remap_page P B va pa fl (pt, m) = Some (pt', m') \<and>
    updates_pte P pt m pt' m' (page_num va) (Some (pte_new pa (F_V OR fl))) \<and>
    pt_inv P m' (root_paddr pt') \<and> frame_inv P free m' \<and>
    (\<forall>x. data_page m (root_paddr pt) x \<longrightarrow> keeps_page m m' (root_paddr pt) x)"
proof -
  have u: "p3_index va < 256" using assms(6) by (rule user_index)
  obtain r pt1 m1 where g: "get_entry_mut_or_create P B va (pt, m) = Some (r, pt1, m1)" and f: "frame_inv P free m1"
    using get_or_create_total[OF assms(1-5) u] by blast
  obtain t where i1: "pt_inv P m1 (root_paddr pt1)" and ro: "root_paddr pt1 = root_paddr pt"
      and r: "r = (t, p1_index va)" and w: "walk (phys m1) (root_paddr pt) [p3_index va, p2_index va] = Some t"
      and lf: "\<And>a b c. a < 256 \<Longrightarrow> b < 512 \<Longrightarrow> leaf_at (phys m1) (root_paddr pt) a b c = leaf_at (phys m) (root_paddr pt) a b c"
    using get_or_create_step[OF assms(1,5) u g] by blast
  let ?e = "pte_new pa (F_V OR fl)" and ?m = "write_entry (t, p1_index va) (pte_new pa (F_V OR fl)) m1"
  have V: "bit ?e 0"
  proof -
    have "bit F_V 0" unfolding F_V_def bit_flag by simp
    then show ?thesis by (simp add: bit_pte_new bit_or_iff)
  qed
  note i1' = i1[unfolded ro]
  note lw = leaf_at_write[OF i1' w u, of _ _ "p1_index va" ?e] and iw = pt_inv_leaf_write[OF i1' w u, of "p1_index va" ?e]
  have "remap_page P B va pa fl (pt, m) = Some (pt1, ?m)"
    using assms(7) by (simp add: remap_page_def g r)
  moreover have "updates_pte P pt m pt1 ?m (page_num va) (Some ?e)"
    by (rule updates_pteI[OF assms(5) _ assms(6)]) (use iw lw lf V ro in \<open>simp_all\<close>)
  moreover have "frame_inv P free ?m" using f by (simp add: frame_inv_def write_entry_def)
  moreover have "keeps_page m ?m (root_paddr pt) x" if "data_page m (root_paddr pt) x" for x
  proof -
    note k = get_or_create_keeps[OF assms(1,5) u g that]
    have "t \<in> user_tables (phys m1) (root_paddr pt)"
      unfolding user_tables_def using w u by (intro CollectI exI[of _ "[p3_index va, p2_index va]"]) simp
    then have "x \<noteq> t" using k by (auto simp: keeps_page_def)
    moreover have "user_tables (phys ?m) (root_paddr pt) = user_tables (phys m1) (root_paddr pt)"
      by (rule user_tables_leaf_write[OF i1' w u]) simp
    ultimately show ?thesis using k by (simp add: keeps_page_def) (simp add: write_entry_def count_of_def)
  qed
  ultimately show ?thesis using iw ro by auto
qed

section \<open>Changes outside the tables\<close>

lemma tables_kept:
  assumes i: "pt_inv P m r" and ph: "\<forall>t\<in>user_tables (phys m) r. phys m' t = phys m t"
  shows "upath q \<Longrightarrow> walk (phys m') r q = walk (phys m) r q" "user_tables (phys m') r = user_tables (phys m) r"
    "a < 256 \<Longrightarrow> b < 512 \<Longrightarrow> leaf_at (phys m') r a b c = leaf_at (phys m) r a b c"
proof -
  have tab: "phys m' t = phys m t" if "upath p" "walk (phys m) r p = Some t" for p t
    using ph that by (auto simp: user_tables_def)
  have sub: "sub_table (phys m') t k = sub_table (phys m) t k" if "upath p" "walk (phys m) r p = Some t" for p t k
    using tab[OF that] by (simp add: sub_table_def)
  have top: "walk (phys m') r [k] = walk (phys m) r [k]" for k
    using sub[of "[]" r k] by (simp split: option.splits)
  have step: "walk \<phi> r [k, l] = (case walk \<phi> r [k] of None \<Rightarrow> None | Some t \<Rightarrow> sub_table \<phi> t l)" for \<phi> k l
    by (auto split: option.splits)
  show eq: "walk (phys m') r q = walk (phys m) r q" if "upath q" for q
    using that
  proof (cases rule: upath_cases)
    case (2 k)
    then show ?thesis by (simp only: top)
  next
    case (3 k l)
    show ?thesis unfolding 3(1) step top using sub[of "[k]"] 3(2) by (auto simp del: walk.simps split: option.splits)
  qed simp
  show "user_tables (phys m') r = user_tables (phys m) r" using eq by (auto simp: user_tables_def)
  show "leaf_at (phys m') r a b c = leaf_at (phys m) r a b c" if "a < 256" "b < 512"
    unfolding leaf_at_def using eq[of "[a, b]"] that tab[of "[a, b]"]
    by (auto simp del: walk.simps split: option.splits)
qed

lemma pt_inv_kept:
  assumes i: "pt_inv P m r" and ph: "\<forall>t\<in>user_tables (phys m) r. phys m' t = phys m t"
    and rc: "ref_cnts m' \<noteq> None"
    and co: "\<forall>t\<in>user_tables (phys m) r. count_of m' (page_num t) \<noteq> 0"
  shows "pt_inv P m' r"
  unfolding pt_inv_def
proof (intro conjI allI impI; (elim conjE)?)
  note eq = tables_kept(1)[OF i ph]
  show "ref_cnts m' \<noteq> None" by (rule rc)
  show "p = q" if "upath p" "upath q" "walk (phys m') r p = Some t" "walk (phys m') r q = Some t" for p q t
    using pt_inv_inj[OF i that(1,2)] that eq by simp
  show "table_ok P m' t" if "upath p" "walk (phys m') r p = Some t" for p t
    using pt_inv_ok[OF i that(1)] that eq co by (auto simp: table_ok_def user_tables_def)
  show "\<not> leafy (phys m' t k)" if "upath (p @ [k])" "walk (phys m') r p = Some t" "bit (phys m' t k) 0" for p k t
  proof -
    have w: "walk (phys m) r p = Some t" using that(2) eq[OF upath_prefix[OF that(1)]] by simp
    then have "phys m' t = phys m t" using ph upath_prefix[OF that(1)] by (auto simp: user_tables_def)
    then show ?thesis using pt_inv_dir[OF i that(1) w] that(3) by simp
  qed
qed

text \<open>An allocated frame is a data page afterwards, and the tables stay as they are.\<close>

lemma alloc_frame_pages:
  assumes "platform_ok P" "bit_alloc_ok B free" "frame_inv P free m" "free (falloc m) \<noteq> {}"
    and i: "pt_inv P m r"
  shows "\<exists>j m'. alloc_frame P B m = Some (Some (frame_addr P j), m') \<and> managed P j \<and> frame_inv P free m' \<and>
    card (free (falloc m')) = card (free (falloc m)) - 1 \<and> pt_inv P m' r \<and>
    count_of m (frame_ppn P j) = 0 \<and> count_of m' = (count_of m)(frame_ppn P j := 1) \<and>
    (\<forall>x. x \<noteq> frame_addr P j \<longrightarrow> phys m' x = phys m x) \<and> frame_addr P j \<notin> user_tables (phys m) r"
proof -
  obtain j m' where a: "alloc_frame P B m = Some (Some (frame_addr P j), m')" and j: "j \<in> free (falloc m)"
      and f: "free (falloc m') = free (falloc m) - {j}" and c0: "count_of m (frame_ppn P j) = 0"
      and c: "count_of m' = (count_of m)(frame_ppn P j := 1)"
      and ph: "\<And>x. x \<noteq> frame_addr P j \<Longrightarrow> phys m' x = phys m x" and fi: "frame_inv P free m'"
    using alloc_frame_cases[OF assms(1-3)] assms(4) by auto
  have nt: "frame_addr P j \<notin> user_tables (phys m) r"
    using pt_inv_ok[OF i] c0 by (auto simp: user_tables_def table_ok_def frame_ppn_def)
  have tc: "count_of m (page_num t) \<noteq> 0" if "t \<in> user_tables (phys m) r" for t
    using that pt_inv_ok[OF i] by (auto simp: user_tables_def table_ok_def)
  have "pt_inv P m' r"
  proof (rule pt_inv_kept[OF i])
    show "\<forall>t\<in>user_tables (phys m) r. phys m' t = phys m t" using nt by (intro ballI ph) auto
    show "ref_cnts m' \<noteq> None" using fi by (auto simp: frame_inv_def)
    show "\<forall>t\<in>user_tables (phys m) r. count_of m' (page_num t) \<noteq> 0" using tc by (simp add: c)
  qed
  moreover have "card (free (falloc m')) = card (free (falloc m)) - 1" using f j by simp
  moreover have "managed P j" using assms(3) j by (auto simp: frame_inv_def)
  ultimately show ?thesis using a fi c0 c ph nt by blast
qed

lemma get_pte_kept:
  assumes i: "pt_inv P m (root_paddr pt)" and ph: "\<forall>t\<in>user_tables (phys m) (root_paddr pt). phys m' t = phys m t"
    and i': "pt_inv P m' (root_paddr pt)" and v: "unat vpn < 2 ^ 26"
  shows "get_pte_copied_from_vpn P pt vpn m' = get_pte_copied_from_vpn P pt vpn m"
proof -
  have "unat (vpn * 4096) = unat vpn * 4096" using v by (simp add: unat_word_ariths)
  then have "p3_index (vpn * 4096) < 256" using v by (intro user_index) simp
  then show ?thesis by (simp add: get_pte_eq[OF i v] get_pte_eq[OF i' v] tables_kept(3)[OF i ph])
qed

lemma updates_pte_trans:
  assumes "\<And>n. unat n < 2 ^ 26 \<Longrightarrow> get_pte_copied_from_vpn P pt n m1 = get_pte_copied_from_vpn P pt n m"
    and "updates_pte P pt m1 pt' m' v e"
  shows "updates_pte P pt m pt' m' v e"
  using assms by (simp add: updates_pte_def)

section \<open>The handler\<close>

lemma count_of_upd [simp]: "count_of (m\<lparr>phys := f\<rparr>) = count_of m" "count_of (m\<lparr>falloc := fa\<rparr>) = count_of m"
  by (simp_all add: count_of_fun)

lemma table_count: "pt_inv P m r \<Longrightarrow> t \<in> user_tables (phys m) r \<Longrightarrow> count_of m (page_num t) \<noteq> 0"
  using pt_inv_ok by (fastforce simp: user_tables_def table_ok_def)

lemma vpn_addr:
  assumes "unat vpn < 2 ^ 26"
  shows "page_num_addr vpn = Some (vpn * 4096)" "unat (vpn * 4096) < 2 ^ 38" "page_num (vpn * 4096) = vpn"
proof -
  have u: "unat (vpn * 4096) = unat vpn * 4096" using assms by (simp add: unat_word_ariths)
  show "page_num_addr vpn = Some (vpn * 4096)" using assms by (simp add: page_num_addr_def umul_def)
  show "unat (vpn * 4096) < 2 ^ 38" using assms by (simp add: u)
  have "unat (page_num (vpn * 4096)) = unat vpn" by (simp add: unat_page_num u)
  then show "page_num (vpn * 4096) = vpn" by (rule unsigned_word_eqI)
qed

text \<open>The entry that the handler finds is the one a lookup gives.\<close>

lemma get_pte_mut_eq:
  assumes i: "pt_inv P m (root_paddr pt)" and v: "unat vpn < 2 ^ 26"
  shows "get_pte_copied_from_vpn P pt vpn m = Some None \<Longrightarrow> get_pte_mut_from_vpn P pt vpn m = Some None"
    "get_pte_copied_from_vpn P pt vpn m = Some (Some e) \<Longrightarrow>
      \<exists>r. get_pte_mut_from_vpn P pt vpn m = Some (Some r) \<and> read_entry r m = e"
  by (auto simp: get_pte_copied_from_vpn_def get_pte_mut_from_vpn_def vpn_addr[OF v] bind_eq_Some_conv)

lemma fault_remap_run:
  assumes "platform_ok P" "bit_alloc_ok B free" "frame_inv P free m" "2 \<le> card (free (falloc m))"
    and "pt_inv P m (root_paddr pt)" "unat vpn < 2 ^ 26" "PhysAddr4K_is_valid frame" "frame \<noteq> 0"
  shows "\<exists>pt' m'. fault_remap P B a vpn frame (pt, m) = Some (Inr (), pt', m') \<and>
    updates_pte P pt m pt' m' vpn (Some (pte_new frame (F_V OR perm_to_flags (perm a)))) \<and>
    pt_inv P m' (root_paddr pt') \<and> frame_inv P free m' \<and>
    (\<forall>x. data_page m (root_paddr pt) x \<longrightarrow> keeps_page m m' (root_paddr pt) x)"
proof -
  obtain pt' m' where r: "remap_page P B (vpn * 4096) frame (perm_to_flags (perm a)) (pt, m) = Some (pt', m')"
      and rest: "updates_pte P pt m pt' m' vpn (Some (pte_new frame (F_V OR perm_to_flags (perm a))))"
        "pt_inv P m' (root_paddr pt')" "frame_inv P free m'"
        "\<forall>x. data_page m (root_paddr pt) x \<longrightarrow> keeps_page m m' (root_paddr pt) x"
    using remap_page_run[OF assms(1-5) vpn_addr(2)[OF assms(6)] assms(7)] vpn_addr(3)[OF assms(6)] by metis
  have "fault_remap P B a vpn frame (pt, m) = Some (Inr (), pt', m')"
    using assms(8) r by (simp add: fault_remap_def vpn_addr(1)[OF assms(6)])
  then show ?thesis using rest by blast
qed

text \<open>A fresh frame with any contents \<open>w\<close> is mapped; data pages in use keep contents and count.\<close>

lemma fresh_page_mapped:
  assumes "platform_ok P" "bit_alloc_ok B free" "frame_inv P free m" "3 \<le> card (free (falloc m))"
    and "pt_inv P m (root_paddr pt)" "unat vpn < 2 ^ 26" "phymem_start P \<noteq> 0"
  shows "\<exists>j m1. alloc_frame P B m = Some (Some (frame_addr P j), m1) \<and> managed P j \<and>
    count_of m (frame_ppn P j) = 0 \<and> (\<forall>x. x \<noteq> frame_addr P j \<longrightarrow> phys m1 x = phys m x) \<and>
    (\<forall>w. \<exists>pt' m'. fault_remap P B a vpn (frame_addr P j) (pt, m1\<lparr>phys := (phys m1)(frame_addr P j := w)\<rparr>) =
        Some (Inr (), pt', m') \<and>
      updates_pte P pt m pt' m' vpn (Some (pte_new (frame_addr P j) (F_V OR perm_to_flags (perm a)))) \<and>
      count_of m' (frame_ppn P j) = 1 \<and> phys m' (frame_addr P j) = w \<and>
      pt_inv P m' (root_paddr pt') \<and> frame_inv P free m' \<and>
      (\<forall>x. data_page m (root_paddr pt) x \<longrightarrow> keeps_page m m' (root_paddr pt) x))"
proof -
  let ?r = "root_paddr pt"
  have "free (falloc m) \<noteq> {}" using assms(4) by auto
  then obtain j m1 where al: "alloc_frame P B m = Some (Some (frame_addr P j), m1)" and mj: "managed P j"
      and fi: "frame_inv P free m1" and card: "card (free (falloc m1)) = card (free (falloc m)) - 1"
      and i1: "pt_inv P m1 ?r" and c0: "count_of m (frame_ppn P j) = 0"
      and c: "count_of m1 = (count_of m)(frame_ppn P j := 1)"
      and ph: "\<forall>x. x \<noteq> frame_addr P j \<longrightarrow> phys m1 x = phys m x" and nt: "frame_addr P j \<notin> user_tables (phys m) ?r"
    using alloc_frame_pages[OF assms(1-3) _ assms(5)] by blast
  let ?f = "frame_addr P j"
  have "\<exists>pt' m'. fault_remap P B a vpn ?f (pt, m1\<lparr>phys := (phys m1)(?f := w)\<rparr>) = Some (Inr (), pt', m') \<and>
      updates_pte P pt m pt' m' vpn (Some (pte_new ?f (F_V OR perm_to_flags (perm a)))) \<and>
      count_of m' (frame_ppn P j) = 1 \<and> phys m' ?f = w \<and> pt_inv P m' (root_paddr pt') \<and> frame_inv P free m' \<and>
      (\<forall>x. data_page m ?r x \<longrightarrow> keeps_page m m' ?r x)" for w
  proof -
    let ?m = "m1\<lparr>phys := (phys m1)(frame_addr P j := w)\<rparr>"
    have tabs: "\<forall>t\<in>user_tables (phys m) ?r. phys ?m t = phys m t" using ph nt by auto
    have i2: "pt_inv P ?m ?r"
    proof (rule pt_inv_kept[OF assms(5) tabs])
      show "ref_cnts ?m \<noteq> None" using fi by (auto simp: frame_inv_def)
      show "\<forall>t\<in>user_tables (phys m) ?r. count_of ?m (page_num t) \<noteq> 0"
        using table_count[OF assms(5)] by (simp add: c)
    qed
    have f2: "frame_inv P free ?m" using fi by (simp add: frame_inv_def)
    have cd: "2 \<le> card (free (falloc ?m))" using card assms(4) by simp
    have "?f \<noteq> 0" using phymem_le_frame[OF assms(1) mj] assms(7) by (auto simp: word_le_nat_alt unat_eq_zero)
    then obtain pt' m' where fr: "fault_remap P B a vpn ?f (pt, ?m) = Some (Inr (), pt', m')"
        and up: "updates_pte P pt ?m pt' m' vpn (Some (pte_new ?f (F_V OR perm_to_flags (perm a))))"
        and inv: "pt_inv P m' (root_paddr pt')" "frame_inv P free m'"
        and kp: "\<forall>x. data_page ?m ?r x \<longrightarrow> keeps_page ?m m' ?r x"
      using fault_remap_run[OF assms(1,2) f2 cd i2 assms(6) valid_frame_addr[OF assms(1) mj], of a] by blast
    have ut: "user_tables (phys ?m) ?r = user_tables (phys m) ?r" by (rule tables_kept(2)[OF assms(5) tabs])
    have "data_page ?m ?r ?f" using ut nt by (simp add: data_page_def c frame_ppn_def)
    then have kf: "keeps_page ?m m' ?r ?f" using kp by blast
    have "keeps_page m m' ?r x" if x: "data_page m ?r x" for x
    proof -
      have "x \<noteq> ?f" "page_num x \<noteq> frame_ppn P j" using x c0 by (auto simp: data_page_def frame_ppn_def)
      then have "keeps_page m ?m ?r x" "data_page ?m ?r x"
        using x ut ph by (simp_all add: data_page_def keeps_page_def c)
      then show ?thesis using kp keeps_trans by blast
    qed
    moreover have "updates_pte P pt m pt' m' vpn (Some (pte_new ?f (F_V OR perm_to_flags (perm a))))"
      by (rule updates_pte_trans[OF get_pte_kept[OF assms(5) tabs i2] up])
    ultimately show ?thesis using fr inv kf
      by (intro exI[of _ pt'] exI[of _ m']) (simp add: keeps_page_def frame_ppn_def c)
  qed
  then show ?thesis using al mj c0 ph by (intro exI[of _ j] exI[of _ m1] conjI) auto
qed

text \<open>The state in which the handler copies on write: the entry is a read-only copy-on-write entry
  of frame \<open>i\<close>, which is no table.\<close>

definition cow_page :: "platform \<Rightarrow> PageTable \<Rightarrow> 'fa kmem \<Rightarrow> usize \<Rightarrow> usize \<Rightarrow> u64 \<Rightarrow> bool" where
  "cow_page P pt m vpn i e \<longleftrightarrow> get_pte_copied_from_vpn P pt vpn m = Some (Some e) \<and> managed P i \<and>
     pte_ppn e = frame_ppn P i \<and> bit e 8 \<and> \<not> bit e 2 \<and> frame_addr P i \<notin> user_tables (phys m) (root_paddr pt)"

text \<open>What a run of the handler does on such a page, down to the test for another owner.\<close>

lemma fault_cow_eq:
  assumes i: "pt_inv P m (root_paddr pt)" and v: "unat vpn < 2 ^ 26" and cp: "cow_page P pt m vpn i e"
    and w: "perm_contains (perm a) P_WRITE" and acc: "can_access acc (perm a)"
  shows "area_page_fault P B gp cur a range_begin vpn acc (pt, m) = do {
       sh \<leftarrow> is_shared P (frame_ppn P i) m;
       if sh then do {
         m \<leftarrow> decrease P (frame_ppn P i) m;
         fr \<leftarrow> is_free P (frame_ppn P i) m;
         rassert (\<not> fr);
         rassert (root_paddr pt = cur);
         (nf, m) \<leftarrow> alloc_frame P B m;
         case nf of
           None \<Rightarrow> Some (Inl KernelOOM, pt, m)
         | Some frame \<Rightarrow> do {
             old_addr \<leftarrow> page_num_addr (frame_ppn P i);
             m \<leftarrow> page_copy P frame old_addr m;
             fault_remap P B a vpn frame (pt, m) } }
       else do {
         frame \<leftarrow> page_num_addr (frame_ppn P i);
         fault_remap P B a vpn frame (pt, m) } }"
proof -
  obtain r where r: "get_pte_mut_from_vpn P pt vpn m = Some (Some r)" "read_entry r m = e"
    using get_pte_mut_eq(2)[OF i v] cp by (auto simp: cow_page_def)
  have f: "flags_contains (ucast (e AND mask 10)) F_SHARED" "\<not> flags_contains (ucast (e AND mask 10)) F_W"
    using cp by (simp_all add: cow_page_def bit_simps)
  then have "\<not> match_area_perm (ucast (e AND mask 10)) (perm a)"
    using w by (simp add: match_area_perm_def)
  moreover have "pte_ppn e = frame_ppn P i" using cp by (simp add: cow_page_def)
  ultimately show ?thesis using r acc w f by (simp add: area_page_fault_def fault_present_def Let_def)
qed

text \<open>Giving up one of several references.\<close>

lemma decrease_shared:
  assumes ok: "platform_ok P" and mi: "managed P i" and f: "frame_inv P free m" and c: "1 < count_of m (frame_ppn P i)"
    and inv: "pt_inv P m r"
  shows "\<exists>m'. decrease P (frame_ppn P i) m = Some m' \<and> phys m' = phys m \<and> falloc m' = falloc m \<and>
    count_of m' = (count_of m)(frame_ppn P i := count_of m (frame_ppn P i) - 1) \<and>
    is_shared P (frame_ppn P i) m = Some True \<and> is_free P (frame_ppn P i) m' = Some False \<and>
    frame_inv P free m' \<and> pt_inv P m' r"
proof -
  let ?q = "frame_ppn P i"
  obtain t where t: "ref_cnts m = Some t" and fr: "\<forall>i\<in>free (falloc m). managed P i \<and> t (frame_ppn P i) = 0"
    using frame_invE[OF f] by blast
  let ?m = "m\<lparr>ref_cnts := Some (t(?q := t ?q - 1))\<rparr>"
  have gt: "1 < t ?q" using c t by (simp add: count_of_def)
  then have nz: "t ?q \<noteq> 0" "t ?q - 1 \<noteq> 0" by auto
  note ops = ref_cnt_ops[OF ok mi t] and ops' = ref_cnt_ops[OF ok mi, of ?m "t(?q := t ?q - 1)"]
  have d: "decrease P ?q m = Some ?m" using nz by (simp add: decrease_def ops)
  have cf: "count_of ?m = (count_of m)(?q := count_of m ?q - 1)" by (simp add: count_of_fun t)
  have "pt_inv P ?m r"
  proof (rule pt_inv_kept[OF inv])
    show "\<forall>x\<in>user_tables (phys m) r. count_of ?m (page_num x) \<noteq> 0"
      using table_count[OF inv] nz t by (auto simp: cf count_of_def)
  qed auto
  moreover have "frame_inv P free ?m" using fr nz by (auto simp: frame_inv_def)
  moreover have "is_free P ?q ?m = Some False" using ops' nz by (simp add: is_free_def)
  moreover have "is_shared P ?q m = Some True" using ops gt by (simp add: is_shared_def)
  ultimately show ?thesis using d cf by (intro exI[of _ ?m]) simp
qed

lemma fault_vpn: "unat (0x40001 :: usize) < 2 ^ 26"
  by simp

text \<open>A table tree with one copy-on-write page: tables in frames 9, 10, 11 and the data in frame 12,
  which \<open>n\<close> mappings share. \<open>fa\<close> are the free frames.\<close>

definition cow_entry :: u64 where
  "cow_entry = pte_new (frame_addr board 12) (F_V OR F_R OR F_U OR F_SHARED)"

definition leaf_mem :: "u64 \<Rightarrow> usize list \<Rightarrow> u32 \<Rightarrow> usize list kmem" where
  "leaf_mem e fa n = \<lparr>falloc = fa,
     phys = (\<lambda>_ _. 0)(frame_addr board 9 := (\<lambda>_. 0)(1 := pte_new (frame_addr board 10) F_V),
       frame_addr board 10 := (\<lambda>_. 0)(0 := pte_new (frame_addr board 11) F_V),
       frame_addr board 11 := (\<lambda>_. 0)(1 := e), frame_addr board 12 := (\<lambda>_. 0x55)),
     ref_cnts = Some ((\<lambda>_. 0)(frame_ppn board 9 := 1, frame_ppn board 10 := 1, frame_ppn board 11 := 1,
       frame_ppn board 12 := n))\<rparr>"

abbreviation cow_mem :: "usize list \<Rightarrow> u32 \<Rightarrow> usize list kmem" where
  "cow_mem \<equiv> leaf_mem cow_entry"

lemma frame_addr_board:
  "frame_addr board 5 = 0x80005000" "frame_addr board 7 = 0x80007000" "frame_addr board 8 = 0x80008000"
  "frame_addr board 9 = 0x80009000" "frame_addr board 10 = 0x8000a000" "frame_addr board 11 = 0x8000b000"
  "frame_addr board 12 = 0x8000c000"
  by (simp_all add: frame_addr_def board_def)

lemma page_num_board:
  "page_num 0x80005000 = 0x80005" "page_num 0x80007000 = 0x80007" "page_num 0x80008000 = 0x80008"
  "page_num 0x80009000 = 0x80009" "page_num 0x8000a000 = 0x8000a" "page_num 0x8000b000 = 0x8000b"
  "page_num 0x8000c000 = 0x8000c"
  by (simp_all add: page_num_def)

lemma cow_links:
  "sub_table (phys (leaf_mem e fa n)) 0x80009000 i = (if i = 1 then Some 0x8000a000 else None)"
  "sub_table (phys (leaf_mem e fa n)) 0x8000a000 i = (if i = 0 then Some 0x8000b000 else None)"
  using dir_entry[of "0x8000a000"] dir_entry[of "0x8000b000"]
  by (simp_all add: sub_table_def leaf_mem_def frame_addr_board)

lemma cow_walk:
  assumes "upath p"
  shows "walk (phys (leaf_mem e fa n)) 0x80009000 p =
    (if p = [] then Some 0x80009000 else if p = [1] then Some 0x8000a000
     else if p = [1, 0] then Some 0x8000b000 else None)"
  using assms by (cases rule: upath_cases) (auto simp: cow_links)

lemma cow_pt_inv: "pt_inv board (leaf_mem e fa n) (root_paddr empty_pt)"
  unfolding pt_inv_def empty_pt_def
proof (simp only: frame_addr_board PageTable.simps, intro conjI allI impI; (elim conjE)?)
  show "ref_cnts (leaf_mem e fa n) \<noteq> None" by (simp add: leaf_mem_def)
  show "p = q" if "upath p" "upath q" "walk (phys (leaf_mem e fa n)) 0x80009000 p = Some t"
      "walk (phys (leaf_mem e fa n)) 0x80009000 q = Some t" for p q t
    using that by (auto simp: cow_walk split: if_splits)
  show "table_ok board (leaf_mem e fa n) t" if "upath p" "walk (phys (leaf_mem e fa n)) 0x80009000 p = Some t" for p t
  proof -
    have "t \<in> {0x80009000, 0x8000a000, 0x8000b000}" using that by (auto simp: cow_walk split: if_splits)
    then show ?thesis
      using virt_frame_addr[OF board_ok board_managed[of 9]] virt_frame_addr[OF board_ok board_managed[of 10]]
        virt_frame_addr[OF board_ok board_managed[of 11]]
      by (auto simp: table_ok_def count_of_def leaf_mem_def frame_ppn_def frame_addr_board page_num_board)
  qed
  show "\<not> leafy (phys (leaf_mem e fa n) t i)" if "upath (p @ [i])" "walk (phys (leaf_mem e fa n)) 0x80009000 p = Some t"
      "bit (phys (leaf_mem e fa n) t i) 0" for p i t
  proof -
    have "length p \<noteq> 2" using that(1) by (auto simp: upath_def)
    then have "t = 0x80009000 \<or> t = 0x8000a000"
      using that(2) upath_prefix[OF that(1)] by (auto simp: cow_walk split: if_splits)
    then show ?thesis using that(3) dir_entry[of "0x8000a000"] dir_entry[of "0x8000b000"]
      by (auto simp: leaf_mem_def frame_addr_board split: if_splits)
  qed
qed

lemma cow_frame_inv: "set fa \<subseteq> {5, 7, 8} \<Longrightarrow> frame_inv board set (leaf_mem e fa n)"
  using board_managed
  by (auto simp: frame_inv_def leaf_mem_def frame_ppn_def frame_addr_board page_num_board)

lemma cow_entry_bits: "bit cow_entry 0" "bit cow_entry 1" "\<not> bit cow_entry 2" "bit cow_entry 8"
  "pte_ppn cow_entry = frame_ppn board 12"
  by code_simp+

lemma leaf_mem_pte:
  "bit e 0 \<Longrightarrow> get_pte_copied_from_vpn board empty_pt 0x40001 (leaf_mem e fa n) = Some (Some e)"
proof -
  have "p3_index 0x40001000 = 1" "p2_index 0x40001000 = 0" "p1_index 0x40001000 = 1" by code_simp+
  then show "bit e 0 \<Longrightarrow> get_pte_copied_from_vpn board empty_pt 0x40001 (leaf_mem e fa n) = Some (Some e)"
    using get_pte_eq[OF cow_pt_inv, of "0x40001" e fa n]
    by (simp add: leaf_at_def empty_pt_def frame_addr_board cow_links) (simp add: leaf_mem_def frame_addr_board)
qed

lemma cow_page_mem: "cow_page board empty_pt (cow_mem fa n) 0x40001 12 cow_entry"
proof -
  have "frame_addr board 12 \<notin> user_tables (phys (cow_mem fa n)) (root_paddr empty_pt)"
    by (auto simp: user_tables_def empty_pt_def frame_addr_board cow_walk split: if_splits)
  then show ?thesis using cow_entry_bits board_managed[of 12] leaf_mem_pte[of cow_entry] by (simp add: cow_page_def)
qed

lemma cow_count: "count_of (leaf_mem e fa n) (frame_ppn board 12) = n"
  by (simp add: count_of_def leaf_mem_def)

lemma cow_perms: "perm_contains (P_READ OR P_WRITE) P_WRITE" "can_access A_RW (P_READ OR P_WRITE)"
  "phymem_start board \<noteq> 0"
  by code_simp+

lemma neighbour_pte: "get_pte_copied_from_vpn board empty_pt 0x40002 (cow_mem fa n) = Some None"
proof -
  have "p3_index 0x40002000 = 1" "p2_index 0x40002000 = 0" "p1_index 0x40002000 = 2" by code_simp+
  then show ?thesis
    using get_pte_eq[OF cow_pt_inv, of "0x40002" cow_entry fa n]
    by (simp add: leaf_at_def empty_pt_def frame_addr_board cow_links) (simp add: leaf_mem_def frame_addr_board)
qed

section \<open>Properties\<close>





text \<open>
  Copy on write by the last owner: when the count of the frame is one, a write keeps the
  frame. The entry gets the permissions of the segment, and count and contents stay as they are.
\<close>

theorem fault_cow_last_owner:
  assumes "platform_ok P" "bit_alloc_ok B free" "frame_inv P free m" "2 \<le> card (free (falloc m))"
    and "pt_inv P m (root_paddr pt)" "unat vpn < 2 ^ 26" "phymem_start P \<noteq> 0"
    and "cow_page P pt m vpn i e" "count_of m (frame_ppn P i) = 1"
    and "perm_contains (perm a) P_WRITE" "can_access acc (perm a)"
  shows "\<exists>pt' m'. area_page_fault P B gp cur a range_begin vpn acc (pt, m) = Some (Inr (), pt', m') \<and>
    updates_pte P pt m pt' m' vpn (Some (pte_new (frame_addr P i) (F_V OR perm_to_flags (perm a)))) \<and>
    count_of m' (frame_ppn P i) = 1 \<and> phys m' (frame_addr P i) = phys m (frame_addr P i) \<and>
    pt_inv P m' (root_paddr pt') \<and> frame_inv P free m'"
proof -
  have mi: "managed P i" and nt: "frame_addr P i \<notin> user_tables (phys m) (root_paddr pt)"
    using assms(8) by (simp_all add: cow_page_def)
  obtain t where t: "ref_cnts m = Some t" using frame_invE[OF assms(3)] by blast
  then have sh: "is_shared P (frame_ppn P i) m = Some False"
    using assms(9) by (simp add: is_shared_def count_of_def ref_cnt_ops(1)[OF assms(1) mi t])
  have "frame_addr P i \<noteq> 0"
    using phymem_le_frame[OF assms(1) mi] assms(7) by (auto simp: word_le_nat_alt unat_eq_zero)
  then obtain pt' m' where r: "fault_remap P B a vpn (frame_addr P i) (pt, m) = Some (Inr (), pt', m')"
      and post: "updates_pte P pt m pt' m' vpn (Some (pte_new (frame_addr P i) (F_V OR perm_to_flags (perm a))))"
        "pt_inv P m' (root_paddr pt')" "frame_inv P free m'"
      and kp: "\<forall>x. data_page m (root_paddr pt) x \<longrightarrow> keeps_page m m' (root_paddr pt) x"
    using fault_remap_run[OF assms(1-6) valid_frame_addr[OF assms(1) mi], of a] by blast
  have "data_page m (root_paddr pt) (frame_addr P i)" using nt assms(9) by (simp add: data_page_def frame_ppn_def)
  then have "keeps_page m m' (root_paddr pt) (frame_addr P i)" using kp by blast
  moreover have "area_page_fault P B gp cur a range_begin vpn acc (pt, m) = Some (Inr (), pt', m')"
    using r by (simp add: fault_cow_eq[OF assms(5,6,8,10,11)] sh ppn_addr[OF assms(1) mi])
  ultimately show ?thesis using post assms(9)
    by (intro exI[of _ pt'] exI[of _ m']) (simp add: keeps_page_def frame_ppn_def)
qed

theorem fault_cow_last_owner_witness:
  "\<exists>pt' m'. area_page_fault board list_alloc (\<lambda>(_ :: nat) _ _. None) 0
      (new_anonymous (P_READ OR P_WRITE)) 0x40000000 0x40001 A_RW (empty_pt, cow_mem [5, 7] 1) = Some (Inr (), pt', m') \<and>
    count_of m' (frame_ppn board 12) = 1"
proof -
  have "2 \<le> card (set (falloc (cow_mem [5, 7] 1)))" "frame_inv board set (cow_mem [5, 7] 1)"
    by (simp add: leaf_mem_def) (simp add: cow_frame_inv)
  then show ?thesis
    using fault_cow_last_owner[OF board_ok list_alloc_ok _ _ cow_pt_inv fault_vpn _ cow_page_mem,
        of "[5, 7]" 1 "new_anonymous (P_READ OR P_WRITE)" A_RW "\<lambda>(_ :: nat) _ _. None" 0 "0x40000000"] cow_perms
    by (auto simp: new_anonymous_def cow_count)
qed

text \<open>
  (C32) Copy on write without a free frame: the fault is reported as \<open>KernelOOM\<close>, but the count of
  the shared frame has already been lowered while every entry of the user half, the faulting one
  included, still names the frame it named before.
\<close>

theorem fault_cow_oom_leaks:
  assumes "platform_ok P" "bit_alloc_ok B free" "frame_inv P free m" "free (falloc m) = {}"
    and "pt_inv P m cur" "unat vpn < 2 ^ 26" "root_paddr pt = cur"
    and "cow_page P pt m vpn i e" "1 < count_of m (frame_ppn P i)"
    and "perm_contains (perm a) P_WRITE" "can_access acc (perm a)"
  shows "\<exists>m'. area_page_fault P B gp cur a range_begin vpn acc (pt, m) = Some (Inl KernelOOM, pt, m') \<and>
    count_of m' (frame_ppn P i) = count_of m (frame_ppn P i) - 1 \<and>
    (\<forall>n. unat n < 2 ^ 26 \<longrightarrow> get_pte_copied_from_vpn P pt n m' = get_pte_copied_from_vpn P pt n m)"
proof -
  note inv = assms(5)[folded assms(7)]
  have mi: "managed P i" using assms(8) by (simp add: cow_page_def)
  obtain m1 where d: "decrease P (frame_ppn P i) m = Some m1" and ph1: "phys m1 = phys m" and fa1: "falloc m1 = falloc m"
      and c1: "count_of m1 = (count_of m)(frame_ppn P i := count_of m (frame_ppn P i) - 1)"
      and tests: "is_shared P (frame_ppn P i) m = Some True" "is_free P (frame_ppn P i) m1 = Some False"
      and f1: "frame_inv P free m1" and i1: "pt_inv P m1 (root_paddr pt)"
    using decrease_shared[OF assms(1) mi assms(3,9) inv] by blast
  obtain m2 where al: "alloc_frame P B m1 = Some (None, m2)" and rc: "ref_cnts m2 = ref_cnts m1" and ph2: "phys m2 = phys m1"
    using alloc_frame_cases[OF assms(1,2) f1] assms(4) fa1 by auto
  have c2: "count_of m2 = count_of m1" by (simp add: count_of_fun rc)
  have i2: "pt_inv P m2 (root_paddr pt)"
    using pt_inv_kept[OF i1, of m2] table_count[OF i1] i1 by (simp add: ph2 c2 rc pt_inv_def[of P m1])
  have "get_pte_copied_from_vpn P pt n m2 = get_pte_copied_from_vpn P pt n m" if "unat n < 2 ^ 26" for n
    by (rule get_pte_kept[OF inv _ i2 that]) (simp add: ph1 ph2)
  moreover have "area_page_fault P B gp cur a range_begin vpn acc (pt, m) = Some (Inl KernelOOM, pt, m2)"
    by (simp add: fault_cow_eq[OF inv assms(6,8,10,11)] tests d assms(7) al)
  ultimately show ?thesis by (intro exI[of _ m2]) (simp add: c1 c2)
qed

theorem fault_cow_oom_leaks_witness:
  "\<exists>m'. area_page_fault board list_alloc (\<lambda>(_ :: nat) _ _. None) (root_paddr empty_pt)
      (new_anonymous (P_READ OR P_WRITE)) 0x40000000 0x40001 A_RW (empty_pt, cow_mem [] 2) = Some (Inl KernelOOM, empty_pt, m') \<and>
    count_of m' (frame_ppn board 12) = 1 \<and> get_pte_copied_from_vpn board empty_pt 0x40001 m' = Some (Some cow_entry)"
proof -
  have "set (falloc (cow_mem [] 2)) = {}" "frame_inv board set (cow_mem [] 2)"
    by (simp add: leaf_mem_def) (simp add: cow_frame_inv)
  moreover have "get_pte_copied_from_vpn board empty_pt 0x40001 (cow_mem [] 2) = Some (Some cow_entry)"
    using cow_page_mem by (simp add: cow_page_def)
  ultimately show ?thesis
    using fault_cow_oom_leaks[OF board_ok list_alloc_ok _ _ cow_pt_inv fault_vpn refl cow_page_mem,
        of "[]" 2 "new_anonymous (P_READ OR P_WRITE)" A_RW "\<lambda>(_ :: nat) _ _. None" "0x40000000"] cow_perms fault_vpn
    by (auto simp: new_anonymous_def cow_count)
qed

text \<open>
  An entry that lacks a permission of its segment and is not marked copy on write makes the
  handler panic. \<open>remap_range\<close> gives a segment new permissions without touching the entries, so the
  first write after a page was made writable with \<open>mprotect\<close> ends here.
\<close>

theorem fault_upgraded_panics:
  assumes "pt_inv P m (root_paddr pt)" "unat vpn < 2 ^ 26"
    and "get_pte_copied_from_vpn P pt vpn m = Some (Some e)" "\<not> bit e 8" "\<not> bit e 2"
    and "perm_contains (perm a) P_WRITE" "can_access acc (perm a)"
  shows "area_page_fault P B gp cur a range_begin vpn acc (pt, m) = None"
proof -
  obtain r where r: "get_pte_mut_from_vpn P pt vpn m = Some (Some r)" "read_entry r m = e"
    using get_pte_mut_eq(2)[OF assms(1-3)] by auto
  have "\<not> flags_contains (ucast (e AND mask 10)) F_SHARED" "\<not> flags_contains (ucast (e AND mask 10)) F_W"
    using assms(4,5) by (simp_all add: bit_simps)
  then show ?thesis using r assms(6,7) by (simp add: area_page_fault_def fault_present_def match_area_perm_def)
qed

theorem fault_upgraded_panics_witness:
  "let e = pte_new (frame_addr board 12) (F_V OR F_R OR F_U) in
   get_pte_copied_from_vpn board empty_pt 0x40001 (leaf_mem e [] 1) = Some (Some e) \<and>
   area_page_fault board list_alloc (\<lambda>(_ :: nat) _ _. None) 0 (new_anonymous (P_READ OR P_WRITE)) 0x40000000
     0x40001 A_RW (empty_pt, leaf_mem e [] 1) = None"
proof -
  have e: "bit (pte_new (frame_addr board 12) (F_V OR F_R OR F_U)) 0" "\<not> bit (pte_new (frame_addr board 12) (F_V OR F_R OR F_U)) 8"
    "\<not> bit (pte_new (frame_addr board 12) (F_V OR F_R OR F_U)) 2" by code_simp+
  show ?thesis
    using fault_upgraded_panics[OF cow_pt_inv fault_vpn leaf_mem_pte[OF e(1)] e(2,3),
        of "new_anonymous (P_READ OR P_WRITE)" A_RW] cow_perms leaf_mem_pte[OF e(1)]
    by (simp add: new_anonymous_def Let_def)
qed

end
