(* ===== verification/Id_Pool.thy ===== *)
theory Id_Pool
  imports BTree_Map
begin

text \<open>
  \<^verbatim>\<open>tools/handler_pool.rs\<close>: the pool that hands out process ids, file descriptors, ids of shared
  segments and of event listeners. The locale \<open>id_pool\<close> is what the tables built on a pool rely
  on; it is interpreted on \<open>UsizePool\<close>.
\<close>

section \<open>The pool\<close>

text \<open>The vector of returned ids grows and shrinks at its end.\<close>

record UsizePool =
  next_id :: usize
  recycled :: "usize list"

definition pool_new :: "usize \<Rightarrow> UsizePool" where
  "pool_new start = \<lparr>next_id = start, recycled = []\<rparr>"

definition pool_get :: "UsizePool \<Rightarrow> (usize \<times> UsizePool) option" where
  "pool_get p = (case last_of (recycled p) of
     Some pid \<Rightarrow> Some (pid, p\<lparr>recycled := butlast (recycled p)\<rparr>)
   | None \<Rightarrow> do { n \<leftarrow> uadd (next_id p) 1; Some (next_id p, p\<lparr>next_id := n\<rparr>) })"

definition pool_release :: "usize \<Rightarrow> UsizePool \<Rightarrow> UsizePool option" where
  "pool_release pid p = do {
     rassert (pid \<notin> set (recycled p));
     Some (p\<lparr>recycled := recycled p @ [pid]\<rparr>) }"

section \<open>The contract\<close>

text \<open>\<open>inv p live\<close>: in state \<open>p\<close> the ids of \<open>live\<close> are handed out. A fresh id is never a live
  one, and a live id can be returned.\<close>

locale id_pool =
  fixes get :: "'p \<Rightarrow> (usize \<times> 'p) option"
    and release :: "usize \<Rightarrow> 'p \<Rightarrow> 'p option"
    and inv :: "'p \<Rightarrow> usize set \<Rightarrow> bool"
  assumes get_fresh: "inv p live \<Longrightarrow> get p = Some (i, p') \<Longrightarrow> i \<notin> live \<and> inv p' (insert i live)"
    and release_live: "inv p live \<Longrightarrow> i \<in> live \<Longrightarrow> \<exists>p'. release i p = Some p' \<and> inv p' (live - {i})"
begin

text \<open>A table with ids of the pool as keys.\<close>

lemma table_alloc:
  assumes "inv p (fst ` set t)" "get p = Some (i, p')"
  shows "bt_get i t = None" "inv p' (fst ` set (bt_insert i v t))"
  using get_fresh[OF assms] by (simp_all add: bt_get_eq_None fst_set_insert)

lemma table_remove:
  assumes "inv p (fst ` set t)" "bt_get i t = Some v"
  shows "\<exists>p'. release i p = Some p' \<and> inv p' (fst ` set (bt_remove i t))"
proof -
  have "i \<in> fst ` set t" using assms(2) bt_get_eq_None[of i t] by auto
  moreover have "fst ` set (bt_remove i t) = fst ` set t - {i}" by (auto simp: set_bt_remove)
  ultimately show ?thesis using release_live[OF assms(1)] by simp
qed

lemma release_list:
  assumes "inv p live" "distinct is" "set is \<subseteq> live"
  shows "\<exists>p'. foldM release is p = Some p' \<and> inv p' (live - set is)"
  using assms
proof (induction "is" arbitrary: p live)
  case (Cons i "is")
  obtain p1 where p1: "release i p = Some p1" "inv p1 (live - {i})"
    using release_live[OF Cons.prems(1)] Cons.prems(3) by auto
  moreover have "live - {i} - set is = live - set (i # is)" by auto
  ultimately show ?case using Cons.IH[OF p1(2)] Cons.prems(2,3) by (auto simp: subset_Diff_insert)
qed simp

lemma table_release_all:
  assumes "inv p (fst ` set t)" "bt_wf t"
  shows "\<exists>p'. foldM release (map fst t) p = Some p' \<and> inv p' {}"
  using release_list[OF assms(1) bt_wf_distinct[OF assms(2)]] by simp

end

section \<open>The pool keeps the contract\<close>

text \<open>Returned ids are distinct and not live, and every id ever seen is below \<open>next\<close>.\<close>

definition pool_inv :: "UsizePool \<Rightarrow> usize set \<Rightarrow> bool" where
  "pool_inv p live \<longleftrightarrow> distinct (recycled p) \<and> live \<inter> set (recycled p) = {} \<and>
     (\<forall>i\<in>live \<union> set (recycled p). i < next_id p)"

lemma pool_inv_new: "pool_inv (pool_new start) {}"
  by (simp add: pool_inv_def pool_new_def)

lemma pool_get_cases:
  "pool_get p = (if recycled p \<noteq> [] then Some (last (recycled p), p\<lparr>recycled := butlast (recycled p)\<rparr>)
     else if unat (next_id p) + 1 < 2 ^ 64 then Some (next_id p, p\<lparr>next_id := next_id p + 1\<rparr>) else None)"
  by (simp add: pool_get_def last_of_def uadd_def)

lemma next_up:
  "unat (n :: usize) + 1 < 2 ^ 64 \<Longrightarrow> i < n \<Longrightarrow> i < n + 1" "unat (n :: usize) + 1 < 2 ^ 64 \<Longrightarrow> n < n + 1"
  by (simp_all add: word_less_nat_alt unat_word_ariths)

interpretation up: id_pool pool_get pool_release pool_inv
proof
  fix p live i p'
  assume inv: "pool_inv p live" and g: "pool_get p = Some (i, p')"
  show "i \<notin> live \<and> pool_inv p' (insert i live)"
  proof (cases "recycled p = []")
    case True
    then show ?thesis using inv g by (auto simp: pool_get_cases pool_inv_def next_up split: if_splits)
  next
    case False
    then obtain xs x where r: "recycled p = xs @ [x]" by (metis append_butlast_last_id)
    then show ?thesis using inv g by (auto simp: pool_get_cases pool_inv_def)
  qed
next
  fix p live i
  assume "pool_inv p live" "i \<in> live"
  then show "\<exists>p'. pool_release i p = Some p' \<and> pool_inv p' (live - {i})"
    by (auto simp: pool_release_def pool_inv_def)
qed

text \<open>An id that is returned is the next one handed out.\<close>

lemma get_release: "pool_release i p = Some p' \<Longrightarrow> pool_get p' = Some (i, p)"
  by (auto simp: pool_release_def pool_get_cases split: if_splits)

lemma pool_get_total: "unat (next_id p) + 1 < 2 ^ 64 \<Longrightarrow> \<exists>i p'. pool_get p = Some (i, p')"
  by (simp add: pool_get_cases)

end
