(* ===== verification/Tables.thy ===== *)
theory Tables
  imports Id_Pool
begin

text \<open>
  The per-process tables of \<^verbatim>\<open>process/lproc.rs\<close>: file descriptors, shared-memory ids, and the bus
  on which a process waits for events. A file behind a descriptor is an opaque reference of type
  \<open>'f\<close>. An \<open>Arc<FileDescriptor>\<close> is an address in a store of descriptors, since the tables of a
  parent and its child share the descriptors, offsets included.
\<close>

section \<open>File descriptors\<close>

record 'f FileDescriptor =
  fd_file :: 'f
  dents_progress :: usize
  fd_curr :: usize

record 'f fd_store =
  fds :: "nat \<Rightarrow> 'f FileDescriptor"
  fd_fresh :: nat

definition fd_alloc_cell :: "'f FileDescriptor \<Rightarrow> 'f fd_store \<Rightarrow> nat \<times> 'f fd_store" where
  "fd_alloc_cell d st = (fd_fresh st, st\<lparr>fds := (fds st)(fd_fresh st := d), fd_fresh := Suc (fd_fresh st)\<rparr>)"

definition fd_new :: "'f \<Rightarrow> 'f fd_store \<Rightarrow> nat \<times> 'f fd_store" where
  "fd_new f st = fd_alloc_cell \<lparr>fd_file = f, dents_progress = 0, fd_curr = 0\<rparr> st"

definition get_dents_progress :: "nat \<Rightarrow> 'f fd_store \<Rightarrow> usize" where
  "get_dents_progress a st = dents_progress (fds st a)"

definition set_dents_progress :: "nat \<Rightarrow> usize \<Rightarrow> 'f fd_store \<Rightarrow> 'f fd_store" where
  "set_dents_progress a off st = st\<lparr>fds := (fds st)(a := (fds st a)\<lparr>dents_progress := off\<rparr>)\<rparr>"

definition clear_dents_progress :: "nat \<Rightarrow> 'f fd_store \<Rightarrow> 'f fd_store" where
  "clear_dents_progress a st = set_dents_progress a 0 st"

definition get_curr :: "nat \<Rightarrow> 'f fd_store \<Rightarrow> usize" where
  "get_curr a st = fd_curr (fds st a)"

text \<open>\<open>fetch_add\<close> wraps.\<close>

definition add_curr :: "nat \<Rightarrow> usize \<Rightarrow> 'f fd_store \<Rightarrow> 'f fd_store" where
  "add_curr a off st = st\<lparr>fds := (fds st)(a := (fds st a)\<lparr>fd_curr := fd_curr (fds st a) + off\<rparr>)\<rparr>"

definition set_curr :: "nat \<Rightarrow> usize \<Rightarrow> 'f fd_store \<Rightarrow> 'f fd_store" where
  "set_curr a off st = st\<lparr>fds := (fds st)(a := (fds st a)\<lparr>fd_curr := off\<rparr>)\<rparr>"

definition fd_clone :: "'f FileDescriptor \<Rightarrow> 'f FileDescriptor" where
  "fd_clone d = \<lparr>fd_file = fd_file d, dents_progress = dents_progress d, fd_curr = fd_curr d\<rparr>"

section \<open>The descriptor table\<close>

record FdTable =
  fd_pool :: UsizePool
  fd_table :: "(usize, nat) btree"
  fd_limit :: usize

datatype NewFdRequirement = Exactly usize | GreaterThan usize | NoRequirement

definition fdt_new_empty :: FdTable where
  "fdt_new_empty = \<lparr>fd_pool = pool_new 3, fd_table = [], fd_limit = 512\<rparr>"

text \<open>\<open>std\<close> are the three standard files.\<close>

definition add_std :: "'f \<times> 'f \<times> 'f \<Rightarrow> FdTable \<times> 'f fd_store \<Rightarrow> (FdTable \<times> 'f fd_store) option" where
  "add_std std s = (case s of (t, st) \<Rightarrow> do {
     rassert (bt_get 0 (fd_table t) = None);
     rassert (bt_get 1 (fd_table t) = None);
     rassert (bt_get 2 (fd_table t) = None);
     let (a0, st) = fd_new (fst std) st;
     let (a1, st) = fd_new (fst (snd std)) st;
     let (a2, st) = fd_new (snd (snd std)) st;
     Some (t\<lparr>fd_table := bt_insert 2 a2 (bt_insert 1 a1 (bt_insert 0 a0 (fd_table t)))\<rparr>, st) })"

definition new_with_std :: "'f \<times> 'f \<times> 'f \<Rightarrow> 'f fd_store \<Rightarrow> (FdTable \<times> 'f fd_store) option" where
  "new_with_std std st = add_std std (fdt_new_empty, st)"

definition fdt_clone :: "FdTable \<Rightarrow> FdTable" where
  "fdt_clone t = \<lparr>fd_pool = fd_pool t, fd_table = fd_table t, fd_limit = fd_limit t\<rparr>"

definition set_limit :: "usize \<Rightarrow> FdTable \<Rightarrow> FdTable" where
  "set_limit n t = t\<lparr>fd_limit := n\<rparr>"

definition check_whether_alloc_will_exceeded_limit :: "FdTable \<Rightarrow> unit SysResult" where
  "check_whether_alloc_will_exceeded_limit t =
     (if length (fd_table t) \<ge> unat (fd_limit t) then Inl EMFILE else Inr ())"

type_synonym 'f fd_result = "((usize SysResult) \<times> FdTable \<times> 'f fd_store) option"

definition fdt_alloc :: "'f \<Rightarrow> FdTable \<times> 'f fd_store \<Rightarrow> 'f fd_result" where
  "fdt_alloc f s = (case s of (t, st) \<Rightarrow>
     case check_whether_alloc_will_exceeded_limit t of
       Inl e \<Rightarrow> Some (Inl e, t, st)
     | Inr _ \<Rightarrow> do {
         (fd, p) \<leftarrow> pool_get (fd_pool t);
         let (a, st) = fd_new f st;
         Some (Inr fd, t\<lparr>fd_pool := p, fd_table := bt_insert fd a (fd_table t)\<rparr>, st) })"

text \<open>The loop of \<open>dup\<close> for \<open>GreaterThan\<close>: ids below the bound are set aside.\<close>

function skip_fds :: "usize \<Rightarrow> UsizePool \<Rightarrow> usize list \<Rightarrow> (usize \<times> usize list \<times> UsizePool) option" where
  "skip_fds lower p skipped = (case pool_get p of
     None \<Rightarrow> None
   | Some (fd, p) \<Rightarrow> if fd \<ge> lower then Some (fd, skipped, p) else skip_fds lower p (skipped @ [fd]))"
  by pat_completeness auto
termination
proof (relation "measure (\<lambda>(lower, p, skipped). length (recycled p) + (2 ^ 64 - unat (next_id p)))", goal_cases)
  case (2 lower p skipped z fd p')
  then have g: "pool_get p = Some (fd, p')" by simp
  have lt: "unat (next_id p) < 2 ^ 64" using unat_lt2p[of "next_id p"] by simp
  show ?case
  proof (cases "recycled p")
    case Nil
    then show ?thesis using g lt by (auto simp: pool_get_cases unat_word_ariths split: if_splits)
  next
    case (Cons x xs)
    then have "p' = p\<lparr>recycled := butlast (recycled p)\<rparr>" using g by (simp add: pool_get_cases)
    then show ?thesis using Cons lt by simp
  qed
qed simp

definition dup_number :: "NewFdRequirement \<Rightarrow> UsizePool \<Rightarrow> (usize \<times> UsizePool) option" where
  "dup_number req p = (case req of
     Exactly new_fd \<Rightarrow> Some (new_fd, p)
   | GreaterThan lower \<Rightarrow> do {
       (fd, skipped, p) \<leftarrow> skip_fds lower p [];
       p \<leftarrow> foldM pool_release skipped p;
       Some (fd, p) }
   | NoRequirement \<Rightarrow> pool_get p)"

definition fdt_dup :: "NewFdRequirement \<Rightarrow> nat \<Rightarrow> FdTable \<times> 'f fd_store \<Rightarrow> 'f fd_result" where
  "fdt_dup req old_fd s = (case s of (t, st) \<Rightarrow>
     let present = (case req of Exactly n \<Rightarrow> bt_get n (fd_table t) \<noteq> None | _ \<Rightarrow> False) in
     case (if present then Inr () else check_whether_alloc_will_exceeded_limit t) of
       Inl e \<Rightarrow> Some (Inl e, t, st)
     | Inr _ \<Rightarrow> do {
         (new_fd_no, p) \<leftarrow> dup_number req (fd_pool t);
         let (a, st) = fd_alloc_cell (fd_clone (fds st old_fd)) st;
         Some (Inr new_fd_no, t\<lparr>fd_pool := p, fd_table := bt_insert new_fd_no a (fd_table t)\<rparr>, st) })"

definition fdt_remove :: "usize \<Rightarrow> FdTable \<Rightarrow> (nat option \<times> FdTable) option" where
  "fdt_remove fd t = (case bt_get fd (fd_table t) of
     None \<Rightarrow> Some (None, t)
   | Some a \<Rightarrow> do {
       p \<leftarrow> pool_release fd (fd_pool t);
       Some (Some a, t\<lparr>fd_pool := p, fd_table := bt_remove fd (fd_table t)\<rparr>) })"

definition fdt_get :: "usize \<Rightarrow> FdTable \<Rightarrow> nat option" where
  "fdt_get fd t = bt_get fd (fd_table t)"

definition fdt_release_all :: "FdTable \<Rightarrow> FdTable option" where
  "fdt_release_all t = do {
     p \<leftarrow> foldM pool_release (map fst (fd_table t)) (fd_pool t);
     Some (t\<lparr>fd_pool := p, fd_table := []\<rparr>) }"

section \<open>The table of shared segments\<close>

text \<open>An \<open>Arc<Shm>\<close> is the number of the segment.\<close>

record ShmTable =
  shm_pool :: UsizePool
  shm_table :: "(usize, nat) btree"

definition shmt_new_empty :: ShmTable where
  "shmt_new_empty = \<lparr>shm_pool = pool_new 0, shm_table = []\<rparr>"

definition shmt_alloc :: "nat \<Rightarrow> ShmTable \<Rightarrow> (usize \<times> ShmTable) option" where
  "shmt_alloc shm t = do {
     (i, p) \<leftarrow> pool_get (shm_pool t);
     Some (i, t\<lparr>shm_pool := p, shm_table := bt_insert i shm (shm_table t)\<rparr>) }"

definition shmt_get :: "usize \<Rightarrow> ShmTable \<Rightarrow> nat option" where
  "shmt_get i t = bt_get i (shm_table t)"

definition shmt_remove :: "usize \<Rightarrow> ShmTable \<Rightarrow> (nat option \<times> ShmTable) option" where
  "shmt_remove i t = (case bt_get i (shm_table t) of
     None \<Rightarrow> Some (None, t)
   | Some shm \<Rightarrow> do {
       p \<leftarrow> pool_release i (shm_pool t);
       Some (Some shm, t\<lparr>shm_pool := p, shm_table := bt_remove i (shm_table t)\<rparr>) })"

definition shmt_release_all :: "ShmTable \<Rightarrow> ShmTable option" where
  "shmt_release_all t = do {
     p \<leftarrow> foldM pool_release (map fst (shm_table t)) (shm_pool t);
     Some (t\<lparr>shm_pool := p, shm_table := []\<rparr>) }"

section \<open>The event bus\<close>

type_synonym EventKind = u32

definition Ev_Signal :: EventKind where "Ev_Signal = push_bit 0 1"

definition ev_contains :: "EventKind \<Rightarrow> EventKind \<Rightarrow> bool" where
  "ev_contains k e \<longleftrightarrow> k AND e = e"

text \<open>A waker is a token of type \<open>'w\<close>; waking is an output of the operation.\<close>

record 'w EventNode =
  ev_id :: usize
  listen_for :: EventKind
  waker :: 'w

record 'w EventBus =
  events :: "'w EventNode list"
  ev_pool :: UsizePool

definition bus_new :: "'w EventBus" where
  "bus_new = \<lparr>events = [], ev_pool = pool_new 0\<rparr>"

definition bus_register :: "EventKind \<Rightarrow> 'w \<Rightarrow> 'w EventBus \<Rightarrow> (usize \<times> 'w EventBus) option" where
  "bus_register k w b = do {
     (i, p) \<leftarrow> pool_get (ev_pool b);
     Some (i, \<lparr>events = events b @ [\<lparr>ev_id = i, listen_for = k, waker = w\<rparr>], ev_pool = p\<rparr>) }"

text \<open>\<open>retain\<close> visits the nodes in order and returns the ids of the dropped ones to the pool.\<close>

definition bus_drop :: "('w EventNode \<Rightarrow> bool) \<Rightarrow> 'w EventBus \<Rightarrow> 'w EventBus option" where
  "bus_drop hit b = do {
     p \<leftarrow> foldM pool_release (map ev_id (filter hit (events b))) (ev_pool b);
     Some \<lparr>events = filter (\<lambda>n. \<not> hit n) (events b), ev_pool = p\<rparr> }"

definition bus_notify :: "EventKind \<Rightarrow> 'w EventBus \<Rightarrow> ('w list \<times> 'w EventBus) option" where
  "bus_notify e b = do {
     b' \<leftarrow> bus_drop (\<lambda>n. ev_contains (listen_for n) e) b;
     Some (map waker (filter (\<lambda>n. ev_contains (listen_for n) e) (events b)), b') }"

definition bus_remove :: "usize \<Rightarrow> 'w EventBus \<Rightarrow> 'w EventBus option" where
  "bus_remove i b = bus_drop (\<lambda>n. ev_id n = i) b"

text \<open>The future that waits on the bus: registered on the first poll, ready on the second.\<close>

record 'w EventBusWaitForFuture =
  fut_waker :: 'w
  event_id :: "usize option"
  fut_listen_for :: EventKind

definition wait_for_event :: "EventKind \<Rightarrow> 'w \<Rightarrow> 'w EventBusWaitForFuture" where
  "wait_for_event k w = \<lparr>fut_waker = w, event_id = None, fut_listen_for = k\<rparr>"

definition wait_poll ::
  "'w EventBusWaitForFuture \<Rightarrow> 'w EventBus \<Rightarrow> (bool \<times> 'w EventBusWaitForFuture \<times> 'w EventBus) option" where
  "wait_poll f b = (case event_id f of
     None \<Rightarrow> do {
       (i, b) \<leftarrow> bus_register (fut_listen_for f) (fut_waker f) b;
       Some (False, f\<lparr>event_id := Some i\<rparr>, b) }
   | Some _ \<Rightarrow> Some (True, f, b))"

definition wait_drop :: "'w EventBusWaitForFuture \<Rightarrow> 'w EventBus \<Rightarrow> 'w EventBus option" where
  "wait_drop f b = (case event_id f of Some i \<Rightarrow> bus_remove i b | None \<Rightarrow> Some b)"

end
