(* ===== verification/Tables_Laws.thy ===== *)
theory Tables_Laws
  imports Tables
begin

text \<open>
  The tables of a process keep their ids apart: what an allocation, a duplication and a removal do
  to the table seen as a map, and where the table and its pool can get out of step.
\<close>

declare skip_fds.simps [simp del]

section \<open>Invariant\<close>

lemma fd_clone_id [simp]: "fd_clone d = d"
  by (simp add: fd_clone_def)

text \<open>The pool has handed out the numbers in the table, and the cells of the table exist.\<close>

definition fd_inv :: "FdTable \<Rightarrow> 'f fd_store \<Rightarrow> bool" where
  "fd_inv t st \<longleftrightarrow> bt_wf (fd_table t) \<and> pool_inv (fd_pool t) (fst ` set (fd_table t)) \<and>
     (\<forall>e\<in>set (fd_table t). snd e < fd_fresh st)"

text \<open>The descriptor behind a number, as a client sees it.\<close>

definition fd_view :: "FdTable \<Rightarrow> 'f fd_store \<Rightarrow> usize \<Rightarrow> 'f FileDescriptor option" where
  "fd_view t st fd = map_option (fds st) (fdt_get fd t)"

lemma fd_inv_empty: "fd_inv fdt_new_empty st"
  by (simp add: fd_inv_def fdt_new_empty_def pool_inv_def pool_new_def)

lemma fd_cell_lt: "fd_inv t st \<Longrightarrow> fdt_get fd t = Some a \<Longrightarrow> a < fd_fresh st"
  by (auto simp: fd_inv_def fdt_get_def bt_get_eq_Some)

text \<open>A number that the pool has not handed out goes into the table with a new cell.\<close>

lemma fd_insert:
  assumes "fd_inv t st" "pool_inv p (insert n (fst ` set (fd_table t)))" "fd_alloc_cell d st = (a, st')"
    and "t' = t\<lparr>fd_pool := p, fd_table := bt_insert n a (fd_table t)\<rparr>"
  shows "fd_inv t' st'" "fd_view t' st' = (fd_view t st)(n := Some d)"
proof -
  have a: "a = fd_fresh st" "st' = st\<lparr>fds := (fds st)(a := d), fd_fresh := Suc a\<rparr>"
    using assms(3) by (auto simp: fd_alloc_cell_def)
  have "bt_wf (fd_table t')" "pool_inv (fd_pool t') (fst ` set (fd_table t'))"
    using assms(1,2) by (simp_all add: fd_inv_def assms(4) fst_set_insert)
  moreover have "\<forall>e\<in>set (fd_table t'). snd e < fd_fresh st'"
    using assms(1) by (auto simp: fd_inv_def assms(4) a set_bt_insert less_Suc_eq)
  ultimately show "fd_inv t' st'" by (simp add: fd_inv_def)
  have "fdt_get x t \<noteq> Some a" for x using fd_cell_lt[OF assms(1), of x a] a(1) by auto
  then show "fd_view t' st' = (fd_view t st)(n := Some d)"
    by (auto simp: fd_view_def fdt_get_def assms(4) a(2) bt_get_insert fun_eq_iff split: option.splits intro!: option.map_cong)
qed

lemma view_None: "fd_view t st n = None \<longleftrightarrow> n \<notin> fst ` set (fd_table t)"
  by (simp add: fd_view_def fdt_get_def bt_get_eq_None)

lemma fd_inv_pool: "fd_inv t st \<Longrightarrow> pool_inv (fd_pool t) (fst ` set (fd_table t))"
  by (simp add: fd_inv_def)

section \<open>The loop of \<open>dup\<close>\<close>

lemma skip_fds_total:
  assumes "unat (next_id p) + 1 < 2 ^ 64" "unat lower + 1 < 2 ^ 64"
  shows "\<exists>r. skip_fds lower p skipped = Some r"
  using assms
proof (induction lower p skipped rule: skip_fds.induct)
  case (1 lower p skipped)
  obtain fd p' where g: "pool_get p = Some (fd, p')" using pool_get_total[OF 1(2)] by blast
  show ?case
  proof (cases "lower \<le> fd")
    case False
    have "unat (next_id p') + 1 < 2 ^ 64"
    proof (cases "recycled p = []")
      case True
      then have "fd = next_id p" "p' = p\<lparr>next_id := next_id p + 1\<rparr>" using g by (auto simp: pool_get_cases split: if_splits)
      then show ?thesis using False 1(2,3) by (simp add: word_le_nat_alt unat_word_ariths)
    qed (use g 1(2) in \<open>auto simp: pool_get_cases\<close>)
    then show ?thesis using 1(1)[OF g refl False _ 1(3)] g False by (simp add: skip_fds.simps[of lower p])
  qed (simp add: skip_fds.simps g)
qed

lemma skip_fds_inv:
  assumes "skip_fds lower p skipped = Some (fd, skipped', p')"
    and "pool_inv p (live \<union> set skipped)" "distinct skipped" "live \<inter> set skipped = {}"
  shows "lower \<le> fd \<and> fd \<notin> live \<union> set skipped' \<and> distinct skipped' \<and> live \<inter> set skipped' = {} \<and>
    pool_inv p' (insert fd (live \<union> set skipped'))"
  using assms
proof (induction lower p skipped rule: skip_fds.induct)
  case (1 lower p skipped)
  obtain i q where g: "pool_get p = Some (i, q)" using 1(2) by (auto simp: skip_fds.simps split: option.splits)
  note fr = up.get_fresh[OF 1(3) g]
  show ?case
  proof (cases "lower \<le> i")
    case True
    then show ?thesis using 1(2,4,5) fr g by (auto simp: skip_fds.simps)
  next
    case False
    have r: "skip_fds lower q (skipped @ [i]) = Some (fd, skipped', p')" using 1(2) g False by (simp add: skip_fds.simps[of lower p])
    have s: "live \<union> set (skipped @ [i]) = insert i (live \<union> set skipped)" by auto
    have d: "distinct (skipped @ [i])" "live \<inter> set (skipped @ [i]) = {}" using 1(4,5) fr by auto
    have pi: "pool_inv q (live \<union> set (skipped @ [i]))" using fr unfolding s by blast
    show ?thesis by (rule 1(1)[OF g refl False r pi d])
  qed
qed

lemma dup_number_inv:
  assumes inv: "pool_inv p live" and r: "dup_number req p = Some (n, p')"
    and ex: "\<forall>k. req = Exactly k \<longrightarrow> k \<in> live"
  shows "pool_inv p' (insert n live)" "\<forall>k. req \<noteq> Exactly k \<Longrightarrow> n \<notin> live" "\<forall>k. req = GreaterThan k \<longrightarrow> k \<le> n"
    "\<forall>k. req = Exactly k \<longrightarrow> n = k"
proof -
  show "\<forall>k. req = Exactly k \<longrightarrow> n = k" using r by (auto simp: dup_number_def)
  have *: "pool_inv p' (insert n live) \<and> ((\<forall>k. req \<noteq> Exactly k) \<longrightarrow> n \<notin> live) \<and> (\<forall>k. req = GreaterThan k \<longrightarrow> k \<le> n)"
  proof (cases req)
    case (Exactly k)
    then show ?thesis using inv r ex by (auto simp: dup_number_def insert_absorb)
  next
    case (GreaterThan k)
    then obtain sk q where s: "skip_fds k p [] = Some (n, sk, q)" and f: "foldM pool_release sk q = Some p'"
      using r by (auto simp: dup_number_def bind_eq_Some_conv)
    have i: "k \<le> n" "n \<notin> live \<union> set sk" "distinct sk" "live \<inter> set sk = {}" "pool_inv q (insert n (live \<union> set sk))"
      using skip_fds_inv[OF s, of live] inv by auto
    obtain q' where "foldM pool_release sk q = Some q'" "pool_inv q' (insert n (live \<union> set sk) - set sk)"
      using up.release_list[OF i(5,3)] by auto
    moreover have "insert n (live \<union> set sk) - set sk = insert n live" using i by auto
    ultimately show ?thesis using f i GreaterThan by simp
  next
    case NoRequirement
    then show ?thesis using up.get_fresh[OF inv] r by (simp add: dup_number_def)
  qed
  then show "pool_inv p' (insert n live)" "\<forall>k. req \<noteq> Exactly k \<Longrightarrow> n \<notin> live" "\<forall>k. req = GreaterThan k \<longrightarrow> k \<le> n" by auto
qed

lemma dup_number_total:
  assumes "pool_inv p live" "unat (next_id p) + 1 < 2 ^ 64" "\<forall>k. req = GreaterThan k \<longrightarrow> unat k + 1 < 2 ^ 64"
  shows "\<exists>n p'. dup_number req p = Some (n, p')"
proof (cases req)
  case (GreaterThan k)
  then obtain fd sk q where s: "skip_fds k p [] = Some (fd, sk, q)" using skip_fds_total[OF assms(2), of k "[]"] assms(3) by auto
  have i: "distinct sk" "pool_inv q (insert fd (live \<union> set sk))" using skip_fds_inv[OF s, of live] assms(1) by auto
  have "set sk \<subseteq> insert fd (live \<union> set sk)" by auto
  from up.release_list[OF i(2,1) this] show ?thesis using s GreaterThan by (auto simp: dup_number_def)
qed (use pool_get_total[OF assms(2)] in \<open>auto simp: dup_number_def\<close>)

section \<open>A table to try them on\<close>

definition std_store :: "nat fd_store" where
  "std_store = \<lparr>fds = (\<lambda>a. \<lparr>fd_file = a, dents_progress = 0, fd_curr = 0\<rparr>), fd_fresh = 3\<rparr>"

definition std_table :: FdTable where
  "std_table = \<lparr>fd_pool = pool_new 3, fd_table = [(0, 0), (1, 1), (2, 2)], fd_limit = 512\<rparr>"

lemma std_inv: "fd_inv std_table std_store"
  by (simp add: fd_inv_def std_table_def std_store_def pool_inv_def pool_new_def bt_wf_def)

lemma std_limits: "unat (next_id (fd_pool std_table)) + 1 < 2 ^ 64" "length (fd_table std_table) < unat (fd_limit std_table)"
  "fdt_get 1 std_table = Some 1"
  by (simp_all add: std_table_def pool_new_def fdt_get_def bt_get_def)

section \<open>Properties\<close>

text \<open>
  Opening a descriptor: \<open>FdTable::alloc\<close> reports \<open>EMFILE\<close> and changes nothing when the table
  is full; otherwise it returns a number that was not in use and enters a descriptor with offset
  zero there, every other number keeping its descriptor. The invariant of the table is kept.
\<close>

theorem fd_alloc_spec:
  assumes "fd_inv t st" "unat (next_id (fd_pool t)) + 1 < 2 ^ 64"
  shows "if unat (fd_limit t) \<le> length (fd_table t) then fdt_alloc f (t, st) = Some (Inl EMFILE, t, st)
    else \<exists>fd t' st'. fdt_alloc f (t, st) = Some (Inr fd, t', st') \<and> fd_inv t' st' \<and> fd_view t st fd = None \<and>
      fd_view t' st' = (fd_view t st)(fd := Some \<lparr>fd_file = f, dents_progress = 0, fd_curr = 0\<rparr>)"
proof (cases "unat (fd_limit t) \<le> length (fd_table t)")
  case False
  obtain fd p where g: "pool_get (fd_pool t) = Some (fd, p)" using pool_get_total[OF assms(2)] by blast
  obtain a st' where c: "fd_alloc_cell \<lparr>fd_file = f, dents_progress = 0, fd_curr = 0\<rparr> st = (a, st')" by fastforce
  note fr = up.get_fresh[OF fd_inv_pool[OF assms(1)] g]
  show ?thesis
    using False fd_insert[OF assms(1) conjunct2[OF fr] c refl] fr g c
    by (simp add: fdt_alloc_def check_whether_alloc_will_exceeded_limit_def fd_new_def view_None)
qed (simp add: fdt_alloc_def check_whether_alloc_will_exceeded_limit_def)

theorem fd_alloc_spec_witness:
  "\<exists>fd t' st'. fdt_alloc 9 (std_table, std_store) = Some (Inr fd, t', st') \<and> fd_view std_table std_store fd = None \<and>
     fd_view t' st' fd = Some \<lparr>fd_file = 9, dents_progress = 0, fd_curr = 0\<rparr>"
proof -
  have "\<not> unat (fd_limit std_table) \<le> length (fd_table std_table)" using std_limits(2) by simp
  then show ?thesis using fd_alloc_spec[OF std_inv std_limits(1), of 9] by auto
qed



text \<open>
  Closing and reopening: removing a descriptor that is in the table succeeds, the number shows
  nothing afterwards and the other numbers are as before, and the next allocation, if the table is
  not full, returns this number again.
\<close>

theorem fd_remove_spec:
  assumes "fd_inv t st" "fdt_get fd t = Some a" "length (fd_table t) \<le> unat (fd_limit t)"
  shows "\<exists>t'. fdt_remove fd t = Some (Some a, t') \<and> fd_inv t' st \<and> fd_view t' st = (fd_view t st)(fd := None) \<and>
    (\<exists>t'' st''. fdt_alloc f (t', st) = Some (Inr fd, t'', st''))"
proof -
  have g: "bt_get fd (fd_table t) = Some a" using assms(2) by (simp add: fdt_get_def)
  obtain p where r: "pool_release fd (fd_pool t) = Some p" and pi: "pool_inv p (fst ` set (bt_remove fd (fd_table t)))"
    using up.table_remove[OF fd_inv_pool[OF assms(1)] g] by blast
  let ?t = "t\<lparr>fd_pool := p, fd_table := bt_remove fd (fd_table t)\<rparr>"
  have "(fd, a) \<in> set (fd_table t)" using assms(1) g by (simp add: fd_inv_def bt_get_eq_Some)
  then have "length (bt_remove fd (fd_table t)) < length (fd_table t)"
    by (auto simp: bt_remove_def intro: length_filter_less)
  then have "\<exists>t'' st''. fdt_alloc f (?t, st) = Some (Inr fd, t'', st'')"
    using assms(3) get_release[OF r]
    by (simp add: fdt_alloc_def check_whether_alloc_will_exceeded_limit_def fd_new_def fd_alloc_cell_def)
  moreover have "fd_inv ?t st" using assms(1) pi by (auto simp: fd_inv_def set_bt_remove)
  moreover have "fd_view ?t st = (fd_view t st)(fd := None)" by (auto simp: fd_view_def fdt_get_def bt_get_remove)
  ultimately show ?thesis using g r by (auto simp: fdt_remove_def)
qed

theorem fd_remove_spec_witness:
  "\<exists>t'. fdt_remove 1 std_table = Some (Some 1, t') \<and> fd_view t' std_store 1 = None \<and>
     (\<exists>t'' st''. fdt_alloc (9 :: nat) (t', std_store) = Some (Inr 1, t'', st''))"
  using fd_remove_spec[OF std_inv std_limits(3), of 9] std_limits(2) by auto

text \<open>
  \<open>dup\<close> to a number of the caller's choice does not tell the pool. When the pool will hand out
  that number next, opening another file returns it a second time and replaces the duplicate: the
  descriptor of the first file is lost without having been closed.
\<close>

theorem fd_dup_exactly_clobbered:
  assumes "recycled (fd_pool t) = []" "unat (next_id (fd_pool t)) + 1 < 2 ^ 64"
    and "length (bt_insert (next_id (fd_pool t)) a (fd_table t)) < unat (fd_limit t)"
    and "fdt_dup (Exactly (next_id (fd_pool t))) old (t, st) = Some (Inr n, t1, st1)"
    and "a = fd_fresh st"
  shows "fd_view t1 st1 n = Some (fds st old) \<and>
    (\<exists>t2 st2. fdt_alloc f (t1, st1) = Some (Inr n, t2, st2) \<and>
       fd_view t2 st2 n = Some \<lparr>fd_file = f, dents_progress = 0, fd_curr = 0\<rparr>)"
proof -
  have r: "n = next_id (fd_pool t)" "t1 = t\<lparr>fd_table := bt_insert n a (fd_table t)\<rparr>"
    "st1 = st\<lparr>fds := (fds st)(a := fds st old), fd_fresh := Suc a\<rparr>"
    using assms(4,5) by (auto simp: fdt_dup_def dup_number_def fd_alloc_cell_def Let_def
        split: if_splits sum.splits)
  have "fd_view t1 st1 n = Some (fds st old)" by (simp add: fd_view_def fdt_get_def r(2,3) bt_get_insert)
  moreover have "\<exists>t2 st2. fdt_alloc f (t1, st1) = Some (Inr n, t2, st2) \<and>
      fd_view t2 st2 n = Some \<lparr>fd_file = f, dents_progress = 0, fd_curr = 0\<rparr>"
    using assms(1-3) by (simp add: fdt_alloc_def check_whether_alloc_will_exceeded_limit_def r pool_get_cases
        fd_new_def fd_alloc_cell_def fd_view_def fdt_get_def bt_get_insert)
  ultimately show ?thesis ..
qed

theorem fd_dup_exactly_clobbered_witness:
  "\<exists>t1 st1 t2 st2. fdt_dup (Exactly 3) 1 (std_table, std_store) = Some (Inr 3, t1, st1) \<and>
     fd_view t1 st1 3 = Some (fds std_store 1) \<and> fdt_alloc 9 (t1, st1) = Some (Inr 3, t2, st2) \<and>
     fd_view t2 st2 3 = Some \<lparr>fd_file = 9, dents_progress = 0, fd_curr = 0\<rparr>"
proof -
  have n: "next_id (fd_pool std_table) = 3" "recycled (fd_pool std_table) = []"
    by (simp_all add: std_table_def pool_new_def)
  have l: "length (bt_insert (next_id (fd_pool std_table)) (fd_fresh std_store) (fd_table std_table)) < unat (fd_limit std_table)"
    by (simp add: std_table_def pool_new_def)
  obtain t1 st1 where d: "fdt_dup (Exactly 3) 1 (std_table, std_store) = Some (Inr 3, t1, st1)"
    by (simp add: fdt_dup_def check_whether_alloc_will_exceeded_limit_def dup_number_def fd_alloc_cell_def
        std_table_def bt_get_def Let_def)
  then show ?thesis
    using fd_dup_exactly_clobbered[OF n(2) std_limits(1) l, of 1 std_store 3 t1 st1 9] n(1) by auto
qed

section \<open>The event bus\<close>

definition bus_inv :: "'w EventBus \<Rightarrow> bool" where
  "bus_inv b \<longleftrightarrow> distinct (map ev_id (events b)) \<and> pool_inv (ev_pool b) (ev_id ` set (events b))"

lemma bus_inv_new: "bus_inv bus_new"
  by (simp add: bus_inv_def bus_new_def pool_inv_new)

lemma bus_register_inv:
  assumes "bus_inv b" "bus_register k w b = Some (i, b')"
  shows "bus_inv b'" "i \<notin> ev_id ` set (events b)" "events b' = events b @ [\<lparr>ev_id = i, listen_for = k, waker = w\<rparr>]"
proof -
  obtain p where g: "pool_get (ev_pool b) = Some (i, p)" and b': "b' = \<lparr>events = events b @ [\<lparr>ev_id = i, listen_for = k, waker = w\<rparr>], ev_pool = p\<rparr>"
    using assms(2) by (auto simp: bus_register_def bind_eq_Some_conv)
  have "pool_inv (ev_pool b) (ev_id ` set (events b))" using assms(1) by (simp add: bus_inv_def)
  from up.get_fresh[OF this g] show "bus_inv b'" "i \<notin> ev_id ` set (events b)"
    "events b' = events b @ [\<lparr>ev_id = i, listen_for = k, waker = w\<rparr>]"
    using assms(1) by (auto simp: bus_inv_def b')
qed

lemma bus_drop_inv:
  assumes "bus_inv b"
  shows "\<exists>b'. bus_drop hit b = Some b' \<and> bus_inv b' \<and> events b' = filter (\<lambda>n. \<not> hit n) (events b)"
proof -
  have inj: "inj_on ev_id (set (events b))" and d: "distinct (events b)"
    using assms by (auto simp: bus_inv_def distinct_map)
  let ?d = "map ev_id (filter hit (events b))"
  have "pool_inv (ev_pool b) (ev_id ` set (events b))" using assms by (simp add: bus_inv_def)
  moreover have "distinct ?d" using inj d by (auto simp: distinct_map intro: inj_on_subset)
  ultimately obtain p where p: "foldM pool_release ?d (ev_pool b) = Some p"
      "pool_inv p (ev_id ` set (events b) - set ?d)"
    using up.release_list[of "ev_pool b" _ ?d] by auto
  have "ev_id ` set (events b) - set ?d = ev_id ` set (filter (\<lambda>n. \<not> hit n) (events b))"
    using inj by (auto dest: inj_onD)
  then show ?thesis using p inj d by (auto simp: bus_drop_def bus_inv_def distinct_map intro: inj_on_subset)
qed

definition one_listener :: "nat EventBus" where
  "one_listener = \<lparr>events = [\<lparr>ev_id = 0, listen_for = Ev_Signal, waker = 7\<rparr>], ev_pool = \<lparr>next_id = 1, recycled = []\<rparr>\<rparr>"

lemma one_listener_inv: "bus_inv one_listener"
  by (simp add: bus_inv_def one_listener_def pool_inv_def)

lemma Ev_Signal_contains [simp]: "ev_contains Ev_Signal Ev_Signal"
  by (simp add: ev_contains_def)

text \<open>Any sequence of operations on the bus, with the wakers it wakes in order.\<close>

datatype 'w bus_op = Bus_Register EventKind 'w | Bus_Notify EventKind | Bus_Remove usize

fun bus_run :: "'w bus_op list \<Rightarrow> 'w EventBus \<Rightarrow> ('w list \<times> 'w EventBus) option" where
  "bus_run [] b = Some ([], b)"
| "bus_run (Bus_Register k w # ops) b = do { (_, b) \<leftarrow> bus_register k w b; bus_run ops b }"
| "bus_run (Bus_Notify e # ops) b = do { (ws, b) \<leftarrow> bus_notify e b; (vs, b) \<leftarrow> bus_run ops b; Some (ws @ vs, b) }"
| "bus_run (Bus_Remove i # ops) b = do { b \<leftarrow> bus_remove i b; bus_run ops b }"

text \<open>A bus that has lost no id: each one made so far is that of a listener or waits to be handed out again.\<close>

definition bus_full :: "'w EventBus \<Rightarrow> bool" where
  "bus_full b \<longleftrightarrow> bus_inv b \<and> length (events b) + length (recycled (ev_pool b)) = unat (next_id (ev_pool b))"

lemma bus_full_new: "bus_full bus_new"
  by (simp add: bus_full_def bus_inv_new) (simp add: bus_new_def pool_new_def)

lemma register_full:
  assumes "bus_full b" "unat (next_id (ev_pool b)) + 1 < 2 ^ 64"
  shows "\<exists>i b'. bus_register k w b = Some (i, b') \<and> bus_full b' \<and> unat (next_id (ev_pool b')) \<le> unat (next_id (ev_pool b)) + 1"
proof -
  have "pool_get (ev_pool b) \<noteq> None" using assms(2) by (simp add: pool_get_cases)
  then obtain i p where g: "pool_get (ev_pool b) = Some (i, p)" by auto
  let ?b = "\<lparr>events = events b @ [\<lparr>ev_id = i, listen_for = k, waker = w\<rparr>], ev_pool = p\<rparr>"
  have r: "bus_register k w b = Some (i, ?b)" by (simp add: bus_register_def g)
  have "unat (next_id (ev_pool b) + 1) = unat (next_id (ev_pool b)) + 1" using assms(2) by (simp add: unat_word_ariths)
  then have "length (events ?b) + length (recycled p) = unat (next_id p)" "unat (next_id p) \<le> unat (next_id (ev_pool b)) + 1"
    using assms g by (cases "recycled (ev_pool b)"; auto simp: bus_full_def pool_get_cases split: if_splits)+
  then show ?thesis using r bus_register_inv(1)[OF _ r] assms(1) by (simp add: bus_full_def)
qed

lemma release_all_counts:
  "foldM pool_release is p = Some p' \<Longrightarrow> next_id p' = next_id p \<and> length (recycled p') = length (recycled p) + length is"
  by (induction "is" arbitrary: p) (auto simp: pool_release_def bind_eq_Some_conv split: if_splits)

lemma drop_full:
  assumes "bus_full b"
  shows "\<exists>b'. bus_drop hit b = Some b' \<and> bus_full b' \<and> next_id (ev_pool b') = next_id (ev_pool b) \<and>
    events b' = filter (\<lambda>n. \<not> hit n) (events b)"
proof -
  obtain b' where d: "bus_drop hit b = Some b'" "bus_inv b'" "events b' = filter (\<lambda>n. \<not> hit n) (events b)"
    using bus_drop_inv assms by (auto simp: bus_full_def)
  have "foldM pool_release (map ev_id (filter hit (events b))) (ev_pool b) = Some (ev_pool b')"
    using d(1) by (auto simp: bus_drop_def bind_eq_Some_conv)
  note c = release_all_counts[OF this]
  then show ?thesis using d assms sum_length_filter_compl[of hit "events b"] by (auto simp: bus_full_def)
qed

lemma bus_run_full:
  assumes "bus_full b" "unat (next_id (ev_pool b)) + length ops < 2 ^ 64"
  shows "\<exists>ws b'. bus_run ops b = Some (ws, b') \<and> bus_full b' \<and>
    unat (next_id (ev_pool b')) \<le> unat (next_id (ev_pool b)) + length ops"
  using assms
proof (induction ops arbitrary: b)
  case (Cons p ops)
  have rest: "\<exists>ws b'. bus_run ops b1 = Some (ws, b') \<and> bus_full b' \<and>
      unat (next_id (ev_pool b')) \<le> unat (next_id (ev_pool b)) + length (p # ops)"
    if "bus_full b1" "unat (next_id (ev_pool b1)) \<le> unat (next_id (ev_pool b)) + 1" for b1 :: "'a EventBus"
    using Cons.IH[OF that(1)] that(2) Cons.prems(2) by fastforce
  show ?case
  proof (cases p)
    case (Bus_Register k w)
    then show ?thesis using register_full[OF Cons.prems(1), of k w] Cons.prems(2) rest by fastforce
  next
    case (Bus_Notify e)
    obtain b1 where d: "bus_drop (\<lambda>n. ev_contains (listen_for n) e) b = Some b1" "bus_full b1" "next_id (ev_pool b1) = next_id (ev_pool b)"
      using drop_full[OF Cons.prems(1)] by blast
    then show ?thesis using rest[of b1] Bus_Notify by (auto simp: bus_notify_def)
  next
    case (Bus_Remove i)
    obtain b1 where d: "bus_drop (\<lambda>n. ev_id n = i) b = Some b1" "bus_full b1" "next_id (ev_pool b1) = next_id (ev_pool b)"
      using drop_full[OF Cons.prems(1)] by blast
    then show ?thesis using rest[of b1] Bus_Remove by (auto simp: bus_remove_def)
  qed
qed simp

text \<open>The listeners with a given waker change only through operations on them.\<close>

definition listeners :: "'w \<Rightarrow> 'w EventBus \<Rightarrow> 'w EventNode list" where
  "listeners w b = filter (\<lambda>n. waker n = w) (events b)"

lemma drop_listeners:
  "bus_drop hit b = Some b' \<Longrightarrow> listeners w b' = filter (\<lambda>n. \<not> hit n) (listeners w b)"
  by (auto simp: bus_drop_def listeners_def bind_eq_Some_conv filter_filter conj_commute)

lemma notify_listeners:
  assumes "bus_notify e b = Some (ws, b')"
  shows "listeners w b' = filter (\<lambda>n. \<not> ev_contains (listen_for n) e) (listeners w b)"
    "count_list ws w = length (filter (\<lambda>n. ev_contains (listen_for n) e) (listeners w b))"
proof -
  have d: "bus_drop (\<lambda>n. ev_contains (listen_for n) e) b = Some b'"
    and ws: "ws = map waker (filter (\<lambda>n. ev_contains (listen_for n) e) (events b))"
    using assms by (auto simp: bus_notify_def bind_eq_Some_conv)
  show "listeners w b' = filter (\<lambda>n. \<not> ev_contains (listen_for n) e) (listeners w b)" by (rule drop_listeners[OF d])
  have "count_list (map waker ns) w = length (filter (\<lambda>n. waker n = w) ns)" for ns :: "'a EventNode list"
    by (induction ns) auto
  then show "count_list ws w = length (filter (\<lambda>n. ev_contains (listen_for n) e) (listeners w b))"
    by (simp add: ws listeners_def filter_filter conj_commute)
qed

lemma register_listeners:
  "bus_register k v b = Some (i, b') \<Longrightarrow> v \<noteq> w \<Longrightarrow> listeners w b' = listeners w b"
  by (auto simp: bus_register_def listeners_def bind_eq_Some_conv)

lemma bus_run_listeners:
  assumes "bus_run ops b = Some (ws, b')" "\<forall>k. Bus_Register k w \<notin> set ops"
    and "\<forall>n\<in>set (listeners w b). (\<forall>e. Bus_Notify e \<in> set ops \<longrightarrow> \<not> ev_contains (listen_for n) e) \<and> Bus_Remove (ev_id n) \<notin> set ops"
  shows "listeners w b' = listeners w b \<and> w \<notin> set ws"
  using assms
proof (induction ops arbitrary: b ws)
  case (Cons p ops)
  show ?case
  proof (cases p)
    case (Bus_Register k v)
    then obtain i b1 where r: "bus_register k v b = Some (i, b1)" "bus_run ops b1 = Some (ws, b')"
      using Cons.prems(1) by (auto simp: bind_eq_Some_conv)
    have "v \<noteq> w" using Cons.prems(2) Bus_Register by auto
    from register_listeners[OF r(1) this] show ?thesis using Cons.IH[OF r(2)] Cons.prems(2,3) by simp
  next
    case (Bus_Notify e)
    then obtain us b1 vs where r: "bus_notify e b = Some (us, b1)" "bus_run ops b1 = Some (vs, b')" "ws = us @ vs"
      using Cons.prems(1) by (auto simp: bind_eq_Some_conv)
    have no: "\<forall>n\<in>set (listeners w b). \<not> ev_contains (listen_for n) e" using Cons.prems(3) Bus_Notify by simp
    then have "listeners w b1 = listeners w b" using notify_listeners(1)[OF r(1), of w] by simp
    moreover have "count_list us w = 0" using no notify_listeners(2)[OF r(1), of w] by (simp add: filter_empty_conv)
    ultimately show ?thesis using Cons.IH[OF r(2)] Cons.prems(2,3) r(3) by (simp add: count_list_0_iff)
  next
    case (Bus_Remove i)
    then obtain b1 where r: "bus_remove i b = Some b1" "bus_run ops b1 = Some (ws, b')"
      using Cons.prems(1) by (auto simp: bind_eq_Some_conv)
    have no: "\<forall>n\<in>set (listeners w b). ev_id n \<noteq> i" using Cons.prems(3) Bus_Remove by auto
    have "listeners w b1 = filter (\<lambda>n. ev_id n \<noteq> i) (listeners w b)"
      using r(1) by (auto simp: bus_remove_def dest: drop_listeners)
    then have "listeners w b1 = listeners w b" using no by simp
    then show ?thesis using Cons.IH[OF r(2)] Cons.prems(2,3) by simp
  qed
qed simp

text \<open>
  (C37) A waiter is woken exactly once. Take a bus that has lost no id and register a listener with a waker that is not on it and is not
  registered again. Whatever is registered, notified and removed before, as long as no notification matches and the listener itself is
  not removed, it is not woken; the first matching notification wakes it once; and nothing afterwards wakes it again, not even a
  removal of its id or a notification of a listener that got the id. No operation fails, as long as fewer than \<open>2\<^sup>6\<^sup>4\<close> ids can have
  been made, and the bus never loses an id: those of all dropped listeners are handed out again.
\<close>

theorem bus_wakes_once:
  assumes "bus_full b" "w \<notin> waker ` set (events b)" "bus_register k w b = Some (i, b1)"
    and "\<forall>k'. Bus_Register k' w \<notin> set (xs @ ys)"
    and "\<forall>e'. Bus_Notify e' \<in> set xs \<longrightarrow> \<not> ev_contains k e'" "Bus_Remove i \<notin> set xs" "ev_contains k e"
    and "unat (next_id (ev_pool b)) + length xs + length ys + 2 < 2 ^ 64"
  shows "\<exists>us b2 ws b3 vs b'. bus_run xs b1 = Some (us, b2) \<and> w \<notin> set us \<and>
    bus_notify e b2 = Some (ws, b3) \<and> count_list ws w = 1 \<and>
    bus_run ys b3 = Some (vs, b') \<and> w \<notin> set vs \<and> w \<notin> waker ` set (events b') \<and>
    bus_full b1 \<and> bus_full b2 \<and> bus_full b3 \<and> bus_full b'"
proof -
  let ?n = "\<lparr>ev_id = i, listen_for = k, waker = w\<rparr>"
  have f1: "bus_full b1" "unat (next_id (ev_pool b1)) \<le> unat (next_id (ev_pool b)) + 1"
    using register_full[OF assms(1), of k w] assms(3,8) by auto
  have l1: "listeners w b1 = [?n]"
    using bus_register_inv(3)[OF _ assms(3)] assms(1,2) by (auto simp: listeners_def bus_full_def filter_empty_conv)
  obtain us b2 where r2: "bus_run xs b1 = Some (us, b2)" "bus_full b2" "unat (next_id (ev_pool b2)) \<le> unat (next_id (ev_pool b1)) + length xs"
    using bus_run_full[OF f1(1), of xs] f1(2) assms(8) by auto
  have l2: "listeners w b2 = [?n]" "w \<notin> set us"
    using bus_run_listeners[OF r2(1), of w] l1 assms(4,5,6) by auto
  obtain b3 where d: "bus_drop (\<lambda>n. ev_contains (listen_for n) e) b2 = Some b3" "bus_full b3" "next_id (ev_pool b3) = next_id (ev_pool b2)"
    using drop_full[OF r2(2)] by blast
  then obtain ws where r3: "bus_notify e b2 = Some (ws, b3)" by (simp add: bus_notify_def)
  have l3: "listeners w b3 = []" "count_list ws w = 1" using notify_listeners[OF r3, of w] l2 assms(7) by simp_all
  obtain vs b' where r4: "bus_run ys b3 = Some (vs, b')" "bus_full b'"
    using bus_run_full[OF d(2), of ys] d(3) r2(3) f1(2) assms(8) by auto
  have l4: "listeners w b' = []" "w \<notin> set vs" using bus_run_listeners[OF r4(1), of w] l3(1) assms(4) by auto
  then have "w \<notin> waker ` set (events b')" by (auto simp: listeners_def filter_empty_conv)
  then show ?thesis using r2 l2 r3 l3 r4 l4 f1 d(2) by blast
qed

theorem bus_wakes_once_witness:
  "\<exists>b1 us b2 ws b3 vs b'. bus_register Ev_Signal (7 :: nat) bus_new = Some (0, b1) \<and>
     bus_run [Bus_Register Ev_Signal 8, Bus_Remove 1] b1 = Some (us, b2) \<and> 7 \<notin> set us \<and>
     bus_notify Ev_Signal b2 = Some (ws, b3) \<and> count_list ws 7 = 1 \<and>
     bus_run [Bus_Register Ev_Signal 9, Bus_Notify Ev_Signal] b3 = Some (vs, b') \<and> 7 \<notin> set vs \<and> bus_full b'"
proof -
  obtain b1 where r: "bus_register Ev_Signal (7 :: nat) bus_new = Some (0, b1)"
    by (simp add: bus_register_def bus_new_def pool_new_def pool_get_cases)
  have l: "unat (next_id (ev_pool (bus_new :: nat EventBus))) + length [Bus_Register Ev_Signal 8, Bus_Remove 1 :: nat bus_op] +
      length [Bus_Register Ev_Signal 9, Bus_Notify Ev_Signal :: nat bus_op] + 2 < 2 ^ 64"
    by (simp add: bus_new_def pool_new_def)
  show ?thesis
    using bus_wakes_once[OF bus_full_new _ r _ _ _ Ev_Signal_contains l] r by (auto simp: bus_new_def)
qed

text \<open>
  That the listener itself is not removed is not in the hands of the waiter alone.
  A waiter that was notified keeps its listener id until it is dropped, but the id is free for
  the next waiter. When the first waiter is dropped after the second has registered, the second is
  taken off the bus without having been woken, and no later notification reaches it.
\<close>

theorem late_drop_unregisters_other:
  assumes "bus_inv b0" "event_id f1 = None" "event_id f2 = None"
    and "wait_poll f1 b0 = Some (False, f1', b1)" "ev_contains (fut_listen_for f1) e"
    and "bus_notify e b1 = Some (ws, b2)"
  shows "\<exists>f2' b3 b4. wait_poll f2 b2 = Some (False, f2', b3) \<and> fut_waker f2 \<in> waker ` set (events b3) \<and>
    wait_drop f1' b3 = Some b4 \<and> events b4 = events b2"
proof -
  obtain i where r: "bus_register (fut_listen_for f1) (fut_waker f1) b0 = Some (i, b1)" and f1': "event_id f1' = Some i"
    using assms(2,4) by (auto simp: wait_poll_def bind_eq_Some_conv)
  note b1 = bus_register_inv[OF assms(1) r]
  let ?hit = "\<lambda>n. ev_contains (listen_for n) e"
  obtain q where q: "pool_release i q = Some (ev_pool b2)"
    using assms(5,6) by (auto simp: bus_notify_def bus_drop_def b1(3) foldM_append bind_eq_Some_conv)
  obtain b where "bus_drop ?hit b1 = Some b" and b: "bus_inv b" "events b = filter (\<lambda>n. \<not> ?hit n) (events b1)"
    using bus_drop_inv[OF b1(1)] by blast
  then have b2: "bus_inv b2" "events b2 = filter (\<lambda>n. \<not> ?hit n) (events b0)"
    using assms(5,6) by (auto simp: bus_notify_def b1(3))
  define n2 where "n2 = \<lparr>ev_id = i, listen_for = fut_listen_for f2, waker = fut_waker f2\<rparr>"
  define b3 where "b3 = \<lparr>events = events b2 @ [n2], ev_pool = q\<rparr>"
  have p: "wait_poll f2 b2 = Some (False, f2\<lparr>event_id := Some i\<rparr>, b3)"
    using get_release[OF q] assms(3) by (simp add: wait_poll_def bus_register_def b3_def n2_def)
  then have "bus_inv b3" using assms(3) bus_register_inv(1)[OF b2(1)] by (auto simp: wait_poll_def bind_eq_Some_conv)
  then obtain b4 where d: "bus_drop (\<lambda>n. ev_id n = i) b3 = Some b4" "events b4 = filter (\<lambda>n. ev_id n \<noteq> i) (events b3)"
    using bus_drop_inv by blast
  have "filter (\<lambda>n. ev_id n \<noteq> i) (events b2) = events b2"
    using b1(2) by (intro filter_True) (auto simp: b2(2))
  then have "events b4 = events b2" using d(2) by (simp add: b3_def n2_def)
  moreover have "fut_waker f2 \<in> waker ` set (events b3)" by (simp add: b3_def n2_def)
  ultimately show ?thesis using p d(1) f1' by (auto simp: wait_drop_def bus_remove_def)
qed

theorem late_drop_unregisters_other_witness:
  "\<exists>f1' b1 ws b2 f2' b3 b4. wait_poll (wait_for_event Ev_Signal 1) bus_new = Some (False, f1', b1) \<and>
     bus_notify Ev_Signal b1 = Some (ws, b2) \<and>
     wait_poll (wait_for_event Ev_Signal (2 :: nat)) b2 = Some (False, f2', b3) \<and> 2 \<in> waker ` set (events b3) \<and>
     wait_drop f1' b3 = Some b4 \<and> events b4 = events b2"
proof -
  let ?f1 = "wait_for_event Ev_Signal (1 :: nat)" and ?f2 = "wait_for_event Ev_Signal (2 :: nat)"
  obtain f1' b1 where p: "wait_poll ?f1 bus_new = Some (False, f1', b1)"
    by (simp add: wait_poll_def wait_for_event_def bus_register_def bus_new_def pool_get_cases pool_new_def)
  have i1: "bus_inv b1" using p bus_register_inv(1)[OF bus_inv_new]
    by (auto simp: wait_poll_def wait_for_event_def bind_eq_Some_conv)
  obtain ws b2 where n: "bus_notify Ev_Signal b1 = Some (ws, b2)"
    using bus_drop_inv[OF i1, of "\<lambda>n. ev_contains (listen_for n) Ev_Signal"] by (auto simp: bus_notify_def)
  have e: "event_id ?f1 = None" "event_id ?f2 = None" "ev_contains (fut_listen_for ?f1) Ev_Signal" "fut_waker ?f2 = 2"
    by (simp_all add: wait_for_event_def)
  show ?thesis using late_drop_unregisters_other[OF bus_inv_new e(1,2) p e(3) n] p n e(4) by auto
qed

end
