(* ===== verification/Shm_Mgr.thy ===== *)
theory Shm_Mgr
  imports Page_Fault
begin

text \<open>
  Shared memory segments, \<^verbatim>\<open>process/user_space/shm_mgr.rs\<close>. An \<open>Arc<Shm>\<close> is the number of a segment
  in a store; the manager maps keys to numbers. The reference counts of \<open>Arc\<close> itself are not kept:
  \<open>shm_drop\<close> is what runs when the last reference goes.
\<close>

section \<open>Segments\<close>

record Shm =
  attach_cnt :: usize
  last_operater :: usize
  shm_size :: usize
  creater :: usize
  shm_frames :: "usize list"

record shm_store =
  shm_cells :: "nat \<Rightarrow> Shm"
  shm_fresh :: nat

text \<open>The loop that collects the frames; the frames of a failed run are not given back.\<close>

fun shm_alloc_loop ::
  "platform \<Rightarrow> 'fa BitAlloc \<Rightarrow> nat \<Rightarrow> usize list \<Rightarrow> 'fa kmem \<Rightarrow> (usize list SysResult \<times> 'fa kmem) option" where
  "shm_alloc_loop P B 0 frames m = Some (Inr frames, m)"
| "shm_alloc_loop P B (Suc n) frames m = do {
     (r, m) \<leftarrow> alloc_frame P B m;
     case r of
       None \<Rightarrow> Some (Inl ENOMEM, m)
     | Some f \<Rightarrow> shm_alloc_loop P B n (frames @ [f]) m }"

definition shm_alloc ::
  "platform \<Rightarrow> 'fa BitAlloc \<Rightarrow> usize \<Rightarrow> usize \<Rightarrow> 'fa kmem \<Rightarrow> (Shm SysResult \<times> 'fa kmem) option" where
  "shm_alloc P B sz creator m = do {
     rassert (sz mod PAGE_SIZE = 0);
     (r, m) \<leftarrow> shm_alloc_loop P B (unat (sz div PAGE_SIZE)) [] m;
     case r of
       Inl e \<Rightarrow> Some (Inl e, m)
     | Inr frames \<Rightarrow> Some (Inr \<lparr>attach_cnt = 0, last_operater = creator, shm_size = sz, creater = creator,
         shm_frames = frames\<rparr>, m) }"

definition shm_attach :: "nat \<Rightarrow> usize \<Rightarrow> shm_store \<Rightarrow> usize list \<times> shm_store" where
  "shm_attach i pid st = (shm_frames (shm_cells st i),
     st\<lparr>shm_cells := (shm_cells st)(i := (shm_cells st i)\<lparr>attach_cnt := attach_cnt (shm_cells st i) + 1,
       last_operater := pid\<rparr>)\<rparr>)"

definition shm_drop :: "platform \<Rightarrow> 'fa BitAlloc \<Rightarrow> Shm \<Rightarrow> 'fa kmem \<Rightarrow> 'fa kmem option" where
  "shm_drop P B s m = foldM (\<lambda>f. decrease_and_must_dealloc P B (page_num f)) (shm_frames s) m"

section \<open>The manager\<close>

type_synonym ShmManager = "(usize, nat) btree"

definition shm_mgr_new :: ShmManager where
  "shm_mgr_new = []"

definition shm_mgr_get :: "usize \<Rightarrow> ShmManager \<Rightarrow> nat option" where
  "shm_mgr_get key mgr = bt_get key mgr"

definition shm_mgr_remove :: "usize \<Rightarrow> ShmManager \<Rightarrow> nat option \<times> ShmManager" where
  "shm_mgr_remove key mgr = (bt_get key mgr, bt_remove key mgr)"

definition shm_mgr_create ::
  "platform \<Rightarrow> 'fa BitAlloc \<Rightarrow> usize option \<Rightarrow> usize \<Rightarrow> usize \<Rightarrow> ShmManager \<times> shm_store \<times> 'fa kmem \<Rightarrow>
   (nat SysResult \<times> ShmManager \<times> shm_store \<times> 'fa kmem) option" where
  "shm_mgr_create P B key sz creator s = (case s of (mgr, st, m) \<Rightarrow> do {
     (r, m) \<leftarrow> shm_alloc P B sz creator m;
     case r of
       Inl e \<Rightarrow> Some (Inl e, mgr, st, m)
     | Inr shm \<Rightarrow>
         let i = shm_fresh st; st = st\<lparr>shm_cells := (shm_cells st)(i := shm), shm_fresh := Suc i\<rparr>
         in Some (Inr i, (case key of Some k \<Rightarrow> bt_insert k i mgr | None \<Rightarrow> mgr), st, m) })"

section \<open>Lemmas\<close>

lemma shm_alloc_loop_spec:
  assumes "platform_ok P" "bit_alloc_ok B free" "frame_inv P free m" "finite (free (falloc m))"
  shows "if n \<le> card (free (falloc m))
    then \<exists>is m'. shm_alloc_loop P B n frames m = Some (Inr (frames @ map (frame_addr P) is), m') \<and> length is = n \<and>
      distinct is \<and> set is \<subseteq> free (falloc m) \<and> free (falloc m') = free (falloc m) - set is \<and> frame_inv P free m' \<and>
      (\<forall>i\<in>set is. count_of m' (frame_ppn P i) = 1) \<and>
      (\<forall>q. q \<notin> frame_ppn P ` set is \<longrightarrow> count_of m' q = count_of m q)
    else \<exists>m'. shm_alloc_loop P B n frames m = Some (Inl ENOMEM, m') \<and> free (falloc m') = {}"
  using assms(3,4)
proof (induction n arbitrary: frames m)
  case 0
  then show ?case by (auto intro!: exI[of _ "[]"])
next
  case (Suc n)
  show ?case
  proof (cases "free (falloc m) = {}")
    case True
    have "case ba_alloc B (falloc m) of (None, fa') \<Rightarrow> free (falloc m) = {} \<and> free fa' = {}
        | (Some i, fa') \<Rightarrow> i \<in> free (falloc m) \<and> free fa' = free (falloc m) - {i}"
      using assms(2) unfolding bit_alloc_ok_def by (rule conjunct1[THEN spec])
    then obtain fa where "ba_alloc B (falloc m) = (None, fa)" "free fa = {}"
      using True by (auto split: prod.splits option.splits)
    then show ?thesis using True by (simp add: alloc_frame_def GlobalFrameAlloc_alloc_def)
  next
    case False
    then obtain j m1 where al: "alloc_frame P B m = Some (Some (frame_addr P j), m1)" and j: "j \<in> free (falloc m)"
        and f1: "free (falloc m1) = free (falloc m) - {j}"
        and c1: "count_of m1 = (count_of m)(frame_ppn P j := 1)" and i1: "frame_inv P free m1"
      using alloc_frame_cases[OF assms(1,2) Suc.prems(1)] by auto
    have fin: "finite (free (falloc m1))" using f1 Suc.prems(2) by simp
    have card: "card (free (falloc m1)) = card (free (falloc m)) - 1" "0 < card (free (falloc m))"
      using f1 j Suc.prems(2) by (auto simp: card_gt_0_iff)
    note IH = Suc.IH[OF i1 fin, of "frames @ [frame_addr P j]"]
    show ?thesis
    proof (cases "n \<le> card (free (falloc m1))")
      case True
      then obtain "is" m2 where r: "shm_alloc_loop P B n (frames @ [frame_addr P j]) m1 =
            Some (Inr ((frames @ [frame_addr P j]) @ map (frame_addr P) is), m2)" "length is = n"
          and dis: "distinct is" "set is \<subseteq> free (falloc m1)" and f2: "free (falloc m2) = free (falloc m1) - set is"
          and i2: "frame_inv P free m2" and c2: "\<forall>i\<in>set is. count_of m2 (frame_ppn P i) = 1"
            "\<forall>q. q \<notin> frame_ppn P ` set is \<longrightarrow> count_of m2 q = count_of m1 q"
        using IH by auto
      have mg: "managed P i" if "i \<in> free (falloc m)" for i
        using Suc.prems(1) that by (auto simp: frame_inv_def)
      have nj: "frame_ppn P j \<notin> frame_ppn P ` set is"
        using frame_ppn_inj[OF assms(1) mg[OF j]] dis(2) f1 mg by fastforce
      have "count_of m2 (frame_ppn P j) = 1" using c2(2) nj c1 by simp
      then show ?thesis using True card al r dis f1 f2 i2 c2 c1 j nj
        by (auto intro!: exI[of _ "j # is"])
    next
      case False
      then show ?thesis using IH al card by auto
    qed
  qed
qed

section \<open>Properties\<close>

text \<open>
  (C38) Creating a segment of a page-multiple size, when every free frame has a slot in the table of
  counts: when there are enough free frames, the segment
  gets one distinct frame per page, each with count one, taken from the free ones and nothing else.
  When there are not, \<open>ENOMEM\<close> is reported, and every free frame of the machine is gone: the frames
  that the failed attempt had taken are not returned.
\<close>

theorem shm_alloc_spec:
  assumes "platform_ok P" "bit_alloc_ok B free" "frame_inv P free m" "finite (free (falloc m))"
    and "sz mod PAGE_SIZE = 0"
  shows "if unat sz div 4096 \<le> card (free (falloc m))
    then \<exists>is m'. shm_alloc P B sz pid m = Some (Inr \<lparr>attach_cnt = 0, last_operater = pid, shm_size = sz, creater = pid,
        shm_frames = map (frame_addr P) is\<rparr>, m') \<and> length is = unat sz div 4096 \<and> distinct is \<and>
      set is \<subseteq> free (falloc m) \<and> free (falloc m') = free (falloc m) - set is \<and> frame_inv P free m' \<and>
      (\<forall>i\<in>set is. count_of m' (frame_ppn P i) = 1)
    else \<exists>m'. shm_alloc P B sz pid m = Some (Inl ENOMEM, m') \<and> free (falloc m') = {}"
  using shm_alloc_loop_spec[OF assms(1-4), of "unat (sz div PAGE_SIZE)" "[]"] assms(5)
  by (auto simp: shm_alloc_def unat_div split: if_splits)

theorem shm_alloc_spec_witness:
  "\<exists>m'. shm_alloc board list_alloc 0x3000 1 small_mem = Some (Inl ENOMEM, m') \<and> falloc m' = []"
proof -
  have "\<not> unat (0x3000 :: usize) div 4096 \<le> card (set (falloc small_mem))" by (simp add: small_mem_def)
  then show ?thesis
    using shm_alloc_spec[OF board_ok list_alloc_ok small_mem_inv, of "0x3000" 1] by (auto simp: PAGE_SIZE_eq)
qed

end
