(* ===== verification/User_Space.thy ===== *)
theory User_Space
  imports Shm_Mgr
begin

text \<open>
  A user address space, \<^verbatim>\<open>process/user_space/mod.rs\<close>: the page table together with the segments.
  The state of an operation is the address space and the memory of the machine. \<open>init_stack\<close> is in
  \<open>Init_Stack\<close>.
\<close>

definition THREAD_STACK_SIZE :: usize where
  "THREAD_STACK_SIZE = 1024 * 1024"

record 'f UserSpace =
  page_table :: PageTable
  areas :: "'f UserAreaManager"

definition us_new :: "platform \<Rightarrow> 'fa BitAlloc \<Rightarrow> 'fa kmem \<Rightarrow> ('f UserSpace \<times> 'fa kmem) option" where
  "us_new P B m = do {
     (pt, m) \<leftarrow> new_with_kernel_seg P B m;
     Some (\<lparr>page_table = pt, areas = areas_new\<rparr>, m) }"

definition has_perm :: "'f UserSpace \<Rightarrow> usize \<Rightarrow> UserAreaPerm \<Rightarrow> bool" where
  "has_perm us va p = (case get_area (areas us) va of Some a \<Rightarrow> perm_contains (perm a) p | None \<Rightarrow> False)"

text \<open>The loop that maps the frames of a segment, one page after the other.\<close>

fun attach_loop ::
  "platform \<Rightarrow> 'fa BitAlloc \<Rightarrow> UserAreaPerm \<Rightarrow> usize list \<Rightarrow> usize \<Rightarrow> PageTable \<times> 'fa kmem \<Rightarrow>
   (PageTable \<times> 'fa kmem) option" where
  "attach_loop P B p [] va s = Some s"
| "attach_loop P B p (f # fs) va s = (case s of (pt, m) \<Rightarrow> do {
     m \<leftarrow> increase P (page_num f) m;
     s \<leftarrow> map_page P B va f (perm_to_flags p) (pt, m);
     va \<leftarrow> next_page va;
     attach_loop P B p fs va s })"

definition attach_shm ::
  "platform \<Rightarrow> 'fa BitAlloc \<Rightarrow> usize option \<Rightarrow> usize \<Rightarrow> usize \<Rightarrow> nat \<Rightarrow> UserAreaPerm \<Rightarrow>
   'f UserSpace \<times> shm_store \<times> 'fa kmem \<Rightarrow> (usize SysResult \<times> 'f UserSpace \<times> shm_store \<times> 'fa kmem) option" where
  "attach_shm P B vaddr pid i shm p s = (case s of (us, st, m) \<Rightarrow> do {
     r \<leftarrow> (case vaddr of
             Some va \<Rightarrow> insert_shm_at va p i (shm, shm_size (shm_cells st shm)) (areas us)
           | None \<Rightarrow> insert_shm p i (shm, shm_size (shm_cells st shm)) (areas us));
     case r of
       Inl e \<Rightarrow> Some (Inl e, us, st, m)
     | Inr (rng, am) \<Rightarrow> do {
         va \<leftarrow> assert_4k (fst rng);
         let (frames, st) = shm_attach shm pid st;
         (pt, m) \<leftarrow> attach_loop P B p frames va (page_table us, m);
         Some (Inr (fst rng), us\<lparr>page_table := pt, areas := am\<rparr>, st, m) } })"

definition detach_page :: "platform \<Rightarrow> 'fa BitAlloc \<Rightarrow> PageTable \<Rightarrow> usize \<Rightarrow> 'fa kmem \<Rightarrow> 'fa kmem option" where
  "detach_page P B pt vpn m = do {
     va \<leftarrow> page_num_addr vpn;
     (pa, m) \<leftarrow> unmap_page P va pt m;
     decrease_and_try_dealloc P B (page_num pa) m }"

definition detach_shm ::
  "platform \<Rightarrow> 'fa BitAlloc \<Rightarrow> usize \<Rightarrow> 'f UserSpace \<times> 'fa kmem \<Rightarrow> (unit SysResult \<times> 'f UserSpace \<times> 'fa kmem) option" where
  "detach_shm P B va s = (case s of (us, m) \<Rightarrow> do {
     r \<leftarrow> remove_shm va (areas us);
     case r of
       Inl e \<Rightarrow> Some (Inl e, us, m)
     | Inr (rng, am) \<Rightarrow> do {
         m \<leftarrow> iter_vpn rng (detach_page P B (page_table us)) m;
         Some (Inr (), us\<lparr>areas := am\<rparr>, m) } })"

definition handle_pagefault ::
  "platform \<Rightarrow> 'fa BitAlloc \<Rightarrow> ('f, 'fa) get_page \<Rightarrow> usize \<Rightarrow> usize \<Rightarrow> PageFaultAccessType \<Rightarrow>
   'f UserSpace \<times> 'fa kmem \<Rightarrow> ((PageFaultErr + unit) \<times> 'f UserSpace \<times> 'fa kmem) option" where
  "handle_pagefault P B gp cur va acc s = (case s of (us, m) \<Rightarrow> do {
     (r, pt, m) \<leftarrow> areas_page_fault P B gp cur (areas us) (page_num_down va) acc (page_table us, m);
     Some (r, us\<lparr>page_table := pt\<rparr>, m) })"

definition force_map_range ::
  "platform \<Rightarrow> 'fa BitAlloc \<Rightarrow> ('f, 'fa) get_page \<Rightarrow> usize \<Rightarrow> VirtAddrRange \<Rightarrow> UserAreaPerm \<Rightarrow>
   'f UserSpace \<times> 'fa kmem \<Rightarrow> ('f UserSpace \<times> 'fa kmem) option" where
  "force_map_range P B gp cur rng p s = (case s of (us, m) \<Rightarrow> do {
     (pt, m) \<leftarrow> areas_force_map_range P B gp cur (areas us) rng p (page_table us, m);
     Some (us\<lparr>page_table := pt\<rparr>, m) })"

text \<open>A buffer is its address and its length.\<close>

definition force_map_buf ::
  "platform \<Rightarrow> 'fa BitAlloc \<Rightarrow> ('f, 'fa) get_page \<Rightarrow> usize \<Rightarrow> usize \<times> usize \<Rightarrow> UserAreaPerm \<Rightarrow>
   'f UserSpace \<times> 'fa kmem \<Rightarrow> ('f UserSpace \<times> 'fa kmem) option" where
  "force_map_buf P B gp cur buf p s =
     (if snd buf = 0 then Some s
      else do { e \<leftarrow> uadd (fst buf) (snd buf); force_map_range P B gp cur (fst buf, e) p s })"

definition force_map_area ::
  "platform \<Rightarrow> 'fa BitAlloc \<Rightarrow> ('f, 'fa) get_page \<Rightarrow> usize \<Rightarrow> usize \<Rightarrow>
   'f UserSpace \<times> 'fa kmem \<Rightarrow> ('f UserSpace \<times> 'fa kmem) option" where
  "force_map_area P B gp cur va s = do {
     (rng, area) \<leftarrow> rm_get (areas (fst s)) va;
     force_map_range P B gp cur rng (perm area) s }"

definition clone_cow ::
  "platform \<Rightarrow> 'fa BitAlloc \<Rightarrow> 'f UserSpace \<Rightarrow> 'fa kmem \<Rightarrow> ('f UserSpace \<times> 'fa kmem) option" where
  "clone_cow P B us m = do {
     (pt, m) \<leftarrow> copy_table_and_mark_self_cow P B (\<lambda>pa. increase P (page_num pa)) (page_table us) m;
     Some (\<lparr>page_table = pt, areas = areas us\<rparr>, m) }"

definition us_unmap_range ::
  "platform \<Rightarrow> 'fa BitAlloc \<Rightarrow> VirtAddrRange \<Rightarrow> 'f UserSpace \<times> 'fa kmem \<Rightarrow> ('f UserSpace \<times> 'fa kmem) option" where
  "us_unmap_range P B rng s = (case s of (us, m) \<Rightarrow> do {
     (am, m) \<leftarrow> areas_unmap_range P B (page_table us) rng (areas us, m);
     Some (us\<lparr>areas := am\<rparr>, m) })"

definition us_remap_range :: "VirtAddrRange \<Rightarrow> UserAreaPerm \<Rightarrow> 'f UserSpace \<Rightarrow> 'f UserSpace option" where
  "us_remap_range rng p us = do {
     am \<leftarrow> areas_remap_range rng p (areas us);
     Some (us\<lparr>areas := am\<rparr>) }"

text \<open>Dropping the address space releases its pages, then its fields are dropped: the page table
  gives back the frames of its tables.\<close>

definition us_drop :: "platform \<Rightarrow> 'fa BitAlloc \<Rightarrow> 'f UserSpace \<Rightarrow> 'fa kmem \<Rightarrow> 'fa kmem option" where
  "us_drop P B us m = do {
     m \<leftarrow> foldM (\<lambda>(rng, _). release_range P B (page_table us) rng) (rm_iter (areas us)) m;
     pt_drop P B (page_table us) m }"

end
