(* ===== verification/Init_Stack.thy ===== *)
theory Init_Stack
  imports Prelude
begin

text \<open>
  \<open>init_stack\<close> of \<^verbatim>\<open>process/user_space/mod.rs\<close> and the auxiliary vector of
  \<^verbatim>\<open>process/elf/aux_vector.rs\<close>: the kernel writes the arguments, the environment and the auxiliary
  vector on the stack of a new program. User memory is a map from addresses to bytes; the pages of
  the stack are mapped beforehand by \<open>force_map_area\<close>. A string is the list of its bytes.
\<close>

section \<open>Bytes\<close>

type_synonym umem = "usize \<Rightarrow> u8"

definition write_bytes :: "usize \<Rightarrow> u8 list \<Rightarrow> umem \<Rightarrow> umem" where
  "write_bytes a bs mem = (\<lambda>x. if unat (x - a) < length bs then bs ! unat (x - a) else mem x)"

definition usize_bytes :: "usize \<Rightarrow> u8 list" where
  "usize_bytes w = map (\<lambda>i. ucast (drop_bit (8 * i) w)) [0..<8]"

text \<open>What a program reads back: a word, and a string up to its terminator.\<close>

definition read_bytes :: "umem \<Rightarrow> usize \<Rightarrow> nat \<Rightarrow> u8 list" where
  "read_bytes mem a n = map (\<lambda>i. mem (a + word_of_nat i)) [0..<n]"

section \<open>The auxiliary vector\<close>

definition AT_NULL :: usize where "AT_NULL = 0"
definition AT_PHDR :: usize where "AT_PHDR = 3"
definition AT_PHENT :: usize where "AT_PHENT = 4"
definition AT_PHNUM :: usize where "AT_PHNUM = 5"
definition AT_PAGESZ :: usize where "AT_PAGESZ = 6"
definition AT_BASE :: usize where "AT_BASE = 7"
definition AT_FLAGS :: usize where "AT_FLAGS = 8"
definition AT_ENTRY :: usize where "AT_ENTRY = 9"
definition AT_NOTELF :: usize where "AT_NOTELF = 10"
definition AT_UID :: usize where "AT_UID = 11"
definition AT_EUID :: usize where "AT_EUID = 12"
definition AT_GID :: usize where "AT_GID = 13"
definition AT_EGID :: usize where "AT_EGID = 14"
definition AT_PLATFORM :: usize where "AT_PLATFORM = 15"
definition AT_HWCAP :: usize where "AT_HWCAP = 16"
definition AT_CLKTCK :: usize where "AT_CLKTCK = 17"
definition AT_SECURE :: usize where "AT_SECURE = 23"
definition AT_RANDOM :: usize where "AT_RANDOM = 25"

record AuxElement =
  aux_type :: usize
  aux_value :: usize

definition Aux_NULL :: AuxElement where
  "Aux_NULL = \<lparr>aux_type = AT_NULL, aux_value = 0\<rparr>"

text \<open>The fields of the ELF header that the vector uses.\<close>

record HeaderPt2 =
  entry_point :: u64
  ph_offset :: u64
  sh_offset :: u64
  ph_entry_size :: u16
  ph_count :: u16
  sh_entry_size :: u16
  sh_count :: u16
  sh_str_index :: u16

definition from_elf_analyzer :: "HeaderPt2 \<Rightarrow> usize \<Rightarrow> AuxElement list option" where
  "from_elf_analyzer pt2 begin_addr = do {
     pgm_header_addr \<leftarrow> uadd begin_addr (ph_offset pt2);
     Some (map (\<lambda>(t, v). \<lparr>aux_type = t, aux_value = v\<rparr>)
       [(AT_PHDR, pgm_header_addr), (AT_PHENT, ucast (ph_entry_size pt2)), (AT_PHNUM, ucast (ph_count pt2)),
        (AT_PAGESZ, 4096), (AT_BASE, 0), (AT_FLAGS, 0), (AT_ENTRY, entry_point pt2), (AT_NOTELF, 0x112d),
        (AT_UID, 0), (AT_EUID, 0), (AT_GID, 0), (AT_EGID, 0),
        (AT_PLATFORM, 0), (AT_HWCAP, 0), (AT_CLKTCK, 100), (AT_SECURE, 0), (AT_RANDOM, pgm_header_addr)]) }"

section \<open>Pushing\<close>

type_synonym ustack = "usize \<times> umem"

definition push_str :: "u8 list \<Rightarrow> ustack \<Rightarrow> (usize \<times> ustack) option" where
  "push_str s st = (case st of (sp, mem) \<Rightarrow> do {
     sp \<leftarrow> usub sp (word_of_nat (length s + 1));
     Some (sp, sp, write_bytes sp (s @ [0]) mem) })"

fun push_strs :: "u8 list list \<Rightarrow> ustack \<Rightarrow> (usize list \<times> ustack) option" where
  "push_strs [] st = Some ([], st)"
| "push_strs (s # ss) st = do {
     (p, st) \<leftarrow> push_str s st;
     (ps, st) \<leftarrow> push_strs ss st;
     Some (p # ps, st) }"

definition align16 :: "usize \<Rightarrow> usize option" where
  "align16 sp = do { x \<leftarrow> usub sp 1; Some (x AND NOT 0xf) }"

definition push_aux_elm :: "AuxElement \<Rightarrow> ustack \<Rightarrow> ustack option" where
  "push_aux_elm e st = (case st of (sp, mem) \<Rightarrow> do {
     sp \<leftarrow> usub sp 16;
     Some (sp, write_bytes sp (usize_bytes (aux_type e) @ usize_bytes (aux_value e)) mem) })"

definition push_usize :: "usize \<Rightarrow> ustack \<Rightarrow> ustack option" where
  "push_usize w st = (case st of (sp, mem) \<Rightarrow> do {
     sp \<leftarrow> usub sp 8;
     Some (sp, write_bytes sp (usize_bytes w) mem) })"

definition stack_platform :: "u8 list" where
  "stack_platform = map of_char ''RISC-V64''"

definition stack_rand_bytes :: "u8 list" where
  "stack_rand_bytes = map of_char ''Meow~ O4 here;D''"

definition init_stack ::
  "usize \<Rightarrow> u8 list list \<Rightarrow> u8 list list \<Rightarrow> AuxElement list \<Rightarrow> umem \<Rightarrow> ((usize \<times> usize \<times> usize \<times> usize) \<times> umem) option" where
  "init_stack sp_init args envp auxv mem = do {
     rassert (sp_init AND 0xf = 0);
     (env_ptrs, st) \<leftarrow> push_strs (rev envp) (sp_init, mem);
     (arg_ptrs, st) \<leftarrow> push_strs (rev args) st;
     (_, st) \<leftarrow> push_str stack_platform st;
     (_, (sp, mem)) \<leftarrow> push_str stack_rand_bytes st;
     sp \<leftarrow> align16 sp;
     st \<leftarrow> push_aux_elm Aux_NULL (sp, mem);
     st \<leftarrow> foldM push_aux_elm (rev auxv) st;
     st \<leftarrow> push_usize 0 st;
     st \<leftarrow> foldM push_usize env_ptrs st;
     let env_ptr_ptr = fst st;
     st \<leftarrow> push_usize 0 st;
     st \<leftarrow> foldM push_usize arg_ptrs st;
     let arg_ptr_ptr = fst st;
     let argc = word_of_nat (length args);
     (sp, mem) \<leftarrow> push_usize argc st;
     Some ((sp, argc, arg_ptr_ptr, env_ptr_ptr), mem) }"

section \<open>Writing below the stack pointer\<close>

text \<open>\<open>grows a st st'\<close>: from \<open>st\<close> to \<open>st'\<close> the stack took \<open>n\<close> bytes and nothing above changed.\<close>

definition grows :: "nat \<Rightarrow> ustack \<Rightarrow> ustack \<Rightarrow> bool" where
  "grows n st st' \<longleftrightarrow> unat (fst st) = unat (fst st') + n \<and> (\<forall>x. fst st \<le> x \<longrightarrow> snd st' x = snd st x)"

lemma grows_refl [simp]: "grows 0 st st"
  by (simp add: grows_def)

lemma grows_trans: "grows n st st1 \<Longrightarrow> grows k st1 st2 \<Longrightarrow> grows (n + k) st st2"
  by (auto simp: grows_def word_le_nat_alt)

lemma usub_nat: "n \<le> unat (sp :: usize) \<Longrightarrow> usub sp (word_of_nat n) = Some (sp - word_of_nat n)"
  "n \<le> unat (sp :: usize) \<Longrightarrow> unat (sp - word_of_nat n) = unat sp - n"
proof -
  assume n: "n \<le> unat sp"
  then have u: "unat (word_of_nat n :: usize) = n"
    using unat_lt2p[of sp] by (intro unat_word_of_nat) auto
  then have "(word_of_nat n :: usize) \<le> sp" using n by (simp add: word_le_nat_alt)
  then show "usub sp (word_of_nat n) = Some (sp - word_of_nat n)" "unat (sp - word_of_nat n) = unat sp - n"
    using u by (simp_all add: usub_def unat_sub)
qed

lemma write_bytes_above:
  assumes "unat sp' + length bs = unat sp" "sp \<le> x"
  shows "write_bytes sp' bs mem x = mem x"
proof -
  have le: "sp' \<le> x" using assms by (simp add: word_le_nat_alt)
  have "length bs \<le> unat (x - sp')" using assms by (simp add: unat_sub[OF le] word_le_nat_alt)
  then show ?thesis by (simp add: write_bytes_def)
qed

lemma write_bytes_inside:
  assumes "i < length bs" "unat sp' + length bs < 2 ^ 64"
  shows "write_bytes sp' bs mem (sp' + word_of_nat i) = bs ! i"
proof -
  have "unat (word_of_nat i :: usize) = i" using assms by (intro unat_word_of_nat) simp
  then show ?thesis using assms by (simp add: write_bytes_def)
qed

lemma read_written:
  "unat sp' + length bs < 2 ^ 64 \<Longrightarrow> read_bytes (write_bytes sp' bs mem) sp' (length bs) = bs"
  by (auto simp: read_bytes_def write_bytes_inside intro!: nth_equalityI)

text \<open>What is read above the stack pointer is not disturbed by pushes.\<close>

lemma read_kept:
  assumes "grows n st st'" "fst st \<le> a" "unat a + k < 2 ^ 64"
  shows "read_bytes (snd st') a k = read_bytes (snd st) a k"
proof -
  have "fst st \<le> a + word_of_nat i" if "i < k" for i
  proof -
    have "unat (word_of_nat i :: usize) = i" using assms(3) that by (intro unat_word_of_nat) simp
    then show ?thesis using assms(2,3) that by (simp add: word_le_nat_alt unat_word_ariths)
  qed
  then show ?thesis using assms(1) by (simp add: read_bytes_def grows_def)
qed

lemma push_bytes:
  assumes "length bs \<le> unat sp" "sp' = sp - word_of_nat (length bs)" "0 < length bs"
  shows "grows (length bs) (sp, mem) (sp', write_bytes sp' bs mem)"
    "read_bytes (write_bytes sp' bs mem) sp' (length bs) = bs" "sp' < sp"
proof -
  have u: "unat sp' = unat sp - length bs" using assms usub_nat(2) by blast
  then show "grows (length bs) (sp, mem) (sp', write_bytes sp' bs mem)"
    using assms(1) write_bytes_above[of sp' bs sp] by (simp add: grows_def)
  have "unat sp' + length bs < 2 ^ 64" using u assms(1) unat_lt2p[of sp] by simp
  then show "read_bytes (write_bytes sp' bs mem) sp' (length bs) = bs" by (rule read_written)
  have "unat sp' < unat sp" using u assms(1,3) by linarith
  then show "sp' < sp" by (simp add: word_less_nat_alt)
qed

section \<open>Pushing one item, and a list of items\<close>

definition push_item :: "u8 list \<Rightarrow> ustack \<Rightarrow> ustack option" where
  "push_item bs st = (case st of (sp, mem) \<Rightarrow> do {
     sp \<leftarrow> usub sp (word_of_nat (length bs));
     Some (sp, write_bytes sp bs mem) })"

definition aux_bytes :: "AuxElement \<Rightarrow> u8 list" where
  "aux_bytes e = usize_bytes (aux_type e) @ usize_bytes (aux_value e)"

lemma length_bytes [simp]: "length (usize_bytes w) = 8" "length (aux_bytes e) = 16"
  by (simp_all add: usize_bytes_def aux_bytes_def)

lemma pushes_item:
  "push_usize w = push_item (usize_bytes w)" "push_aux_elm e = push_item (aux_bytes e)"
  "push_str t st = do { st \<leftarrow> push_item (t @ [0]) st; Some (fst st, st) }"
  by (auto simp: fun_eq_iff push_usize_def push_aux_elm_def push_item_def push_str_def aux_bytes_def[symmetric]
      split: prod.splits)

lemma push_item_run:
  assumes "length bs \<le> unat (fst st)" "bs \<noteq> []"
  shows "\<exists>st'. push_item bs st = Some st' \<and> grows (length bs) st st' \<and> read_bytes (snd st') (fst st') (length bs) = bs"
proof -
  obtain sp mem where st: "st = (sp, mem)" by fastforce
  have l: "length bs \<le> unat sp" "0 < length bs" using assms by (auto simp: st)
  show ?thesis
    using push_bytes(1,2)[OF l(1) refl l(2), of mem] usub_nat(1)[OF l(1)] by (simp add: push_item_def st)
qed

text \<open>Consecutive records of \<open>n\<close> bytes at address \<open>a\<close>.\<close>

definition items_at :: "nat \<Rightarrow> ('a \<Rightarrow> u8 list) \<Rightarrow> umem \<Rightarrow> usize \<Rightarrow> 'a list \<Rightarrow> bool" where
  "items_at n enc mem a es \<longleftrightarrow> (\<forall>k<length es. read_bytes mem (a + word_of_nat (n * k)) n = enc (es ! k))"

lemma items_at_kept:
  assumes "items_at n enc (snd st) a es" "grows g st st'" "fst st \<le> a" "unat a + n * length es < 2 ^ 64"
  shows "items_at n enc (snd st') a es"
  unfolding items_at_def
proof (intro allI impI)
  fix k assume k: "k < length es"
  then have le: "n * k + n \<le> n * length es" by (metis Suc_leI mult_le_mono2 mult_Suc_right add.commute)
  then have u: "unat (word_of_nat (n * k) :: usize) = n * k" using assms(4) by (intro unat_word_of_nat) simp
  have s: "unat (a + word_of_nat (n * k)) = unat a + n * k" using u le assms(4) by (simp add: unat_word_ariths)
  have "read_bytes (snd st') (a + word_of_nat (n * k)) n = read_bytes (snd st) (a + word_of_nat (n * k)) n"
    using assms(2-4) s le by (intro read_kept) (auto simp: word_le_nat_alt)
  then show "read_bytes (snd st') (a + word_of_nat (n * k)) n = enc (es ! k)"
    using assms(1) k by (simp add: items_at_def)
qed

lemma push_items_run:
  assumes "\<And>e. length (enc e) = n" "0 < n" "n * length es \<le> unat (fst st)"
  shows "\<exists>st'. foldM (\<lambda>e. push_item (enc e)) es st = Some st' \<and> grows (n * length es) st st' \<and>
    items_at n enc (snd st') (fst st') (rev es)"
  using assms(3)
proof (induction es rule: rev_induct)
  case Nil
  then show ?case by (simp add: items_at_def)
next
  case (snoc e es)
  then obtain st1 where r1: "foldM (\<lambda>e. push_item (enc e)) es st = Some st1" and g1: "grows (n * length es) st st1"
      and i1: "items_at n enc (snd st1) (fst st1) (rev es)" by auto
  have sp1: "unat (fst st) = unat (fst st1) + n * length es" using g1 by (simp add: grows_def)
  then have "length (enc e) \<le> unat (fst st1)" using snoc.prems by (simp add: assms(1))
  then obtain st2 where r2: "push_item (enc e) st1 = Some st2" and g2: "grows n st1 st2"
      and e2: "read_bytes (snd st2) (fst st2) n = enc e"
    using push_item_run[of "enc e" st1] assms(1,2) by (metis length_0_conv not_gr_zero)
  have sp2: "unat (fst st1) = unat (fst st2) + n" using g2 by (simp add: grows_def)
  have lt: "unat (fst st1) + n * length (rev es) < 2 ^ 64" using sp1 unat_lt2p[of "fst st"] by simp
  note kept = items_at_kept[OF i1 g2 order_refl lt]
  have "items_at n enc (snd st2) (fst st2) (rev (es @ [e]))"
    unfolding items_at_def
  proof (intro allI impI)
    fix k assume k: "k < length (rev (es @ [e]))"
    show "read_bytes (snd st2) (fst st2 + word_of_nat (n * k)) n = enc (rev (es @ [e]) ! k)"
    proof (cases k)
      case (Suc j)
      have "fst st1 = fst st2 + word_of_nat n"
      proof -
        have "unat (word_of_nat n :: usize) = n" using sp2 unat_lt2p[of "fst st1"] by (intro unat_word_of_nat) simp
        then have "unat (fst st2 + word_of_nat n) = unat (fst st1)"
          using sp2 unat_lt2p[of "fst st1"] by (simp add: unat_word_ariths)
        then show ?thesis by (metis unsigned_word_eqI)
      qed
      then have a: "fst st2 + word_of_nat (n * k) = fst st1 + word_of_nat (n * j)" by (simp add: Suc)
      have "read_bytes (snd st2) (fst st1 + word_of_nat (n * j)) n = enc (rev es ! j)"
        using kept k Suc unfolding items_at_def by simp
      then show ?thesis unfolding a by (simp add: Suc)
    qed (simp add: e2)
  qed
  moreover have "grows (n * length (es @ [e])) st st2" using grows_trans[OF g1 g2] by (simp add: add.commute)
  ultimately show ?case using r1 r2 by (simp add: foldM_append)
qed

section \<open>Strings\<close>

text \<open>Each pointer of \<open>ps\<close> refers to the string at the same place of \<open>ss\<close>, inside the stack below \<open>lim\<close>.\<close>

definition cstr_at :: "umem \<Rightarrow> usize \<Rightarrow> u8 list \<Rightarrow> bool" where
  "cstr_at mem p t \<longleftrightarrow> read_bytes mem p (length t + 1) = t @ [0]"

definition strs_held :: "nat \<Rightarrow> ustack \<Rightarrow> usize list \<Rightarrow> u8 list list \<Rightarrow> bool" where
  "strs_held lim st ps ss \<longleftrightarrow> list_all2 (\<lambda>p t. fst st \<le> p \<and> unat p + length t + 1 \<le> lim \<and> cstr_at (snd st) p t) ps ss"

definition strs_size :: "u8 list list \<Rightarrow> nat" where
  "strs_size ss = sum_list (map (\<lambda>t. length t + 1) ss)"

lemma strs_held_kept:
  assumes "strs_held lim st ps ss" "grows n st st'" "lim < 2 ^ 64"
  shows "strs_held lim st' ps ss"
proof -
  have sp: "fst st' \<le> fst st" using assms(2) by (simp add: grows_def word_le_nat_alt)
  have "cstr_at (snd st') p t" if "fst st \<le> p" "unat p + length t + 1 \<le> lim" "cstr_at (snd st) p t" for p t
    using read_kept[OF assms(2) that(1), of "length t + 1"] that(2,3) assms(3) by (simp add: cstr_at_def)
  then show ?thesis using assms(1) sp unfolding strs_held_def by (auto elim!: list_all2_mono)
qed

lemma push_strs_run:
  assumes "strs_size ss \<le> unat (fst st)"
  shows "\<exists>ps st'. push_strs ss st = Some (ps, st') \<and> grows (strs_size ss) st st' \<and> strs_held (unat (fst st)) st' ps ss"
  using assms
proof (induction ss arbitrary: st)
  case Nil
  then show ?case by (simp add: strs_size_def strs_held_def)
next
  case (Cons t ss)
  have sz: "strs_size (t # ss) = length t + 1 + strs_size ss" by (simp add: strs_size_def)
  obtain st1 where r1: "push_item (t @ [0]) st = Some st1" and g1: "grows (length t + 1) st st1"
      and c1: "cstr_at (snd st1) (fst st1) t"
    using push_item_run[of "t @ [0]" st] Cons.prems sz by (auto simp: cstr_at_def)
  have sp1: "unat (fst st) = unat (fst st1) + (length t + 1)" using g1 by (simp add: grows_def)
  then obtain ps st2 where r2: "push_strs ss st1 = Some (ps, st2)" and g2: "grows (strs_size ss) st1 st2"
      and h2: "strs_held (unat (fst st1)) st2 ps ss"
    using Cons.IH[of st1] Cons.prems sz by auto
  have "strs_held (unat (fst st)) st1 [fst st1] [t]" using c1 sp1 by (simp add: strs_held_def)
  then have "strs_held (unat (fst st)) st2 [fst st1] [t]"
    using strs_held_kept[OF _ g2] unat_lt2p[of "fst st"] by simp
  moreover have "strs_held (unat (fst st)) st2 ps ss"
    using h2 sp1 unfolding strs_held_def by (auto elim!: list_all2_mono)
  ultimately have "strs_held (unat (fst st)) st2 (fst st1 # ps) (t # ss)" by (simp add: strs_held_def)
  moreover have "grows (strs_size (t # ss)) st st2" using grows_trans[OF g1 g2] by (simp add: sz)
  ultimately show ?case using r1 r2 by (simp add: pushes_item)
qed

lemma align16_run:
  assumes "16 \<le> unat sp"
  shows "\<exists>sp' n. align16 sp = Some sp' \<and> grows n (sp, mem) (sp', mem) \<and> n \<le> 16 \<and> unat sp' mod 16 = 0"
proof -
  have le: "1 \<le> sp" using assms by (simp add: word_le_nat_alt)
  have m: "(0xf :: usize) = mask 4" by (simp add: mask_eq_exp_minus_1)
  have "unat ((sp - 1) AND NOT 0xf) = (unat sp - 1) div 16 * 16"
  proof -
    have "unat (sp - 1) div 16 * 16 < 2 ^ 64" using unat_lt2p[of "sp - 1"] by simp
    then have "unat (push_bit 4 (drop_bit 4 (sp - 1))) = push_bit 4 (drop_bit 4 (unat (sp - 1)))"
      by (simp add: push_bit_eq_mult drop_bit_eq_div unat_word_ariths unat_div)
    moreover have "(sp - 1) AND NOT (mask 4) = push_bit 4 (drop_bit 4 (sp - 1))"
      by (rule bit_word_eqI) (auto simp: bit_simps)
    ultimately show ?thesis unfolding m using le by (simp add: unat_sub push_bit_eq_mult drop_bit_eq_div)
  qed
  moreover have "unat sp - ((unat sp - 1) div 16 * 16) \<le> 16" "(unat sp - 1) div 16 * 16 \<le> unat sp" using assms by linarith+
  ultimately show ?thesis using le
    by (intro exI[of _ "(sp - 1) AND NOT 0xf"] exI[of _ "unat sp - (unat sp - 1) div 16 * 16"])
      (simp add: align16_def usub_def grows_def)
qed

section \<open>The two halves of \<open>init_stack\<close>\<close>

text \<open>An array of pointers to strings with a null pointer at its end, as \<open>argv\<close> and \<open>envp\<close> are.\<close>

definition string_array :: "umem \<Rightarrow> usize \<Rightarrow> u8 list list \<Rightarrow> bool" where
  "string_array mem a ss \<longleftrightarrow> (\<exists>ps. list_all2 (cstr_at mem) ps ss \<and> items_at 8 usize_bytes mem a (ps @ [0]))"

lemma grows_fst: "grows n st st' \<Longrightarrow> unat (fst st) = unat (fst st') + n"
  by (simp add: grows_def)

lemma strings_run:
  assumes "strs_size envp + strs_size args + 41 \<le> unat sp_init"
  shows "\<exists>pe st1 pa st2 st3 st4 sp5 n. push_strs (rev envp) (sp_init, mem) = Some (pe, st1) \<and>
    push_strs (rev args) st1 = Some (pa, st2) \<and> push_str stack_platform st2 = Some (fst st3, st3) \<and>
    push_str stack_rand_bytes st3 = Some (fst st4, st4) \<and> align16 (fst st4) = Some sp5 \<and> unat sp5 mod 16 = 0 \<and>
    grows (strs_size envp + strs_size args + 25 + n) (sp_init, mem) (sp5, snd st4) \<and> n \<le> 16 \<and>
    strs_held (unat sp_init) (sp5, snd st4) pe (rev envp) \<and> strs_held (unat sp_init) (sp5, snd st4) pa (rev args)"
proof -
  have sz: "strs_size (rev ss) = strs_size ss" for ss by (simp add: strs_size_def rev_map[symmetric] sum_list_rev)
  have lim: "unat sp_init < 2 ^ 64" using unat_lt2p[of sp_init] by simp
  obtain pe st1 where r1: "push_strs (rev envp) (sp_init, mem) = Some (pe, st1)" and g1: "grows (strs_size envp) (sp_init, mem) st1"
      and h1: "strs_held (unat sp_init) st1 pe (rev envp)"
    using push_strs_run[of "rev envp" "(sp_init, mem)"] assms by (auto simp: sz)
  note sp1 = grows_fst[OF g1]
  obtain pa st2 where r2: "push_strs (rev args) st1 = Some (pa, st2)" and g2: "grows (strs_size args) st1 st2"
      and h2': "strs_held (unat (fst st1)) st2 pa (rev args)"
    using push_strs_run[of "rev args" st1] assms sp1 by (auto simp: sz)
  have h2: "strs_held (unat sp_init) st2 pa (rev args)"
    using h2' sp1 unfolding strs_held_def by (auto elim!: list_all2_mono)
  note sp2 = grows_fst[OF g2]
  have l: "length (stack_platform @ [0]) = 9" "length (stack_rand_bytes @ [0]) = 16"
    by (simp_all add: stack_platform_def stack_rand_bytes_def)
  obtain st3 where r3: "push_item (stack_platform @ [0]) st2 = Some st3" and g3: "grows 9 st2 st3"
    using push_item_run[of "stack_platform @ [0]" st2] assms sp1 sp2 unfolding l by auto
  note sp3 = grows_fst[OF g3]
  obtain st4 where r4: "push_item (stack_rand_bytes @ [0]) st3 = Some st4" and g4: "grows 16 st3 st4"
    using push_item_run[of "stack_rand_bytes @ [0]" st3] assms sp1 sp2 sp3 unfolding l by auto
  note sp4 = grows_fst[OF g4]
  obtain sp5 n where a: "align16 (fst st4) = Some sp5" "n \<le> 16" "unat sp5 mod 16 = 0" and g5: "grows n st4 (sp5, snd st4)"
    using align16_run[of "fst st4" "snd st4"] assms sp1 sp2 sp3 sp4 by auto
  have g: "grows (9 + (16 + n)) st2 (sp5, snd st4)" by (intro grows_trans[OF g3] grows_trans[OF g4] g5)
  have "strs_held (unat sp_init) (sp5, snd st4) pe (rev envp)" "strs_held (unat sp_init) (sp5, snd st4) pa (rev args)"
    using strs_held_kept[OF h1 grows_trans[OF g2 g] lim] strs_held_kept[OF h2 g lim] by simp_all
  moreover have "grows (strs_size envp + strs_size args + 25 + n) (sp_init, mem) (sp5, snd st4)"
    using grows_trans[OF g1 grows_trans[OF g2 g]] by (simp add: ac_simps)
  ultimately show ?thesis using r1 r2 r3 r4 a by (intro exI conjI) (auto simp: pushes_item)
qed

lemma words_run:
  assumes "8 * (length ps + 1) \<le> unat (fst st)"
  shows "\<exists>st'. foldM push_usize (0 # ps) st = Some st' \<and> grows (8 * (length ps + 1)) st st' \<and>
    items_at 8 usize_bytes (snd st') (fst st') (rev ps @ [0])"
  using push_items_run[of usize_bytes 8 "0 # ps" st] assms by (simp add: pushes_item(1)[abs_def])

lemma tables_run:
  assumes "16 * (length auxv + 1) + 8 * (length pe + length pa + 3) \<le> unat (fst st)"
  shows "\<exists>s1 s2 s3 s4. foldM push_aux_elm (Aux_NULL # rev auxv) st = Some s1 \<and> foldM push_usize (0 # pe) s1 = Some s2 \<and>
    foldM push_usize (0 # pa) s2 = Some s3 \<and> push_usize argc s3 = Some s4 \<and>
    grows (16 * (length auxv + 1) + 8 * (length pe + length pa + 3)) st s4 \<and>
    unat (fst s3) = unat (fst s4) + 8 \<and> unat (fst s2) = unat (fst s3) + 8 * (length pa + 1) \<and>
    unat (fst s1) = unat (fst s2) + 8 * (length pe + 1) \<and> read_bytes (snd s4) (fst s4) 8 = usize_bytes argc \<and>
    items_at 8 usize_bytes (snd s4) (fst s3) (rev pa @ [0]) \<and> items_at 8 usize_bytes (snd s4) (fst s2) (rev pe @ [0]) \<and>
    items_at 16 aux_bytes (snd s4) (fst s1) (auxv @ [Aux_NULL])"
proof -
  obtain s1 where r1: "foldM push_aux_elm (Aux_NULL # rev auxv) st = Some s1" and g1: "grows (16 * (length auxv + 1)) st s1"
      and i1: "items_at 16 aux_bytes (snd s1) (fst s1) (auxv @ [Aux_NULL])"
    using push_items_run[of aux_bytes 16 "Aux_NULL # rev auxv" st] assms by (auto simp: pushes_item(2)[abs_def])
  note sp1 = grows_fst[OF g1]
  obtain s2 where r2: "foldM push_usize (0 # pe) s1 = Some s2" and g2: "grows (8 * (length pe + 1)) s1 s2"
      and i2: "items_at 8 usize_bytes (snd s2) (fst s2) (rev pe @ [0])"
    using words_run[of pe s1] assms sp1 by auto
  note sp2 = grows_fst[OF g2]
  obtain s3 where r3: "foldM push_usize (0 # pa) s2 = Some s3" and g3: "grows (8 * (length pa + 1)) s2 s3"
      and i3: "items_at 8 usize_bytes (snd s3) (fst s3) (rev pa @ [0])"
    using words_run[of pa s2] assms sp1 sp2 by auto
  note sp3 = grows_fst[OF g3]
  have "length (usize_bytes argc) \<le> unat (fst s3)" using assms sp1 sp2 sp3 by simp
  moreover have "usize_bytes argc \<noteq> []" by (simp add: usize_bytes_def)
  ultimately obtain s4 where r4: "push_usize argc s3 = Some s4" and g4: "grows 8 s3 s4"
      and c: "read_bytes (snd s4) (fst s4) 8 = usize_bytes argc"
    using push_item_run[of "usize_bytes argc" s3] by (auto simp: pushes_item)
  note sp4 = grows_fst[OF g4] and lt = unat_lt2p[of "fst st"]
  note k1 = items_at_kept[OF i1 grows_trans[OF g2 grows_trans[OF g3 g4]] order_refl]
  note k2 = items_at_kept[OF i2 grows_trans[OF g3 g4] order_refl] and k3 = items_at_kept[OF i3 g4 order_refl]
  have "grows (16 * (length auxv + 1) + 8 * (length pe + length pa + 3)) st s4"
    using grows_trans[OF g1 grows_trans[OF g2 grows_trans[OF g3 g4]]] by (simp add: algebra_simps)
  moreover have "unat (fst s1) + 16 * length (auxv @ [Aux_NULL]) < 2 ^ 64" using sp1 lt by simp
  moreover have "unat (fst s2) + 8 * length (rev pe @ [0]) < 2 ^ 64" using sp1 sp2 lt by simp
  moreover have "unat (fst s3) + 8 * length (rev pa @ [0]) < 2 ^ 64" using sp1 sp2 sp3 lt by simp
  ultimately show ?thesis using r1 r2 r3 r4 c sp2 sp3 sp4 k1 k2 k3
    by (intro exI[of _ s1] exI[of _ s2] exI[of _ s3] exI[of _ s4] conjI) assumption+
qed

lemma held_array:
  assumes "strs_held lim st ps (rev ss)" "items_at 8 usize_bytes (snd st) a (rev ps @ [0])"
  shows "string_array (snd st) a ss"
proof -
  have "list_all2 (cstr_at (snd st)) ps (rev ss)" using assms(1) unfolding strs_held_def by (auto elim: list_all2_mono)
  then have "list_all2 (cstr_at (snd st)) (rev ps) ss" by (metis list_all2_rev rev_rev_ident)
  then show ?thesis using assms(2) unfolding string_array_def by blast
qed

lemma aligned_and: "sp AND 0xf = 0 \<longleftrightarrow> unat (sp :: usize) mod 16 = 0"
proof -
  have "(0xf :: usize) = mask 4" by (simp add: mask_eq_exp_minus_1)
  then have "sp AND 0xf = take_bit 4 sp" by (simp add: take_bit_eq_mask)
  moreover have "unat (take_bit 4 sp) = unat sp mod 16" by (simp add: take_bit_eq_mod unat_mod)
  ultimately show ?thesis by (metis unat_eq_zero)
qed

text \<open>The bytes that \<open>init_stack\<close> may use.\<close>

definition stack_need :: "u8 list list \<Rightarrow> u8 list list \<Rightarrow> AuxElement list \<Rightarrow> nat" where
  "stack_need args envp auxv = strs_size envp + strs_size args + 41 + 16 * (length auxv + 1) + 8 * (length envp + length args + 3)"

lemma init_stack_run:
  assumes "unat sp_init mod 16 = 0" "stack_need args envp auxv \<le> unat sp_init"
  shows "\<exists>sp argv env mem'. init_stack sp_init args envp auxv mem = Some ((sp, word_of_nat (length args), argv, env), mem') \<and>
    read_bytes mem' sp 8 = usize_bytes (word_of_nat (length args)) \<and> string_array mem' argv args \<and> string_array mem' env envp \<and>
    (\<exists>aux. unat aux = unat env + 8 * (length envp + 1) \<and> items_at 16 aux_bytes mem' aux (auxv @ [Aux_NULL]) \<and>
       unat aux mod 16 = 0) \<and>
    unat argv = unat sp + 8 \<and> unat env = unat argv + 8 * (length args + 1) \<and>
    (\<forall>x. sp_init \<le> x \<longrightarrow> mem' x = mem x) \<and> unat sp_init \<le> unat sp + stack_need args envp auxv"
proof -
  obtain pe st1 pa st2 st3 st4 sp5 n where r: "push_strs (rev envp) (sp_init, mem) = Some (pe, st1)"
      "push_strs (rev args) st1 = Some (pa, st2)" "push_str stack_platform st2 = Some (fst st3, st3)"
      "push_str stack_rand_bytes st3 = Some (fst st4, st4)" "align16 (fst st4) = Some sp5"
      and al: "unat sp5 mod 16 = 0" "n \<le> 16"
      and g: "grows (strs_size envp + strs_size args + 25 + n) (sp_init, mem) (sp5, snd st4)"
      and h: "strs_held (unat sp_init) (sp5, snd st4) pe (rev envp)" "strs_held (unat sp_init) (sp5, snd st4) pa (rev args)"
    using strings_run[of envp args sp_init mem] assms(2) unfolding stack_need_def by auto
  have len: "length pe = length envp" "length pa = length args"
    using h by (auto simp: strs_held_def dest: list_all2_lengthD)
  have room: "16 * (length auxv + 1) + 8 * (length pe + length pa + 3) \<le> unat (fst (sp5, snd st4))"
    using grows_fst[OF g] assms(2) al(2) by (simp add: len stack_need_def)
  let ?argc = "word_of_nat (length args) :: usize"
  obtain s1 s2 s3 s4 where t: "foldM push_aux_elm (Aux_NULL # rev auxv) (sp5, snd st4) = Some s1"
      "foldM push_usize (0 # pe) s1 = Some s2" "foldM push_usize (0 # pa) s2 = Some s3" "push_usize ?argc s3 = Some s4"
      and g': "grows (16 * (length auxv + 1) + 8 * (length pe + length pa + 3)) (sp5, snd st4) s4"
      and sp: "unat (fst s3) = unat (fst s4) + 8" "unat (fst s2) = unat (fst s3) + 8 * (length pa + 1)"
        "unat (fst s1) = unat (fst s2) + 8 * (length pe + 1)"
      and post: "read_bytes (snd s4) (fst s4) 8 = usize_bytes ?argc"
        "items_at 8 usize_bytes (snd s4) (fst s3) (rev pa @ [0])" "items_at 8 usize_bytes (snd s4) (fst s2) (rev pe @ [0])"
        "items_at 16 aux_bytes (snd s4) (fst s1) (auxv @ [Aux_NULL])"
    using tables_run[OF room, of ?argc] by auto
  have lim: "unat sp_init < 2 ^ 64" using unat_lt2p[of sp_init] by simp
  have arr: "string_array (snd s4) (fst s3) args" "string_array (snd s4) (fst s2) envp"
    using held_array[OF strs_held_kept[OF h(2) g' lim] post(2)] held_array[OF strs_held_kept[OF h(1) g' lim] post(3)] by auto
  have top: "\<forall>x. sp_init \<le> x \<longrightarrow> snd s4 x = mem x" "unat sp_init \<le> unat (fst s4) + stack_need args envp auxv"
    using grows_trans[OF g g'] al(2) by (simp_all add: grows_def len stack_need_def)
  have "unat sp5 = unat (fst s1) + 16 * (length auxv + 1)" using grows_fst[OF g'] sp by (simp add: len)
  then have aux: "unat (fst s1) mod 16 = 0" using al(1) by (metis add.commute mod_mult_self2)
  obtain u1 u2 u3 where u: "push_aux_elm Aux_NULL (sp5, snd st4) = Some u1" "foldM push_aux_elm (rev auxv) u1 = Some s1"
      "push_usize 0 s1 = Some u2" "foldM push_usize pe u2 = Some s2" "push_usize 0 s2 = Some u3" "foldM push_usize pa u3 = Some s3"
    using t by (auto simp: bind_eq_Some_conv)
  have "init_stack sp_init args envp auxv mem = Some ((fst s4, ?argc, fst s3, fst s2), snd s4)"
    using r u t(4) assms(1) by (simp add: init_stack_def aligned_and Let_def case_prod_beta)
  then show ?thesis using post(1,4) arr top sp aux by (intro exI conjI) (auto simp: len)
qed

section \<open>Properties\<close>

text \<open>
  (C39) The stack of a new program: with an aligned start and enough room, \<open>init_stack\<close> succeeds. The
  word at the returned stack pointer is the number of arguments, the returned \<open>argv\<close> and \<open>envp\<close>
  are null-terminated arrays of pointers to the given strings, in order and NUL-terminated, the
  auxiliary vector follows the environment and ends with its null element, \<open>argv\<close> comes right after
  the count and \<open>envp\<close> right after \<open>argv\<close>, and nothing at or above the start of the stack is written.
\<close>

theorem init_stack_layout:
  assumes "unat sp_init mod 16 = 0" "stack_need args envp auxv \<le> unat sp_init"
  shows "\<exists>sp argv env mem'. init_stack sp_init args envp auxv mem = Some ((sp, word_of_nat (length args), argv, env), mem') \<and>
    read_bytes mem' sp 8 = usize_bytes (word_of_nat (length args)) \<and> string_array mem' argv args \<and> string_array mem' env envp \<and>
    (\<exists>aux. unat aux = unat env + 8 * (length envp + 1) \<and> items_at 16 aux_bytes mem' aux (auxv @ [Aux_NULL])) \<and>
    unat argv = unat sp + 8 \<and> unat env = unat argv + 8 * (length args + 1) \<and>
    (\<forall>x. sp_init \<le> x \<longrightarrow> mem' x = mem x)"
  using init_stack_run[OF assms, of mem] by blast

text \<open>A small program: two arguments and one variable.\<close>

definition tiny_args :: "u8 list list" where "tiny_args = [[0x6c, 0x73], [0x2d, 0x6c]]"
definition tiny_env :: "u8 list list" where "tiny_env = [[0x41, 0x3d, 0x42]]"

lemma tiny_need: "stack_need tiny_args tiny_env [] \<le> unat (0x2000 :: usize)" "unat (0x2000 :: usize) mod 16 = 0"
  "stack_need tiny_args [] [] \<le> unat (0x2000 :: usize)"
  by (simp_all add: stack_need_def strs_size_def tiny_args_def tiny_env_def)

theorem init_stack_layout_witness:
  "\<exists>sp argv env mem'. init_stack 0x2000 tiny_args tiny_env [] (\<lambda>_. 0xff) = Some ((sp, 2, argv, env), mem') \<and>
     string_array mem' argv tiny_args \<and> string_array mem' env tiny_env"
proof -
  have "word_of_nat (length tiny_args) = (2 :: usize)" by (simp add: tiny_args_def)
  then show ?thesis using init_stack_layout[OF tiny_need(2,1), of "\<lambda>_. 0xff"] by auto
qed

text \<open>
  The comment in \<open>init_stack\<close> says that the stack pointer is always kept 16-byte aligned. It is
  returned aligned exactly when the number of arguments and variables together is odd; otherwise it
  is eight bytes off.
\<close>

theorem init_stack_alignment:
  assumes "unat sp_init mod 16 = 0" "stack_need args envp auxv \<le> unat sp_init"
    and "init_stack sp_init args envp auxv mem = Some ((sp, argc, argv, env), mem')"
  shows "unat sp mod 16 = (if odd (length args + length envp) then 0 else 8)"
proof -
  obtain sp' argv' env' m and aux :: usize where r: "init_stack sp_init args envp auxv mem = Some ((sp', word_of_nat (length args), argv', env'), m)"
      and e: "unat aux = unat env' + 8 * (length envp + 1)" "unat aux mod 16 = 0"
      "unat argv' = unat sp' + 8" "unat env' = unat argv' + 8 * (length args + 1)"
    using init_stack_run[OF assms(1,2), of mem] by (elim exE conjE) (rule that, assumption+)
  have "sp' = sp" using r assms(3) by simp
  then have "unat aux = unat sp + 8 * (length args + length envp + 3)" using e by simp
  then have m: "(unat sp + 8 * (length args + length envp + 3)) mod 16 = 0" using e(2) by simp
  have "(a + 8 * (n + 3)) mod 16 = 0 \<Longrightarrow> a mod 16 = (if odd n then 0 else 8)" for a n :: nat
  proof (cases "even n")
    case True
    then obtain k where "n = 2 * k" by blast
    moreover assume "(a + 8 * (n + 3)) mod 16 = 0"
    ultimately show ?thesis by simp arith
  next
    case False
    then obtain k where "n = 2 * k + 1" by (rule oddE)
    moreover assume "(a + 8 * (n + 3)) mod 16 = 0"
    ultimately show ?thesis by simp arith
  qed
  from this[OF m] show ?thesis .
qed

theorem init_stack_alignment_witness:
  "\<exists>sp argc argv env mem'. init_stack 0x2000 tiny_args [] [] (\<lambda>_. 0) = Some ((sp, argc, argv, env), mem') \<and> unat sp mod 16 = 8"
proof -
  obtain sp argc argv env mem' where r: "init_stack 0x2000 tiny_args [] [] (\<lambda>_. 0) = Some ((sp, argc, argv, env), mem')"
    using init_stack_run[OF tiny_need(2,3), of "\<lambda>_. 0"] by blast
  show ?thesis using init_stack_alignment[OF tiny_need(2,3) r] r by (auto simp: tiny_args_def)
qed

end
