(* ===== verification/Elf.thy ===== *)
theory Elf
  imports User_Space Init_Stack
begin

text \<open>
  The ELF loader, \<^verbatim>\<open>process/elf/info.rs\<close> and \<^verbatim>\<open>process/elf/mod.rs\<close>. The file is read through its method
  \<open>read_at\<close>, an argument \<open>rd\<close> of the definitions: \<open>rd off n\<close> gives at most \<open>n\<close> bytes or an error. The
  crate \<open>xmas_elf\<close> is an argument \<open>X\<close>: the sizes and decoders of its two header structures, the bounds
  of its reserved type ranges and the tests of its flag type. What the loader writes to user memory
  is an output, a list of addresses with the bytes written there.
\<close>

type_synonym read_at = "usize \<Rightarrow> nat \<Rightarrow> u8 list SysResult"

record HeaderPt1 =
  magic :: "u8 list"
  is_class64 :: bool

record xmas_elf =
  pt1_size :: nat
  pt2_size :: nat
  dec_pt1 :: "u8 list \<Rightarrow> HeaderPt1"
  dec_pt2 :: "u8 list \<Rightarrow> HeaderPt2"
  TYPE_GNU_RELRO :: u32
  TYPE_LOOS :: u32
  TYPE_HIOS :: u32
  TYPE_LOPROC :: u32
  TYPE_HIPROC :: u32
  SHT_LOOS :: u32
  SHT_HIOS :: u32
  SHT_LOPROC :: u32
  SHT_HIPROC :: u32
  SHT_LOUSER :: u32
  SHT_HIUSER :: u32
  fl_is_read :: "u32 \<Rightarrow> bool"
  fl_is_write :: "u32 \<Rightarrow> bool"
  fl_is_execute :: "u32 \<Rightarrow> bool"

section \<open>Headers\<close>

definition le_word :: "u8 list \<Rightarrow> 'a::len word" where
  "le_word bs = foldr (\<lambda>b w. ucast b OR push_bit 8 w) bs 0"

definition field :: "u8 list \<Rightarrow> nat \<Rightarrow> nat \<Rightarrow> 'a::len word" where
  "field bs off n = le_word (take n (drop off bs))"

record ProgramHeader =
  ph_type :: u32
  ph_flags :: u32
  ph_off :: u64
  virtual_addr :: u64
  physical_addr :: u64
  file_size :: u64
  mem_size :: u64
  ph_align :: u64

definition decode_ph :: "u8 list \<Rightarrow> ProgramHeader" where
  "decode_ph bs = \<lparr>ph_type = field bs 0 4, ph_flags = field bs 4 4, ph_off = field bs 8 8, virtual_addr = field bs 16 8,
     physical_addr = field bs 24 8, file_size = field bs 32 8, mem_size = field bs 40 8, ph_align = field bs 48 8\<rparr>"

record SectionHeader =
  sh_name :: u32
  sh_type :: u32
  sh_flags :: u64
  sh_address :: u64
  sh_off :: u64
  sh_size :: u64
  sh_link :: u32
  sh_info :: u32
  sh_align :: u64
  sh_entsize :: u64

definition decode_sh :: "u8 list \<Rightarrow> SectionHeader" where
  "decode_sh bs = \<lparr>sh_name = field bs 0 4, sh_type = field bs 4 4, sh_flags = field bs 8 8, sh_address = field bs 16 8,
     sh_off = field bs 24 8, sh_size = field bs 32 8, sh_link = field bs 40 4, sh_info = field bs 44 4,
     sh_align = field bs 48 8, sh_entsize = field bs 56 8\<rparr>"

datatype PhType = Ph_Null | Ph_Load | Ph_Dynamic | Ph_Interp | Ph_Note | Ph_ShLib | Ph_Phdr | Ph_Tls | Ph_GnuRelro
  | Ph_OsSpecific u32 | Ph_ProcessorSpecific u32

definition ph_as_type :: "xmas_elf \<Rightarrow> u32 \<Rightarrow> PhType SysResult" where
  "ph_as_type X t =
     (if t = 0 then Inr Ph_Null else if t = 1 then Inr Ph_Load else if t = 2 then Inr Ph_Dynamic
      else if t = 3 then Inr Ph_Interp else if t = 4 then Inr Ph_Note else if t = 5 then Inr Ph_ShLib
      else if t = 6 then Inr Ph_Phdr else if t = 7 then Inr Ph_Tls
      else if t = TYPE_GNU_RELRO X then Inr Ph_GnuRelro
      else if TYPE_LOOS X \<le> t \<and> t \<le> TYPE_HIOS X then Inr (Ph_OsSpecific t)
      else if TYPE_LOPROC X \<le> t \<and> t \<le> TYPE_HIPROC X then Inr (Ph_ProcessorSpecific t)
      else Inl EFAULT)"

datatype ShType = Sh_Null | Sh_ProgBits | Sh_SymTab | Sh_StrTab | Sh_Rela | Sh_Hash | Sh_Dynamic | Sh_Note | Sh_NoBits
  | Sh_Rel | Sh_ShLib | Sh_DynSym | Sh_InitArray | Sh_FiniArray | Sh_PreInitArray | Sh_Group | Sh_SymTabShIndex
  | Sh_OsSpecific u32 | Sh_ProcessorSpecific u32 | Sh_User u32

definition sh_as_type :: "xmas_elf \<Rightarrow> u32 \<Rightarrow> ShType SysResult" where
  "sh_as_type X t =
     (if t = 0 then Inr Sh_Null else if t = 1 then Inr Sh_ProgBits else if t = 2 then Inr Sh_SymTab
      else if t = 3 then Inr Sh_StrTab else if t = 4 then Inr Sh_Rela else if t = 5 then Inr Sh_Hash
      else if t = 6 then Inr Sh_Dynamic else if t = 7 then Inr Sh_Note else if t = 8 then Inr Sh_NoBits
      else if t = 9 then Inr Sh_Rel else if t = 10 then Inr Sh_ShLib else if t = 11 then Inr Sh_DynSym
      else if t = 14 then Inr Sh_InitArray else if t = 15 then Inr Sh_FiniArray else if t = 16 then Inr Sh_PreInitArray
      else if t = 17 then Inr Sh_Group else if t = 18 then Inr Sh_SymTabShIndex
      else if SHT_LOOS X \<le> t \<and> t \<le> SHT_HIOS X then Inr (Sh_OsSpecific t)
      else if SHT_LOPROC X \<le> t \<and> t \<le> SHT_HIPROC X then Inr (Sh_ProcessorSpecific t)
      else if SHT_LOUSER X \<le> t \<and> t \<le> SHT_HIUSER X then Inr (Sh_User t)
      else Inl EFAULT)"

section \<open>Parsing\<close>

definition read_obj :: "(u8 list \<Rightarrow> 'a) \<Rightarrow> nat \<Rightarrow> read_at \<Rightarrow> usize \<Rightarrow> 'a SysResult" where
  "read_obj dec sz rd off = (case rd off sz of
     Inl e \<Rightarrow> Inl e
   | Inr bs \<Rightarrow> if length bs < sz then Inl EFAULT else Inr (dec bs))"

definition parse :: "xmas_elf \<Rightarrow> read_at \<Rightarrow> ((HeaderPt1 \<times> HeaderPt2) SysResult) option" where
  "parse X rd = (case read_obj (dec_pt1 X) (pt1_size X) rd 0 of
     Inl e \<Rightarrow> Some (Inl e)
   | Inr pt1 \<Rightarrow>
       if magic pt1 \<noteq> [0x7f, 0x45, 0x4c, 0x46] then Some (Inl EFAULT)
       else do {
         rassert (is_class64 pt1);
         (case read_obj (dec_pt2 X) (pt2_size X) rd (word_of_nat (pt1_size X)) of
            Inl e \<Rightarrow> Some (Inl e)
          | Inr pt2 \<Rightarrow> Some (Inr (pt1, pt2))) })"

definition program_header :: "read_at \<Rightarrow> HeaderPt2 \<Rightarrow> usize \<Rightarrow> (ProgramHeader SysResult) option" where
  "program_header rd pt2 index = do {
     rassert (index < ucast (ph_count pt2));
     if ph_offset pt2 = 0 \<or> ph_entry_size pt2 = 0 then Some (Inl EFAULT)
     else do {
       d \<leftarrow> umul index (ucast (ph_entry_size pt2));
       start \<leftarrow> uadd (ph_offset pt2) d;
       Some (read_obj decode_ph 56 rd start) } }"

definition section_header :: "read_at \<Rightarrow> HeaderPt2 \<Rightarrow> usize \<Rightarrow> (SectionHeader SysResult) option" where
  "section_header rd pt2 index = do {
     rassert (index < ucast (sh_count pt2));
     d \<leftarrow> umul index (ucast (sh_entry_size pt2));
     start \<leftarrow> uadd (sh_offset pt2) d;
     Some (read_obj decode_sh 64 rd start) }"

text \<open>The loop that reads a name in chunks of 128 bytes; \<open>fuel\<close> bounds the number of chunks. The result
  is the bytes of the name; that they are valid UTF-8 is the test \<open>utf8\<close>.\<close>

fun get_shstr_loop :: "read_at \<Rightarrow> nat \<Rightarrow> usize \<Rightarrow> u8 list \<Rightarrow> (u8 list SysResult) option" where
  "get_shstr_loop rd 0 cur s = None"
| "get_shstr_loop rd (Suc fuel) cur s = (case rd cur 128 of
     Inl e \<Rightarrow> Some (Inl e)
   | Inr buf \<Rightarrow>
       if 0 \<in> set buf then Some (Inr (s @ takeWhile (\<lambda>c. c \<noteq> 0) buf))
       else if length buf < 128 then Some (Inr (s @ buf))
       else do { cur \<leftarrow> uadd cur (word_of_nat (length buf)); get_shstr_loop rd fuel cur (s @ buf) })"

definition get_shstr :: "(u8 list \<Rightarrow> bool) \<Rightarrow> nat \<Rightarrow> read_at \<Rightarrow> HeaderPt2 \<Rightarrow> u32 \<Rightarrow> (u8 list SysResult) option" where
  "get_shstr utf8 fuel rd pt2 index = do {
     h \<leftarrow> section_header rd pt2 (ucast (sh_str_index pt2));
     case h of
       Inl e \<Rightarrow> Some (Inl e)
     | Inr sh \<Rightarrow> do {
         cur \<leftarrow> uadd (sh_off sh) (ucast index);
         r \<leftarrow> get_shstr_loop rd fuel cur [];
         Some (case r of Inl e \<Rightarrow> Inl e | Inr s \<Rightarrow> if utf8 s then Inr s else Inl EFAULT) } }"

definition sh_get_name ::
  "xmas_elf \<Rightarrow> (u8 list \<Rightarrow> bool) \<Rightarrow> nat \<Rightarrow> read_at \<Rightarrow> HeaderPt2 \<Rightarrow> SectionHeader \<Rightarrow> (u8 list SysResult) option" where
  "sh_get_name X utf8 fuel rd pt2 sh = (case sh_as_type X (sh_type sh) of
     Inl e \<Rightarrow> Some (Inl e)
   | Inr t \<Rightarrow> if t = Sh_Null then Some (Inl EFAULT) else get_shstr utf8 fuel rd pt2 (sh_name sh))"

fun find_section_loop ::
  "xmas_elf \<Rightarrow> (u8 list \<Rightarrow> bool) \<Rightarrow> nat \<Rightarrow> read_at \<Rightarrow> HeaderPt2 \<Rightarrow> u8 list \<Rightarrow> nat list \<Rightarrow> (SectionHeader option SysResult) option" where
  "find_section_loop X utf8 fuel rd pt2 name [] = Some (Inr None)"
| "find_section_loop X utf8 fuel rd pt2 name (i # is) = do {
     h \<leftarrow> section_header rd pt2 (word_of_nat i);
     case h of
       Inl e \<Rightarrow> Some (Inl e)
     | Inr sh \<Rightarrow> do {
         n \<leftarrow> sh_get_name X utf8 fuel rd pt2 sh;
         if n = Inr name then Some (Inr (Some sh)) else find_section_loop X utf8 fuel rd pt2 name is } }"

definition find_section_by_name ::
  "xmas_elf \<Rightarrow> (u8 list \<Rightarrow> bool) \<Rightarrow> nat \<Rightarrow> read_at \<Rightarrow> HeaderPt2 \<Rightarrow> u8 list \<Rightarrow> (SectionHeader option SysResult) option" where
  "find_section_by_name X utf8 fuel rd pt2 name = find_section_loop X utf8 fuel rd pt2 name [0..<unat (sh_count pt2)]"

definition sh_raw_data :: "xmas_elf \<Rightarrow> read_at \<Rightarrow> SectionHeader \<Rightarrow> (u8 list SysResult) option" where
  "sh_raw_data X rd sh = (case sh_as_type X (sh_type sh) of
     Inl e \<Rightarrow> None
   | Inr t \<Rightarrow> do {
       rassert (t \<noteq> Sh_Null);
       Some (case rd (sh_off sh) (unat (sh_size sh)) of
         Inl e \<Rightarrow> Inl e
       | Inr v \<Rightarrow> if length v \<noteq> unat (sh_size sh) then Inl EFAULT else Inr v) })"

section \<open>Loading\<close>

definition perm_from_flags :: "xmas_elf \<Rightarrow> u32 \<Rightarrow> UserAreaPerm" where
  "perm_from_flags X fl = (
     let p = 0;
         p = (if fl_is_read X fl then p OR P_READ else p);
         p = (if fl_is_write X fl then p OR P_WRITE else p)
     in if fl_is_execute X fl then p OR P_EXECUTE else p)"

text \<open>The state of the loader: the address space, the memory, what was written to user memory, and the
  lowest address of a segment so far.\<close>

record ('f, 'fa) load_state =
  ld_us :: "'f UserSpace"
  ld_mem :: "'fa kmem"
  ld_writes :: "(usize \<times> u8 list) list"
  elf_begin :: usize

definition load_segment ::
  "platform \<Rightarrow> 'fa BitAlloc \<Rightarrow> ('f, 'fa) get_page \<Rightarrow> usize \<Rightarrow> xmas_elf \<Rightarrow> read_at \<Rightarrow> 'f \<Rightarrow> ProgramHeader \<Rightarrow>
   ('f, 'fa) load_state \<Rightarrow> (('f, 'fa) load_state SysResult) option" where
  "load_segment P B gp cur X rd elf_file ph s = do {
     let mem_begin = virtual_addr ph;
     mem_end \<leftarrow> uadd (virtual_addr ph) (mem_size ph);
     let amb = floor4k mem_begin;
     ame \<leftarrow> ceil4k mem_end;
     ams \<leftarrow> usub ame amb;
     let area_perm = perm_from_flags X (ph_flags ph);
     let begin_upd = (if mem_begin < elf_begin s then mem_begin else elf_begin s);
     if mem_size ph = file_size ph then do {
       align_off \<leftarrow> usub mem_begin amb;
       aligned_file_offset \<leftarrow> usub (ph_off ph) align_off;
       r \<leftarrow> insert_mmap_private_at amb ams area_perm elf_file aligned_file_offset (areas (ld_us s));
       (case r of
          Inl e \<Rightarrow> None
        | Inr (_, am) \<Rightarrow> Some (Inr (s\<lparr>ld_us := (ld_us s)\<lparr>areas := am\<rparr>, elf_begin := begin_upd\<rparr>))) }
     else do {
       r \<leftarrow> insert_mmap_anonymous_at amb ams area_perm (areas (ld_us s));
       (case r of
          Inl e \<Rightarrow> None
        | Inr (_, am) \<Rightarrow> do {
            (us, m) \<leftarrow> force_map_area P B gp cur amb ((ld_us s)\<lparr>areas := am\<rparr>, ld_mem s);
            (case rd (ph_off ph) (unat (file_size ph)) of
               Inl e \<Rightarrow> Some (Inl e)
             | Inr bytes \<Rightarrow> do {
                 rassert (length bytes = unat (file_size ph));
                 fe \<leftarrow> uadd mem_begin (file_size ph);
                 zeros \<leftarrow> usub mem_end fe;
                 Some (Inr (s\<lparr>ld_us := us, ld_mem := m,
                   ld_writes := ld_writes s @ [(mem_begin, bytes), (fe, replicate (unat zeros) 0)],
                   elf_begin := begin_upd\<rparr>)) }) }) } }"

fun load_loop ::
  "platform \<Rightarrow> 'fa BitAlloc \<Rightarrow> ('f, 'fa) get_page \<Rightarrow> usize \<Rightarrow> xmas_elf \<Rightarrow> read_at \<Rightarrow> 'f \<Rightarrow> HeaderPt2 \<Rightarrow> nat list \<Rightarrow>
   ('f, 'fa) load_state \<Rightarrow> (('f, 'fa) load_state SysResult) option" where
  "load_loop P B gp cur X rd elf_file pt2 [] s = Some (Inr s)"
| "load_loop P B gp cur X rd elf_file pt2 (i # is) s = do {
     h \<leftarrow> program_header rd pt2 (word_of_nat i);
     case h of
       Inl e \<Rightarrow> Some (Inl e)
     | Inr ph \<Rightarrow> (case ph_as_type X (ph_type ph) of
         Inl e \<Rightarrow> Some (Inl e)
       | Inr t \<Rightarrow>
           if t \<noteq> Ph_Load then load_loop P B gp cur X rd elf_file pt2 is s
           else do {
             r \<leftarrow> load_segment P B gp cur X rd elf_file ph s;
             case r of Inl e \<Rightarrow> Some (Inl e) | Inr s \<Rightarrow> load_loop P B gp cur X rd elf_file pt2 is s }) }"

definition parse_and_map_elf_file ::
  "platform \<Rightarrow> 'fa BitAlloc \<Rightarrow> ('f, 'fa) get_page \<Rightarrow> usize \<Rightarrow> xmas_elf \<Rightarrow> read_at \<Rightarrow> 'f \<Rightarrow> 'f UserSpace \<times> 'fa kmem \<Rightarrow>
   (((usize \<times> AuxElement list) \<times> ('f, 'fa) load_state) SysResult) option" where
  "parse_and_map_elf_file P B gp cur X rd elf_file s = (case s of (us, m) \<Rightarrow> do {
     e \<leftarrow> parse X rd;
     case e of
       Inl err \<Rightarrow> Some (Inl err)
     | Inr (_, pt2) \<Rightarrow> do {
         r \<leftarrow> load_loop P B gp cur X rd elf_file pt2 [0..<unat (ph_count pt2)]
               \<lparr>ld_us = us, ld_mem = m, ld_writes = [], elf_begin = - 1\<rparr>;
         case r of
           Inl err \<Rightarrow> Some (Inl err)
         | Inr s \<Rightarrow> do {
             rassert (elf_begin s \<noteq> - 1);
             auxv \<leftarrow> from_elf_analyzer pt2 (elf_begin s);
             Some (Inr ((entry_point pt2, auxv), s)) } } })"

end
