(* ===== verification/Elf_Laws.thy ===== *)
theory Elf_Laws
  imports Elf
begin

text \<open>The loader maps every loadable segment of the file where its header says.\<close>

section \<open>Insertions\<close>

lemma insert_at_Inr:
  assumes i: "rm_inv am" and r: "insert_at b n a am = Some (Inr (rng, am'))"
  shows "\<exists>e. uadd b n = Some e \<and> b < e \<and> rm_inv am' \<and> (\<forall>x. b \<le> x \<and> x < e \<longrightarrow> areas_view am x = None) \<and>
    (\<forall>x. areas_view am' x = (if b \<le> x \<and> x < e then Some (area_view a b x) else areas_view am x))"
proof -
  obtain e ins where e: "uadd b n = Some e" and t: "rm_try_insert am (b, e) a = Some ins" and ins: "ins = Inr am'"
    using r by (cases "uadd b n"; cases "rm_try_insert am (b, the (uadd b n)) a"; cases "the (rm_try_insert am (b, the (uadd b n)) a)")
      (auto simp: insert_at_def)
  have be: "b < e" using t by (auto simp: rm_try_insert_def split: if_splits)
  have no: "\<not> overlaps (segs am) b e" and am': "am' = bt_insert b \<lparr>node_end = e, node_value = a\<rparr> am"
    using t ins by (auto simp: rm_try_insert_eq[OF i be] split: if_splits)
  have "areas_view am x = None" if "b \<le> x" "x < e" for x
    using not_overlaps_seg_at[OF no that, of area_view] by (metis not_Some_eq rm_view_eq_Some[OF i])
  moreover have "areas_view am' x = (if b \<le> x \<and> x < e then Some (area_view a b x) else areas_view am x)" for x
    by (simp add: am' rm_view_insert_free[OF i be no])
  ultimately show ?thesis using e be rm_inv_insert_free[OF i be no] by (auto simp only: am')
qed

lemma force_map_area_areas:
  assumes "force_map_area P B gp cur va (us, m) = Some (us', m')"
  shows "areas us' = areas us"
  using assms by (auto simp: force_map_area_def force_map_range_def bind_eq_Some_conv)

section \<open>One segment\<close>

definition segment_source :: "'f \<Rightarrow> ProgramHeader \<Rightarrow> usize \<Rightarrow> 'f page_source" where
  "segment_source f ph x = (if mem_size ph = file_size ph
     then FilePage f (unat (ph_off ph) + unat x - unat (virtual_addr ph)) else ZeroPage)"

lemma aligned_end:
  assumes "uadd b n = Some e" "ceil4k e = Some ame" "amb = floor4k b" "usub ame amb = Some sz" "uadd amb sz = Some e'"
  shows "amb \<le> b" "unat e = unat b + unat n" "unat e \<le> unat e'"
proof -
  show "amb \<le> b" using unat_floor4k[of b] assms(3) by (simp add: word_le_nat_alt)
  show ue: "unat e = unat b + unat n" by (rule unat_uadd[OF assms(1)])
  have lt: "unat e + 4096 < 2 ^ 64" and ame: "ame = word_of_nat ((unat e + 4095) div 4096 * 4096)"
    using assms(2) by (auto simp: ceil4k_eq split: if_splits)
  have "(unat e + 4095) div 4096 * 4096 < 2 ^ 64" using lt by simp
  then have "unat ame = (unat e + 4095) div 4096 * 4096" unfolding ame by (intro unat_word_of_nat) simp
  then have "unat e \<le> unat ame" by simp
  moreover have "unat e' = unat ame"
    using unat_uadd[OF assms(5)] unat_usub[OF assms(4)] assms(4) by (auto simp: usub_def word_le_nat_alt split: if_splits)
  ultimately show "unat e \<le> unat e'" by simp
qed

lemma load_segment_view:
  assumes "load_segment P B gp cur X rd f ph s = Some (Inr s')" and i: "rm_inv (areas (ld_us s))"
  shows "rm_inv (areas (ld_us s'))"
    "areas_view (areas (ld_us s)) x = Some v \<Longrightarrow> areas_view (areas (ld_us s')) x = Some v"
    "unat (virtual_addr ph) \<le> unat x \<Longrightarrow> unat x < unat (virtual_addr ph) + unat (mem_size ph) \<Longrightarrow>
      areas_view (areas (ld_us s')) x = Some (perm_from_flags X (ph_flags ph), segment_source f ph x)"
proof -
  let ?b = "virtual_addr ph" and ?p = "perm_from_flags X (ph_flags ph)"
  obtain e ame sz where e: "uadd ?b (mem_size ph) = Some e" and ame: "ceil4k e = Some ame"
      and sz: "usub ame (floor4k ?b) = Some sz"
    using assms(1) by (auto simp: load_segment_def bind_eq_Some_conv Let_def)
  obtain a rng am' where ins: "insert_at (floor4k ?b) sz a (areas (ld_us s)) = Some (Inr (rng, am'))"
      and am': "areas (ld_us s') = am'" and pa: "perm a = ?p"
      and src: "?b \<le> x \<Longrightarrow> source_at (kind a) (floor4k ?b) x = segment_source f ph x"
  proof (cases "mem_size ph = file_size ph")
    case True
    then obtain d off rng am' where d: "usub ?b (floor4k ?b) = Some d" and off: "usub (ph_off ph) d = Some off"
        and ins: "insert_at (floor4k ?b) sz (new_private ?p f off) (areas (ld_us s)) = Some (Inr (rng, am'))"
        and s': "areas (ld_us s') = am'"
      using assms(1) e ame sz
      by (auto simp: load_segment_def bind_eq_Some_conv Let_def insert_mmap_private_at_def) (auto split: sum.splits prod.splits)
    have "source_at (kind (new_private ?p f off)) (floor4k ?b) x = segment_source f ph x" if "?b \<le> x"
    proof -
      have "unat off = unat (ph_off ph) - unat d" "unat d \<le> unat (ph_off ph)" "unat d = unat ?b - unat (floor4k ?b)"
        using unat_usub[OF off] unat_usub[OF d] off by (auto simp: usub_def word_le_nat_alt split: if_splits)
      moreover have "unat (floor4k ?b) \<le> unat ?b" by (simp add: unat_floor4k)
      ultimately show ?thesis using that True by (simp add: new_private_def segment_source_def word_le_nat_alt)
    qed
    then show ?thesis using that[OF ins s'] by (simp add: new_private_def)
  next
    case False
    then obtain rng am' us m where ins: "insert_at (floor4k ?b) sz (new_anonymous ?p) (areas (ld_us s)) = Some (Inr (rng, am'))"
        and fm: "force_map_area P B gp cur (floor4k ?b) ((ld_us s)\<lparr>areas := am'\<rparr>, ld_mem s) = Some (us, m)"
        and us: "ld_us s' = us"
      using assms(1) e ame sz
      by (cases "rd (ph_off ph) (unat (file_size ph))";
          auto simp: load_segment_def bind_eq_Some_conv Let_def insert_mmap_anonymous_at_def;
          auto simp: bind_eq_Some_conv split: sum.splits prod.splits if_splits)
    then show ?thesis using that[OF ins] force_map_area_areas[OF fm] False
      by (simp add: new_anonymous_def segment_source_def)
  qed
  obtain e' where e': "uadd (floor4k ?b) sz = Some e'" and inv: "rm_inv am'"
      and free: "\<forall>x. floor4k ?b \<le> x \<and> x < e' \<longrightarrow> areas_view (areas (ld_us s)) x = None"
      and view: "\<forall>x. areas_view am' x = (if floor4k ?b \<le> x \<and> x < e' then Some (area_view a (floor4k ?b) x)
        else areas_view (areas (ld_us s)) x)"
    using insert_at_Inr[OF i ins] by auto
  show "rm_inv (areas (ld_us s'))" using inv am' by simp
  show "areas_view (areas (ld_us s)) x = Some v \<Longrightarrow> areas_view (areas (ld_us s')) x = Some v"
    using free view am' by (metis option.distinct(1))
  note al = aligned_end[OF e ame refl sz e']
  show "areas_view (areas (ld_us s')) x = Some (?p, segment_source f ph x)"
    if "unat ?b \<le> unat x" "unat x < unat ?b + unat (mem_size ph)"
    using view al that src pa by (simp add: am' area_view_def word_le_nat_alt word_less_nat_alt)
qed

section \<open>All segments\<close>

lemma load_loop_view:
  assumes "load_loop P B gp cur X rd f pt2 is s = Some (Inr s')" "rm_inv (areas (ld_us s))"
  shows "rm_inv (areas (ld_us s')) \<and>
    (\<forall>x v. areas_view (areas (ld_us s)) x = Some v \<longrightarrow> areas_view (areas (ld_us s')) x = Some v) \<and>
    (\<forall>i ph x. i \<in> set is \<and> program_header rd pt2 (word_of_nat i) = Some (Inr ph) \<and> ph_as_type X (ph_type ph) = Inr Ph_Load \<and>
       unat (virtual_addr ph) \<le> unat x \<and> unat x < unat (virtual_addr ph) + unat (mem_size ph) \<longrightarrow>
       areas_view (areas (ld_us s')) x = Some (perm_from_flags X (ph_flags ph), segment_source f ph x))"
  using assms
proof (induction "is" arbitrary: s)
  case (Cons i "is")
  obtain ph t where h: "program_header rd pt2 (word_of_nat i) = Some (Inr ph)" and t: "ph_as_type X (ph_type ph) = Inr t"
    using Cons.prems(1) by (auto simp: bind_eq_Some_conv; auto split: sum.splits)
  show ?case
  proof (cases "t = Ph_Load")
    case True
    then obtain s1 where l: "load_segment P B gp cur X rd f ph s = Some (Inr s1)"
        and r: "load_loop P B gp cur X rd f pt2 is s1 = Some (Inr s')"
      using Cons.prems(1) h t by (auto simp: bind_eq_Some_conv; auto split: sum.splits)
    note seg = load_segment_view[OF l Cons.prems(2)]
    note IH = Cons.IH[OF r seg(1)]
    have "areas_view (areas (ld_us s')) x = Some (perm_from_flags X (ph_flags ph'), segment_source f ph' x)"
      if "j \<in> set (i # is)" "program_header rd pt2 (word_of_nat j) = Some (Inr ph')" "ph_as_type X (ph_type ph') = Inr Ph_Load"
        "unat (virtual_addr ph') \<le> unat x" "unat x < unat (virtual_addr ph') + unat (mem_size ph')" for j ph' x
    proof (cases "j \<in> set is")
      case False
      then have "ph' = ph" using that(1,2) h by simp
      then show ?thesis using seg(3)[of x] that(4,5) IH by simp
    qed (use that IH in blast)
    then show ?thesis using IH seg(2) by blast
  next
    case False
    then have r: "load_loop P B gp cur X rd f pt2 is s = Some (Inr s')" using Cons.prems(1) h t by simp
    have "j \<in> set is" if "j \<in> set (i # is)" "program_header rd pt2 (word_of_nat j) = Some (Inr ph')"
        "ph_as_type X (ph_type ph') = Inr Ph_Load" for j ph'
      using that h t False by auto
    then show ?thesis using Cons.IH[OF r Cons.prems(2)] by blast
  qed
qed simp

section \<open>Properties\<close>

text \<open>
  (C40) Loading a program: when \<open>parse_and_map_elf_file\<close> succeeds, every address of every loadable
  segment is mapped with the permissions of the segment; a segment whose file and memory sizes agree
  shows at each of its addresses the file at the segment's file offset plus the distance from the
  start of the segment, although both ends were rounded to pages, and any other segment is anonymous
  memory. The entry point is the one of the header.
\<close>

theorem elf_segments_mapped:
  assumes "parse_and_map_elf_file P B gp cur X rd f (us, m) = Some (Inr ((entry, auxv), s))" "rm_inv (areas us)"
    and "parse X rd = Some (Inr (pt1, pt2))" "i < unat (ph_count pt2)"
    and "program_header rd pt2 (word_of_nat i) = Some (Inr ph)" "ph_as_type X (ph_type ph) = Inr Ph_Load"
    and "unat (virtual_addr ph) \<le> unat x" "unat x < unat (virtual_addr ph) + unat (mem_size ph)"
  shows "areas_view (areas (ld_us s)) x = Some (perm_from_flags X (ph_flags ph), segment_source f ph x) \<and> entry = entry_point pt2"
proof -
  have r: "load_loop P B gp cur X rd f pt2 [0..<unat (ph_count pt2)]
      \<lparr>ld_us = us, ld_mem = m, ld_writes = [], elf_begin = - 1\<rparr> = Some (Inr s)" and en: "entry = entry_point pt2"
    using assms(1,3)
    by (simp_all add: parse_and_map_elf_file_def split: bind_split_asm sum.split_asm if_split_asm)
  show ?thesis using load_loop_view[OF r] assms(2,4-8) en by simp
qed

text \<open>A file of one segment: two pages at address \<open>0x10000\<close>, from file offset \<open>0x1000\<close>.\<close>

definition tiny_pt2 :: HeaderPt2 where
  "tiny_pt2 = \<lparr>entry_point = 0x10010, ph_offset = 64, sh_offset = 0, ph_entry_size = 56, ph_count = 1, sh_entry_size = 0,
     sh_count = 0, sh_str_index = 0\<rparr>"

definition tiny_elf :: xmas_elf where
  "tiny_elf = \<lparr>pt1_size = 16, pt2_size = 48, dec_pt1 = (\<lambda>bs. \<lparr>magic = take 4 bs, is_class64 = (bs ! 4 = 2)\<rparr>),
     dec_pt2 = (\<lambda>bs. tiny_pt2), TYPE_GNU_RELRO = 0x6474e552, TYPE_LOOS = 0x60000000, TYPE_HIOS = 0x6fffffff,
     TYPE_LOPROC = 0x70000000, TYPE_HIPROC = 0x7fffffff, SHT_LOOS = 0x60000000, SHT_HIOS = 0x6fffffff,
     SHT_LOPROC = 0x70000000, SHT_HIPROC = 0x7fffffff, SHT_LOUSER = 0x80000000, SHT_HIUSER = 0xffffffff,
     fl_is_read = (\<lambda>f. bit f 2), fl_is_write = (\<lambda>f. bit f 1), fl_is_execute = (\<lambda>f. bit f 0)\<rparr>"

definition tiny_file :: "u8 list" where
  "tiny_file = [0x7f, 0x45, 0x4c, 0x46, 2] @ replicate 59 0 @
     [1, 0, 0, 0, 5, 0, 0, 0] @ [0, 0x10, 0, 0, 0, 0, 0, 0] @ [0, 0, 1, 0, 0, 0, 0, 0] @ replicate 8 0 @
     [0, 0x20, 0, 0, 0, 0, 0, 0] @ [0, 0x20, 0, 0, 0, 0, 0, 0] @ replicate 8 0"

definition tiny_read :: read_at where
  "tiny_read off n = Inr (take n (drop (unat off) tiny_file))"

definition tiny_ph :: ProgramHeader where
  "tiny_ph = \<lparr>ph_type = 1, ph_flags = 5, ph_off = 0x1000, virtual_addr = 0x10000, physical_addr = 0, file_size = 0x2000,
     mem_size = 0x2000, ph_align = 0\<rparr>"

lemma tiny_parse: "parse tiny_elf tiny_read = Some (Inr (\<lparr>magic = [0x7f, 0x45, 0x4c, 0x46], is_class64 = True\<rparr>, tiny_pt2))"
  by code_simp

lemma tiny_read_ph:
  "tiny_read 64 56 = Inr ([1, 0, 0, 0, 5, 0, 0, 0] @ [0, 0x10, 0, 0, 0, 0, 0, 0] @ [0, 0, 1, 0, 0, 0, 0, 0] @
     [0, 0, 0, 0, 0, 0, 0, 0] @ [0, 0x20, 0, 0, 0, 0, 0, 0] @ [0, 0x20, 0, 0, 0, 0, 0, 0] @ [0, 0, 0, 0, 0, 0, 0, 0])"
  by code_simp

lemma tiny_header: "program_header tiny_read tiny_pt2 (word_of_nat 0) = Some (Inr tiny_ph)"
  using tiny_read_ph
  by (simp add: program_header_def tiny_pt2_def umul_def uadd_def read_obj_def decode_ph_def field_def le_word_def tiny_ph_def)

lemma tiny_type: "ph_as_type tiny_elf (ph_type tiny_ph) = Inr Ph_Load" "perm_from_flags tiny_elf (ph_flags tiny_ph) = P_READ OR P_EXECUTE"
  by code_simp+

theorem elf_segments_mapped_witness:
  "\<exists>auxv s. parse_and_map_elf_file board list_alloc (\<lambda>(_ :: nat) _ _. None) 0 tiny_elf tiny_read 7
       (\<lparr>page_table = empty_pt, areas = areas_new\<rparr>, empty_mem) = Some (Inr ((0x10010, auxv), s)) \<and>
     areas_view (areas (ld_us s)) 0x11234 = Some (P_READ OR P_EXECUTE, FilePage 7 0x2234)"
proof -
  let ?us = "\<lparr>page_table = empty_pt, areas = areas_new\<rparr> :: nat UserSpace"
  have "\<exists>auxv s. parse_and_map_elf_file board list_alloc (\<lambda>(_ :: nat) _ _. None) 0 tiny_elf tiny_read 7 (?us, empty_mem) =
      Some (Inr ((0x10010, auxv), s))"
  proof -
    have fl: "floor4k 0x10000 = 0x10000" by code_simp
    have "load_segment board list_alloc (\<lambda>(_ :: nat) _ _. None) 0 tiny_elf tiny_read 7 tiny_ph
        \<lparr>ld_us = ?us, ld_mem = empty_mem, ld_writes = [], elf_begin = - 1\<rparr> =
        Some (Inr \<lparr>ld_us = ?us\<lparr>areas := bt_insert 0x10000 \<lparr>node_end = 0x12000, node_value = new_private (P_READ OR P_EXECUTE) 7 0x1000\<rparr> []\<rparr>,
          ld_mem = empty_mem, ld_writes = [], elf_begin = 0x10000\<rparr>)"
      using tiny_type(2)
      by (simp add: load_segment_def tiny_ph_def uadd_def usub_def ceil4k_eq fl areas_new_def rm_new_def
          insert_mmap_private_at_def insert_at_def rm_try_insert_def bt_last_lt_def last_of_def bt_try_insert_def)
    then show ?thesis
      using tiny_parse tiny_header tiny_type(1)
      by (simp add: parse_and_map_elf_file_def tiny_pt2_def from_elf_analyzer_def uadd_def)
  qed
  then obtain auxv s where r: "parse_and_map_elf_file board list_alloc (\<lambda>(_ :: nat) _ _. None) 0 tiny_elf tiny_read 7 (?us, empty_mem) =
      Some (Inr ((0x10010, auxv), s))" by blast
  have i: "rm_inv (areas ?us)" "0 < unat (ph_count tiny_pt2)"
    "unat (virtual_addr tiny_ph) \<le> unat (0x11234 :: usize)" "unat (0x11234 :: usize) < unat (virtual_addr tiny_ph) + unat (mem_size tiny_ph)"
    by (simp_all add: areas_new_def rm_new_def rm_inv_def segs_def segs_ok_def tiny_pt2_def tiny_ph_def)
  show ?thesis
    using elf_segments_mapped[OF r i(1) tiny_parse i(2) tiny_header tiny_type(1) i(3,4)] r tiny_type(2)
    by (simp add: segment_source_def tiny_ph_def)
qed

end
