(* ===== verification/Timer.thy ===== *)
theory Timer
  imports Prelude
begin

text \<open>
  Time values, \<^verbatim>\<open>timer/\<close> and \<^verbatim>\<open>consts/time.rs\<close>: \<open>TimeVal\<close>, \<open>TimeSpec\<close>, the per-process accounting of
  \<open>TimeStat\<close> and the tick handler. Where the code reads the clock, the reading is an argument: \<open>now\<close>
  in microseconds, \<open>t\<close> in machine ticks; the clock frequency is an argument \<open>freq\<close>.
\<close>

section \<open>Constants and the clock\<close>

definition INTERRUPT_PER_SEC :: usize where "INTERRUPT_PER_SEC = 100"
definition USEC_PER_SEC :: usize where "USEC_PER_SEC = 1000000"
definition NSEC_PER_SEC :: usize where "NSEC_PER_SEC = 1000000000"
definition USEC_PER_INTERRUPT :: usize where "USEC_PER_INTERRUPT = USEC_PER_SEC div INTERRUPT_PER_SEC"
definition UTIME_NOW :: usize where "UTIME_NOW = 0x3fffffff"
definition UTIME_OMIT :: usize where "UTIME_OMIT = 0x3ffffffe"

definition udiv :: "'a::len word \<Rightarrow> 'a word \<Rightarrow> 'a word option" where
  "udiv a b = (if b = 0 then None else Some (a div b))"

definition machine_ticks_per_usec :: "usize \<Rightarrow> usize" where
  "machine_ticks_per_usec freq = freq div USEC_PER_SEC"

definition nsec_per_machine_ticks :: "usize \<Rightarrow> usize option" where
  "nsec_per_machine_ticks freq = udiv NSEC_PER_SEC freq"

definition get_time_ms :: "usize \<Rightarrow> usize \<Rightarrow> usize option" where
  "get_time_ms freq t = do { x \<leftarrow> umul t 1000; udiv x freq }"

definition get_time_sec :: "usize \<Rightarrow> usize \<Rightarrow> usize option" where
  "get_time_sec freq t = udiv t freq"

definition get_time_us :: "usize \<Rightarrow> usize \<Rightarrow> usize option" where
  "get_time_us freq t = udiv t (machine_ticks_per_usec freq)"

definition get_next_trigger :: "usize \<Rightarrow> usize \<Rightarrow> usize option" where
  "get_next_trigger freq t = uadd t (freq div INTERRUPT_PER_SEC)"

section \<open>Time values\<close>

record TimeVal =
  tv_sec :: usize
  tv_usec :: usize

definition timeval_from_us :: "usize \<Rightarrow> TimeVal" where
  "timeval_from_us usec = \<lparr>tv_sec = usec div USEC_PER_SEC, tv_usec = usec mod USEC_PER_SEC\<rparr>"

definition timeval_to_us :: "TimeVal \<Rightarrow> usize option" where
  "timeval_to_us v = do { x \<leftarrow> umul (tv_sec v) USEC_PER_SEC; uadd x (tv_usec v) }"

definition timeval_now :: "usize \<Rightarrow> TimeVal" where
  "timeval_now now = timeval_from_us now"

definition timeval_in_ms :: "TimeVal \<Rightarrow> usize option" where
  "timeval_in_ms v = do { x \<leftarrow> umul (tv_sec v) 1000; uadd x (tv_usec v div 1000) }"

definition timeval_add :: "TimeVal \<Rightarrow> TimeVal \<Rightarrow> TimeVal option" where
  "timeval_add a b = do {
     sec \<leftarrow> uadd (tv_sec a) (tv_sec b);
     usec \<leftarrow> uadd (tv_usec a) (tv_usec b);
     if usec \<ge> USEC_PER_SEC then do { sec \<leftarrow> uadd sec 1; Some \<lparr>tv_sec = sec, tv_usec = usec - USEC_PER_SEC\<rparr> }
     else Some \<lparr>tv_sec = sec, tv_usec = usec\<rparr> }"

record TimeSpec =
  ts_sec :: usize
  ts_nsec :: usize

definition timespec_new :: "usize \<Rightarrow> usize \<Rightarrow> TimeSpec" where
  "timespec_new sec nsec = \<lparr>ts_sec = sec, ts_nsec = nsec\<rparr>"

definition timespec_now :: "usize \<Rightarrow> TimeSpec" where
  "timespec_now now = \<lparr>ts_sec = now div 1000000, ts_nsec = (now mod 1000000) * 1000\<rparr>"

definition timespec_in_ms :: "TimeSpec \<Rightarrow> usize option" where
  "timespec_in_ms v = do { x \<leftarrow> umul (ts_sec v) 1000; uadd x (ts_nsec v div 1000000) }"

definition timespec_in_ns :: "TimeSpec \<Rightarrow> usize option" where
  "timespec_in_ns v = do { x \<leftarrow> umul (ts_sec v) 1000000000; uadd x (ts_nsec v) }"

definition timespec_add :: "TimeSpec \<Rightarrow> TimeSpec \<Rightarrow> TimeSpec option" where
  "timespec_add a b = do {
     sec \<leftarrow> uadd (ts_sec a) (ts_sec b);
     nsec \<leftarrow> uadd (ts_nsec a) (ts_nsec b);
     if nsec \<ge> NSEC_PER_SEC then do { sec \<leftarrow> uadd sec 1; Some \<lparr>ts_sec = sec, ts_nsec = nsec - NSEC_PER_SEC\<rparr> }
     else Some \<lparr>ts_sec = sec, ts_nsec = nsec\<rparr> }"

record Tms =
  tms_utime :: usize
  tms_stime :: usize
  tms_cutime :: usize
  tms_cstime :: usize

record Rusage =
  ru_utime :: TimeVal
  ru_stime :: TimeVal

section \<open>Accounting\<close>

record TimeStat =
  utime_us :: usize
  stime_us :: usize
  user_tick :: usize
  kernel_tick :: usize
  start_tick :: usize

definition timestat_new :: "usize \<Rightarrow> TimeStat" where
  "timestat_new now = \<lparr>utime_us = 0, stime_us = 0, user_tick = 0, kernel_tick = 0, start_tick = now\<rparr>"

definition timestat_clear :: "usize \<Rightarrow> TimeStat \<Rightarrow> TimeStat" where
  "timestat_clear now ts = \<lparr>utime_us = 0, stime_us = 0, user_tick = 0, kernel_tick = 0, start_tick = now\<rparr>"

definition kernel_to_user :: "usize \<Rightarrow> TimeStat \<Rightarrow> TimeStat option" where
  "kernel_to_user now ts = do {
     delta \<leftarrow> usub now (kernel_tick ts);
     st \<leftarrow> uadd (stime_us ts) delta;
     Some (ts\<lparr>stime_us := st, user_tick := now\<rparr>) }"

definition user_to_kernel :: "usize \<Rightarrow> TimeStat \<Rightarrow> TimeStat option" where
  "user_to_kernel now ts = do {
     delta \<leftarrow> usub now (user_tick ts);
     ut \<leftarrow> uadd (utime_us ts) delta;
     Some (ts\<lparr>utime_us := ut, kernel_tick := now\<rparr>) }"

definition switch_into :: "usize \<Rightarrow> TimeStat \<Rightarrow> TimeStat" where
  "switch_into now ts = ts\<lparr>kernel_tick := now\<rparr>"

definition switch_out :: "usize \<Rightarrow> TimeStat \<Rightarrow> TimeStat option" where
  "switch_out now ts = do {
     delta \<leftarrow> usub now (kernel_tick ts);
     st \<leftarrow> uadd (stime_us ts) delta;
     Some (ts\<lparr>stime_us := st\<rparr>) }"

definition timestat_output :: "TimeStat \<Rightarrow> TimeVal \<times> TimeVal" where
  "timestat_output ts = (timeval_from_us (utime_us ts), timeval_from_us (stime_us ts))"

definition timestat_output_us :: "TimeStat \<Rightarrow> usize \<times> usize" where
  "timestat_output_us ts = (utime_us ts, stime_us ts)"

section \<open>Laws\<close>

definition tv_norm :: "TimeVal \<Rightarrow> bool" where
  "tv_norm v \<longleftrightarrow> tv_usec v < USEC_PER_SEC"

definition tv_nat :: "TimeVal \<Rightarrow> nat" where
  "tv_nat v = unat (tv_sec v) * 1000000 + unat (tv_usec v)"

definition ts_norm :: "TimeSpec \<Rightarrow> bool" where
  "ts_norm v \<longleftrightarrow> ts_nsec v < NSEC_PER_SEC"

definition ts_nat :: "TimeSpec \<Rightarrow> nat" where
  "ts_nat v = unat (ts_sec v) * 1000000000 + unat (ts_nsec v)"

text \<open>A sum of two normal values with units \<open>n\<close> per second.\<close>

lemma carry_add:
  fixes s1 s2 u1 u2 n :: usize
  assumes "u1 < n" "u2 < n" "unat n < 2 ^ 32" "unat s1 + unat s2 + 1 < 2 ^ 64"
  shows "uadd s1 s2 = Some (s1 + s2)" "uadd u1 u2 = Some (u1 + u2)" "unat (s1 + s2) = unat s1 + unat s2"
    "unat (u1 + u2) = unat u1 + unat u2" "uadd (s1 + s2) 1 = Some (s1 + s2 + 1)" "unat (s1 + s2 + 1) = unat s1 + unat s2 + 1"
    "n \<le> u1 + u2 \<Longrightarrow> unat (u1 + u2 - n) = unat u1 + unat u2 - unat n"
proof -
  have u: "unat u1 < unat n" "unat u2 < unat n" using assms(1,2) by (simp_all add: word_less_nat_alt)
  show us: "unat (s1 + s2) = unat s1 + unat s2" using assms(4) by (simp add: unat_word_ariths)
  show uu: "unat (u1 + u2) = unat u1 + unat u2" using u assms(3) by (simp add: unat_word_ariths)
  show "uadd s1 s2 = Some (s1 + s2)" "uadd u1 u2 = Some (u1 + u2)" "uadd (s1 + s2) 1 = Some (s1 + s2 + 1)"
    using assms(3,4) u us by (simp_all add: uadd_def)
  show "unat (s1 + s2 + 1) = unat s1 + unat s2 + 1" using us assms(4) by (simp add: unat_word_ariths)
  show "n \<le> u1 + u2 \<Longrightarrow> unat (u1 + u2 - n) = unat u1 + unat u2 - unat n" by (simp add: unat_sub uu)
qed

section \<open>Properties\<close>

text \<open>
  Adding two normalised times gives their exact sum, normalised, unless the seconds overflow;
  both for microseconds and for nanoseconds.
\<close>

theorem time_add_exact:
  assumes "tv_norm a" "tv_norm b" "unat (tv_sec a) + unat (tv_sec b) + 1 < 2 ^ 64"
    and "ts_norm c" "ts_norm d" "unat (ts_sec c) + unat (ts_sec d) + 1 < 2 ^ 64"
  shows "\<exists>v w. timeval_add a b = Some v \<and> tv_norm v \<and> tv_nat v = tv_nat a + tv_nat b \<and>
    timespec_add c d = Some w \<and> ts_norm w \<and> ts_nat w = ts_nat c + ts_nat d"
proof -
  have n: "unat USEC_PER_SEC < 2 ^ 32" "unat NSEC_PER_SEC < 2 ^ 32" by (simp_all add: USEC_PER_SEC_def NSEC_PER_SEC_def)
  have c1: "tv_usec a < USEC_PER_SEC" "tv_usec b < USEC_PER_SEC" "ts_nsec c < NSEC_PER_SEC" "ts_nsec d < NSEC_PER_SEC"
    using assms by (simp_all add: tv_norm_def ts_norm_def)
  note A = carry_add[OF c1(1,2) n(1) assms(3)] and B = carry_add[OF c1(3,4) n(2) assms(6)]
  have "\<exists>v. timeval_add a b = Some v \<and> tv_norm v \<and> tv_nat v = tv_nat a + tv_nat b"
  proof (cases "USEC_PER_SEC \<le> tv_usec a + tv_usec b")
    case True
    then show ?thesis using A(7)[OF True] c1(1,2) True
      by (simp add: timeval_add_def A tv_norm_def tv_nat_def word_less_nat_alt word_le_nat_alt USEC_PER_SEC_def)
  next
    case False
    then have "tv_usec a + tv_usec b < USEC_PER_SEC" by (simp add: not_le)
    then show ?thesis using False by (simp add: timeval_add_def A tv_norm_def tv_nat_def)
  qed
  moreover have "\<exists>w. timespec_add c d = Some w \<and> ts_norm w \<and> ts_nat w = ts_nat c + ts_nat d"
  proof (cases "NSEC_PER_SEC \<le> ts_nsec c + ts_nsec d")
    case True
    then show ?thesis using B(7)[OF True] c1(3,4) True
      by (simp add: timespec_add_def B ts_norm_def ts_nat_def word_less_nat_alt word_le_nat_alt NSEC_PER_SEC_def)
  next
    case False
    then have "ts_nsec c + ts_nsec d < NSEC_PER_SEC" by (simp add: not_le)
    then show ?thesis using False by (simp add: timespec_add_def B ts_norm_def ts_nat_def)
  qed
  ultimately show ?thesis by blast
qed

theorem time_add_exact_witness:
  "\<exists>v w. timeval_add \<lparr>tv_sec = 1, tv_usec = 700000\<rparr> \<lparr>tv_sec = 2, tv_usec = 600000\<rparr> = Some v \<and> tv_nat v = 4300000 \<and>
     timespec_add \<lparr>ts_sec = 1, ts_nsec = 5\<rparr> \<lparr>ts_sec = 0, ts_nsec = 999999999\<rparr> = Some w \<and> ts_nat w = 2000000004"
  using time_add_exact[of "\<lparr>tv_sec = 1, tv_usec = 700000\<rparr>" "\<lparr>tv_sec = 2, tv_usec = 600000\<rparr>"
      "\<lparr>ts_sec = 1, ts_nsec = 5\<rparr>" "\<lparr>ts_sec = 0, ts_nsec = 999999999\<rparr>"]
  by (auto simp: tv_norm_def ts_norm_def tv_nat_def ts_nat_def USEC_PER_SEC_def NSEC_PER_SEC_def)

text \<open>
  A number of microseconds turned into a \<open>TimeVal\<close> is normalised and turns back into the same
  number, without overflow.
\<close>

theorem timeval_us_roundtrip: "tv_norm (timeval_from_us us) \<and> timeval_to_us (timeval_from_us us) = Some us"
proof -
  have "unat (us mod 1000000) < 1000000" by (simp add: unat_mod)
  then have "tv_norm (timeval_from_us us)" by (simp add: tv_norm_def timeval_from_us_def USEC_PER_SEC_def word_less_nat_alt)
  moreover have le: "unat us div 1000000 * 1000000 + unat us mod 1000000 = unat us" by simp
  have q: "unat (us div 1000000) * 1000000 < 2 ^ 64"
    using unat_lt2p[of us] div_times_less_eq_dividend[of "unat us" 1000000] by (simp add: unat_div)
  have "unat (x * 1000000) = unat x * 1000000" if "unat x * 1000000 < 2 ^ 64" for x :: usize
    using that by (simp add: unat_word_ariths)
  from this[OF q] have m: "unat (us div 1000000 * 1000000) = unat us div 1000000 * 1000000" by (simp add: unat_div)
  have s: "unat (us div 1000000 * 1000000) + unat (us mod 1000000) < 2 ^ 64"
    using unat_lt2p[of us] le unfolding m by (simp add: unat_mod)
  have "us div 1000000 * 1000000 + us mod 1000000 = us" by (rule div_mult_mod_eq)
  then have "timeval_to_us (timeval_from_us us) = Some us"
    using q s by (simp add: timeval_to_us_def timeval_from_us_def USEC_PER_SEC_def umul_def uadd_def)
  ultimately show ?thesis by simp
qed

end
