(* ===== verification/Trap_Entry.thy ===== *)
theory Trap_Entry
  imports Prelude
begin

text \<open>
  The assembly of \<^verbatim>\<open>trap/trap.asm\<close>: the switch from the kernel to a user program and back
  (\<open>__kernel_to_user\<close>, \<open>__user_trap_entry\<close>), the entry of a trap taken inside the kernel, and the probes
  of user memory with their trap entry. A listing is a list of instructions of a small machine; a listing
  has no branches, so running it is a fold. Memory is a function from addresses to double words, the bytes
  that the probes touch are a second function.

  The main facts: a round trip through user mode gives the kernel its callee-saved registers, stack and
  thread pointer back and stores every user register in the context (\<open>context_switch_roundtrip\<close>); a trap
  inside the kernel is invisible to the code it interrupts (\<open>kernel_trap_transparent\<close>).
\<close>

section \<open>The machine\<close>

datatype csr = Sscratch | Sepc | Scause

text \<open>Offsets of loads and stores count double words, as in the listings (\<open>n * XLENB\<close>).\<close>

datatype instr =
    Sd nat nat nat      \<comment> \<open>source register, offset, base register\<close>
  | Ld nat nat nat      \<comment> \<open>target register, offset, base register\<close>
  | Csrw csr nat
  | Csrr nat csr
  | Csrrw nat csr nat
  | Addi nat nat usize
  | Li nat usize
  | Mv nat nat
  | Sret
  | Ret

record machine =
  regs :: "nat \<Rightarrow> usize"
  csrs :: "csr \<Rightarrow> usize"
  mem :: "usize \<Rightarrow> usize"
  bytes :: "usize \<Rightarrow> u8"
  pc :: usize

text \<open>Register 0 reads as zero and ignores writes.\<close>

definition rreg :: "nat \<Rightarrow> machine \<Rightarrow> usize" where
  "rreg r s = (if r = 0 then 0 else regs s r)"

definition wreg :: "nat \<Rightarrow> usize \<Rightarrow> machine \<Rightarrow> machine" where
  "wreg r v s = (if r = 0 then s else s\<lparr>regs := (regs s)(r := v)\<rparr>)"

definition slot :: "usize \<Rightarrow> nat \<Rightarrow> usize" where
  "slot p i = p + 8 * word_of_nat i"

fun step :: "instr \<Rightarrow> machine \<Rightarrow> machine" where
  "step (Sd r off b) s = s\<lparr>mem := (mem s)(slot (rreg b s) off := rreg r s)\<rparr>"
| "step (Ld r off b) s = wreg r (mem s (slot (rreg b s) off)) s"
| "step (Csrw c r) s = s\<lparr>csrs := (csrs s)(c := rreg r s)\<rparr>"
| "step (Csrr r c) s = wreg r (csrs s c) s"
| "step (Csrrw d c r) s = wreg d (csrs s c) (s\<lparr>csrs := (csrs s)(c := rreg r s)\<rparr>)"
| "step (Addi d r n) s = wreg d (rreg r s + n) s"
| "step (Li d n) s = wreg d n s"
| "step (Mv d r) s = wreg d (rreg r s) s"
| "step Sret s = s\<lparr>pc := csrs s Sepc\<rparr>"
| "step Ret s = s\<lparr>pc := rreg 1 s\<rparr>"

definition run :: "instr list \<Rightarrow> machine \<Rightarrow> machine" where
  "run is s = fold step is s"

section \<open>The listings\<close>

text \<open>Register numbers of the ABI names: \<open>ra\<close> 1, \<open>sp\<close> 2, \<open>tp\<close> 4, \<open>t0\<close> 5, \<open>s0\<close> 8, \<open>s1\<close> 9, \<open>a0\<close> 10,
  \<open>s2\<close> to \<open>s11\<close> 18 to 27.\<close>

definition SAVE_UKCX :: "nat \<times> nat \<Rightarrow> instr" where
  "SAVE_UKCX e = Sd (fst e) (snd e) 10"

definition RECOVER_UKCX :: "nat \<times> nat \<Rightarrow> instr" where
  "RECOVER_UKCX e = Ld (fst e) (snd e) 10"

text \<open>The registers the kernel keeps across a visit to user mode, with their slots in the context.\<close>

definition kernel_slots :: "(nat \<times> nat) list" where
  "kernel_slots = [(8, 34), (9, 35), (18, 36), (19, 37), (20, 38), (21, 39), (22, 40), (23, 41), (24, 42),
     (25, 43), (26, 44), (27, 45), (1, 46), (2, 47), (4, 48)]"

definition user_slots_low :: "(nat \<times> nat) list" where
  "user_slots_low = [(1, 1), (2, 2), (3, 3), (4, 4), (5, 5), (6, 6), (7, 7), (8, 8), (9, 9)]"

definition user_slots_high :: "(nat \<times> nat) list" where
  "user_slots_high = [(11, 11), (12, 12), (13, 13), (14, 14), (15, 15), (16, 16), (17, 17), (18, 18),
     (19, 19), (20, 20), (21, 21), (22, 22), (23, 23), (24, 24), (25, 25), (26, 26), (27, 27), (28, 28),
     (29, 29), (30, 30), (31, 31)]"

definition kernel_to_user_asm :: "instr list" where
  "kernel_to_user_asm =
     map SAVE_UKCX kernel_slots
   @ [Csrw Sscratch 10]
   @ [RECOVER_UKCX (5, 32), Csrw Sepc 5, RECOVER_UKCX (5, 33), Csrw Scause 5]
   @ map RECOVER_UKCX user_slots_low
   @ map RECOVER_UKCX user_slots_high
   @ [RECOVER_UKCX (10, 10), Sret]"

definition user_trap_entry_asm :: "instr list" where
  "user_trap_entry_asm =
     [Csrrw 10 Sscratch 10]
   @ map SAVE_UKCX user_slots_low
   @ [Csrr 9 Sscratch, SAVE_UKCX (9, 10)]
   @ map SAVE_UKCX user_slots_high
   @ [Csrr 5 Sepc, SAVE_UKCX (5, 32), Csrr 5 Scause, SAVE_UKCX (5, 33)]
   @ map RECOVER_UKCX kernel_slots
   @ [Ret]"

text \<open>A trap taken in kernel mode saves the caller-saved registers on the current stack around the call of
  its Rust handler; \<open>call\<close> sets \<open>ra\<close> and runs the handler.\<close>

definition caller_slots :: "(nat \<times> nat) list" where
  "caller_slots = [(1, 1), (5, 2), (6, 3), (7, 4), (28, 5), (29, 6), (30, 7), (31, 8), (10, 9), (11, 10),
     (12, 11), (13, 12), (14, 13), (15, 14), (16, 15), (17, 16)]"

definition kernel_trap_entry :: "(machine \<Rightarrow> machine) \<Rightarrow> machine \<Rightarrow> machine" where
  "kernel_trap_entry handler s =
     run (map (\<lambda>e. Ld (fst e) (snd e) 2) caller_slots @ [Addi 2 2 136, Sret])
       (handler (run ([Addi 2 2 (- 136)] @ map (\<lambda>e. Sd (fst e) (snd e) 2) caller_slots) s))"

definition user_rw_exception_entry_asm :: "instr list" where
  "user_rw_exception_entry_asm = [Csrr 10 Sepc, Addi 10 10 4, Csrw Sepc 10, Li 10 1, Csrr 11 Scause, Sret]"

text \<open>The probes. \<open>ok\<close> says whether the access succeeds; if it does not, the hart traps with the address
  \<open>at\<close> of the access in \<open>sepc\<close> and cause \<open>cause\<close>, and the trap entry above runs. A load of one byte sign-extends
  it. The last \<open>ret\<close> follows the access, so it is reached when \<open>pc\<close> is \<open>at + 4\<close>.\<close>

definition user_rw_trap :: "usize \<Rightarrow> usize \<Rightarrow> machine \<Rightarrow> machine" where
  "user_rw_trap at cause s =
     run user_rw_exception_entry_asm (s\<lparr>csrs := (csrs s)(Sepc := at, Scause := cause)\<rparr>)"

definition try_read_user :: "(usize \<Rightarrow> bool) \<Rightarrow> usize \<Rightarrow> usize \<Rightarrow> machine \<Rightarrow> machine option" where
  "try_read_user ok at cause s = (
     let s = run [Mv 11 10, Mv 10 0] s;
         s = (if ok (rreg 11 s) then (wreg 11 (scast (bytes s (rreg 11 s))) s)\<lparr>pc := at + 4\<rparr>
              else user_rw_trap at cause s)
     in if pc s = at + 4 then Some (run [Ret] s) else None)"

definition try_write_user :: "(usize \<Rightarrow> bool) \<Rightarrow> usize \<Rightarrow> usize \<Rightarrow> machine \<Rightarrow> machine option" where
  "try_write_user ok at cause s = (
     let s = run [Mv 12 10, Mv 10 0] s;
         s = (if ok (rreg 12 s) then s\<lparr>bytes := (bytes s)(rreg 12 s := ucast (rreg 11 s)), pc := at + 4\<rparr>
              else user_rw_trap at cause s)
     in if pc s = at + 4 then Some (run [Ret] s) else None)"

section \<open>Running straight-line blocks\<close>

lemma run_append [simp]: "run (is @ js) s = run js (run is s)"
  by (simp add: run_def)

lemma run_Nil [simp]: "run [] s = s"
  by (simp add: run_def)

lemma run_Cons [simp]: "run (i # is) s = run is (step i s)"
  by (simp add: run_def)

lemma rreg_simps [simp]:
  "rreg r (s\<lparr>csrs := c\<rparr>) = rreg r s" "rreg r (s\<lparr>mem := m\<rparr>) = rreg r s" "rreg r (s\<lparr>pc := p\<rparr>) = rreg r s"
  "rreg r (s\<lparr>bytes := y\<rparr>) = rreg r s"
  "rreg r (wreg q v s) = (if r = q \<and> q \<noteq> 0 then v else rreg r s)"
  by (auto simp: rreg_def wreg_def)

lemma rreg_0 [simp]: "rreg 0 s = 0"
  by (simp add: rreg_def)

lemma wreg_simps [simp]:
  "csrs (wreg r v s) = csrs s" "mem (wreg r v s) = mem s" "pc (wreg r v s) = pc s" "bytes (wreg r v s) = bytes s"
  by (simp_all add: wreg_def)

definition stores :: "(nat \<Rightarrow> usize) \<Rightarrow> usize \<Rightarrow> (nat \<times> nat) list \<Rightarrow> (usize \<Rightarrow> usize) \<Rightarrow> usize \<Rightarrow> usize" where
  "stores rv p es m = fold (\<lambda>e m. m(slot p (snd e) := rv (fst e))) es m"

lemma run_saves:
  "run (map (\<lambda>e. Sd (fst e) (snd e) b) es) s = s\<lparr>mem := stores (\<lambda>r. rreg r s) (rreg b s) es (mem s)\<rparr>"
  by (induction es arbitrary: s) (simp_all add: stores_def)

lemma slot_inj: "i < 2 ^ 60 \<Longrightarrow> j < 2 ^ 60 \<Longrightarrow> slot p i = slot p j \<longleftrightarrow> i = j"
proof -
  assume i: "i < 2 ^ 60" and j: "j < 2 ^ 60"
  have n: "unat (8 * word_of_nat k :: usize) = 8 * k" if "k < 2 ^ 60" for k
  proof -
    have "unat (word_of_nat k :: usize) = k" using that by (intro unat_word_of_nat) simp
    thus ?thesis using that by (simp add: unat_word_ariths)
  qed
  show ?thesis
  proof
    assume "slot p i = slot p j"
    hence "8 * word_of_nat i = (8 * word_of_nat j :: usize)" by (simp add: slot_def)
    hence "unat (8 * word_of_nat i :: usize) = unat (8 * word_of_nat j :: usize)" by simp
    thus "i = j" using n[OF i] n[OF j] by simp
  qed simp
qed

lemma stores_other: "a \<notin> (\<lambda>e. slot p (snd e)) ` set es \<Longrightarrow> stores rv p es m a = m a"
  by (induction es arbitrary: m) (auto simp: stores_def)

lemma stores_at:
  "distinct (map snd es) \<Longrightarrow> \<forall>e\<in>set es. snd e < 2 ^ 60 \<Longrightarrow> (r, i) \<in> set es \<Longrightarrow> stores rv p es m (slot p i) = rv r"
proof (induction es arbitrary: m)
  case (Cons e es)
  show ?case
  proof (cases "(r, i) \<in> set es")
    case True
    thus ?thesis using Cons.IH[of "m(slot p (snd e) := rv (fst e))"] Cons.prems by (simp add: stores_def fun_upd_def)
  next
    case False
    hence e: "e = (r, i)" using Cons.prems(3) by simp
    have "slot p i \<notin> (\<lambda>e. slot p (snd e)) ` set es"
    proof
      assume "slot p i \<in> (\<lambda>e. slot p (snd e)) ` set es"
      then obtain e' where e': "e' \<in> set es" "slot p i = slot p (snd e')" by auto
      hence "i = snd e'" using Cons.prems(2) e slot_inj[of i "snd e'" p] by auto
      thus False using Cons.prems(1) e e'(1) by auto
    qed
    hence "stores rv p es (m(slot p i := rv r)) (slot p i) = rv r" by (simp add: stores_other)
    thus ?thesis using e by (simp add: stores_def)
  qed
qed simp

lemma stores_slot:
  assumes "distinct (map snd es)" "\<forall>e\<in>set es. snd e < 2 ^ 60" "i < 2 ^ 60"
  shows "stores rv p es m (slot p i) = (case find (\<lambda>e. snd e = i) es of None \<Rightarrow> m (slot p i) | Some e \<Rightarrow> rv (fst e))"
proof (cases "find (\<lambda>e. snd e = i) es")
  case None
  hence "i \<notin> snd ` set es" by (auto simp: find_None_iff)
  hence "slot p i \<notin> (\<lambda>e. slot p (snd e)) ` set es"
    using assms(2,3) slot_inj[of i] by fastforce
  thus ?thesis using None by (simp add: stores_other)
next
  case (Some e)
  hence "e \<in> set es" "snd e = i" by (auto simp: find_Some_iff)
  hence "(fst e, i) \<in> set es" by auto
  thus ?thesis using stores_at[OF assms(1,2)] Some by simp
qed

text \<open>A block of loads through a base register that it does not overwrite.\<close>

definition loaded :: "(nat \<times> nat) list \<Rightarrow> usize \<Rightarrow> machine \<Rightarrow> nat \<Rightarrow> usize" where
  "loaded es p s r = (case find (\<lambda>e. fst e = r) (rev es) of None \<Rightarrow> rreg r s | Some e \<Rightarrow> mem s (slot p (snd e)))"

lemma run_loads:
  assumes "b \<notin> fst ` set es" "0 \<notin> fst ` set es"
  shows "rreg r (run (map (\<lambda>e. Ld (fst e) (snd e) b) es) s) = loaded es (rreg b s) s r"
    and "csrs (run (map (\<lambda>e. Ld (fst e) (snd e) b) es) s) = csrs s"
    and "mem (run (map (\<lambda>e. Ld (fst e) (snd e) b) es) s) = mem s"
    and "pc (run (map (\<lambda>e. Ld (fst e) (snd e) b) es) s) = pc s"
    and "bytes (run (map (\<lambda>e. Ld (fst e) (snd e) b) es) s) = bytes s"
proof -
  have "rreg r (run (map (\<lambda>e. Ld (fst e) (snd e) b) es) s) = loaded es (rreg b s) s r \<and>
    csrs (run (map (\<lambda>e. Ld (fst e) (snd e) b) es) s) = csrs s \<and>
    mem (run (map (\<lambda>e. Ld (fst e) (snd e) b) es) s) = mem s \<and>
    pc (run (map (\<lambda>e. Ld (fst e) (snd e) b) es) s) = pc s \<and>
    bytes (run (map (\<lambda>e. Ld (fst e) (snd e) b) es) s) = bytes s"
    using assms
  proof (induction es rule: rev_induct)
    case (snoc e es)
    have "b \<notin> fst ` set es" "0 \<notin> fst ` set es" "b \<noteq> fst e" "fst e \<noteq> 0" using snoc.prems by auto
    moreover have "rreg b (run (map (\<lambda>e. Ld (fst e) (snd e) b) es) s) = rreg b s"
      using calculation by (induction es arbitrary: s) auto
    ultimately show ?case using snoc.IH by (auto simp: loaded_def)
  qed (simp add: loaded_def)
  thus "rreg r (run (map (\<lambda>e. Ld (fst e) (snd e) b) es) s) = loaded es (rreg b s) s r"
    and "csrs (run (map (\<lambda>e. Ld (fst e) (snd e) b) es) s) = csrs s"
    and "mem (run (map (\<lambda>e. Ld (fst e) (snd e) b) es) s) = mem s"
    and "pc (run (map (\<lambda>e. Ld (fst e) (snd e) b) es) s) = pc s"
    and "bytes (run (map (\<lambda>e. Ld (fst e) (snd e) b) es) s) = bytes s" by simp_all
qed

lemma ukcx_macros:
  "SAVE_UKCX = (\<lambda>e. Sd (fst e) (snd e) 10)" "RECOVER_UKCX = (\<lambda>e. Ld (fst e) (snd e) 10)"
  by (simp_all add: SAVE_UKCX_def RECOVER_UKCX_def fun_eq_iff)

section \<open>The context switch\<close>

lemma slot_tables:
  "distinct (map snd kernel_slots)" "\<forall>e\<in>set kernel_slots. snd e < 2 ^ 60"
  "distinct (map snd user_slots_low)" "\<forall>e\<in>set user_slots_low. snd e < 2 ^ 60"
  "distinct (map snd user_slots_high)" "\<forall>e\<in>set user_slots_high. snd e < 2 ^ 60"
  "distinct (map snd caller_slots)" "\<forall>e\<in>set caller_slots. snd e < 2 ^ 60"
  by (simp_all add: kernel_slots_def user_slots_low_def user_slots_high_def caller_slots_def)

lemma bases_kept:
  "10 \<notin> fst ` set kernel_slots" "0 \<notin> fst ` set kernel_slots"
  "10 \<notin> fst ` set user_slots_low" "0 \<notin> fst ` set user_slots_low"
  "10 \<notin> fst ` set user_slots_high" "0 \<notin> fst ` set user_slots_high"
  "2 \<notin> fst ` set caller_slots" "0 \<notin> fst ` set caller_slots"
  by (simp_all add: kernel_slots_def user_slots_low_def user_slots_high_def caller_slots_def)

lemmas table_stores = stores_slot[OF slot_tables(1,2)] stores_slot[OF slot_tables(3,4)]
  stores_slot[OF slot_tables(5,6)] stores_slot[OF slot_tables(7,8)]

lemmas table_loads = run_loads[OF bases_kept(1,2)] run_loads[OF bases_kept(3,4)]
  run_loads[OF bases_kept(5,6)] run_loads[OF bases_kept(7,8)]

lemma user_slots_upt:
  "user_slots_low = map (\<lambda>i. (i, i)) [1..<10]" "user_slots_high = map (\<lambda>i. (i, i)) [11..<32]"
  by (simp_all add: user_slots_low_def user_slots_high_def upt_rec)

lemma find_diag: "find (\<lambda>e. P (fst e)) (map (\<lambda>i. (i, i)) xs) = map_option (\<lambda>i. (i, i)) (find P xs)"
  by (induction xs) auto

lemma find_eq_self: "find (\<lambda>x. x = r) xs = (if r \<in> set xs then Some r else None)"
  by (induction xs) auto

lemma find_user:
  "find (\<lambda>e. fst e = r) (rev user_slots_low) = (if 1 \<le> r \<and> r \<le> 9 then Some (r, r) else None)"
  "find (\<lambda>e. fst e = r) (rev user_slots_high) = (if 11 \<le> r \<and> r \<le> 31 then Some (r, r) else None)"
  unfolding user_slots_upt rev_map find_diag[of "\<lambda>x. x = r"] find_eq_self set_rev set_upt by auto

lemma find_user_snd:
  "find (\<lambda>e. snd e = r) user_slots_low = (if 1 \<le> r \<and> r \<le> 9 then Some (r, r) else None)"
  "find (\<lambda>e. snd e = r) user_slots_high = (if 11 \<le> r \<and> r \<le> 31 then Some (r, r) else None)"
proof -
  have d: "find (\<lambda>e. snd e = r) (map (\<lambda>i. (i, i)) xs) = map_option (\<lambda>i. (i, i)) (find (\<lambda>x. x = r) xs)" for xs
    by (induction xs) auto
  show "find (\<lambda>e. snd e = r) user_slots_low = (if 1 \<le> r \<and> r \<le> 9 then Some (r, r) else None)"
    and "find (\<lambda>e. snd e = r) user_slots_high = (if 11 \<le> r \<and> r \<le> 31 then Some (r, r) else None)"
    unfolding user_slots_upt d find_eq_self set_upt by auto
qed

lemma kernel_to_user_regs:
  assumes "1 \<le> r" "r \<le> 31"
  shows "rreg r (run kernel_to_user_asm s) = stores (\<lambda>r. rreg r s) (rreg 10 s) kernel_slots (mem s) (slot (rreg 10 s) r)"
proof -
  have "r \<le> 9 \<or> r = 10 \<or> 11 \<le> r" by arith
  thus ?thesis using assms
    by (elim disjE) (simp_all add: kernel_to_user_asm_def ukcx_macros run_saves table_loads loaded_def find_user)
qed

lemma kernel_to_user_rest:
  shows "mem (run kernel_to_user_asm s) = stores (\<lambda>r. rreg r s) (rreg 10 s) kernel_slots (mem s)"
    and "csrs (run kernel_to_user_asm s) Sscratch = rreg 10 s"
    and "csrs (run kernel_to_user_asm s) Sepc = stores (\<lambda>r. rreg r s) (rreg 10 s) kernel_slots (mem s) (slot (rreg 10 s) 32)"
    and "csrs (run kernel_to_user_asm s) Scause = stores (\<lambda>r. rreg r s) (rreg 10 s) kernel_slots (mem s) (slot (rreg 10 s) 33)"
    and "pc (run kernel_to_user_asm s) = stores (\<lambda>r. rreg r s) (rreg 10 s) kernel_slots (mem s) (slot (rreg 10 s) 32)"
  by (simp_all add: kernel_to_user_asm_def ukcx_macros run_saves table_loads)

definition trap_stores :: "machine \<Rightarrow> usize \<Rightarrow> usize \<Rightarrow> usize" where
  "trap_stores s p =
     (stores (\<lambda>r. rreg r s) p user_slots_high
       ((stores (\<lambda>r. rreg r s) p user_slots_low (mem s))(slot p 10 := rreg 10 s)))
     (slot p 32 := csrs s Sepc, slot p 33 := csrs s Scause)"

lemma stores_cong: "(\<And>e. e \<in> set es \<Longrightarrow> rv (fst e) = rv' (fst e)) \<Longrightarrow> stores rv p es m = stores rv' p es m"
  by (induction es arbitrary: m) (auto simp: stores_def)

lemma user_trap_entry_mem:
  assumes "csrs s Sscratch = p"
  shows "mem (run user_trap_entry_asm s) = trap_stores s p"
proof -
  have "stores (\<lambda>r. if r = 9 then rreg 10 s else if r = 10 then p else rreg r s) p user_slots_high m =
      stores (\<lambda>r. rreg r s) p user_slots_high m" for m
    by (rule stores_cong) (auto simp: user_slots_high_def)
  moreover have "stores (\<lambda>r. if r = 10 then p else rreg r s) p user_slots_low m =
      stores (\<lambda>r. rreg r s) p user_slots_low m" for m
    by (rule stores_cong) (auto simp: user_slots_low_def)
  ultimately show ?thesis
    using assms by (simp add: user_trap_entry_asm_def ukcx_macros run_saves table_loads trap_stores_def cong: if_cong)
qed

lemma trap_stores_slot:
  "1 \<le> r \<Longrightarrow> r \<le> 31 \<Longrightarrow> trap_stores s p (slot p r) = rreg r s"
  "trap_stores s p (slot p 32) = csrs s Sepc" "trap_stores s p (slot p 33) = csrs s Scause"
  "34 \<le> i \<Longrightarrow> i < 49 \<Longrightarrow> trap_stores s p (slot p i) = mem s (slot p i)"
  "trap_stores s p (slot p 0) = mem s (slot p 0)"
  by (auto simp: trap_stores_def slot_inj table_stores find_user_snd)

lemma find_fst_distinct: "distinct (map fst es) \<Longrightarrow> e \<in> set es \<Longrightarrow> find (\<lambda>e'. fst e' = fst e) es = Some e"
  by (induction es) force+

lemma find_kernel: "e \<in> set kernel_slots \<Longrightarrow> find (\<lambda>e'. fst e' = fst e) (rev kernel_slots) = Some e"
  by (rule find_fst_distinct) (simp_all add: rev_map[symmetric], simp add: kernel_slots_def)

lemma kernel_slots_range: "e \<in> set kernel_slots \<Longrightarrow> 34 \<le> snd e \<and> snd e < 49"
proof -
  have "\<forall>e\<in>set kernel_slots. 34 \<le> snd e \<and> snd e < 49" by (simp add: kernel_slots_def)
  thus "e \<in> set kernel_slots \<Longrightarrow> 34 \<le> snd e \<and> snd e < 49" by blast
qed

lemma user_trap_entry_regs:
  assumes "csrs s Sscratch = p" "e \<in> set kernel_slots"
  shows "rreg (fst e) (run user_trap_entry_asm s) = mem s (slot p (snd e))"
proof -
  have "rreg (fst e) (run user_trap_entry_asm s) = mem (run user_trap_entry_asm s) (slot p (snd e))"
    using assms by (simp add: user_trap_entry_asm_def ukcx_macros run_saves table_loads loaded_def find_kernel)
  thus ?thesis
    using user_trap_entry_mem[OF assms(1)] trap_stores_slot(4) kernel_slots_range[OF assms(2)] by simp
qed

lemma user_trap_entry_pc: "csrs s Sscratch = p \<Longrightarrow> pc (run user_trap_entry_asm s) = mem s (slot p 46)"
proof -
  assume p: "csrs s Sscratch = p"
  have "pc (run user_trap_entry_asm s) = rreg 1 (run user_trap_entry_asm s)"
    by (simp add: user_trap_entry_asm_def)
  thus ?thesis using user_trap_entry_regs[OF p, of "(1, 46)"] by (simp add: kernel_slots_def)
qed

lemma kernel_stores_slot:
  "e \<in> set kernel_slots \<Longrightarrow> stores rv p kernel_slots m (slot p (snd e)) = rv (fst e)"
  "i < 34 \<Longrightarrow> stores rv p kernel_slots m (slot p i) = m (slot p i)"
proof -
  show "e \<in> set kernel_slots \<Longrightarrow> stores rv p kernel_slots m (slot p (snd e)) = rv (fst e)"
    using stores_at[OF slot_tables(1,2), of "fst e" "snd e"] by simp
  assume i: "i < 34"
  hence "find (\<lambda>e. snd e = i) kernel_slots = None" by (auto simp: kernel_slots_def)
  thus "stores rv p kernel_slots m (slot p i) = m (slot p i)" using i by (simp add: table_stores)
qed

text \<open>Entering user mode and coming back. The user program starts with the registers and the program
  counter of the context. Whatever it does with its own registers, as long as the context and
  \<open>sscratch\<close> are untouched, the trap entry stores all its registers, the interrupted program counter and the
  cause in the context, and the kernel continues behind its call of \<open>__kernel_to_user\<close> with its callee-saved
  registers, stack pointer and thread pointer restored.\<close>

lemma context_switch_roundtrip:
  assumes p: "rreg 10 s = p"
    and s1: "s1 = run kernel_to_user_asm s"
    and user: "csrs s2 Sscratch = csrs s1 Sscratch" "\<forall>i<49. mem s2 (slot p i) = mem s1 (slot p i)"
    and s3: "s3 = run user_trap_entry_asm s2"
  shows "(\<forall>r\<in>{1..31}. rreg r s1 = mem s (slot p r)) \<and> pc s1 = mem s (slot p 32) \<and>
    mem s3 (slot p 0) = mem s (slot p 0) \<and> (\<forall>r\<in>{1..31}. mem s3 (slot p r) = rreg r s2) \<and> mem s3 (slot p 32) = csrs s2 Sepc \<and>
    mem s3 (slot p 33) = csrs s2 Scause \<and> (\<forall>e\<in>set kernel_slots. mem s3 (slot p (snd e)) = rreg (fst e) s) \<and>
    (\<forall>r\<in>{1, 2, 4, 8, 9} \<union> {18..27}. rreg r s3 = rreg r s) \<and> pc s3 = rreg 1 s"
proof -
  have sc: "csrs s2 Sscratch = p" using user(1) p s1 by (simp add: kernel_to_user_rest)
  have m1: "mem s1 = stores (\<lambda>r. rreg r s) p kernel_slots (mem s)" using p s1 by (simp add: kernel_to_user_rest)
  have saved: "mem s2 (slot p (snd e)) = rreg (fst e) s" if "e \<in> set kernel_slots" for e
    using user(2) m1 kernel_stores_slot(1)[OF that] kernel_slots_range[OF that] by simp
  have start: "rreg r s1 = mem s (slot p r)" if "1 \<le> r" "r \<le> 31" for r
    using kernel_to_user_regs[OF that, of s] p s1 kernel_stores_slot(2)[of r] that by simp
  have restored: "rreg (fst e) s3 = rreg (fst e) s" if "e \<in> set kernel_slots" for e
    using user_trap_entry_regs[OF sc that] saved[OF that] s3 by simp
  have "{18..27} = set [18..<28]" unfolding set_upt by auto
  hence kregs: "{1, 2, 4, 8, 9} \<union> {18..27} \<subseteq> fst ` set kernel_slots" by (simp add: kernel_slots_def)
  have "pc s1 = mem s (slot p 32)" using p s1 by (simp add: kernel_to_user_rest kernel_stores_slot)
  moreover have "pc s3 = rreg 1 s"
    using user_trap_entry_pc[OF sc] saved[of "(1, 46)"] s3 by (simp add: kernel_slots_def)
  moreover have "mem s3 = trap_stores s2 p" using user_trap_entry_mem[OF sc] s3 by simp
  moreover have "mem s2 (slot p 0) = mem s (slot p 0)" using user(2) m1 by (simp add: kernel_stores_slot)
  ultimately show ?thesis using start restored saved kregs kernel_slots_range
    by (auto simp: trap_stores_slot simp del: One_nat_def)
qed

definition idle_machine :: machine where
  "idle_machine = \<lparr>regs = (\<lambda>r. word_of_nat (100 + r)), csrs = (\<lambda>_. 0), mem = (\<lambda>a. a), bytes = (\<lambda>_. 0), pc = 0\<rparr>"

section \<open>Traps inside the kernel\<close>

lemma caller_slots_range: "e \<in> set caller_slots \<Longrightarrow> 1 \<le> snd e \<and> snd e \<le> 16"
proof -
  have "\<forall>e\<in>set caller_slots. 1 \<le> snd e \<and> snd e \<le> 16" by (simp add: caller_slots_def)
  thus "e \<in> set caller_slots \<Longrightarrow> 1 \<le> snd e \<and> snd e \<le> 16" by blast
qed

lemma find_caller: "e \<in> set caller_slots \<Longrightarrow> find (\<lambda>e'. fst e' = fst e) (rev caller_slots) = Some e"
  by (rule find_fst_distinct) (simp_all add: rev_map[symmetric], simp add: caller_slots_def)

lemma find_caller_none: "r \<notin> fst ` set caller_slots \<Longrightarrow> find (\<lambda>e'. fst e' = r) (rev caller_slots) = None"
  by (force simp: find_None_iff)

text \<open>An exception or interrupt taken in kernel mode leaves every register of the interrupted code as it was
  (C10), if the Rust handler keeps the calling convention: it gives back the stack pointer and the other
  callee-saved registers and does not write to the frame above the stack pointer. Execution continues where
  \<open>sepc\<close> points after the handler.\<close>

theorem kernel_trap_transparent:
  assumes frame: "f = rreg 2 s - 136"
    and callee: "\<And>s r. r \<notin> fst ` set caller_slots \<Longrightarrow> rreg r (handler s) = rreg r s"
    and kept: "\<And>s i. 1 \<le> i \<Longrightarrow> i \<le> 16 \<Longrightarrow> mem (handler s) (slot (rreg 2 s) i) = mem s (slot (rreg 2 s) i)"
  shows "(\<forall>r. rreg r (kernel_trap_entry handler s) = rreg r s) \<and>
    (\<exists>s'. pc (kernel_trap_entry handler s) = csrs (handler s') Sepc \<and> csrs s' = csrs s)"
proof (intro conjI allI)
  let ?s1 = "(wreg 2 f s)\<lparr>mem := stores (\<lambda>r. rreg r (wreg 2 f s)) f caller_slots (mem s)\<rparr>"
  have s1: "run ([Addi 2 2 (- 136)] @ map (\<lambda>e. Sd (fst e) (snd e) 2) caller_slots) s = ?s1"
    using frame by (simp add: run_saves)
  let ?h = "handler ?s1"
  have "2 \<notin> fst ` set caller_slots" by (simp add: caller_slots_def)
  hence sp: "rreg 2 ?h = f" using callee[of 2 ?s1] by simp
  have e: "kernel_trap_entry handler s = run (map (\<lambda>e. Ld (fst e) (snd e) 2) caller_slots @ [Addi 2 2 136, Sret]) ?h"
    unfolding kernel_trap_entry_def s1 ..
  show "\<exists>s'. pc (kernel_trap_entry handler s) = csrs (handler s') Sepc \<and> csrs s' = csrs s"
    by (rule exI[of _ ?s1]) (simp add: e table_loads)
  have l: "loaded caller_slots f ?h r = rreg r s" if "r \<noteq> 2" for r
  proof (cases "r \<in> fst ` set caller_slots")
    case True
    then obtain i where i: "(r, i) \<in> set caller_slots" by auto
    have "mem ?h (slot f i) = rreg r s"
      using kept[of i ?s1] caller_slots_range[OF i] stores_at[OF slot_tables(7,8) i] \<open>r \<noteq> 2\<close> by simp
    thus ?thesis using find_caller[OF i] by (simp add: loaded_def)
  next
    case False
    thus ?thesis using callee[OF False, of ?s1] that by (simp add: loaded_def find_caller_none)
  qed
  fix r show "rreg r (kernel_trap_entry handler s) = rreg r s"
  proof (cases "r = 2")
    case True
    thus ?thesis using frame sp \<open>2 \<notin> _\<close> by (simp add: e table_loads loaded_def find_caller_none)
  next
    case False
    thus ?thesis using l sp by (simp add: e table_loads)
  qed
qed

section \<open>Probing user memory\<close>

lemma user_rw_trap_effect:
  "pc (user_rw_trap at cause s) = at + 4" "rreg 10 (user_rw_trap at cause s) = 1"
  "bytes (user_rw_trap at cause s) = bytes s" "mem (user_rw_trap at cause s) = mem s"
  "r \<notin> {10, 11} \<Longrightarrow> rreg r (user_rw_trap at cause s) = rreg r s"
  by (simp_all add: user_rw_trap_def user_rw_exception_entry_asm_def)

text \<open>The probes return 0 when the access succeeds and 1 when it faults. The read probe changes no byte of
  memory; the write probe stores the low byte of its second argument register, which its callers do not
  set, at the probed address (C11).\<close>

theorem probe_results:
  "(\<exists>s'. try_read_user ok at cause s = Some s' \<and> rreg 10 s' = (if ok (rreg 10 s) then 0 else 1) \<and>
     bytes s' = bytes s \<and> pc s' = rreg 1 s) \<and>
   (\<exists>s'. try_write_user ok at cause s = Some s' \<and> rreg 10 s' = (if ok (rreg 10 s) then 0 else 1) \<and>
     bytes s' = (if ok (rreg 10 s) then (bytes s)(rreg 10 s := ucast (rreg 11 s)) else bytes s) \<and> pc s' = rreg 1 s)"
  by (simp add: try_read_user_def try_write_user_def user_rw_trap_effect Let_def)

text \<open>An instance: a handler that skips the faulting instruction.\<close>

definition skip_handler :: "machine \<Rightarrow> machine" where
  "skip_handler s = s\<lparr>regs := (regs s)(1 := 0, 5 := 0, 10 := 0), csrs := (csrs s)(Sepc := csrs s Sepc + 4)\<rparr>"

theorem kernel_trap_transparent_witness:
  "rreg 10 (kernel_trap_entry skip_handler idle_machine) = 110 \<and> pc (kernel_trap_entry skip_handler idle_machine) = 4"
proof -
  have "\<And>s r. r \<notin> fst ` set caller_slots \<Longrightarrow> rreg r (skip_handler s) = rreg r s"
    by (simp add: caller_slots_def skip_handler_def rreg_def)
  moreover have "\<And>s i. mem (skip_handler s) (slot (rreg 2 s) i) = mem s (slot (rreg 2 s) i)"
    by (simp add: skip_handler_def)
  ultimately have r: "(\<forall>r. rreg r (kernel_trap_entry skip_handler idle_machine) = rreg r idle_machine) \<and>
    (\<exists>s'. pc (kernel_trap_entry skip_handler idle_machine) = csrs (skip_handler s') Sepc \<and> csrs s' = csrs idle_machine)"
    by (intro kernel_trap_transparent) simp_all
  have "csrs (skip_handler s') Sepc = 4" if "csrs s' = csrs idle_machine" for s'
    using that by (simp add: skip_handler_def idle_machine_def)
  moreover have "rreg 10 idle_machine = 110" by (simp add: idle_machine_def rreg_def)
  ultimately show ?thesis using r by metis
qed

end
