(* ===== verification/Trap_Context.thy ===== *)
theory Trap_Context
  imports Trap_Entry
begin

text \<open>
  The saved context of a user program (\<^verbatim>\<open>trap/context.rs\<close>), the lazy switching of the floating-point
  registers (\<^verbatim>\<open>trap/fp_ctx.rs\<close>, \<^verbatim>\<open>executor/hart_local.rs\<close>) and the exception dispatch of the kernel
  (\<^verbatim>\<open>trap/kernel_exception.rs\<close>).

  \<open>run_user_context\<close> reads the assembly round trip of \<open>Trap_Entry\<close> on the Rust structure: its slots are the
  fields in declaration order. \<open>fp_reach\<close> is the state machine of one hart switching between processes,
  and \<open>fp_registers_own\<close> its invariant: a process in user mode finds in the registers what it last put there.
\<close>

section \<open>Contexts\<close>

record FloatContext =
  fx :: "usize list"
  fcsr :: u32
  need_load :: u8

record UKContext =
  user_rx :: "usize list"
  user_sepc :: usize
  user_sstatus :: usize
  kernel_sx :: "usize list"
  kernel_ra :: usize
  kernel_sp :: usize
  kernel_tp :: usize
  fp_ctx :: FloatContext

text \<open>The lengths of the two register arrays.\<close>

definition ctx_wf :: "UKContext \<Rightarrow> bool" where
  "ctx_wf c \<longleftrightarrow> length (user_rx c) = 32 \<and> length (kernel_sx c) = 12"

text \<open>\<open>RoundingMode::RoundToNearestEven\<close> of the crate \<open>riscv\<close> is the argument \<open>rm\<close>.\<close>

definition default_fcsr :: "u32 \<Rightarrow> u32" where
  "default_fcsr rm = push_bit 4 rm OR 0b10000"

definition fp_init_user :: "u32 \<Rightarrow> FloatContext \<Rightarrow> FloatContext" where
  "fp_init_user rm c = c\<lparr>fcsr := default_fcsr rm, need_load := 1\<rparr>"

definition init_user :: "u32 \<Rightarrow> usize \<Rightarrow> usize \<Rightarrow> usize \<Rightarrow> usize \<Rightarrow> usize \<Rightarrow> usize \<Rightarrow> UKContext \<Rightarrow> UKContext" where
  "init_user rm user_sp sepc sstatus argc argv envp c =
     c\<lparr>user_rx := (user_rx c)[2 := user_sp, 10 := argc, 11 := argv, 12 := envp],
       user_sepc := sepc, user_sstatus := sstatus, fp_ctx := fp_init_user rm (fp_ctx c)\<rparr>"

definition set_user_pc_to_next :: "usize \<Rightarrow> UKContext \<Rightarrow> UKContext option" where
  "set_user_pc_to_next len c = do { pc \<leftarrow> uadd (user_sepc c) len; Some (c\<lparr>user_sepc := pc\<rparr>) }"

definition syscall_no :: "UKContext \<Rightarrow> usize" where
  "syscall_no c = user_rx c ! 17"

definition syscall_args :: "UKContext \<Rightarrow> usize list" where
  "syscall_args c = [user_rx c ! 10, user_rx c ! 11, user_rx c ! 12, user_rx c ! 13, user_rx c ! 14, user_rx c ! 15]"

definition set_user_a0 :: "usize \<Rightarrow> UKContext \<Rightarrow> UKContext" where
  "set_user_a0 v c = c\<lparr>user_rx := (user_rx c)[10 := v]\<rparr>"

definition set_user_tp :: "usize \<Rightarrow> UKContext \<Rightarrow> UKContext" where
  "set_user_tp v c = c\<lparr>user_rx := (user_rx c)[4 := v]\<rparr>"

definition set_user_sp :: "usize \<Rightarrow> UKContext \<Rightarrow> UKContext" where
  "set_user_sp v c = c\<lparr>user_rx := (user_rx c)[2 := v]\<rparr>"

definition get_user_sp :: "UKContext \<Rightarrow> usize" where
  "get_user_sp c = user_rx c ! 2"

section \<open>Floating-point registers of a hart\<close>

datatype FS = FS_Off | FS_Initial | FS_Clean | FS_Dirty

text \<open>A process is named by its pid, which is unique while one of the two references of the hart keeps the
  process alive.\<close>

record fp_hart =
  reg_fx :: "usize list"
  reg_fcsr :: u32
  fs :: FS
  current_lproc :: "usize option"
  curr_fp_belong_to :: "usize option"

type_synonym fp_state = "fp_hart \<times> (usize \<Rightarrow> FloatContext)"

definition fp_ctx_user_to_kernel :: "fp_state \<Rightarrow> fp_state option" where
  "fp_ctx_user_to_kernel st = (case st of (h, ctx) \<Rightarrow> do {
     curr \<leftarrow> current_lproc h;
     Some (h, if fs h \<noteq> FS_Clean then ctx(curr := (ctx curr)\<lparr>need_load := 1\<rparr>) else ctx) })"

definition sync_ctx_from_reg :: "fp_hart \<Rightarrow> FloatContext \<Rightarrow> FloatContext" where
  "sync_ctx_from_reg h c = c\<lparr>fx := reg_fx h, fcsr := reg_fcsr h\<rparr>"

definition sync_ctx_to_reg :: "FloatContext \<Rightarrow> fp_hart \<Rightarrow> fp_hart" where
  "sync_ctx_to_reg c h = h\<lparr>reg_fx := fx c, reg_fcsr := fcsr c\<rparr>"

definition fp_ctx_kernel_to_user :: "fp_state \<Rightarrow> fp_state option" where
  "fp_ctx_kernel_to_user st = (case st of (h, ctx) \<Rightarrow> do {
     curr \<leftarrow> current_lproc h;
     let not_same = (case curr_fp_belong_to h of Some p \<Rightarrow> p \<noteq> curr | None \<Rightarrow> True);
     if not_same then (
       let ctx = (case curr_fp_belong_to h of
                    Some p \<Rightarrow> if need_load (ctx p) = 1
                              then ctx(p := (sync_ctx_from_reg h (ctx p))\<lparr>need_load := 0\<rparr>) else ctx
                  | None \<Rightarrow> ctx)
       in Some ((sync_ctx_to_reg (ctx curr) h)\<lparr>curr_fp_belong_to := Some curr, fs := FS_Clean\<rparr>, ctx))
     else Some (h, ctx) })"

section \<open>Kernel exceptions\<close>

definition next_instruction_sepc :: "usize \<Rightarrow> u8 \<Rightarrow> usize option" where
  "next_instruction_sepc sepc ir = (if ir AND 0b11 = 0b11 then uadd sepc 4 else uadd sepc 2)"

definition next_sepc :: "(usize \<Rightarrow> u8) \<Rightarrow> usize \<Rightarrow> usize option" where
  "next_sepc text_mem sepc = next_instruction_sepc sepc (text_mem sepc)"

datatype Exception =
    InstructionMisaligned | InstructionFault | IllegalInstruction | Breakpoint | LoadFault | StoreMisaligned
  | StoreFault | UserEnvCall | InstructionPageFault | LoadPageFault | StorePageFault | OtherException

text \<open>The result is the new \<open>sepc\<close>; every fatal exception panics.\<close>

definition kernel_default_exception :: "(usize \<Rightarrow> u8) \<Rightarrow> Exception \<Rightarrow> usize \<Rightarrow> usize option" where
  "kernel_default_exception text_mem e sepc = (case e of
     IllegalInstruction \<Rightarrow> Some sepc
   | Breakpoint \<Rightarrow> next_sepc text_mem sepc
   | _ \<Rightarrow> None)"

section \<open>The context in memory\<close>

definition ctx_slots :: "UKContext \<Rightarrow> usize list" where
  "ctx_slots c = user_rx c @ [user_sepc c, user_sstatus c] @ kernel_sx c @ [kernel_ra c, kernel_sp c, kernel_tp c]"

definition ctx_at :: "usize \<Rightarrow> UKContext \<Rightarrow> (usize \<Rightarrow> usize) \<Rightarrow> bool" where
  "ctx_at p c m \<longleftrightarrow> (\<forall>i<49. m (slot p i) = ctx_slots c ! i)"

text \<open>What the trap entry leaves of a context: \<open>u\<close> is the machine in user mode at the trap, \<open>k\<close> the kernel at
  its call of \<open>__kernel_to_user\<close>.\<close>

definition trapped :: "machine \<Rightarrow> machine \<Rightarrow> UKContext \<Rightarrow> UKContext" where
  "trapped k u c = c\<lparr>user_rx := user_rx c ! 0 # map (\<lambda>r. rreg r u) [1..<32],
     user_sepc := csrs u Sepc, user_sstatus := csrs u Scause,
     kernel_sx := map (\<lambda>r. rreg r k) ([8, 9] @ [18..<28]),
     kernel_ra := rreg 1 k, kernel_sp := rreg 2 k, kernel_tp := rreg 4 k\<rparr>"

lemma ctx_slots_nth:
  assumes "ctx_wf c"
  shows "i < 32 \<Longrightarrow> ctx_slots c ! i = user_rx c ! i" "ctx_slots c ! 32 = user_sepc c" "ctx_slots c ! 33 = user_sstatus c"
    "34 \<le> i \<Longrightarrow> i < 46 \<Longrightarrow> ctx_slots c ! i = kernel_sx c ! (i - 34)"
    "ctx_slots c ! 46 = kernel_ra c" "ctx_slots c ! 47 = kernel_sp c" "ctx_slots c ! 48 = kernel_tp c"
  using assms by (auto simp: ctx_slots_def ctx_wf_def nth_append nth_Cons')


lemma kernel_slots_upt: "kernel_slots = zip ([8, 9] @ [18..<28] @ [1, 2, 4]) [34..<49]"
  by (simp add: kernel_slots_def upt_rec)

lemma trapped_sel:
  "user_rx (trapped k u c) = user_rx c ! 0 # map (\<lambda>r. rreg r u) [1..<32]"
  "user_sepc (trapped k u c) = csrs u Sepc" "user_sstatus (trapped k u c) = csrs u Scause"
  "kernel_sx (trapped k u c) = map (\<lambda>r. rreg r k) ([8, 9] @ [18..<28])"
  "kernel_ra (trapped k u c) = rreg 1 k" "kernel_sp (trapped k u c) = rreg 2 k" "kernel_tp (trapped k u c) = rreg 4 k"
  by (simp_all add: trapped_def)

lemma ctx_at_trapped:
  assumes wf: "ctx_wf c"
    and zero: "m (slot p 0) = user_rx c ! 0"
    and user: "\<forall>r\<in>{1..31}. m (slot p r) = rreg r u" "m (slot p 32) = csrs u Sepc" "m (slot p 33) = csrs u Scause"
    and kernel: "\<forall>e\<in>set kernel_slots. m (slot p (snd e)) = rreg (fst e) k"
  shows "ctx_at p (trapped k u c) m"
  unfolding ctx_at_def
proof (intro allI impI)
  fix i :: nat assume i: "i < 49"
  let ?t = "trapped k u c"
  have wf': "ctx_wf ?t" by (simp add: ctx_wf_def trapped_def)
  have ks: "m (slot p (34 + j)) = rreg (([8, 9] @ [18..<28] @ [1, 2, 4]) ! j) k" if "j < 15" for j
  proof -
    have "(([8, 9] @ [18..<28] @ [1, 2, 4]) ! j, 34 + j) \<in> set kernel_slots"
      unfolding kernel_slots_upt set_zip using that by (force simp del: upt_rec_numeral)
    thus ?thesis using kernel by fastforce
  qed
  consider "i = 0" | "1 \<le> i" "i \<le> 31" | "i = 32" | "i = 33" | "34 \<le> i" "i < 46" | "i = 46" | "i = 47" | "i = 48"
    using i by linarith
  thus "m (slot p i) = ctx_slots ?t ! i"
  proof cases
    case 2
    thus ?thesis using user(1) by (auto simp: ctx_slots_nth[OF wf'] trapped_sel nth_Cons' simp del: upt_rec_numeral)
  next
    case 5
    have "([8, 9] @ [18..<28] @ [1, 2, 4]) ! (i - 34) = ([8, 9] @ [18..<28] :: nat list) ! (i - 34)"
      unfolding append_assoc[symmetric] by (subst nth_append) (use 5 in simp)
    moreover have "m (slot p i) = rreg (([8, 9] @ [18..<28] @ [1, 2, 4]) ! (i - 34)) k" using 5 ks[of "i - 34"] by simp
    moreover have "i - 34 < length ([8, 9] @ [18..<28] :: nat list)" using 5 by simp
    ultimately show ?thesis unfolding ctx_slots_nth(4)[OF wf' 5] trapped_sel by (simp only: nth_map)
  next
    case 6 thus ?thesis using ks[of 12] by (simp add: ctx_slots_nth[OF wf'] trapped_sel)
  next
    case 7 thus ?thesis using ks[of 13] by (simp add: ctx_slots_nth[OF wf'] trapped_sel)
  next
    case 8 thus ?thesis using ks[of 14] by (simp add: ctx_slots_nth[OF wf'] trapped_sel)
  qed (use zero user in \<open>simp_all add: ctx_slots_nth[OF wf'] trapped_sel\<close>)
qed

text \<open>Running a user program (C9). \<open>c\<close> is the context at address \<open>p\<close> that \<open>__kernel_to_user\<close> is given in \<open>a0\<close>;
  \<open>s2\<close> is the machine when the program traps, with the context and \<open>sscratch\<close> untouched. The program starts
  from the registers and the program counter of \<open>c\<close>; afterwards the context holds its registers, and the
  kernel continues behind the call with its callee-saved registers, stack and thread pointer. The slot
  declared as \<open>user_sstatus\<close> is loaded into and stored from \<open>scause\<close>.\<close>

theorem run_user_context:
  assumes c: "ctx_wf c" "ctx_at p c (mem s)" and p: "rreg 10 s = p"
    and s1: "s1 = run kernel_to_user_asm s"
    and user: "csrs s2 Sscratch = csrs s1 Sscratch" "\<forall>i<49. mem s2 (slot p i) = mem s1 (slot p i)"
    and s3: "s3 = run user_trap_entry_asm s2"
  shows "(\<forall>r\<in>{1..31}. rreg r s1 = user_rx c ! r) \<and> pc s1 = user_sepc c \<and> csrs s1 Scause = user_sstatus c \<and>
    ctx_at p (trapped s s2 c) (mem s3) \<and> user_sstatus (trapped s s2 c) = csrs s2 Scause \<and>
    (\<forall>r\<in>{1, 2, 4, 8, 9} \<union> {18..27}. rreg r s3 = rreg r s) \<and> pc s3 = rreg 1 s"
proof -
  note sw = context_switch_roundtrip[OF p s1 user s3]
  have m: "mem s (slot p i) = ctx_slots c ! i" if "i < 49" for i using c(2) that by (simp add: ctx_at_def)
  have "rreg r s1 = user_rx c ! r" if "r \<in> {1..31}" for r
    using sw that m[of r] ctx_slots_nth(1)[OF c(1), of r] by auto
  moreover have "pc s1 = user_sepc c" using sw m[of 32] ctx_slots_nth(2)[OF c(1)] by simp
  moreover have "csrs s1 Scause = user_sstatus c"
    using m[of 33] ctx_slots_nth(3)[OF c(1)] s1 p by (simp add: kernel_to_user_rest kernel_stores_slot)
  moreover have "ctx_at p (trapped s s2 c) (mem s3)"
    using sw m[of 0] ctx_slots_nth(1)[OF c(1), of 0] by (intro ctx_at_trapped) (use c(1) in auto)
  ultimately show ?thesis using sw by (simp add: trapped_def)
qed

definition uniform_ctx :: UKContext where
  "uniform_ctx = \<lparr>user_rx = replicate 32 5, user_sepc = 5, user_sstatus = 5, kernel_sx = replicate 12 5,
     kernel_ra = 5, kernel_sp = 5, kernel_tp = 5, fp_ctx = \<lparr>fx = replicate 32 0, fcsr = 0, need_load = 0\<rparr>\<rparr>"

theorem run_user_context_witness:
  "let s = idle_machine\<lparr>mem := (\<lambda>_. 5)\<rparr>; s1 = run kernel_to_user_asm s; s2 = s1\<lparr>regs := (\<lambda>r. 7)\<rparr>;
       s3 = run user_trap_entry_asm s2
   in rreg 17 s1 = 5 \<and> ctx_at 110 (trapped s s2 uniform_ctx) (mem s3) \<and> rreg 8 s3 = 108 \<and> pc s3 = 101"
proof -
  let ?s = "idle_machine\<lparr>mem := (\<lambda>_. 5)\<rparr>"
  let ?s1 = "run kernel_to_user_asm ?s"
  let ?s2 = "?s1\<lparr>regs := (\<lambda>r. 7)\<rparr>"
  have wf: "ctx_wf uniform_ctx" by (simp add: ctx_wf_def uniform_ctx_def)
  have "ctx_slots uniform_ctx = replicate 49 5"
    by (simp add: ctx_slots_def uniform_ctx_def numeral_eq_Suc)
  hence c: "ctx_at 110 uniform_ctx (mem ?s)" by (simp add: ctx_at_def)
  have p: "rreg 10 ?s = 110" by (simp add: idle_machine_def rreg_def)
  have "csrs ?s2 Sscratch = csrs ?s1 Sscratch" "\<forall>i<49. mem ?s2 (slot 110 i) = mem ?s1 (slot 110 i)" by simp_all
  note r = run_user_context[OF wf c p refl this refl]
  have "rreg 17 ?s1 = user_rx uniform_ctx ! 17" using r by auto
  moreover have "user_rx uniform_ctx ! 17 = 5" by (simp add: uniform_ctx_def)
  moreover have "rreg 8 (run user_trap_entry_asm ?s2) = rreg 8 ?s" using r by blast
  moreover have "pc (run user_trap_entry_asm ?s2) = rreg 1 ?s" using r by blast
  moreover have "rreg 8 ?s = 108" "rreg 1 ?s = 101" by (simp_all add: idle_machine_def rreg_def)
  ultimately show ?thesis using r by (simp only: Let_def simp_thms)
qed

section \<open>Floating-point registers belong to their process\<close>

datatype fp_mode = InKernel | InUser

text \<open>One hart: a process is made current, entered, computes with the registers (which sets \<open>FS\<close> to dirty), and
  traps. The last component records, for each process, the register values it left behind.\<close>

inductive fp_reach :: "fp_hart \<Rightarrow> (usize \<Rightarrow> FloatContext) \<Rightarrow> fp_mode \<Rightarrow> (usize \<Rightarrow> usize list \<times> u32) \<Rightarrow> bool" where
  boot: "curr_fp_belong_to h = None \<Longrightarrow> fp_reach h ctx InKernel (\<lambda>q. (fx (ctx q), fcsr (ctx q)))"
| schedule: "fp_reach h ctx InKernel g \<Longrightarrow> fp_reach (h\<lparr>current_lproc := Some q\<rparr>) ctx InKernel g"
| enter: "fp_reach h ctx InKernel g \<Longrightarrow> fp_ctx_kernel_to_user (h, ctx) = Some (h', ctx') \<Longrightarrow> fp_reach h' ctx' InUser g"
| compute: "fp_reach h ctx InUser g \<Longrightarrow> current_lproc h = Some q \<Longrightarrow>
    fp_reach (h\<lparr>reg_fx := v, reg_fcsr := w, fs := FS_Dirty\<rparr>) ctx InUser (g(q := (v, w)))"
| trap: "fp_reach h ctx InUser g \<Longrightarrow> fp_ctx_user_to_kernel (h, ctx) = Some (h', ctx') \<Longrightarrow> fp_reach h' ctx' InKernel g"

definition fp_inv :: "fp_hart \<Rightarrow> (usize \<Rightarrow> FloatContext) \<Rightarrow> fp_mode \<Rightarrow> (usize \<Rightarrow> usize list \<times> u32) \<Rightarrow> bool" where
  "fp_inv h ctx md g \<longleftrightarrow>
     (\<forall>q. curr_fp_belong_to h \<noteq> Some q \<longrightarrow> (fx (ctx q), fcsr (ctx q)) = g q) \<and>
     (\<forall>q. curr_fp_belong_to h = Some q \<longrightarrow> (reg_fx h, reg_fcsr h) = g q \<and>
        (need_load (ctx q) = 1 \<or> (fx (ctx q), fcsr (ctx q)) = g q \<or> md = InUser \<and> fs h \<noteq> FS_Clean)) \<and>
     (md = InUser \<longrightarrow> curr_fp_belong_to h = current_lproc h \<and> current_lproc h \<noteq> None)"

lemma fp_inv_enter:
  assumes "fp_inv h ctx InKernel g" "fp_ctx_kernel_to_user (h, ctx) = Some (h', ctx')"
  shows "fp_inv h' ctx' InUser g"
  using assms
  by (cases "curr_fp_belong_to h"; cases "current_lproc h";
    auto simp: fp_ctx_kernel_to_user_def fp_inv_def sync_ctx_from_reg_def sync_ctx_to_reg_def Let_def split: if_splits; metis)

lemma fp_inv_trap:
  assumes "fp_inv h ctx InUser g" "fp_ctx_user_to_kernel (h, ctx) = Some (h', ctx')"
  shows "fp_inv h' ctx' InKernel g"
  using assms
  by (cases "current_lproc h") (auto simp: fp_ctx_user_to_kernel_def fp_inv_def split: if_splits)

lemma fp_reach_inv: "fp_reach h ctx md g \<Longrightarrow> fp_inv h ctx md g"
proof (induction rule: fp_reach.induct)
  case (enter h ctx g h' ctx') thus ?case using fp_inv_enter by blast
next
  case (trap h ctx g h' ctx') thus ?case using fp_inv_trap by blast
qed (auto simp: fp_inv_def)

text \<open>In user mode the floating-point registers hold what the running process last left in them (C12),
  whatever other processes ran in between.\<close>

theorem fp_registers_own:
  "fp_reach h ctx InUser g \<Longrightarrow> current_lproc h = Some q \<Longrightarrow> (reg_fx h, reg_fcsr h) = g q"
  using fp_reach_inv[of h ctx InUser g] by (simp add: fp_inv_def)

definition fp_boot :: fp_hart where
  "fp_boot = \<lparr>reg_fx = [], reg_fcsr = 0, fs = FS_Initial, current_lproc = None, curr_fp_belong_to = None\<rparr>"

definition fp_blank :: FloatContext where
  "fp_blank = \<lparr>fx = [0], fcsr = 0, need_load = 0\<rparr>"

text \<open>Two processes: 1 computes, 2 computes, 1 is entered again.\<close>

lemma fp_two_processes:
  "\<exists>h ctx g. fp_reach h ctx InUser g \<and> current_lproc h = Some 1 \<and> g 1 = ([11], 1) \<and> g 2 = ([22], 2)"
proof -
  note defs = fp_ctx_kernel_to_user_def fp_ctx_user_to_kernel_def sync_ctx_from_reg_def sync_ctx_to_reg_def Let_def
  let ?g = "\<lambda>q. (fx fp_blank, fcsr fp_blank)"
  have "fp_reach fp_boot (\<lambda>_. fp_blank) InKernel ?g"
    by (rule boot) (simp add: fp_boot_def)
  note schedule[OF this, of 1]
  note enter[OF this, simplified defs, simplified fp_boot_def, simplified, OF conjI, OF refl refl]
  note compute[OF this, where q = 1 and v = "[11]" and w = 1, simplified]
  note trap[OF this, simplified defs, simplified, OF conjI, OF refl refl]
  note schedule[OF this, of 2, simplified]
  note enter[OF this, simplified defs, simplified, OF conjI, OF refl refl]
  note compute[OF this, where q = 2 and v = "[22]" and w = 2, simplified]
  note trap[OF this, simplified defs, simplified, OF conjI, OF refl refl]
  note schedule[OF this, of 1, simplified]
  note enter[OF this, simplified defs, simplified, OF conjI, OF refl refl]
  thus ?thesis by (intro exI conjI, assumption) simp_all
qed

theorem fp_registers_own_witness:
  "\<exists>h ctx g. fp_reach h ctx InUser g \<and> current_lproc h = Some 1 \<and> (reg_fx h, reg_fcsr h) = ([11], 1)"
  using fp_two_processes fp_registers_own by metis

text \<open>After a trap the registers may be newer than the saved context, which is what a cloned process copies.\<close>

lemma saved_fp_may_be_stale:
  "\<exists>h ctx g. fp_reach h ctx InKernel g \<and> current_lproc h = Some 1 \<and> (fx (ctx 1), fcsr (ctx 1)) \<noteq> g 1"
proof -
  note defs = fp_ctx_kernel_to_user_def fp_ctx_user_to_kernel_def sync_ctx_from_reg_def sync_ctx_to_reg_def Let_def
  have "fp_reach fp_boot (\<lambda>_. fp_blank) InKernel (\<lambda>q. (fx fp_blank, fcsr fp_blank))"
    by (rule boot) (simp add: fp_boot_def)
  note schedule[OF this, of 1]
  note enter[OF this, simplified defs, simplified fp_boot_def, simplified, OF conjI, OF refl refl]
  note compute[OF this, where q = 1 and v = "[11]" and w = 1, simplified]
  note trap[OF this, simplified defs, simplified, OF conjI, OF refl refl]
  thus ?thesis by (intro exI conjI, assumption) (simp_all add: fp_blank_def)
qed

end
