(* ===== verification/Signal_Laws.thy ===== *)
theory Signal_Laws
  imports Signal Tables_Laws
begin

text \<open>Properties of signal delivery.\<close>

section \<open>Bits\<close>

declare push_bit_of_1 [simp del]

lemma signal_all_mask: "signal_all = mask 34"
  by (simp add: signal_all_def mask_eq_exp_minus_1)

lemma bit_signal_all: "bit signal_all i \<longleftrightarrow> i < 34"
  by (auto simp: signal_all_mask bit_mask_iff)

lemma bit_single: "bit (push_bit k 1 :: u64) i \<longleftrightarrow> i = k \<and> k < 64"
  by (auto simp: bit_simps)

lemma single_valid: "k < 64 \<Longrightarrow> (push_bit k 1 AND NOT signal_all = 0) \<longleftrightarrow> k < 34"
proof
  assume k: "k < 64" and z: "push_bit k 1 AND NOT signal_all = 0"
  show "k < 34"
  proof (rule ccontr)
    assume "\<not> k < 34"
    hence "bit (push_bit k 1 AND NOT signal_all) k" using k by (simp add: bit_and_iff bit_not_iff bit_single bit_signal_all)
    thus False using z by simp
  qed
next
  assume "k < 34"
  show "push_bit k 1 AND NOT signal_all = 0"
    by (rule bit_eqI) (use \<open>k < 34\<close> in \<open>auto simp: bit_and_iff bit_not_iff bit_single bit_signal_all\<close>)
qed

lemma single_and_all: "k < 34 \<Longrightarrow> push_bit k 1 AND signal_all = push_bit k 1"
  by (rule bit_eqI) (auto simp: bit_and_iff bit_single bit_signal_all)

lemma signal_bit_eq:
  "signal_bit signo = (if 1 \<le> unat signo \<and> unat signo \<le> 34 then Some (push_bit (unat signo - 1) 1) else None)"
proof (cases "1 \<le> unat signo")
  case True
  hence "(1 :: usize) \<le> signo" by (simp add: word_le_nat_alt)
  hence u: "usub signo 1 = Some (signo - 1)" "unat (signo - 1) = unat signo - 1"
    using True by (simp_all add: usub_def unat_sub)
  show ?thesis
    using True single_valid[of "unat signo - 1"]
    by (cases "unat signo - 1 < 64") (auto simp: signal_bit_def u signal_from_bits_def)
next
  case False
  hence "signo = 0" by (simp add: not_le unat_eq_zero)
  thus ?thesis by (simp add: signal_bit_def usub_def word_le_nat_alt)
qed

lemma find_upt: "find P [0..<n] = Some i \<longleftrightarrow> i < n \<and> P i \<and> (\<forall>j<i. \<not> P j)"
  by (auto simp: find_Some_iff)

lemma takeWhile_upt: "i < n \<Longrightarrow> P i \<Longrightarrow> \<forall>j<i. \<not> P j \<Longrightarrow> length (takeWhile (\<lambda>i. \<not> P i) [0..<n]) = i"
  by (subst takeWhile_eq_take_P_nth[of i]) auto

lemma trailing_zeros_eq: "bit w i \<Longrightarrow> \<forall>j<i. \<not> bit w j \<Longrightarrow> trailing_zeros (w :: u64) = i"
proof -
  assume "bit w i" "\<forall>j<i. \<not> bit w j"
  moreover have "i < 64" using \<open>bit w i\<close> bit_imp_le_length[of w i] by simp
  ultimately show ?thesis unfolding trailing_zeros_def by (intro takeWhile_upt)
qed

lemma trailing_zeros_single: "k < 64 \<Longrightarrow> trailing_zeros (push_bit k 1) = k"
  by (rule trailing_zeros_eq) (simp_all add: bit_single)

lemma signal_lowest:
  assumes "s \<noteq> 0" "s AND NOT signal_all = 0"
  shows "trailing_zeros s < 34" "bit s (trailing_zeros s)" "signal_first s = Some (push_bit (trailing_zeros s) 1)"
proof -
  obtain n where n: "bit s n" using assms(1) bit_eqI[of s 0] by auto
  define i where "i = (LEAST i. bit s i)"
  have i: "bit s i" "\<forall>j<i. \<not> bit s j" unfolding i_def using n LeastI not_less_Least by fast+
  have "i < 34"
  proof (rule ccontr)
    assume "\<not> i < 34"
    hence "bit (s AND NOT signal_all) i"
      using i(1) bit_imp_le_length[of s i] by (simp add: bit_and_iff bit_not_iff bit_signal_all)
    thus False using assms(2) by simp
  qed
  moreover have t: "trailing_zeros s = i" using i by (rule trailing_zeros_eq)
  ultimately show "trailing_zeros s < 34" "bit s (trailing_zeros s)" using i by simp_all
  have "find (bit s) [0..<34] = Some i" using i \<open>i < 34\<close> by (simp add: find_upt del: upt_rec_numeral)
  thus "signal_first s = Some (push_bit (trailing_zeros s) 1)" by (simp add: signal_first_def t del: upt_rec_numeral)
qed

lemma ilog2_single: "k < 64 \<Longrightarrow> checked_ilog2 (push_bit k 1) = Some k"
proof -
  assume k: "k < 64"
  have "find (bit (push_bit k 1 :: u64)) (rev [0..<64]) = find (\<lambda>x. x = k) (rev [0..<64])"
    by (rule arg_cong2[of _ _ _ _ find]) (auto simp: fun_eq_iff bit_single k)
  thus ?thesis using k by (simp add: checked_ilog2_def find_eq_self del: upt_rec_numeral)
qed

section \<open>Sending\<close>

text \<open>Sending a signal (C13): a number from 1 to 34 becomes pending, keeps the other pending signals and wakes the
  listeners; any other number panics the kernel, also when it comes from \<open>kill\<close> or \<open>tkill\<close>.\<close>

theorem send_signal_outcome:
  assumes "bus_inv bus"
  shows "(case send_signal signum (sg, bus) of
      Some (ws, sg', bus') \<Rightarrow> 1 \<le> unat signum \<and> unat signum \<le> 34 \<and>
        ws = map waker (filter (\<lambda>n. ev_contains (listen_for n) Ev_Signal) (events bus)) \<and>
        (\<forall>i. bit (signal_pending sg') i \<longleftrightarrow> bit (signal_pending sg) i \<or> i = unat signum - 1) \<and>
        sg' = sg\<lparr>signal_pending := signal_pending sg'\<rparr>
    | None \<Rightarrow> signum = 0 \<or> 34 < unat signum)"
proof -
  obtain bus' where b: "bus_drop (\<lambda>n. ev_contains (listen_for n) Ev_Signal) bus = Some bus'"
    using bus_drop_inv[OF assms] by blast
  show ?thesis
    by (auto simp: send_signal_def signal_bit_eq bus_notify_def b bit_or_iff bit_single unat_eq_zero Suc_le_eq)
qed

theorem send_signal_outcome_witness:
  "(case send_signal 17 (signal_new uniform_ctx, one_listener) of
      Some (ws, sg', _) \<Rightarrow> bit (signal_pending sg') 16 \<and> length ws = 1
    | None \<Rightarrow> False) \<and> send_signal 40 (signal_new uniform_ctx, one_listener) = None"
proof -
  have "send_signal 17 (signal_new uniform_ctx, one_listener) \<noteq> None"
    by (simp add: send_signal_def signal_bit_eq bus_notify_def bus_drop_def one_listener_def pool_release_def ev_contains_def Ev_Signal_def)
  moreover have "send_signal 40 (signal_new uniform_ctx, one_listener) = None"
    by (simp add: send_signal_def signal_bit_eq)
  ultimately show ?thesis
    using send_signal_outcome[OF one_listener_inv, of 17 "signal_new uniform_ctx"]
    by (auto simp: one_listener_def ev_contains_def Ev_Signal_def)
qed

section \<open>Handling\<close>

lemma check_signal_handler:
  assumes "signal_processing sg = 0" "signal_pending sg \<noteq> 0" "signal_pending sg AND NOT signal_all = 0"
    and "i = trailing_zeros (signal_pending sg)"
    and "bt_get (word_of_nat i + 1) (signal_handler sg) = Some h" "h \<noteq> SIG_DFL" "h \<noteq> SIG_IGN"
  shows "check_signal (sg, cx) = Some (Run_User,
    sg\<lparr>before_signal_context := cx, signal_processing := push_bit i 1\<rparr>,
    set_user_a0 (word_of_nat i + 1) (cx\<lparr>user_sepc := h\<rparr>))"
proof -
  have "i < 34" "signal_first (signal_pending sg) = Some (push_bit i 1)"
    using signal_lowest[OF assms(2,3)] assms(4) by simp_all
  thus ?thesis using assms by (simp add: check_signal_def ilog2_single single_and_all Let_def)
qed

lemma sigreturn_single:
  assumes "signal_processing sg = push_bit i 1" "i < 34"
  shows "sys_sigreturn (sg, cx) = Some (Inr (user_rx (before_signal_context sg) ! 10),
    sg\<lparr>signal_processing := 0\<rparr>, before_signal_context sg)"
proof -
  have "bit (push_bit i 1 :: u64) i" using assms(2) by (simp add: bit_single)
  hence "push_bit i 1 \<noteq> (0 :: u64)" by auto
  moreover have "push_bit i 1 AND NOT (push_bit i 1 AND signal_all) = 0"
    unfolding single_and_all[OF assms(2)] by simp
  ultimately show ?thesis
    using assms by (simp add: sys_sigreturn_def trailing_zeros_single Let_def del: bit.conj_disj_distrib de_Morgan_conj)
qed

lemma restore_a0: "length (user_rx c) = 32 \<Longrightarrow> set_user_a0 (user_rx c ! 10) c = c"
  by (simp add: set_user_a0_def)

text \<open>Handling a signal (C14). The lowest pending signal with a handler is delivered: the program continues in
  the handler with the signal number in \<open>a0\<close>. Whatever the handler does (\<open>cx2\<close> is the context at its
  \<open>sigreturn\<close>), the interrupted context comes back exactly. The signal stays pending, so the next iteration
  of the user loop delivers it again.\<close>

theorem signal_handler_roundtrip:
  assumes "signal_processing sg = 0" "signal_pending sg \<noteq> 0" "signal_pending sg AND NOT signal_all = 0"
    and "i = trailing_zeros (signal_pending sg)"
    and "bt_get (word_of_nat i + 1) (signal_handler sg) = Some h" "h \<noteq> SIG_DFL" "h \<noteq> SIG_IGN"
    and "ctx_wf cx"
  shows "\<exists>sg1 cx1. check_signal (sg, cx) = Some (Run_User, sg1, cx1) \<and> user_sepc cx1 = h \<and>
    user_rx cx1 = (user_rx cx)[10 := word_of_nat i + 1] \<and>
    (\<forall>cx2. \<exists>r sg2 cx3. sys_sigreturn (sg1, cx2) = Some (r, sg2, cx3) \<and> set_user_a0 (syscall_return r) cx3 = cx \<and>
       signal_pending sg2 = signal_pending sg \<and> signal_handler sg2 = signal_handler sg \<and>
       check_signal (sg2, cx) = Some (Run_User, sg1, cx1))"
proof -
  let ?sg1 = "sg\<lparr>before_signal_context := cx, signal_processing := push_bit i 1\<rparr>"
  let ?cx1 = "set_user_a0 (word_of_nat i + 1) (cx\<lparr>user_sepc := h\<rparr>)"
  let ?sg2 = "?sg1\<lparr>signal_processing := 0\<rparr>"
  have "i < 34" using signal_lowest[OF assms(2,3)] assms(4) by simp
  hence ret: "sys_sigreturn (?sg1, cx2) = Some (Inr (user_rx cx ! 10), ?sg2, cx)" for cx2
    by (subst sigreturn_single[of _ i]) simp_all
  have again: "check_signal (?sg2, cx) = Some (Run_User, ?sg1, ?cx1)"
    by (subst check_signal_handler[of _ i h]) (use assms in simp_all)
  have "set_user_a0 (syscall_return (Inr (user_rx cx ! 10))) cx = cx"
    using assms(8) by (simp add: syscall_return_def restore_a0 ctx_wf_def)
  hence "\<exists>r sg2 cx3. sys_sigreturn (?sg1, cx2) = Some (r, sg2, cx3) \<and> set_user_a0 (syscall_return r) cx3 = cx \<and>
       signal_pending sg2 = signal_pending sg \<and> signal_handler sg2 = signal_handler sg \<and>
       check_signal (sg2, cx) = Some (Run_User, ?sg1, ?cx1)" for cx2
    using ret again by (intro exI[of _ "Inr (user_rx cx ! 10)"] exI[of _ ?sg2] exI[of _ cx]) simp
  thus ?thesis
    using check_signal_handler[OF assms(1-7), of cx]
    by (intro exI[of _ ?sg1] exI[of _ ?cx1]) (simp add: set_user_a0_def)
qed

definition usr1_pending :: Signal where
  "usr1_pending = \<lparr>signal_pending = push_bit 9 1, signal_processing = 0, signal_handler = [(10, 0x1000)],
     before_signal_context = uniform_ctx\<rparr>"

theorem signal_handler_roundtrip_witness:
  "\<exists>sg1 cx1. check_signal (usr1_pending, uniform_ctx) = Some (Run_User, sg1, cx1) \<and> user_sepc cx1 = 0x1000 \<and>
    user_rx cx1 ! 10 = 10 \<and>
    (\<exists>r sg2 cx3. sys_sigreturn (sg1, cx1) = Some (r, sg2, cx3) \<and> set_user_a0 (syscall_return r) cx3 = uniform_ctx \<and>
       check_signal (sg2, uniform_ctx) = Some (Run_User, sg1, cx1))"
proof -
  have nz: "push_bit 9 1 \<noteq> (0 :: u64)" by (simp add: push_bit_of_1)
  have t: "9 = trailing_zeros (signal_pending usr1_pending)" by (simp add: usr1_pending_def trailing_zeros_single)
  have u: "signal_processing usr1_pending = 0" "signal_pending usr1_pending \<noteq> 0"
    "signal_pending usr1_pending AND NOT signal_all = 0"
    "bt_get (word_of_nat 9 + 1) (signal_handler usr1_pending) = Some 0x1000"
    "(0x1000 :: usize) \<noteq> SIG_DFL" "(0x1000 :: usize) \<noteq> SIG_IGN"
    using nz single_valid[of 9] by (simp_all add: usr1_pending_def bt_get_def SIG_DFL_def SIG_IGN_def)
  have wf: "ctx_wf uniform_ctx" by (simp add: ctx_wf_def uniform_ctx_def)
  have l: "((user_rx uniform_ctx)[10 := word_of_nat 9 + 1]) ! 10 = 10" by (simp add: uniform_ctx_def)
  from signal_handler_roundtrip[OF u(1-3) t u(4-6) wf] show ?thesis
    by (elim exE conjE) (use l in \<open>metis (no_types)\<close>)
qed

text \<open>A pending signal with no registered handler is not acted on, whichever signal it is, and it stays
  pending; it also keeps every later signal with a higher number from being looked at.\<close>

theorem signal_without_handler:
  assumes "signal_pending sg AND NOT signal_all = 0"
    and "bt_get (get_signum (signal_pending sg)) (signal_handler sg) = None"
  shows "check_signal (sg, cx) = Some (Run_User, sg, cx)"
proof (cases "signal_pending sg = 0")
  case False
  thus ?thesis
    using assms signal_lowest[OF False assms(1)] by (simp add: check_signal_def get_signum_def ilog2_single Let_def)
qed (simp add: check_signal_def)

definition kill_pending :: Signal where
  "kill_pending = \<lparr>signal_pending = SIGKILL, signal_processing = 0, signal_handler = [], before_signal_context = uniform_ctx\<rparr>"

theorem signal_without_handler_witness:
  "check_signal (kill_pending, uniform_ctx) = Some (Run_User, kill_pending, uniform_ctx)"
  by (rule signal_without_handler) (simp_all add: kill_pending_def SIGKILL_def single_valid)

end
