(* ===== verification/Vfs_Path.thy ===== *)
theory Vfs_Path
  imports Prelude
begin

text \<open>
  File system paths, \<^verbatim>\<open>fs/new_vfs/path.rs\<close>: a path is kept as its list of components with \<open>.\<close>, \<open>..\<close> and empty
  parts resolved while it is parsed. Strings are lists of characters.

  \<open>path_print_parse\<close>: printing and parsing again gives the same path. \<open>path_append_resolves\<close>: appending a
  relative path is resolving the joined text, for a relative path that does not climb above its start; a
  leading \<open>..\<close> of any other path is dropped (\<open>path_append_drops_parent\<close>).
\<close>

section \<open>Parsing and printing\<close>

record Path =
  is_absolute :: bool
  is_current :: bool
  components :: "string list"

text \<open>\<open>str::split\<close> on one character.\<close>

fun split_on :: "char \<Rightarrow> string \<Rightarrow> string list" where
  "split_on c [] = [[]]"
| "split_on c (x # xs) = (if x = c then [] # split_on c xs
     else (case split_on c xs of p # ps \<Rightarrow> (x # p) # ps | [] \<Rightarrow> [[x]]))"

definition path_part :: "string \<Rightarrow> string list \<Rightarrow> string list" where
  "path_part part cs = (
     if part = [] \<or> part = ''.'' then cs
     else if part = ''..'' then (if cs \<noteq> [] then butlast cs else cs)
     else cs @ [part])"

definition from_string :: "string \<Rightarrow> Path" where
  "from_string path = (
     let cs = fold path_part (split_on CHR ''/'' path) []
     in \<lparr>is_absolute = (case path of c # _ \<Rightarrow> c = CHR ''/'' | [] \<Rightarrow> False), is_current = (path = ''.'' \<or> cs = []), components = cs\<rparr>)"

fun join_parts :: "string list \<Rightarrow> string" where
  "join_parts [] = []"
| "join_parts [p] = p"
| "join_parts (p # q # ps) = p @ ''/'' @ join_parts (q # ps)"

definition to_string :: "Path \<Rightarrow> string" where
  "to_string p = (if is_absolute p then ''/'' else []) @ join_parts (components p)"

section \<open>Operations\<close>

definition path_append :: "Path \<Rightarrow> Path \<Rightarrow> Path option" where
  "path_append p other = do {
     rassert (\<not> is_absolute other);
     Some \<lparr>is_absolute = is_absolute p, is_current = (is_current p \<and> is_current other),
           components = components p @ components other\<rparr> }"

definition is_root :: "Path \<Rightarrow> bool" where
  "is_root p \<longleftrightarrow> is_absolute p \<and> components p = []"

definition path_last :: "Path \<Rightarrow> string option" where
  "path_last p = do {
     rassert (\<not> is_root p);
     rassert (\<not> is_current p);
     rassert (components p \<noteq> []);
     Some (last (components p)) }"

definition path_first :: "Path \<Rightarrow> string option" where
  "path_first p = do { rassert (components p \<noteq> []); Some (hd (components p)) }"

definition remove_head :: "Path \<Rightarrow> Path option" where
  "remove_head p = do { rassert (\<not> is_root p); Some (p\<lparr>components := tl (components p)\<rparr>) }"

definition remove_tail :: "Path \<Rightarrow> Path option" where
  "remove_tail p = do {
     rassert (\<not> is_root p);
     Some (if components p \<noteq> [] then p\<lparr>components := butlast (components p)\<rparr> else p) }"

definition starts_with :: "Path \<Rightarrow> Path \<Rightarrow> bool" where
  "starts_with p pre = (
     if length (components pre) = 0 then True
     else if length (components pre) > length (components p) then False
     else list_all (\<lambda>(a, b). a = b) (zip (components p) (components pre)))"

definition without_prefix :: "Path \<Rightarrow> Path \<Rightarrow> Path option" where
  "without_prefix p pre = do {
     rassert (starts_with p pre);
     Some (p\<lparr>components := drop (length (components pre)) (components p)\<rparr>) }"

definition split_dir_file :: "Path \<Rightarrow> (Path \<times> string) option" where
  "split_dir_file p = do {
     rassert (components p \<noteq> []);
     Some (p\<lparr>components := butlast (components p)\<rparr>, last (components p)) }"

text \<open>The self test of the module: a path and its printed form.\<close>

definition path_tests :: "(string \<times> string) list" where
  "path_tests = [
    (''/a/b/c/d/'', ''/a/b/c/d''), (''/abcdefg/asdsd/asdasd'', ''/abcdefg/asdsd/asdasd''),
    (''aa/../bb/../cc/././.'', ''cc''), (''///'', ''/''), (''//a//.//b///c//'', ''/a/b/c''),
    (''/a/../'', ''/''), (''a/../'', []), (''a/..//..'', []), (''././a'', ''a''), (''.././a'', ''a''),
    (''/././a'', ''/a''), (''/abc/../abc'', ''/abc''), (''/test'', ''/test''), (''/test/'', ''/test''),
    (''test/'', ''test''), (''test'', ''test''), (''/test//'', ''/test''), (''/test/foo'', ''/test/foo''),
    (''/test/foo/'', ''/test/foo''), (''/test/foo/bar'', ''/test/foo/bar''),
    (''/test/foo/bar//'', ''/test/foo/bar''), (''/test//foo/bar//'', ''/test/foo/bar''),
    (''/test//./foo/bar//'', ''/test/foo/bar''), (''/test//./.foo/bar//'', ''/test/.foo/bar''),
    (''/test//./..foo/bar//'', ''/test/..foo/bar''), (''/test//./../foo/bar//'', ''/foo/bar''),
    (''/test/../foo'', ''/foo''), (''/test/bar/../foo'', ''/test/foo''), (''../foo'', ''foo''),
    (''../foo/'', ''foo''), (''/../foo'', ''/foo''), (''/../foo/'', ''/foo''), (''/../../foo'', ''/foo''),
    (''/bleh/../../foo'', ''/foo''), (''/bleh/bar/../../foo'', ''/foo''),
    (''/bleh/bar/../../foo/..'', ''/''), (''/bleh/bar/../../foo/../meh'', ''/meh''), (''.'', []),
    (''./'', []), (''././././././.'', [])]"

definition path_test :: bool where
  "path_test \<longleftrightarrow> list_all (\<lambda>(s, t). to_string (from_string s) = t) path_tests"

lemma path_test_passes: "path_test"
  by (simp add: path_test_def path_tests_def from_string_def path_part_def to_string_def Let_def)

section \<open>Normal form\<close>

definition norm_part :: "string \<Rightarrow> bool" where
  "norm_part p \<longleftrightarrow> p \<noteq> [] \<and> p \<noteq> ''.'' \<and> p \<noteq> ''..'' \<and> CHR ''/'' \<notin> set p"

definition path_wf :: "Path \<Rightarrow> bool" where
  "path_wf p \<longleftrightarrow> list_all norm_part (components p) \<and> is_current p = (components p = [])"

lemma split_on_neq [simp]: "split_on c s \<noteq> []"
  by (cases s) (auto split: list.splits)

lemma split_on_none: "p \<in> set (split_on c s) \<Longrightarrow> c \<notin> set p"
proof (induction s arbitrary: p)
  case (Cons x xs)
  obtain q qs where "split_on c xs = q # qs" by (cases "split_on c xs") auto
  thus ?case using Cons by (auto split: if_splits)
qed simp

lemma split_on_append: "split_on c (a @ c # b) = split_on c a @ split_on c b"
proof (induction a)
  case (Cons x xs)
  obtain q qs where "split_on c xs = q # qs" by (cases "split_on c xs") auto
  thus ?case using Cons by simp
qed simp

lemma split_on_id: "c \<notin> set s \<Longrightarrow> split_on c s = [s]"
  by (induction s) auto

lemma split_join: "ps \<noteq> [] \<Longrightarrow> \<forall>p\<in>set ps. CHR ''/'' \<notin> set p \<Longrightarrow> split_on CHR ''/'' (join_parts ps) = ps"
  by (induction ps rule: join_parts.induct) (simp_all add: split_on_id split_on_append)

lemma path_part_norm: "norm_part p \<Longrightarrow> path_part p cs = cs @ [p]"
  by (simp add: norm_part_def path_part_def)

lemma fold_norm: "\<forall>p\<in>set ps. norm_part p \<Longrightarrow> fold path_part ps cs = cs @ ps"
  by (induction ps arbitrary: cs) (simp_all add: path_part_norm)

lemma path_part_keeps:
  "list_all norm_part cs \<Longrightarrow> CHR ''/'' \<notin> set p \<Longrightarrow> list_all norm_part (path_part p cs)"
  by (auto simp: path_part_def norm_part_def list_all_iff dest: in_set_butlastD)

lemma fold_keeps:
  "list_all norm_part cs \<Longrightarrow> \<forall>p\<in>set ps. CHR ''/'' \<notin> set p \<Longrightarrow> list_all norm_part (fold path_part ps cs)"
  by (induction ps arbitrary: cs) (simp_all add: path_part_keeps)

lemma components_from: "components (from_string s) = fold path_part (split_on CHR ''/'' s) []"
  by (simp add: from_string_def Let_def)

text \<open>Every parsed path is in normal form.\<close>

lemma from_string_wf: "path_wf (from_string s)"
proof -
  have "list_all norm_part (fold path_part (split_on CHR ''/'' s) [])"
    using fold_keeps[of "[]"] split_on_none by simp
  moreover have "s = ''.'' \<Longrightarrow> fold path_part (split_on CHR ''/'' s) [] = []"
    by (simp add: path_part_def)
  ultimately show ?thesis by (auto simp: path_wf_def from_string_def Let_def)
qed

lemma split_to_string:
  assumes "path_wf p"
  shows "fold path_part (split_on CHR ''/'' (to_string p)) cs = cs @ components p"
proof -
  have n: "\<forall>q\<in>set (components p). norm_part q" using assms by (simp add: path_wf_def list_all_iff)
  hence "\<forall>q\<in>set (components p). CHR ''/'' \<notin> set q" by (simp add: norm_part_def)
  hence j: "components p \<noteq> [] \<Longrightarrow> split_on CHR ''/'' (join_parts (components p)) = components p"
    using split_join by blast
  have e: "path_part [] cs = cs" for cs by (simp add: path_part_def)
  show ?thesis
    using j fold_norm[OF n] by (cases "components p = []") (simp_all add: to_string_def e)
qed

lemma to_string_head: "path_wf p \<Longrightarrow> (case to_string p of c # _ \<Rightarrow> c = CHR ''/'' | [] \<Rightarrow> False) = is_absolute p"
proof -
  assume wf: "path_wf p"
  show ?thesis
  proof (cases "is_absolute p \<or> components p = []")
    case False
    then obtain q qs where q: "components p = q # qs" by (cases "components p") auto
    hence "norm_part q" using wf by (simp add: path_wf_def)
    then obtain c r where "q = c # r" "c \<noteq> CHR ''/''" by (cases q) (auto simp: norm_part_def)
    thus ?thesis using False q by (cases qs) (simp_all add: to_string_def)
  qed (auto simp: to_string_def)
qed

text \<open>Printing a path in normal form and parsing the text gives the path back (C22); every parsed path is in
  normal form.\<close>

theorem path_print_parse:
  "path_wf (from_string s) \<and> (path_wf p \<longrightarrow> from_string (to_string p) = p)"
proof (intro conjI impI)
  show "path_wf (from_string s)" by (rule from_string_wf)
  assume wf: "path_wf p"
  have "to_string p = ''.'' \<Longrightarrow> components p = []"
    using split_to_string[OF wf, of "[]"] by (simp add: path_part_def)
  thus "from_string (to_string p) = p"
    using wf split_to_string[OF wf, of "[]"] to_string_head[OF wf]
    by (intro Path.equality) (auto simp: from_string_def Let_def path_wf_def)
qed

theorem path_print_parse_witness:
  "from_string (to_string (from_string ''/usr/./lib/../bin'')) = from_string ''/usr/./lib/../bin'' \<and>
   components (from_string ''/usr/./lib/../bin'') = [''usr'', ''bin'']"
proof -
  have "path_wf (from_string ''/usr/./lib/../bin'')" using path_print_parse by blast
  thus ?thesis using path_print_parse by (simp add: from_string_def path_part_def Let_def)
qed

section \<open>Appending\<close>

text \<open>Whether a list of parts stays at or below the level it starts from, \<open>d\<close> levels up being allowed.\<close>

fun stays_below :: "nat \<Rightarrow> string list \<Rightarrow> bool" where
  "stays_below d [] \<longleftrightarrow> True"
| "stays_below d (p # ps) \<longleftrightarrow>
     (if p = [] \<or> p = ''.'' then stays_below d ps
      else if p = ''..'' then 0 < d \<and> stays_below (d - 1) ps
      else stays_below (d + 1) ps)"

lemma fold_below:
  "stays_below (length cs) ps \<Longrightarrow> fold path_part ps (bs @ cs) = bs @ fold path_part ps cs"
proof (induction ps arbitrary: cs)
  case (Cons p ps)
  have "path_part p (bs @ cs) = bs @ path_part p cs \<and> stays_below (length (path_part p cs)) ps"
    using Cons.prems by (auto simp: path_part_def butlast_append split: if_splits)
  thus ?case using Cons.IH by simp
qed simp

lemma absolute_to_string:
  assumes "path_wf b" "is_absolute b \<or> components b \<noteq> []"
  shows "is_absolute (from_string (to_string b @ s)) = is_absolute b"
proof (cases "is_absolute b")
  case False
  then obtain c cs where c: "components b = c # cs" using assms (2) by (cases "components b") auto
  then have "norm_part c" using assms (1) by (simp add: path_wf_def)
  then obtain x xs where "c = x # xs" "x \<noteq> CHR ''/''" by (cases c) (auto simp: norm_part_def)
  then show ?thesis using False c by (cases cs) (simp_all add: from_string_def to_string_def Let_def)
qed (simp add: from_string_def to_string_def Let_def)

text \<open>
  (C23) Appending to a well-formed base, absolute or relative, a path text that does not climb above its start: an absolute text
  panics, a relative one gives the path of the joined text. The relative path without components prints as nothing, so there the
  text stands alone instead of becoming absolute behind a slash.
\<close>

theorem path_append_resolves:
  assumes "path_wf b" "stays_below 0 (split_on CHR ''/'' r)"
  shows "path_append b (from_string r) = (if is_absolute (from_string r) then None
    else Some (from_string (if \<not> is_absolute b \<and> components b = [] then r else to_string b @ ''/'' @ r)))"
proof (cases "is_absolute (from_string r)")
  case False
  have wf: "is_current (from_string s) = (components (from_string s) = [])" for s
    using from_string_wf [of s] by (simp add: path_wf_def)
  show ?thesis
  proof (cases "\<not> is_absolute b \<and> components b = []")
    case True
    then show ?thesis using False assms (1) by (simp add: path_append_def path_wf_def)
  next
    case joined: False
    let ?j = "to_string b @ ''/'' @ r"
    have c: "components (from_string ?j) = components b @ components (from_string r)"
      using split_to_string [OF assms (1), of "[]"] fold_below [of "[]" _ "components b"] assms (2)
      by (simp add: split_on_append components_from)
    have "is_absolute (from_string ?j) = is_absolute b" using absolute_to_string [OF assms (1)] joined by blast
    then show ?thesis using False joined c wf assms (1) by (auto simp add: path_append_def path_wf_def)
  qed
qed (simp add: path_append_def)

theorem path_append_resolves_witness:
  "path_append (from_string ''/home/u'') (from_string ''a/../b'') = Some (from_string ''/home/u/a/../b'') \<and>
   path_append (from_string ''lib'') (from_string ''c'') = Some (from_string ''lib/c'') \<and>
   path_append (from_string ''.'') (from_string ''c'') = Some (from_string ''c'') \<and>
   path_append (from_string ''lib'') (from_string ''/c'') = None"
proof -
  have b: "stays_below 0 (split_on CHR ''/'' ''a/../b'')" "stays_below 0 (split_on CHR ''/'' ''c'')"
    "stays_below 0 (split_on CHR ''/'' ''/c'')" by simp_all
  have t: "to_string (from_string ''/home/u'') = ''/home/u''" "to_string (from_string ''lib'') = ''lib''"
    by (simp_all add: from_string_def to_string_def path_part_def Let_def)
  have a: "is_absolute (from_string (c # cs)) = (c = CHR ''/'')" for c cs by (simp add: from_string_def Let_def)
  have c: "components (from_string ''lib'') \<noteq> []" "components (from_string ''.'') = []"
    by (simp_all add: from_string_def path_part_def Let_def)
  show ?thesis
    using path_append_resolves [OF from_string_wf b(1), of "''/home/u''"] path_append_resolves [OF from_string_wf b(2), of "''lib''"]
      path_append_resolves [OF from_string_wf b(2), of "''.''"] path_append_resolves [OF from_string_wf b(3), of "''lib''"] t c
    by (simp add: a)
qed

lemma path_append_drops_parent:
  "map_option to_string (path_append (from_string ''/home/u'') (from_string ''../b'')) = Some ''/home/u/b'' \<and>
   to_string (from_string ''/home/u/../b'') = ''/home/b''"
  by (simp add: path_append_def from_string_def to_string_def path_part_def Let_def)

section \<open>Prefixes\<close>

lemma zip_eq_take: "length ys \<le> length xs \<Longrightarrow> list_all (\<lambda>(a, b). a = b) (zip xs ys) \<longleftrightarrow> take (length ys) xs = ys"
proof (induction ys arbitrary: xs)
  case (Cons y ys)
  thus ?case by (cases xs) auto
qed simp

lemma starts_with_iff: "starts_with p q \<longleftrightarrow> (\<exists>cs. components p = components q @ cs)"
proof -
  have "starts_with p q \<longleftrightarrow> take (length (components q)) (components p) = components q"
    by (auto simp: starts_with_def zip_eq_take)
  also have "\<dots> \<longleftrightarrow> (\<exists>cs. components p = components q @ cs)"
    by (metis append_eq_conv_conj append_take_drop_id)
  finally show ?thesis .
qed

lemma without_prefix_append:
  "path_append a b = Some p \<Longrightarrow> \<exists>q. without_prefix p a = Some q \<and> components q = components b"
  by (auto simp: path_append_def without_prefix_def starts_with_iff split: if_splits)

end
