(* ===== verification/Vfs_Types.thy ===== *)
theory Vfs_Types
  imports Vfs_Path Timer
begin

text \<open>
  The interface of the virtual file system, \<^verbatim>\<open>fs/new_vfs/mod.rs\<close>, \<^verbatim>\<open>fs/new_vfs/top.rs\<close> and \<^verbatim>\<open>fs/new_vfs/mount.rs\<close>: the kinds and
  attributes of files, the operations of the trait \<open>VfsFile\<close>, the resolution of a path and the table of mounted file
  systems.

  A trait object is a value of type \<open>'f\<close>; the record \<open>vfs_ops\<close> has what its methods do to the state \<open>'s\<close>. A method that may
  wait includes what other tasks do in the meantime. \<open>None\<close> is a panic.
\<close>

section \<open>Kinds and attributes\<close>

datatype VfsFileKind =
  Unknown | Pipe | CharDevice | Directory | BlockDevice | RegularFile | SymbolLink | SocketFile

definition kind_mode :: "VfsFileKind \<Rightarrow> u32" where
  "kind_mode k = (case k of
     Unknown \<Rightarrow> 0 | Pipe \<Rightarrow> 0x1000 | CharDevice \<Rightarrow> 0x2000 | Directory \<Rightarrow> 0x4000 | BlockDevice \<Rightarrow> 0x6000
   | RegularFile \<Rightarrow> 0x8000 | SymbolLink \<Rightarrow> 0xA000 | SocketFile \<Rightarrow> 0xC000)"

datatype VfsFSKind = Fs_Fat | Fs_Dev | Fs_Tmp | Fs_Proc

record VfsFSAttr =
  fsa_kind :: VfsFSKind
  fs_id :: usize
  total_block_size :: usize
  free_block_size :: usize
  total_file_count :: usize
  free_file_count :: usize
  max_file_name_length :: usize

definition NORMAL_FILE_NAME_LENGTH :: usize where "NORMAL_FILE_NAME_LENGTH = 511"

definition default_mem :: "VfsFSKind \<Rightarrow> usize \<Rightarrow> VfsFSAttr" where
  "default_mem k i = \<lparr>fsa_kind = k, fs_id = i, total_block_size = 0, free_block_size = 0, total_file_count = 0,
     free_file_count = 0, max_file_name_length = NORMAL_FILE_NAME_LENGTH\<rparr>"

datatype PollKind = Poll_Read | Poll_Write

record DeviceInfo =
  di_device_id :: usize
  di_self_device_id :: usize

record SizeInfo =
  si_bytes :: usize
  si_blocks :: usize

record TimeInfo =
  ti_access :: usize
  ti_modify :: usize
  ti_change :: usize

definition time_info_zero :: TimeInfo where
  "time_info_zero = \<lparr>ti_access = 0, ti_modify = 0, ti_change = 0\<rparr>"

section \<open>Changes of times\<close>

type_synonym TimeChange = usize

definition time_change_new :: "usize \<Rightarrow> TimeChange option" where
  "time_change_new t = do { rassert (t < UTIME_NOW); Some t }"

record TimeInfoChange =
  tc_access :: TimeChange
  tc_modify :: TimeChange

text \<open>The clock \<open>now\<close> is in microseconds.\<close>

definition changed_time :: "usize \<Rightarrow> TimeChange \<Rightarrow> usize \<Rightarrow> usize option" where
  "changed_time now c old = (if c = UTIME_OMIT then Some old else if c = UTIME_NOW then umul now 1000 else Some c)"

definition apply_change :: "usize \<Rightarrow> TimeInfoChange \<Rightarrow> TimeInfo \<Rightarrow> TimeInfo option" where
  "apply_change now c i = do {
     a \<leftarrow> changed_time now (tc_access c) (ti_access i);
     m \<leftarrow> changed_time now (tc_modify c) (ti_modify i);
     Some (i\<lparr>ti_access := a, ti_modify := m\<rparr>) }"

section \<open>Operations of a file\<close>

text \<open>The result of a fallible method that may wait or panic.\<close>

type_synonym ('s, 'a) vfsm = "('a SysResult \<times> 's) option"

text \<open>\<open>read_at\<close> gives what it stored at the front of the buffer, which it may have filled before an error, with its result.
  A future of \<open>poll_ready\<close> is a value of type \<open>'q\<close>, and \<open>vf_poll\<close> polls it once.\<close>

record ('f, 'q, 's) vfs_ops =
  vf_kind :: "'f \<Rightarrow> 's \<Rightarrow> VfsFileKind"
  vf_device :: "'f \<Rightarrow> 's \<Rightarrow> DeviceInfo"
  vf_size :: "'f \<Rightarrow> 's \<Rightarrow> ('s, SizeInfo) vfsm"
  vf_time :: "'f \<Rightarrow> 's \<Rightarrow> ('s, TimeInfo) vfsm"
  vf_update_time :: "'f \<Rightarrow> TimeInfoChange \<Rightarrow> 's \<Rightarrow> ('s, unit) vfsm"
  vf_read_at :: "'f \<Rightarrow> usize \<Rightarrow> usize \<Rightarrow> 's \<Rightarrow> (u8 list \<times> usize SysResult \<times> 's) option"
  vf_write_at :: "'f \<Rightarrow> usize \<Rightarrow> u8 list \<Rightarrow> 's \<Rightarrow> ('s, usize) vfsm"
  vf_truncate :: "'f \<Rightarrow> usize \<Rightarrow> 's \<Rightarrow> ('s, unit) vfsm"
  vf_ioctl :: "'f \<Rightarrow> usize \<Rightarrow> usize \<Rightarrow> 's \<Rightarrow> ('s, usize) vfsm"
  vf_poll_ready :: "'f \<Rightarrow> usize \<Rightarrow> usize \<Rightarrow> PollKind \<Rightarrow> 'q"
  vf_poll :: "'q \<Rightarrow> 's \<Rightarrow> (usize SysResult option \<times> 'q \<times> 's) option"
  vf_list :: "'f \<Rightarrow> 's \<Rightarrow> ('s, (string \<times> 'f) list) vfsm"
  vf_lookup :: "'f \<Rightarrow> string \<Rightarrow> 's \<Rightarrow> ('s, 'f) vfsm"
  vf_create :: "'f \<Rightarrow> string \<Rightarrow> VfsFileKind \<Rightarrow> 's \<Rightarrow> ('s, 'f) vfsm"
  vf_remove :: "'f \<Rightarrow> string \<Rightarrow> 's \<Rightarrow> ('s, unit) vfsm"
  vf_detach :: "'f \<Rightarrow> string \<Rightarrow> 's \<Rightarrow> ('s, 'f) vfsm"
  vf_attach :: "'f \<Rightarrow> string \<Rightarrow> 'f \<Rightarrow> 's \<Rightarrow> ('s, unit) vfsm"
  vf_root_dir :: 'f
  vf_zero_dev :: 'f
  vf_new_pipe :: "'s \<Rightarrow> 'f \<times> 'f \<times> 's"
  vf_mount_points :: "'s \<Rightarrow> (Path \<times> VfsFSAttr) list"

definition vf_is_dir :: "('f, 'q, 's) vfs_ops \<Rightarrow> 'f \<Rightarrow> 's \<Rightarrow> bool" where
  "vf_is_dir V f s \<longleftrightarrow> vf_kind V f s = Directory"

fun resolve_names :: "('f, 'q, 's) vfs_ops \<Rightarrow> 'f \<Rightarrow> string list \<Rightarrow> 's \<Rightarrow> ('s, 'f) vfsm" where
  "resolve_names V f [] s = Some (Inr f, s)"
| "resolve_names V f (n # ns) s = sys_bind (vf_lookup V f n s) (\<lambda>g s. resolve_names V g ns s)"

definition vf_resolve :: "('f, 'q, 's) vfs_ops \<Rightarrow> 'f \<Rightarrow> Path \<Rightarrow> 's \<Rightarrow> ('s, 'f) vfsm" where
  "vf_resolve V f p s = resolve_names V f (components p) s"

lemma resolve_names_append:
  "resolve_names V f (xs @ ys) s = sys_bind (resolve_names V f xs s) (\<lambda>g s. resolve_names V g ys s)"
proof (induction xs arbitrary: f s)
  case (Cons x xs)
  then have "(\<lambda>g. resolve_names V g (xs @ ys)) = (\<lambda>g s. sys_bind (resolve_names V g xs s) (\<lambda>g. resolve_names V g ys))"
    by (intro ext)
  then show ?case by (simp add: sys_bind_assoc)
qed simp

section \<open>Mounted file systems\<close>

text \<open>The list grows at its end; the first entry whose path is a prefix is taken.\<close>

definition mount_register :: "Path \<Rightarrow> 'fs \<Rightarrow> (Path \<times> 'fs) list \<Rightarrow> (Path \<times> 'fs) list" where
  "mount_register p fs ms = ms @ [(p, fs)]"

definition mount_get :: "Path \<Rightarrow> (Path \<times> 'fs) list \<Rightarrow> 'fs option" where
  "mount_get path ms = map_option snd (find (\<lambda>(p, _). starts_with path p) ms)"

text \<open>The file systems of \<open>init_rootfs\<close> and \<open>mount_all_fs\<close>, in the order in which they are mounted.\<close>

definition init_mounts :: "VfsFSAttr \<Rightarrow> (Path \<times> VfsFSAttr) list" where
  "init_mounts fat = mount_register (from_string ''/tmp'') (default_mem Fs_Tmp 0)
     (mount_register (from_string ''/proc'') (default_mem Fs_Proc 6)
       (mount_register (from_string ''/dev'') (default_mem Fs_Dev 1)
         (mount_register (from_string ''/'') fat [])))"

text \<open>The root is the first entry, and every path starts with it: no other file system is ever found.\<close>

lemma mount_get_root: "mount_get path (init_mounts fat) = Some fat"
  by (simp add: mount_get_def init_mounts_def mount_register_def starts_with_def from_string_def path_part_def)

end
