(* ===== verification/Lproc.thy ===== *)
theory Lproc
  imports Signal_Laws Vfs_Path Timer Elf Shm_Mgr
begin

text \<open>
  Processes, \<^verbatim>\<open>process/lproc.rs\<close>, \<^verbatim>\<open>process/lproc_mgr.rs\<close> and \<^verbatim>\<open>process/pid.rs\<close>. A \<open>LightProcess\<close> is an object
  of a heap: an \<open>Arc\<close> or \<open>Weak\<close> to it is its number. The parts that several processes may share
  (\<open>Shared<T>\<close>) are numbered cells, so that two processes share a part when they hold the same number.
  The kernel state holds the heap, the cells, the process table, the pool of pids and the memory.

  An object is never released in this state: \<open>Lproc_Laws\<close> shows that every process is held by the member
  table of its own thread group, which it holds itself.
\<close>

section \<open>Data\<close>

datatype ProcessStatus = UNINIT | READY | RUNNING | STOPPED | ZOMBIE

record PrivateInfo =
  set_child_tid :: "usize option"
  clear_child_tid :: "usize option"

definition private_info_new :: PrivateInfo where
  "private_info_new = \<lparr>set_child_tid = None, clear_child_tid = None\<rparr>"

record ThreadGroup =
  members :: "(usize, nat) btree"
  leader :: "nat option"

record 'w LightProcess =
  lp_id :: usize
  lp_pgid :: usize
  lp_parent :: nat
  lp_context :: UKContext
  lp_children :: nat
  lp_status :: ProcessStatus
  lp_timer :: TimeStat
  lp_exit_code :: "32 word"
  lp_shm_table :: ShmTable
  lp_private_info :: PrivateInfo
  lp_exe_path :: "Path option"
  lp_event_bus :: "'w EventBus"
  lp_group :: nat
  lp_memory :: nat
  lp_fsinfo :: nat
  lp_fdtable :: nat
  lp_signal :: nat
  lp_timer_map :: "(usize, bool) btree"

text \<open>The futures that \<open>setitimer\<close> hands to the timer: the pid, the number of the timer and, for the first call of a
  periodic timer, the period.\<close>

datatype delayed_call = One_Shot usize usize | Periodic usize usize usize | Periodic_Again usize usize

text \<open>\<open>k_umem\<close> is the user memory of an address space, as the kernel reads and writes it, \<open>k_satp\<close> the
  root of the current page table, \<open>k_now\<close> and \<open>k_now_ms\<close> the clock in microseconds and milliseconds, \<open>k_next\<close> the next
  unused number, and \<open>k_rw_trap\<close> says that the trap vector of the hart is the one for probing user memory. \<open>k_spawned\<close> are
  the processes that were handed to the executor, \<open>k_delayed\<close> the calls that the timer makes later, with their times.\<close>

record ('f, 'fa, 'w) kstate =
  k_pids :: UsizePool
  k_procs :: "nat \<Rightarrow> 'w LightProcess option"
  k_mgr :: "(usize, nat) btree"
  k_parents :: "nat \<Rightarrow> nat option"
  k_children :: "nat \<Rightarrow> nat list"
  k_groups :: "nat \<Rightarrow> ThreadGroup"
  k_mems :: "nat \<Rightarrow> 'f UserSpace"
  k_fsinfos :: "nat \<Rightarrow> Path"
  k_fdtables :: "nat \<Rightarrow> FdTable"
  k_signals :: "nat \<Rightarrow> Signal"
  k_next :: nat
  k_fds :: "'f fd_store"
  k_shm :: shm_store
  k_shm_mgr :: ShmManager
  k_mem :: "'fa kmem"
  k_umem :: "nat \<Rightarrow> umem"
  k_satp :: usize
  k_now :: usize
  k_now_ms :: usize
  k_woken :: "'w list"
  k_rw_trap :: bool
  k_spawned :: "nat list"
  k_timer_ids :: UsizePool
  k_delayed :: "(usize \<times> delayed_call) list"

text \<open>What the kernel is given: the machine, the frame allocator, the files and the crates it calls.\<close>

record ('f, 'fa) kenv =
  e_platform :: platform
  e_alloc :: "'fa BitAlloc"
  e_get_page :: "('f, 'fa) get_page"
  e_std :: "'f \<times> 'f \<times> 'f"
  e_uninit :: UKContext
  e_elf :: xmas_elf
  e_read :: "'f \<Rightarrow> read_at"
  e_rounding :: u32
  e_sstatus :: usize

text \<open>\<open>new_shared\<close>: a fresh number.\<close>

definition new_shared :: "('f, 'fa, 'w) kstate \<Rightarrow> nat \<times> ('f, 'fa, 'w) kstate" where
  "new_shared k = (k_next k, k\<lparr>k_next := Suc (k_next k)\<rparr>)"

definition upd_lproc :: "nat \<Rightarrow> ('w LightProcess \<Rightarrow> 'w LightProcess) \<Rightarrow> ('f, 'fa, 'w) kstate \<Rightarrow> ('f, 'fa, 'w) kstate" where
  "upd_lproc r f k = k\<lparr>k_procs := (k_procs k)(r := map_option f (k_procs k r))\<rparr>"

section \<open>Pids and the process table\<close>

definition alloc_pid :: "('f, 'fa, 'w) kstate \<Rightarrow> (usize \<times> ('f, 'fa, 'w) kstate) option" where
  "alloc_pid k = do {
     (pid, pool) \<leftarrow> pool_get (k_pids k);
     Some (pid, k\<lparr>k_pids := pool\<rparr>) }"

definition pid_handler_drop :: "usize \<Rightarrow> ('f, 'fa, 'w) kstate \<Rightarrow> ('f, 'fa, 'w) kstate option" where
  "pid_handler_drop pid k = do {
     pool \<leftarrow> pool_release pid (k_pids k);
     Some (k\<lparr>k_pids := pool\<rparr>) }"

text \<open>A weak reference is upgraded when its object is in the heap.\<close>

definition mgr_get :: "usize \<Rightarrow> ('f, 'fa, 'w) kstate \<Rightarrow> nat option \<times> ('f, 'fa, 'w) kstate" where
  "mgr_get pid k = (case bt_get pid (k_mgr k) of
     None \<Rightarrow> (None, k)
   | Some r \<Rightarrow> if k_procs k r = None then (None, k\<lparr>k_mgr := bt_remove pid (k_mgr k)\<rparr>) else (Some r, k))"

definition mgr_put :: "nat \<Rightarrow> ('f, 'fa, 'w) kstate \<Rightarrow> ('f, 'fa, 'w) kstate option" where
  "mgr_put r k = do {
     p \<leftarrow> k_procs k r;
     Some (k\<lparr>k_mgr := bt_insert (lp_id p) r (k_mgr k)\<rparr>) }"

definition mgr_all :: "('f, 'fa, 'w) kstate \<Rightarrow> (usize \<times> nat) list" where
  "mgr_all k = filter (\<lambda>(_, r). k_procs k r \<noteq> None) (k_mgr k)"

section \<open>Thread groups\<close>

definition tg_new_empty :: ThreadGroup where
  "tg_new_empty = \<lparr>members = [], leader = None\<rparr>"

definition tg_push_leader :: "nat \<times> usize \<Rightarrow> ThreadGroup \<Rightarrow> ThreadGroup option" where
  "tg_push_leader l g = do {
     rassert (leader g = None);
     rassert (members g = []);
     Some \<lparr>members = bt_insert (snd l) (fst l) (members g), leader = Some (fst l)\<rparr> }"

definition tg_push :: "nat \<times> usize \<Rightarrow> ThreadGroup \<Rightarrow> ThreadGroup option" where
  "tg_push l g = do {
     rassert (leader g \<noteq> None);
     Some (g\<lparr>members := bt_insert (snd l) (fst l) (members g)\<rparr>) }"

definition tg_remove :: "usize \<Rightarrow> ThreadGroup \<Rightarrow> ThreadGroup option" where
  "tg_remove pid g = do {
     rassert (leader g \<noteq> None);
     Some (g\<lparr>members := bt_remove pid (members g)\<rparr>) }"

definition tg_tgid :: "('f, 'fa, 'w) kstate \<Rightarrow> ThreadGroup \<Rightarrow> usize option" where
  "tg_tgid k g = do {
     r \<leftarrow> leader g;
     p \<leftarrow> k_procs k r;
     Some (lp_id p) }"

definition tg_is_leader :: "('f, 'fa, 'w) kstate \<Rightarrow> ThreadGroup \<Rightarrow> 'w LightProcess \<Rightarrow> bool option" where
  "tg_is_leader k g p = do { t \<leftarrow> tg_tgid k g; Some (t = lp_id p) }"

section \<open>Accessors\<close>

definition parent_id :: "'w LightProcess \<Rightarrow> ('f, 'fa, 'w) kstate \<Rightarrow> usize option" where
  "parent_id p k = (case k_parents k (lp_parent p) of
     Some r \<Rightarrow> do { q \<leftarrow> k_procs k r; Some (lp_id q) }
   | None \<Rightarrow> Some 1)"

definition lproc_tgid :: "'w LightProcess \<Rightarrow> ('f, 'fa, 'w) kstate \<Rightarrow> usize option" where
  "lproc_tgid p k = tg_tgid k (k_groups k (lp_group p))"

definition set_status :: "ProcessStatus \<Rightarrow> nat \<Rightarrow> ('f, 'fa, 'w) kstate \<Rightarrow> ('f, 'fa, 'w) kstate" where
  "set_status s r k = upd_lproc r (\<lambda>p. p\<lparr>lp_status := s\<rparr>) k"

definition set_exit_code :: "32 word \<Rightarrow> nat \<Rightarrow> ('f, 'fa, 'w) kstate \<Rightarrow> ('f, 'fa, 'w) kstate" where
  "set_exit_code c r k = upd_lproc r (\<lambda>p. p\<lparr>lp_exit_code := c\<rparr>) k"

definition set_pgid :: "usize \<Rightarrow> nat \<Rightarrow> ('f, 'fa, 'w) kstate \<Rightarrow> ('f, 'fa, 'w) kstate" where
  "set_pgid g r k = upd_lproc r (\<lambda>p. p\<lparr>lp_pgid := g\<rparr>) k"

definition is_exit :: "'w LightProcess \<Rightarrow> bool" where
  "is_exit p \<longleftrightarrow> lp_status p = ZOMBIE"

definition lproc_send_signal :: "usize \<Rightarrow> nat \<Rightarrow> ('f, 'fa, 'w) kstate \<Rightarrow> ('f, 'fa, 'w) kstate option" where
  "lproc_send_signal signum r k = do {
     p \<leftarrow> k_procs k r;
     (ws, sg, bus) \<leftarrow> send_signal signum (k_signals k (lp_signal p), lp_event_bus p);
     let k = k\<lparr>k_signals := (k_signals k)(lp_signal p := sg), k_woken := k_woken k @ ws\<rparr>;
     Some (upd_lproc r (\<lambda>p. p\<lparr>lp_event_bus := bus\<rparr>) k) }"

definition lproc_clear_signal :: "SignalSet \<Rightarrow> 'w LightProcess \<Rightarrow> ('f, 'fa, 'w) kstate \<Rightarrow> ('f, 'fa, 'w) kstate" where
  "lproc_clear_signal f p k =
     k\<lparr>k_signals := (k_signals k)(lp_signal p := clear_signal f (k_signals k (lp_signal p)))\<rparr>"

definition add_child :: "'w LightProcess \<Rightarrow> nat \<Rightarrow> ('f, 'fa, 'w) kstate \<Rightarrow> ('f, 'fa, 'w) kstate" where
  "add_child p c k = k\<lparr>k_children := (k_children k)(lp_children p := k_children k (lp_children p) @ [c])\<rparr>"

definition remove_child :: "'w LightProcess \<Rightarrow> nat \<Rightarrow> ('f, 'fa, 'w) kstate \<Rightarrow> ('f, 'fa, 'w) kstate option" where
  "remove_child p c k = do {
     rassert (c \<in> set (k_children k (lp_children p)));
     Some (k\<lparr>k_children := (k_children k)(lp_children p := remove1 c (k_children k (lp_children p)))\<rparr>) }"

definition children_pid_usize :: "'w LightProcess \<Rightarrow> ('f, 'fa, 'w) kstate \<Rightarrow> usize list" where
  "children_pid_usize p k = map lp_id (List.map_filter (k_procs k) (k_children k (lp_children p)))"

text \<open>The end of a process. Its children go to the process with pid 1; taking the lock of the children of that
  process while holding the lock of the own children panics when they are the same lock.\<close>

definition reparent :: "nat \<Rightarrow> nat \<Rightarrow> ('f, 'fa, 'w) kstate \<Rightarrow> ('f, 'fa, 'w) kstate option" where
  "reparent init c k = do {
     q \<leftarrow> k_procs k c;
     Some (k\<lparr>k_parents := (k_parents k)(lp_parent q := Some init)\<rparr>) }"

definition leave_children :: "'w LightProcess \<Rightarrow> ('f, 'fa, 'w) kstate \<Rightarrow> ('f, 'fa, 'w) kstate option" where
  "leave_children p k = (
     let children = k_children k (lp_children p)
     in if children = [] then Some k
        else do {
          let (i, k) = mgr_get 1 k;
          init \<leftarrow> i;
          k \<leftarrow> foldM (reparent init) children k;
          q \<leftarrow> k_procs k init;
          rassert (lp_children q \<noteq> lp_children p);
          Some (k\<lparr>k_children := (k_children k)(lp_children q := k_children k (lp_children q) @ children)\<rparr>) })"

definition do_exit :: "nat \<Rightarrow> ('f, 'fa, 'w) kstate \<Rightarrow> ('f, 'fa, 'w) kstate option" where
  "do_exit r k = do {
     p \<leftarrow> k_procs k r;
     k \<leftarrow> (case k_parents k (lp_parent p) of
             None \<Rightarrow> Some k
           | Some parent \<Rightarrow> do {
               k \<leftarrow> lproc_send_signal (get_signum SIGCHLD) parent k;
               Some (set_status STOPPED r k) });
     k \<leftarrow> leave_children p k;
     t \<leftarrow> fdt_release_all (k_fdtables k (lp_fdtable p));
     Some (k\<lparr>k_fdtables := (k_fdtables k)(lp_fdtable p := t)\<rparr>) }"

section \<open>Creation\<close>

text \<open>\<open>LightProcess::new\<close>; the order of the cells is that of the fields.\<close>

definition lproc_new :: "('f, 'fa) kenv \<Rightarrow> ('f, 'fa, 'w) kstate \<Rightarrow> (nat \<times> ('f, 'fa, 'w) kstate) option" where
  "lproc_new E k = do {
     (pid, k) \<leftarrow> alloc_pid k;
     let (parent_c, k) = new_shared k;
     let (children_c, k) = new_shared k;
     let (group_c, k) = new_shared k;
     let (memory_c, k) = new_shared k;
     (us, m) \<leftarrow> us_new (e_platform E) (e_alloc E) (k_mem k);
     let (fsinfo_c, k) = new_shared k;
     let (fdtable_c, k) = new_shared k;
     (fdt, fds) \<leftarrow> new_with_std (e_std E) (k_fds k);
     let (signal_c, k) = new_shared k;
     let (r, k) = new_shared k;
     let p = \<lparr>lp_id = pid, lp_pgid = pid, lp_parent = parent_c, lp_context = e_uninit E, lp_children = children_c,
              lp_status = UNINIT, lp_timer = timestat_new (k_now k), lp_exit_code = 0, lp_shm_table = shmt_new_empty,
              lp_private_info = private_info_new, lp_exe_path = None, lp_event_bus = bus_new,
              lp_group = group_c, lp_memory = memory_c, lp_fsinfo = fsinfo_c, lp_fdtable = fdtable_c,
              lp_signal = signal_c, lp_timer_map = []\<rparr>;
     g \<leftarrow> tg_push_leader (r, pid) tg_new_empty;
     let k = k\<lparr>k_procs := (k_procs k)(r := Some p), k_parents := (k_parents k)(parent_c := None),
               k_children := (k_children k)(children_c := []), k_groups := (k_groups k)(group_c := g),
               k_mems := (k_mems k)(memory_c := us), k_mem := m, k_umem := (k_umem k)(memory_c := (\<lambda>_. 0)),
               k_fsinfos := (k_fsinfos k)(fsinfo_c := from_string ''/''),
               k_fdtables := (k_fdtables k)(fdtable_c := fdt), k_fds := fds,
               k_signals := (k_signals k)(signal_c := signal_new (e_uninit E))\<rparr>;
     k \<leftarrow> mgr_put r k;
     Some (r, k) }"

text \<open>The writes of the loader to user memory, in order.\<close>

definition apply_writes :: "(usize \<times> u8 list) list \<Rightarrow> umem \<Rightarrow> umem" where
  "apply_writes ws u = fold (\<lambda>(a, bs). write_bytes a bs) ws u"

text \<open>What the frames that a page table maps hold.\<close>

definition phys_byte :: "'fa kmem \<Rightarrow> usize \<Rightarrow> usize \<Rightarrow> u8" where
  "phys_byte m pa off = ucast (drop_bit (8 * (unat off mod 8)) (phys m pa (unat off div 8)))"

definition user_view :: "platform \<Rightarrow> PageTable \<Rightarrow> 'fa kmem \<Rightarrow> umem" where
  "user_view P pt m va = (case get_pte_copied_from_vpn P pt (page_num_down va) m of
     Some (Some e) \<Rightarrow> (case pte_paddr e of Some pa \<Rightarrow> phys_byte m pa (page_offset va) | None \<Rightarrow> 0)
   | _ \<Rightarrow> 0)"

definition do_exec ::
  "('f, 'fa) kenv \<Rightarrow> 'f \<Rightarrow> u8 list list \<Rightarrow> u8 list list \<Rightarrow> nat \<Rightarrow> ('f, 'fa, 'w) kstate \<Rightarrow> ('f, 'fa, 'w) kstate option" where
  "do_exec E elf_file args envp r k = do {
     p \<leftarrow> k_procs k r;
     let c = lp_memory p;
     (new_us, m) \<leftarrow> us_new (e_platform E) (e_alloc E) (k_mem k);
     let satp = root_paddr (page_table new_us);
     m \<leftarrow> us_drop (e_platform E) (e_alloc E) (k_mems k c) m;
     l \<leftarrow> parse_and_map_elf_file (e_platform E) (e_alloc E) (e_get_page E) satp (e_elf E) (e_read E elf_file) elf_file (new_us, m);
     ((entry, auxv), ld) \<leftarrow> (case l of Inl _ \<Rightarrow> None | Inr x \<Rightarrow> Some x);
     (stack_begin, am) \<leftarrow> alloc_stack THREAD_STACK_SIZE (areas (ld_us ld));
     (us, m) \<leftarrow> force_map_area (e_platform E) (e_alloc E) (e_get_page E) satp stack_begin
                  ((ld_us ld)\<lparr>areas := am\<rparr>, ld_mem ld);
     ((sp, argc, argv, envp_p), u) \<leftarrow> init_stack stack_begin args envp auxv 
       (apply_writes (ld_writes ld) (user_view (e_platform E) (page_table us) m));
     am \<leftarrow> insert_heap PAGE_SIZE (areas us);
     let k = k\<lparr>k_mems := (k_mems k)(c := us\<lparr>areas := am\<rparr>), k_mem := m, k_umem := (k_umem k)(c := u), k_satp := satp\<rparr>;
     Some (upd_lproc r (\<lambda>p. p\<lparr>
       lp_context := init_user (e_rounding E) sp entry (e_sstatus E) argc argv envp_p (lp_context p),
       lp_status := READY\<rparr>) k) }"

section \<open>Cloning\<close>

type_synonym CloneFlags = u64

definition CF_VM :: CloneFlags where "CF_VM = 0x100"
definition CF_FS :: CloneFlags where "CF_FS = 0x200"
definition CF_FILES :: CloneFlags where "CF_FILES = 0x400"
definition CF_SIGHAND :: CloneFlags where "CF_SIGHAND = 0x800"
definition CF_PARENT :: CloneFlags where "CF_PARENT = 0x8000"
definition CF_THREAD :: CloneFlags where "CF_THREAD = 0x10000"
definition CF_SETTLS :: CloneFlags where "CF_SETTLS = 0x80000"
definition CF_PARENT_SETTID :: CloneFlags where "CF_PARENT_SETTID = 0x100000"
definition CF_CHILD_CLEARTID :: CloneFlags where "CF_CHILD_CLEARTID = 0x200000"
definition CF_CHILD_SETTID :: CloneFlags where "CF_CHILD_SETTID = 0x1000000"
definition CF_CHILD_CLEAR_SIGHAND :: CloneFlags where "CF_CHILD_CLEAR_SIGHAND = 0x100000000"

definition cf_contains :: "CloneFlags \<Rightarrow> CloneFlags \<Rightarrow> bool" where
  "cf_contains fl f \<longleftrightarrow> fl AND f = f"

text \<open>The stack of the new process: the given one, a fresh copy of the part in use when the address space is
  shared, or the same addresses of the copied address space.\<close>

definition clone_memory ::
  "('f, 'fa) kenv \<Rightarrow> CloneFlags \<Rightarrow> 'w LightProcess \<Rightarrow> ('f, 'fa, 'w) kstate \<Rightarrow> (nat \<times> ('f, 'fa, 'w) kstate) option" where
  "clone_memory E flags p k = (
     if cf_contains flags CF_VM then Some (lp_memory p, k)
     else do {
       (us, m) \<leftarrow> clone_cow (e_platform E) (e_alloc E) (k_mems k (lp_memory p)) (k_mem k);
       let (c, k) = new_shared k;
       Some (c, k\<lparr>k_mems := (k_mems k)(c := us), k_mem := m, k_umem := (k_umem k)(c := k_umem k (lp_memory p))\<rparr>) })"

definition clone_stack ::
  "('f, 'fa) kenv \<Rightarrow> CloneFlags \<Rightarrow> usize option \<Rightarrow> 'w LightProcess \<Rightarrow> nat \<Rightarrow> ('f, 'fa, 'w) kstate \<Rightarrow>
   (usize \<times> ('f, 'fa, 'w) kstate) option" where
  "clone_stack E flags user_stack_begin p c k = do {
     let old_sp = get_user_sp (lp_context p);
     (old_range, _) \<leftarrow> rm_get (areas (k_mems k (lp_memory p))) old_sp;
     last_byte \<leftarrow> usub (snd old_range) 1;
     let old_stack_top = last_byte AND NOT 0xF;
     (case user_stack_begin of
        Some sp \<Rightarrow> Some (sp, k)
      | None \<Rightarrow>
          if cf_contains flags CF_VM then do {
            (new_stack_top, am) \<leftarrow> alloc_stack THREAD_STACK_SIZE (areas (k_mems k c));
            (us, m) \<leftarrow> force_map_area (e_platform E) (e_alloc E) (e_get_page E) (k_satp k) new_stack_top
                         ((k_mems k c)\<lparr>areas := am\<rparr>, k_mem k);
            stack_length \<leftarrow> usub old_stack_top old_sp;
            new_sp \<leftarrow> usub new_stack_top stack_length;
            let u = write_bytes new_sp (read_bytes (k_umem k c) old_sp (unat stack_length)) (k_umem k c);
            Some (new_sp, k\<lparr>k_mems := (k_mems k)(c := us), k_mem := m, k_umem := (k_umem k)(c := u)\<rparr>) }
          else Some (old_sp, k)) }"

definition clone_fsinfo :: "CloneFlags \<Rightarrow> 'w LightProcess \<Rightarrow> ('f, 'fa, 'w) kstate \<Rightarrow> nat \<times> ('f, 'fa, 'w) kstate" where
  "clone_fsinfo flags p k = (
     if cf_contains flags CF_FS then (lp_fsinfo p, k)
     else let (c, k) = new_shared k in (c, k\<lparr>k_fsinfos := (k_fsinfos k)(c := from_string ''/'')\<rparr>))"

definition clone_fdtable :: "CloneFlags \<Rightarrow> 'w LightProcess \<Rightarrow> ('f, 'fa, 'w) kstate \<Rightarrow> nat \<times> ('f, 'fa, 'w) kstate" where
  "clone_fdtable flags p k = (
     if cf_contains flags CF_FILES then (lp_fdtable p, k)
     else let (c, k) = new_shared k
          in (c, k\<lparr>k_fdtables := (k_fdtables k)(c := fdt_clone (k_fdtables k (lp_fdtable p)))\<rparr>))"

definition clone_signal ::
  "('f, 'fa) kenv \<Rightarrow> CloneFlags \<Rightarrow> 'w LightProcess \<Rightarrow> ('f, 'fa, 'w) kstate \<Rightarrow> nat \<times> ('f, 'fa, 'w) kstate" where
  "clone_signal E flags p k = (
     if cf_contains flags CF_SIGHAND then (lp_signal p, k)
     else let (c, k) = new_shared k;
              s = (if cf_contains flags CF_CHILD_CLEAR_SIGHAND then signal_new (e_uninit E)
                   else signal_clone (e_uninit E) (k_signals k (lp_signal p)))
          in (c, k\<lparr>k_signals := (k_signals k)(c := s)\<rparr>))"

definition clone_family ::
  "CloneFlags \<Rightarrow> nat \<Rightarrow> 'w LightProcess \<Rightarrow> ('f, 'fa, 'w) kstate \<Rightarrow> (nat \<times> nat \<times> nat) \<times> ('f, 'fa, 'w) kstate" where
  "clone_family flags r p k = (
     if cf_contains flags CF_THREAD then ((lp_parent p, lp_children p, lp_group p), k)
     else let (parent_c, k) = new_shared k; (children_c, k) = new_shared k; (group_c, k) = new_shared k
          in ((parent_c, children_c, group_c),
              k\<lparr>k_parents := (k_parents k)(parent_c := Some r), k_children := (k_children k)(children_c := []),
                k_groups := (k_groups k)(group_c := tg_new_empty)\<rparr>))"

definition do_clone ::
  "('f, 'fa) kenv \<Rightarrow> CloneFlags \<Rightarrow> usize option \<Rightarrow> nat \<Rightarrow> ('f, 'fa, 'w) kstate \<Rightarrow> (nat \<times> ('f, 'fa, 'w) kstate) option" where
  "do_clone E flags user_stack_begin r k = do {
     p \<leftarrow> k_procs k r;
     (pid, k) \<leftarrow> alloc_pid k;
     let ((parent_c, children_c, group_c), k) = clone_family flags r p k;
     (memory_c, k) \<leftarrow> clone_memory E flags p k;
     (new_sp, k) \<leftarrow> clone_stack E flags user_stack_begin p memory_c k;
     let (fsinfo_c, k) = clone_fsinfo flags p k;
     let (fdtable_c, k) = clone_fdtable flags p k;
     let (signal_c, k) = clone_signal E flags p k;
     let (n, k) = new_shared k;
     let q = \<lparr>lp_id = pid, lp_pgid = lp_pgid p, lp_parent = parent_c, lp_context = set_user_sp new_sp (lp_context p),
              lp_children = children_c, lp_status = lp_status p, lp_timer = timestat_new (k_now k),
              lp_exit_code = lp_exit_code p, lp_shm_table = shmt_new_empty, lp_private_info = private_info_new,
              lp_exe_path = lp_exe_path p, lp_event_bus = bus_new, lp_group = group_c, lp_memory = memory_c,
              lp_fsinfo = fsinfo_c, lp_fdtable = fdtable_c, lp_signal = signal_c, lp_timer_map = []\<rparr>;
     let k = k\<lparr>k_procs := (k_procs k)(n := Some q)\<rparr>;
     k \<leftarrow> mgr_put n k;
     if cf_contains flags CF_THREAD then do {
       g \<leftarrow> tg_push (n, pid) (k_groups k group_c);
       Some (n, k\<lparr>k_groups := (k_groups k)(group_c := g)\<rparr>) }
     else do {
       g \<leftarrow> tg_push_leader (n, pid) (k_groups k group_c);
       Some (n, add_child p n (k\<lparr>k_groups := (k_groups k)(group_c := g)\<rparr>)) } }"

end
