(* ===== verification/Lproc_Laws.thy ===== *)
theory Lproc_Laws
  imports Lproc
begin

text \<open>
  The process table. \<open>k_inv\<close> is what creation, cloning, exit and signals keep of the kernel state: pids are unique
  and taken from the pool, the table finds every process under its pid, parents and children exist, and
  every process is a member of its own thread group. \<open>do_clone_spec\<close> and \<open>do_exit_spec\<close> are the effects of the two
  main operations.
\<close>

section \<open>The invariant\<close>

definition pids :: "('f, 'fa, 'w) kstate \<Rightarrow> usize set" where
  "pids k = {lp_id p | r p. k_procs k r = Some p}"

definition lp_cells :: "'w LightProcess \<Rightarrow> nat list" where
  "lp_cells p = [lp_parent p, lp_children p, lp_group p, lp_memory p, lp_fsinfo p, lp_fdtable p, lp_signal p]"

text \<open>One process: its numbers are in use, its family exists, and its group holds it.\<close>

definition lp_inv :: "('f, 'fa, 'w) kstate \<Rightarrow> nat \<Rightarrow> 'w LightProcess \<Rightarrow> bool" where
  "lp_inv k r p \<longleftrightarrow> r < k_next k \<and> (\<forall>c\<in>set (lp_cells p). c < k_next k) \<and>
     bt_get (lp_id p) (members (k_groups k (lp_group p))) = Some r \<and>
     (\<exists>l q. leader (k_groups k (lp_group p)) = Some l \<and> k_procs k l = Some q) \<and>
     (\<forall>q. k_parents k (lp_parent p) = Some q \<longrightarrow> k_procs k q \<noteq> None) \<and>
     (\<forall>c\<in>set (k_children k (lp_children p)). k_procs k c \<noteq> None) \<and> bus_inv (lp_event_bus p)"

definition k_core :: "('f, 'fa, 'w) kstate \<Rightarrow> bool" where
  "k_core k \<longleftrightarrow> (\<forall>r p. k_procs k r = Some p \<longrightarrow> lp_inv k r p) \<and> bt_wf (k_mgr k) \<and>
     (\<forall>pid r. bt_get pid (k_mgr k) = Some r \<longleftrightarrow> (\<exists>p. k_procs k r = Some p \<and> lp_id p = pid))"

definition k_inv :: "('f, 'fa, 'w) kstate \<Rightarrow> bool" where
  "k_inv k \<longleftrightarrow> k_core k \<and> pool_inv (k_pids k) (pids k)"

lemma k_core_lp: "k_core k \<Longrightarrow> k_procs k r = Some p \<Longrightarrow> lp_inv k r p"
  by (simp add: k_core_def)

lemma k_inv_core [simp]: "k_inv k \<Longrightarrow> k_core k"
  by (simp add: k_inv_def)

lemma k_core_unique: "k_core k \<Longrightarrow> k_procs k r = Some p \<Longrightarrow> k_procs k r' = Some p' \<Longrightarrow> lp_id p = lp_id p' \<Longrightarrow> r = r'"
  unfolding k_core_def by (metis option.inject)

lemma k_core_fresh: "k_core k \<Longrightarrow> k_next k \<le> n \<Longrightarrow> k_procs k n = None"
  using k_core_lp[of k n] by (cases "k_procs k n") (auto simp: lp_inv_def)

lemma mgr_get_live: "k_core k \<Longrightarrow> mgr_get pid k = (bt_get pid (k_mgr k), k)"
proof (cases "bt_get pid (k_mgr k)")
  case (Some r)
  assume "k_core k"
  hence "\<exists>p. k_procs k r = Some p" using Some unfolding k_core_def by blast
  thus ?thesis using Some by (auto simp: mgr_get_def)
qed (simp add: mgr_get_def)

section \<open>Steps of cloning that only add cells\<close>

text \<open>\<open>extends k k'\<close>: the processes, the table and the pids are those of \<open>k\<close>, and the families and groups in
  use are unchanged.\<close>

definition extends :: "('f, 'fa, 'w) kstate \<Rightarrow> ('f, 'fa, 'w) kstate \<Rightarrow> bool" where
  "extends k k' \<longleftrightarrow> k_procs k' = k_procs k \<and> k_mgr k' = k_mgr k \<and> k_pids k' = k_pids k \<and> k_next k \<le> k_next k' \<and>
     (\<forall>c<k_next k. k_parents k' c = k_parents k c \<and> k_children k' c = k_children k c \<and> k_groups k' c = k_groups k c)"

lemma extends_refl [simp]: "extends k k"
  by (simp add: extends_def)

lemma extends_trans: "extends k k1 \<Longrightarrow> extends k1 k2 \<Longrightarrow> extends k k2"
  by (auto simp: extends_def)

lemma extends_new_shared: "extends k (snd (new_shared k))"
  by (simp add: extends_def new_shared_def)

lemma extends_core: "extends k k' \<Longrightarrow> k_core k \<Longrightarrow> k_core k'"
proof -
  assume e: "extends k k'" and i: "k_core k"
  have "lp_inv k' r p" if "k_procs k' r = Some p" for r p
  proof -
    have l: "lp_inv k r p" using that e k_core_lp[OF i] by (simp add: extends_def)
    hence "lp_parent p < k_next k" "lp_children p < k_next k" "lp_group p < k_next k"
      by (simp_all add: lp_inv_def lp_cells_def)
    thus ?thesis using l e unfolding lp_inv_def extends_def by fastforce
  qed
  thus ?thesis using i e by (simp add: k_core_def extends_def)
qed

lemma extends_pids: "extends k k' \<Longrightarrow> pids k' = pids k"
  by (simp add: extends_def pids_def)

lemma extends_clone_memory: "clone_memory E flags p k = Some (c, k') \<Longrightarrow> extends k k'"
  by (auto simp: clone_memory_def extends_def new_shared_def split: if_splits bind_splits)

lemma extends_clone_stack: "clone_stack E flags st p c k = Some (sp, k') \<Longrightarrow> extends k k'"
  by (auto simp: clone_stack_def extends_def Let_def bind_eq_Some_conv split: if_splits option.splits)

lemma extends_clone_fsinfo: "clone_fsinfo flags p k = (c, k') \<Longrightarrow> extends k k'"
  by (auto simp: clone_fsinfo_def extends_def new_shared_def split: if_splits)

lemma extends_clone_fdtable: "clone_fdtable flags p k = (c, k') \<Longrightarrow> extends k k'"
  by (auto simp: clone_fdtable_def extends_def new_shared_def split: if_splits)

lemma extends_clone_signal: "clone_signal E flags p k = (c, k') \<Longrightarrow> extends k k'"
  by (auto simp: clone_signal_def extends_def new_shared_def Let_def split: if_splits)

lemma extends_clone_family: "clone_family flags r p k = (cs, k') \<Longrightarrow> extends k k'"
  by (auto simp: clone_family_def extends_def new_shared_def Let_def split: if_splits)

lemma clone_family_cells:
  assumes "clone_family flags r p k = ((a, b, g), k')" "lp_inv k r p"
  shows "a < k_next k'" "b < k_next k'" "g < k_next k'"
    and "cf_contains flags CF_THREAD \<Longrightarrow> a = lp_parent p \<and> b = lp_children p \<and> g = lp_group p \<and> k' = k"
    and "\<not> cf_contains flags CF_THREAD \<Longrightarrow> k_next k \<le> a \<and> k_next k \<le> b \<and> k_next k \<le> g \<and>
      k_parents k' a = Some r \<and> k_children k' b = [] \<and> k_groups k' g = tg_new_empty"
  using assms
  by (auto simp: clone_family_def new_shared_def Let_def lp_inv_def lp_cells_def split: if_splits)

lemma clone_memory_cell:
  assumes "clone_memory E flags p k = Some (c, k')" "lp_memory p < k_next k"
  shows "c < k_next k'" "if cf_contains flags CF_VM then c = lp_memory p else k_next k \<le> c"
  using assms by (auto simp: clone_memory_def new_shared_def split: if_splits bind_splits)

lemma clone_fsinfo_cell:
  assumes "clone_fsinfo flags p k = (c, k')" "lp_fsinfo p < k_next k"
  shows "c < k_next k'" "if cf_contains flags CF_FS then c = lp_fsinfo p else k_next k \<le> c"
  using assms by (auto simp: clone_fsinfo_def new_shared_def split: if_splits)

lemma clone_fdtable_cell:
  assumes "clone_fdtable flags p k = (c, k')" "lp_fdtable p < k_next k"
  shows "c < k_next k'" "if cf_contains flags CF_FILES then c = lp_fdtable p else k_next k \<le> c"
  using assms by (auto simp: clone_fdtable_def new_shared_def split: if_splits)

lemma clone_signal_cell:
  assumes "clone_signal E flags p k = (c, k')" "lp_signal p < k_next k"
  shows "c < k_next k'" "if cf_contains flags CF_SIGHAND then c = lp_signal p else k_next k \<le> c"
  using assms by (auto simp: clone_signal_def new_shared_def Let_def split: if_splits)

section \<open>Adding a process\<close>

lemma add_process:
  assumes core: "k_core k" and pool: "pool_inv (k_pids k) (insert (lp_id q) (pids k))" "lp_id q \<notin> pids k"
    and fresh: "k_procs k n = None"
    and procs: "k_procs k' = (k_procs k)(n := Some q)" "k_mgr k' = bt_insert (lp_id q) n (k_mgr k)"
      "k_pids k' = k_pids k" "k_next k \<le> k_next k'"
    and family: "k_parents k' = k_parents k" "\<And>c. set (k_children k' c) \<subseteq> insert n (set (k_children k c))"
    and groups: "k_groups k' = (k_groups k)(lp_group q := g)"
      "\<And>i. i \<noteq> lp_id q \<Longrightarrow> bt_get i (members g) = bt_get i (members (k_groups k (lp_group q)))"
      "\<And>r p. k_procs k r = Some p \<Longrightarrow> lp_group p = lp_group q \<Longrightarrow> leader g = leader (k_groups k (lp_group q))"
    and new: "lp_inv k' n q"
  shows "k_inv k'"
proof -
  have old: "lp_inv k' r p" if r: "k_procs k r = Some p" for r p
  proof -
    have l: "lp_inv k r p" using core r by (rule k_core_lp)
    have ne: "lp_id p \<noteq> lp_id q" using pool(2) r by (auto simp: pids_def)
    have live: "k_procs k x \<noteq> None \<Longrightarrow> k_procs k' x \<noteq> None" for x using procs(1) by simp
    have "bt_get (lp_id p) (members (k_groups k' (lp_group p))) = Some r"
      using l groups(1) groups(2)[OF ne] by (cases "lp_group p = lp_group q") (simp_all add: lp_inv_def)
    moreover have "leader (k_groups k' (lp_group p)) = leader (k_groups k (lp_group p))"
      using groups(1) groups(3)[OF r] by (cases "lp_group p = lp_group q") simp_all
    moreover have "\<exists>x q'. leader (k_groups k (lp_group p)) = Some x \<and> k_procs k' x = Some q'"
      using l live unfolding lp_inv_def by fastforce
    moreover have "\<forall>c\<in>set (k_children k' (lp_children p)). k_procs k' c \<noteq> None"
    proof
      fix c assume "c \<in> set (k_children k' (lp_children p))"
      hence "c = n \<or> c \<in> set (k_children k (lp_children p))" using family(2) by auto
      thus "k_procs k' c \<noteq> None" using l live procs(1) by (auto simp: lp_inv_def)
    qed
    ultimately show ?thesis
      using l live family(1) procs(4) by (auto simp: lp_inv_def)
  qed
  have "lp_inv k' r p" if "k_procs k' r = Some p" for r p
    using that old new procs(1) by (auto split: if_splits)
  moreover have "bt_wf (k_mgr k')" using core procs(2) by (simp add: k_core_def)
  moreover have "bt_get pid (k_mgr k') = Some r \<longleftrightarrow> (\<exists>p. k_procs k' r = Some p \<and> lp_id p = pid)" for pid r
  proof (cases "pid = lp_id q")
    case True
    have "k_procs k r \<noteq> Some p \<or> lp_id p \<noteq> pid" for p using pool(2) True by (auto simp: pids_def)
    thus ?thesis using True procs fresh by (auto simp: bt_gets)
  next
    case False
    thus ?thesis using core procs fresh by (auto simp: bt_gets k_core_def)
  qed
  moreover have "pids k' = insert (lp_id q) (pids k)" using procs(1) fresh by (auto simp: pids_def) (metis option.distinct(1))
  ultimately show ?thesis using pool(1) procs(3) by (simp add: k_inv_def k_core_def)
qed

section \<open>Cloning\<close>

text \<open>The new process object.\<close>

definition clone_object ::
  "'w LightProcess \<Rightarrow> usize \<Rightarrow> usize \<Rightarrow> usize \<Rightarrow> nat \<times> nat \<times> nat \<Rightarrow> nat \<times> nat \<times> nat \<times> nat \<Rightarrow> 'w LightProcess" where
  "clone_object p pid sp now fam cs = (case fam of (a, b, g) \<Rightarrow> case cs of (mc, fc, tc, sc) \<Rightarrow>
     \<lparr>lp_id = pid, lp_pgid = lp_pgid p, lp_parent = a, lp_context = set_user_sp sp (lp_context p),
      lp_children = b, lp_status = lp_status p, lp_timer = timestat_new now, lp_exit_code = lp_exit_code p,
      lp_shm_table = shmt_new_empty, lp_private_info = private_info_new, lp_exe_path = lp_exe_path p,
      lp_event_bus = bus_new, lp_group = g, lp_memory = mc, lp_fsinfo = fc, lp_fdtable = tc, lp_signal = sc,
      lp_timer_map = []\<rparr>)"

lemma do_cloneE:
  assumes "do_clone E flags us r k = Some (n, k')"
  obtains p pid k0 a b g k1 mc k2 sp k3 fc k4 tc k5 sc k6 q gr k7 where
    "k_procs k r = Some p" "alloc_pid k = Some (pid, k0)" "clone_family flags r p k0 = ((a, b, g), k1)"
    "clone_memory E flags p k1 = Some (mc, k2)" "clone_stack E flags us p mc k2 = Some (sp, k3)"
    "clone_fsinfo flags p k3 = (fc, k4)" "clone_fdtable flags p k4 = (tc, k5)" "clone_signal E flags p k5 = (sc, k6)"
    "n = k_next k6" "q = clone_object p pid sp (k_now k6) (a, b, g) (mc, fc, tc, sc)"
    "(if cf_contains flags CF_THREAD then tg_push (n, pid) (k_groups k6 g) else tg_push_leader (n, pid) (k_groups k6 g)) = Some gr"
    "k7 = k6\<lparr>k_next := Suc n, k_procs := (k_procs k6)(n := Some q), k_mgr := bt_insert pid n (k_mgr k6),
       k_groups := (k_groups k6)(g := gr)\<rparr>"
    "k' = (if cf_contains flags CF_THREAD then k7 else add_child p n k7)"
proof -
  obtain p where p: "k_procs k r = Some p" using assms by (auto simp: do_clone_def bind_eq_Some_conv)
  obtain pid k0 where a: "alloc_pid k = Some (pid, k0)" using assms p by (auto simp: do_clone_def bind_eq_Some_conv)
  obtain a b g k1 where f: "clone_family flags r p k0 = ((a, b, g), k1)" by (metis prod.exhaust)
  obtain mc k2 where m: "clone_memory E flags p k1 = Some (mc, k2)"
    using assms p a f by (auto simp: do_clone_def bind_eq_Some_conv)
  obtain sp k3 where s: "clone_stack E flags us p mc k2 = Some (sp, k3)"
    using assms p a f m by (auto simp: do_clone_def bind_eq_Some_conv)
  obtain fc k4 where fs: "clone_fsinfo flags p k3 = (fc, k4)" by (metis prod.exhaust)
  obtain tc k5 where ft: "clone_fdtable flags p k4 = (tc, k5)" by (metis prod.exhaust)
  obtain sc k6 where sg: "clone_signal E flags p k5 = (sc, k6)" by (metis prod.exhaust)
  let ?n = "k_next k6"
  let ?q = "clone_object p pid sp (k_now k6) (a, b, g) (mc, fc, tc, sc)"
  note run = p a f m s fs ft sg
  from assms obtain gr where
    gr: "(if cf_contains flags CF_THREAD then tg_push (?n, pid) (k_groups k6 g) else tg_push_leader (?n, pid) (k_groups k6 g)) = Some gr"
    and e: "n = ?n" "k' = (if cf_contains flags CF_THREAD
        then k6\<lparr>k_next := Suc ?n, k_procs := (k_procs k6)(?n := Some ?q), k_mgr := bt_insert pid ?n (k_mgr k6),
               k_groups := (k_groups k6)(g := gr)\<rparr>
        else add_child p ?n (k6\<lparr>k_next := Suc ?n, k_procs := (k_procs k6)(?n := Some ?q), k_mgr := bt_insert pid ?n (k_mgr k6),
               k_groups := (k_groups k6)(g := gr)\<rparr>))"
    by (cases "cf_contains flags CF_THREAD")
      (auto simp: do_clone_def run new_shared_def mgr_put_def clone_object_def bind_eq_Some_conv Let_def)
  show ?thesis by (rule that[OF run e(1) refl gr[folded e(1)] refl e(2)[folded e(1)]])
qed

lemma alloc_pid_inv:
  assumes "k_inv k" "alloc_pid k = Some (pid, k0)"
  shows "k_core k0" "pid \<notin> pids k" "pids k0 = pids k" "pool_inv (k_pids k0) (insert pid (pids k))"
    "k_procs k0 = k_procs k" "k_next k0 = k_next k" "k_parents k0 = k_parents k" "k_children k0 = k_children k"
    "k_groups k0 = k_groups k" "k_mgr k0 = k_mgr k"
proof -
  obtain pool where g: "pool_get (k_pids k) = Some (pid, pool)" and k0: "k0 = k\<lparr>k_pids := pool\<rparr>"
    using assms(2) by (auto simp: alloc_pid_def bind_eq_Some_conv)
  show "k_procs k0 = k_procs k" "k_next k0 = k_next k" "k_parents k0 = k_parents k" "k_children k0 = k_children k"
    "k_groups k0 = k_groups k" "k_mgr k0 = k_mgr k" "pids k0 = pids k"
    by (simp_all add: k0 pids_def)
  show "k_core k0" using k_inv_core[OF assms(1)] by (simp add: k0 k_core_def lp_inv_def)
  show "pid \<notin> pids k" "pool_inv (k_pids k0) (insert pid (pids k))"
    using up.get_fresh[OF _ g] assms(1) by (auto simp: k_inv_def k0)
qed

lemma tg_push_get: "tg_push (n, pid) g = Some g' \<Longrightarrow> members g' = bt_insert pid n (members g) \<and> leader g' = leader g"
  by (auto simp: tg_push_def split: if_splits)

lemma tg_push_leader_get:
  "tg_push_leader (n, pid) g = Some g' \<Longrightarrow> members g' = bt_insert pid n (members g) \<and> leader g' = Some n"
  by (auto simp: tg_push_leader_def split: if_splits)

lemma clone_object_sel [simp]:
  "lp_id (clone_object p pid sp now (a, b, g) (mc, fc, tc, sc)) = pid"
  "lp_parent (clone_object p pid sp now (a, b, g) (mc, fc, tc, sc)) = a"
  "lp_children (clone_object p pid sp now (a, b, g) (mc, fc, tc, sc)) = b"
  "lp_group (clone_object p pid sp now (a, b, g) (mc, fc, tc, sc)) = g"
  "lp_memory (clone_object p pid sp now (a, b, g) (mc, fc, tc, sc)) = mc"
  "lp_fsinfo (clone_object p pid sp now (a, b, g) (mc, fc, tc, sc)) = fc"
  "lp_fdtable (clone_object p pid sp now (a, b, g) (mc, fc, tc, sc)) = tc"
  "lp_signal (clone_object p pid sp now (a, b, g) (mc, fc, tc, sc)) = sc"
  "lp_event_bus (clone_object p pid sp now (a, b, g) (mc, fc, tc, sc)) = bus_new"
  "lp_status (clone_object p pid sp now (a, b, g) (mc, fc, tc, sc)) = lp_status p"
  "lp_pgid (clone_object p pid sp now (a, b, g) (mc, fc, tc, sc)) = lp_pgid p"
  "lp_context (clone_object p pid sp now (a, b, g) (mc, fc, tc, sc)) = set_user_sp sp (lp_context p)"
  by (simp_all add: clone_object_def)

lemma extends_next: "extends k k' \<Longrightarrow> k_next k \<le> k_next k'"
  by (simp add: extends_def)

lemma extends_same:
  "extends k k' \<Longrightarrow> c < k_next k \<Longrightarrow> k_parents k' c = k_parents k c"
  "extends k k' \<Longrightarrow> c < k_next k \<Longrightarrow> k_children k' c = k_children k c"
  "extends k k' \<Longrightarrow> c < k_next k \<Longrightarrow> k_groups k' c = k_groups k c"
  "extends k k' \<Longrightarrow> k_procs k' = k_procs k" "extends k k' \<Longrightarrow> k_mgr k' = k_mgr k" "extends k k' \<Longrightarrow> k_pids k' = k_pids k"
  by (simp_all add: extends_def)

text \<open>What a clone shares with its original, by flags, and how it is entered into the tables.\<close>

definition shares_by_flags :: "CloneFlags \<Rightarrow> 'w LightProcess \<Rightarrow> 'w LightProcess \<Rightarrow> bool" where
  "shares_by_flags flags p q \<longleftrightarrow>
     (lp_memory q = lp_memory p \<longleftrightarrow> cf_contains flags CF_VM) \<and> (lp_fsinfo q = lp_fsinfo p \<longleftrightarrow> cf_contains flags CF_FS) \<and>
     (lp_fdtable q = lp_fdtable p \<longleftrightarrow> cf_contains flags CF_FILES) \<and>
     (lp_signal q = lp_signal p \<longleftrightarrow> cf_contains flags CF_SIGHAND) \<and>
     (lp_group q = lp_group p \<longleftrightarrow> cf_contains flags CF_THREAD) \<and>
     (lp_children q = lp_children p \<longleftrightarrow> cf_contains flags CF_THREAD)"

text \<open>The state just before the new process is entered, seen from the state before the call.\<close>

definition clone_ready ::
  "CloneFlags \<Rightarrow> nat \<Rightarrow> 'w LightProcess \<Rightarrow> ('f, 'fa, 'w) kstate \<Rightarrow> 'w LightProcess \<Rightarrow> ('f, 'fa, 'w) kstate \<Rightarrow> bool" where
  "clone_ready flags r p k q s \<longleftrightarrow> k_core s \<and> k_procs s = k_procs k \<and> k_next k \<le> k_next s \<and>
     lp_id q \<notin> pids k \<and> pool_inv (k_pids s) (insert (lp_id q) (pids k)) \<and> bus_inv (lp_event_bus q) \<and>
     (\<forall>c\<in>set (lp_cells q). c < k_next s) \<and>
     (\<forall>c<k_next k. k_parents s c = k_parents k c \<and> k_children s c = k_children k c \<and> k_groups s c = k_groups k c) \<and>
     (if cf_contains flags CF_THREAD
      then lp_parent q = lp_parent p \<and> lp_children q = lp_children p \<and> lp_group q = lp_group p
      else k_next k \<le> lp_children q \<and> k_next k \<le> lp_group q \<and> k_parents s (lp_parent q) = Some r \<and>
        k_children s (lp_children q) = [] \<and> k_groups s (lp_group q) = tg_new_empty) \<and>
     shares_by_flags flags p q \<and> lp_pgid q = lp_pgid p \<and> lp_status q = lp_status p"

lemma clone_ready_run:
  assumes inv: "k_inv k" and p: "k_procs k r = Some p" and pid: "alloc_pid k = Some (pid, k0)"
    and fam: "clone_family flags r p k0 = ((a, b, g), k1)"
    and mem: "clone_memory E flags p k1 = Some (mc, k2)" and st: "clone_stack E flags us p mc k2 = Some (sp, k3)"
    and fs: "clone_fsinfo flags p k3 = (fc, k4)" and ft: "clone_fdtable flags p k4 = (tc, k5)"
    and sg: "clone_signal E flags p k5 = (sc, k6)"
  shows "clone_ready flags r p k (clone_object p pid sp now (a, b, g) (mc, fc, tc, sc)) k6"
proof -
  note a0 = alloc_pid_inv[OF inv pid]
  have l: "lp_inv k0 r p" using a0(1,5) p by (intro k_core_lp) simp_all
  note e1 = extends_clone_family[OF fam] and e2 = extends_clone_memory[OF mem] and e3 = extends_clone_stack[OF st]
    and e4 = extends_clone_fsinfo[OF fs] and e5 = extends_clone_fdtable[OF ft] and e6 = extends_clone_signal[OF sg]
  note e16 = extends_trans[OF e2 extends_trans[OF e3 extends_trans[OF e4 extends_trans[OF e5 e6]]]]
  note e06 = extends_trans[OF e1 e16]
  note nx = extends_next[OF e1] extends_next[OF e2] extends_next[OF e3] extends_next[OF e4] extends_next[OF e5] extends_next[OF e6]
  have cl: "lp_parent p < k_next k0" "lp_children p < k_next k0" "lp_group p < k_next k0" "lp_memory p < k_next k0"
    "lp_fsinfo p < k_next k0" "lp_fdtable p < k_next k0" "lp_signal p < k_next k0"
    using l by (simp_all add: lp_inv_def lp_cells_def)
  note fam' = clone_family_cells[OF fam l]
  have fam6: "k_parents k6 a = k_parents k1 a" "k_children k6 b = k_children k1 b" "k_groups k6 g = k_groups k1 g"
    using extends_same(1-3)[OF e16] fam'(1-3) by simp_all
  have mc': "mc < k_next k2" "if cf_contains flags CF_VM then mc = lp_memory p else k_next k1 \<le> mc"
    using clone_memory_cell[OF mem] cl nx by simp_all
  have fc': "fc < k_next k4" "if cf_contains flags CF_FS then fc = lp_fsinfo p else k_next k3 \<le> fc"
    using clone_fsinfo_cell[OF fs] cl nx by simp_all
  have tc': "tc < k_next k5" "if cf_contains flags CF_FILES then tc = lp_fdtable p else k_next k4 \<le> tc"
    using clone_fdtable_cell[OF ft] cl nx by simp_all
  have sc': "sc < k_next k6" "if cf_contains flags CF_SIGHAND then sc = lp_signal p else k_next k5 \<le> sc"
    using clone_signal_cell[OF sg] cl nx by simp_all
  have "shares_by_flags flags p (clone_object p pid sp now (a, b, g) (mc, fc, tc, sc))"
  proof -
    have "mc = lp_memory p \<longleftrightarrow> cf_contains flags CF_VM" using mc'(2) cl(4) nx(1) by (auto split: if_splits)
    moreover have "fc = lp_fsinfo p \<longleftrightarrow> cf_contains flags CF_FS" using fc'(2) cl(5) nx by (auto split: if_splits)
    moreover have "tc = lp_fdtable p \<longleftrightarrow> cf_contains flags CF_FILES" using tc'(2) cl(6) nx by (auto split: if_splits)
    moreover have "sc = lp_signal p \<longleftrightarrow> cf_contains flags CF_SIGHAND" using sc'(2) cl(7) nx by (auto split: if_splits)
    moreover have "(g = lp_group p \<longleftrightarrow> cf_contains flags CF_THREAD) \<and> (b = lp_children p \<longleftrightarrow> cf_contains flags CF_THREAD)"
      using fam'(4,5) cl(2,3) by (cases "cf_contains flags CF_THREAD") auto
    ultimately show ?thesis by (simp add: shares_by_flags_def)
  qed
  moreover have "\<forall>c\<in>{a, b, g, mc, fc, tc, sc}. c < k_next k6" using mc'(1) fc'(1) tc'(1) sc'(1) fam'(1-3) nx by simp
  moreover have "if cf_contains flags CF_THREAD then a = lp_parent p \<and> b = lp_children p \<and> g = lp_group p
      else k_next k \<le> b \<and> k_next k \<le> g \<and> k_parents k6 a = Some r \<and> k_children k6 b = [] \<and> k_groups k6 g = tg_new_empty"
    using fam'(4,5) fam6 a0(6) by simp
  moreover have "\<forall>c<k_next k. k_parents k6 c = k_parents k c \<and> k_children k6 c = k_children k c \<and> k_groups k6 c = k_groups k c"
    using extends_same(1-3)[OF e06] a0(6-9) by simp
  moreover have "k_procs k6 = k_procs k" "k_pids k6 = k_pids k0" "k_next k \<le> k_next k6"
    using extends_same(4,6)[OF e06] extends_next[OF e06] a0(5,6) by simp_all
  ultimately show ?thesis
    using extends_core[OF e06 a0(1)] a0(2,4) bus_inv_new by (simp add: clone_ready_def lp_cells_def)
qed

text \<open>Entering the new process.\<close>

lemma clone_enter:
  assumes inv: "k_inv k" and p: "k_procs k r = Some p" and ready: "clone_ready flags r p k q s" and n: "n = k_next s"
    and gr: "(if cf_contains flags CF_THREAD then tg_push (n, lp_id q) (k_groups s (lp_group q))
       else tg_push_leader (n, lp_id q) (k_groups s (lp_group q))) = Some gr"
    and k7: "k7 = s\<lparr>k_next := Suc n, k_procs := (k_procs s)(n := Some q), k_mgr := bt_insert (lp_id q) n (k_mgr s),
       k_groups := (k_groups s)(lp_group q := gr)\<rparr>"
    and k': "k' = (if cf_contains flags CF_THREAD then k7 else add_child p n k7)"
  shows "k_inv k'" "k_procs k' = (k_procs k)(n := Some q)" "k_parents k' = k_parents s"
    "k_children k' = (if cf_contains flags CF_THREAD then k_children s
       else (k_children s)(lp_children p := k_children s (lp_children p) @ [n]))"
    "leader (k_groups k' (lp_group q)) = (if cf_contains flags CF_THREAD then leader (k_groups s (lp_group q)) else Some n)"
proof -
  have l: "lp_inv k r p" using inv p by (simp add: k_core_lp)
  have cl: "lp_parent p < k_next k" "lp_children p < k_next k" "lp_group p < k_next k"
    using l by (simp_all add: lp_inv_def lp_cells_def)
  have core: "k_core s" and procs: "k_procs s = k_procs k" and fam: "\<forall>c<k_next k. k_parents s c = k_parents k c \<and>
      k_children s c = k_children k c \<and> k_groups s c = k_groups k c"
    using ready by (simp_all add: clone_ready_def)
  have ps: "pids s = pids k" using procs by (simp add: pids_def)
  have f: "k_procs s n = None" using k_core_fresh[OF core] n by simp
  have q': "k_procs k' = (k_procs s)(n := Some q)" "k_mgr k' = bt_insert (lp_id q) n (k_mgr s)" "k_pids k' = k_pids s"
    "k_next k' = Suc n" "k_parents k' = k_parents s" "k_groups k' = (k_groups s)(lp_group q := gr)"
    using k' k7 by (auto simp: add_child_def)
  have ch: "k_children k' = (if cf_contains flags CF_THREAD then k_children s
      else (k_children s)(lp_children p := k_children s (lp_children p) @ [n]))"
    using k' k7 by (auto simp: add_child_def)
  have mg: "members gr = bt_insert (lp_id q) n (members (k_groups s (lp_group q)))"
    using gr tg_push_get tg_push_leader_get by (auto split: if_splits)
  have lg: "leader gr = (if cf_contains flags CF_THREAD then leader (k_groups s (lp_group q)) else Some n)"
    using gr tg_push_get tg_push_leader_get by (auto split: if_splits)
  have live: "k_procs k x \<noteq> None \<Longrightarrow> k_procs k' x \<noteq> None" for x using q'(1) procs by simp
  have "\<exists>l q'. leader gr = Some l \<and> k_procs k' l = Some q'"
    using l lg fam cl ready live by (cases "cf_contains flags CF_THREAD") (fastforce simp: clone_ready_def lp_inv_def q'(1))+
  moreover have "\<forall>x. k_parents k' (lp_parent q) = Some x \<longrightarrow> k_procs k' x \<noteq> None"
    using l fam cl ready live p by (cases "cf_contains flags CF_THREAD") (auto simp: clone_ready_def lp_inv_def q'(5))
  moreover have "\<forall>c\<in>set (k_children k' (lp_children q)). k_procs k' c \<noteq> None"
    using l fam cl ready live by (cases "cf_contains flags CF_THREAD") (auto simp: clone_ready_def lp_inv_def ch)
  ultimately have new: "lp_inv k' n q"
    using ready n by (auto simp: lp_inv_def q'(4,6) mg bt_gets clone_ready_def less_Suc_eq)
  have "leader gr = leader (k_groups s (lp_group q))" if "k_procs s x = Some y" "lp_group y = lp_group q" for x y
  proof (cases "cf_contains flags CF_THREAD")
    case False
    have "lp_group y < k_next k"
      using that(1) procs k_core_lp[OF k_inv_core[OF inv]] by (auto simp: lp_inv_def lp_cells_def)
    thus ?thesis using False ready that(2) by (simp add: clone_ready_def)
  qed (simp add: lg)
  thus "k_inv k'"
    using ready new f core ps by (intro add_process[of s q n k' gr]) (auto simp: clone_ready_def q' ch mg bt_gets n)
  show "k_procs k' = (k_procs k)(n := Some q)" "k_parents k' = k_parents s"
    "leader (k_groups k' (lp_group q)) = (if cf_contains flags CF_THREAD then leader (k_groups s (lp_group q)) else Some n)"
    using q' procs lg by simp_all
qed (use assms in \<open>auto simp: add_child_def\<close>)

text \<open>Cloning a process (C7): the new process is entered under a pid that no process has; it shares memory, files,
  file system information, signal handlers and family exactly as the flags ask for; a thread joins the group
  of its original, any other clone becomes a child of it and the leader of a group of its own. No other
  process object changes.\<close>

theorem do_clone_spec:
  assumes inv: "k_inv k" and clone: "do_clone E flags us r k = Some (n, k')"
  shows "\<exists>p q. k_procs k r = Some p \<and> k_procs k n = None \<and> k_procs k' = (k_procs k)(n := Some q) \<and> k_inv k' \<and>
    lp_id q \<notin> pids k \<and> mgr_get (lp_id q) k' = (Some n, k') \<and> shares_by_flags flags p q \<and>
    lp_pgid q = lp_pgid p \<and> lp_status q = lp_status p \<and>
    (if cf_contains flags CF_THREAD
     then lp_parent q = lp_parent p \<and> k_children k' (lp_children p) = k_children k (lp_children p) \<and>
       lproc_tgid q k' = lproc_tgid p k
     else k_parents k' (lp_parent q) = Some r \<and> k_children k' (lp_children q) = [] \<and>
       k_children k' (lp_children p) = k_children k (lp_children p) @ [n] \<and> lproc_tgid q k' = Some (lp_id q))"
proof (rule do_cloneE[OF clone], goal_cases)
  case (1 p pid k0 a b g k1 mc k2 sp k3 fc k4 tc k5 sc k6 q gr k7)
  have ready: "clone_ready flags r p k q k6" unfolding 1(10) by (rule clone_ready_run[OF inv 1(1-8)])
  have e: "lp_group q = g" "lp_id q = pid" by (simp_all add: 1(10))
  note ent = clone_enter[OF inv 1(1) ready 1(9) 1(11)[folded e] 1(12)[folded e] 1(13)]
  have l: "lp_inv k r p" using inv 1(1) by (simp add: k_core_lp)
  have cl: "lp_children p < k_next k" "lp_group p < k_next k" using l by (simp_all add: lp_inv_def lp_cells_def)
  have f: "k_procs k n = None"
    using k_core_fresh[of k6 n] ready 1(9) by (simp add: clone_ready_def)
  have g1: "mgr_get (lp_id q) k' = (Some n, k')"
    using mgr_get_live[of k' "lp_id q"] ent(1,2) unfolding k_inv_def k_core_def by fastforce
  obtain x y where ld: "leader (k_groups k (lp_group p)) = Some x" "k_procs k x = Some y" using l by (auto simp: lp_inv_def)
  have "x \<noteq> n" using ld(2) f by auto
  hence "if cf_contains flags CF_THREAD
     then lp_parent q = lp_parent p \<and> k_children k' (lp_children p) = k_children k (lp_children p) \<and>
       lproc_tgid q k' = lproc_tgid p k
     else k_parents k' (lp_parent q) = Some r \<and> k_children k' (lp_children q) = [] \<and>
       k_children k' (lp_children p) = k_children k (lp_children p) @ [n] \<and> lproc_tgid q k' = Some (lp_id q)"
    using ent(5) ready cl ld
    by (cases "cf_contains flags CF_THREAD") (auto simp: lproc_tgid_def tg_tgid_def clone_ready_def ent(2-4))
  moreover have "lp_id q \<notin> pids k" "shares_by_flags flags p q" "lp_pgid q = lp_pgid p" "lp_status q = lp_status p"
    using ready by (simp_all add: clone_ready_def)
  ultimately show ?case using 1(1) f g1 ent(1,2) by blast
qed

section \<open>Updates that keep the tables\<close>

definition keeps_links :: "('w LightProcess \<Rightarrow> 'w LightProcess) \<Rightarrow> bool" where
  "keeps_links f \<longleftrightarrow> (\<forall>p. lp_id (f p) = lp_id p \<and> lp_cells (f p) = lp_cells p \<and>
     (bus_inv (lp_event_bus p) \<longrightarrow> bus_inv (lp_event_bus (f p))))"

lemma upd_lproc_inv:
  assumes "k_inv k" "keeps_links f"
  shows "k_inv (upd_lproc r f k)"
proof -
  have live: "k_procs (upd_lproc r f k) x = None \<longleftrightarrow> k_procs k x = None" for x by (simp add: upd_lproc_def)
  have ids: "(\<exists>p. k_procs (upd_lproc r f k) x = Some p \<and> lp_id p = i) \<longleftrightarrow> (\<exists>p. k_procs k x = Some p \<and> lp_id p = i)" for x i
    using assms(2) by (auto simp: upd_lproc_def keeps_links_def)
  have rest: "k_mgr (upd_lproc r f k) = k_mgr k" "k_pids (upd_lproc r f k) = k_pids k" "k_next (upd_lproc r f k) = k_next k"
    "k_parents (upd_lproc r f k) = k_parents k" "k_children (upd_lproc r f k) = k_children k" "k_groups (upd_lproc r f k) = k_groups k"
    by (simp_all add: upd_lproc_def)
  have "lp_inv (upd_lproc r f k) x p" if x: "k_procs (upd_lproc r f k) x = Some p" for x p
  proof -
    obtain p0 where p0: "k_procs k x = Some p0" "p = p0 \<or> p = f p0" using x by (auto simp: upd_lproc_def split: if_splits)
    have "lp_inv k x p0" using assms(1) p0(1) by (simp add: k_core_lp)
    moreover have "lp_id p = lp_id p0" "lp_cells p = lp_cells p0" "bus_inv (lp_event_bus p0) \<Longrightarrow> bus_inv (lp_event_bus p)"
      using p0(2) assms(2) by (auto simp: keeps_links_def)
    moreover have "lp_group p = lp_group p0" "lp_parent p = lp_parent p0" "lp_children p = lp_children p0"
      using calculation(3) by (simp_all add: lp_cells_def)
    ultimately show ?thesis using live by (auto simp: lp_inv_def rest) (metis not_None_eq)
  qed
  moreover have "pids (upd_lproc r f k) = pids k" unfolding pids_def using ids by (metis (no_types, lifting))
  ultimately show ?thesis using assms(1) by (simp add: k_inv_def k_core_def rest ids)
qed

text \<open>Fields that the invariant does not look at.\<close>

lemma k_inv_signals [simp]: "k_inv (k\<lparr>k_signals := a\<rparr>) \<longleftrightarrow> k_inv k" "k_inv (k\<lparr>k_woken := w\<rparr>) \<longleftrightarrow> k_inv k"
  "k_inv (k\<lparr>k_fdtables := t\<rparr>) \<longleftrightarrow> k_inv k"
  by (simp_all add: k_inv_def k_core_def lp_inv_def pids_def)

lemma send_signal_run:
  assumes "k_inv k" "k_procs k r = Some p" "1 \<le> unat signum" "unat signum \<le> 34"
  shows "\<exists>sg bus w k'. lproc_send_signal signum r k = Some k' \<and> k_inv k' \<and>
    k' = upd_lproc r (\<lambda>p. p\<lparr>lp_event_bus := bus\<rparr>) (k\<lparr>k_signals := (k_signals k)(lp_signal p := sg), k_woken := w\<rparr>) \<and>
    bus_inv bus \<and> bit (signal_pending sg) (unat signum - 1)"
proof -
  have "bus_inv (lp_event_bus p)" using k_core_lp[of k r p] assms by (simp add: lp_inv_def)
  then obtain bus where b: "bus_drop (\<lambda>n. ev_contains (listen_for n) Ev_Signal) (lp_event_bus p) = Some bus" "bus_inv bus"
    using bus_drop_inv by blast
  define sg where "sg = (k_signals k (lp_signal p))\<lparr>signal_pending := signal_pending (k_signals k (lp_signal p)) OR push_bit (unat signum - 1) 1\<rparr>"
  define ws where "ws = map waker (filter (\<lambda>n. ev_contains (listen_for n) Ev_Signal) (events (lp_event_bus p)))"
  define k1 where "k1 = k\<lparr>k_signals := (k_signals k)(lp_signal p := sg), k_woken := k_woken k @ ws\<rparr>"
  let ?k' = "upd_lproc r (\<lambda>p. p\<lparr>lp_event_bus := bus\<rparr>) k1"
  have "keeps_links (\<lambda>p. p\<lparr>lp_event_bus := bus\<rparr>)" using b(2) by (simp add: keeps_links_def lp_cells_def)
  hence "k_inv ?k'" using assms(1) by (intro upd_lproc_inv) (simp_all add: k1_def)
  moreover have "lproc_send_signal signum r k = Some ?k'"
    using assms b(1) by (simp add: lproc_send_signal_def send_signal_def bus_notify_def signal_bit_eq sg_def ws_def k1_def Let_def)
  moreover have "bit (signal_pending sg) (unat signum - 1)"
  proof -
    have "unat signum - 1 < 64" using assms(4) by linarith
    thus ?thesis by (simp add: sg_def bit_or_iff bit_single del: push_bit_of_1 One_nat_def)
  qed
  ultimately show ?thesis using b(2) by (intro exI[of _ sg] exI[of _ bus] exI[of _ "k_woken k @ ws"] exI[of _ ?k']) (simp add: k1_def)
qed

section \<open>Leaving\<close>

lemma reparent_run:
  assumes "k_inv k" "k_procs k i \<noteq> None" "\<forall>c\<in>set cs. k_procs k c \<noteq> None"
  shows "\<exists>ps. foldM (reparent i) cs k = Some (k\<lparr>k_parents := ps\<rparr>) \<and> k_inv (k\<lparr>k_parents := ps\<rparr>) \<and>
    (\<forall>x. ps x = k_parents k x \<or> ps x = Some i) \<and> (\<forall>c\<in>set cs. \<forall>p. k_procs k c = Some p \<longrightarrow> ps (lp_parent p) = Some i)"
  using assms
proof (induction cs arbitrary: k)
  case Nil
  thus ?case by (intro exI[of _ "k_parents k"]) simp
next
  case (Cons c cs)
  obtain q where q: "k_procs k c = Some q" using Cons.prems(3) by auto
  let ?k1 = "k\<lparr>k_parents := (k_parents k)(lp_parent q := Some i)\<rparr>"
  have inv1: "k_inv ?k1"
    using Cons.prems(1,2) by (auto simp: k_inv_def k_core_def lp_inv_def pids_def)
  then obtain ps where ps: "foldM (reparent i) cs ?k1 = Some (?k1\<lparr>k_parents := ps\<rparr>)" "k_inv (?k1\<lparr>k_parents := ps\<rparr>)"
    "\<forall>x. ps x = k_parents ?k1 x \<or> ps x = Some i" "\<forall>c\<in>set cs. \<forall>p. k_procs ?k1 c = Some p \<longrightarrow> ps (lp_parent p) = Some i"
    using Cons.IH[of ?k1] Cons.prems by auto
  have "ps (lp_parent q) = k_parents ?k1 (lp_parent q) \<or> ps (lp_parent q) = Some i" using ps(3) by blast
  hence "ps (lp_parent q) = Some i" by simp
  moreover have "reparent i c k = Some ?k1" using q by (simp add: reparent_def)
  moreover have "ps x = k_parents k x \<or> ps x = Some i" for x
    using ps(3)[rule_format, of x] by (auto split: if_splits)
  ultimately show ?case using ps q by (intro exI[of _ ps]) auto
qed

lemma fdt_release_all_run: "fd_inv t st \<Longrightarrow> \<exists>p. fdt_release_all t = Some (t\<lparr>fd_pool := p, fd_table := []\<rparr>)"
  using up.table_release_all[of "fd_pool t" "fd_table t"] by (auto simp: fd_inv_def fdt_release_all_def)

lemma leave_children_run:
  assumes "k_inv k" "k_procs k r = Some p0" "lp_children p0 = lp_children p" "k_children k (lp_children p) \<noteq> [] \<Longrightarrow>
      bt_get 1 (k_mgr k) = Some i \<and> k_procs k i = Some q \<and> lp_children q \<noteq> lp_children p"
  shows "\<exists>ps cs. leave_children p k = Some (k\<lparr>k_parents := ps, k_children := cs\<rparr>) \<and> k_inv (k\<lparr>k_parents := ps, k_children := cs\<rparr>) \<and>
    (\<forall>x. ps x = k_parents k x \<or> ps x = Some i) \<and>
    (\<forall>c\<in>set (k_children k (lp_children p)). \<forall>x. k_procs k c = Some x \<longrightarrow> ps (lp_parent x) = Some i) \<and>
    cs = (if k_children k (lp_children p) = [] then k_children k
          else (k_children k)(lp_children q := k_children k (lp_children q) @ k_children k (lp_children p)))"
proof (cases "k_children k (lp_children p) = []")
  case True
  thus ?thesis using assms(1)
    by (intro exI[of _ "k_parents k"] exI[of _ "k_children k"]) (simp add: leave_children_def)
next
  case False
  note i = assms(4)[OF False]
  let ?ch = "k_children k (lp_children p)"
  have live: "\<forall>c\<in>set ?ch. k_procs k c \<noteq> None" using k_core_lp[of k r p0] assms by (simp add: lp_inv_def)
  obtain ps where ps: "foldM (reparent i) ?ch k = Some (k\<lparr>k_parents := ps\<rparr>)" "k_inv (k\<lparr>k_parents := ps\<rparr>)"
    "\<forall>x. ps x = k_parents k x \<or> ps x = Some i" "\<forall>c\<in>set ?ch. \<forall>p. k_procs k c = Some p \<longrightarrow> ps (lp_parent p) = Some i"
    using reparent_run[OF assms(1) _ live, of i] i by auto
  let ?cs = "(k_children k)(lp_children q := k_children k (lp_children q) @ ?ch)"
  have "k_inv (k\<lparr>k_parents := ps, k_children := ?cs\<rparr>)"
    using ps(2) live by (auto simp: k_inv_def k_core_def lp_inv_def pids_def)
  moreover have "leave_children p k = Some (k\<lparr>k_parents := ps, k_children := ?cs\<rparr>)"
    using False i ps(1) assms(1) by (simp add: leave_children_def mgr_get_live Let_def)
  ultimately show ?thesis using False ps(3,4) by (intro exI[of _ ps] exI[of _ ?cs]) simp
qed

text \<open>The first part of \<open>do_exit\<close>: the parent is told.\<close>

lemma notify_parent_run:
  assumes "k_inv k" "k_procs k r = Some p" "k_procs k x = Some y"
  shows "\<exists>k1 k2 sg. lproc_send_signal (get_signum SIGCHLD) x k = Some k1 \<and> k2 = set_status STOPPED r k1 \<and> k_inv k2 \<and>
    k_parents k2 = k_parents k \<and> k_children k2 = k_children k \<and> k_mgr k2 = k_mgr k \<and> k_fdtables k2 = k_fdtables k \<and>
    k_signals k2 = (k_signals k)(lp_signal y := sg) \<and> bit (signal_pending sg) 16 \<and>
    (\<exists>bus. k_procs k2 r = Some (p\<lparr>lp_status := STOPPED, lp_event_bus := bus\<rparr>)) \<and>
    (\<forall>c. map_option lp_cells (k_procs k2 c) = map_option lp_cells (k_procs k c))"
proof -
  have n: "get_signum SIGCHLD = 17" by (simp add: get_signum_def SIGCHLD_def trailing_zeros_single del: push_bit_of_1)
  obtain sg bus w k1 where s: "lproc_send_signal 17 x k = Some k1" "k_inv k1"
    "k1 = upd_lproc x (\<lambda>p. p\<lparr>lp_event_bus := bus\<rparr>) (k\<lparr>k_signals := (k_signals k)(lp_signal y := sg), k_woken := w\<rparr>)"
    "bit (signal_pending sg) 16"
    using send_signal_run[OF assms(1,3), of 17] by auto
  have "k_inv (set_status STOPPED r k1)"
    unfolding set_status_def by (rule upd_lproc_inv[OF s(2)]) (simp add: keeps_links_def lp_cells_def)
  moreover have procs: "k_procs (set_status STOPPED r k1) c = map_option (\<lambda>p. if c = r then p\<lparr>lp_status := STOPPED\<rparr> else p)
      (map_option (\<lambda>p. if c = x then p\<lparr>lp_event_bus := bus\<rparr> else p) (k_procs k c))" for c
    unfolding s(3) by (auto simp: set_status_def upd_lproc_def option.map_comp o_def option.map_ident intro: option.map_cong)
  have "\<exists>b. k_procs (set_status STOPPED r k1) r = Some (p\<lparr>lp_status := STOPPED, lp_event_bus := b\<rparr>)"
    using assms(2) by (intro exI[of _ "if r = x then bus else lp_event_bus p"]) (simp add: procs)
  moreover have "map_option lp_cells (k_procs (set_status STOPPED r k1) c) = map_option lp_cells (k_procs k c)" for c
    unfolding procs by (auto simp: option.map_comp o_def lp_cells_def intro!: option.map_cong)
  moreover have "k_parents (set_status STOPPED r k1) = k_parents k" "k_children (set_status STOPPED r k1) = k_children k"
    "k_mgr (set_status STOPPED r k1) = k_mgr k" "k_fdtables (set_status STOPPED r k1) = k_fdtables k"
    "k_signals (set_status STOPPED r k1) = (k_signals k)(lp_signal y := sg)"
    unfolding s(3) by (simp_all add: set_status_def upd_lproc_def)
  ultimately show ?thesis
    using s(1,4) n by (rule_tac exI[of _ k1], rule_tac exI[of _ "set_status STOPPED r k1"], rule_tac exI[of _ sg]) simp
qed


section \<open>A family to try them on\<close>

text \<open>Three processes, each the parent of the next, with pids 1, 2 and 3; process \<open>r\<close> has the cells
  \<open>10 * r + 3\<close> to \<open>10 * r + 9\<close>.\<close>

definition demo_proc :: "nat \<Rightarrow> nat LightProcess" where
  "demo_proc r = \<lparr>lp_id = of_nat (r + 1), lp_pgid = 1, lp_parent = 10 * r + 3, lp_context = uniform_ctx, lp_children = 10 * r + 4,
     lp_status = RUNNING, lp_timer = timestat_new 0, lp_exit_code = 0, lp_shm_table = shmt_new_empty,
     lp_private_info = private_info_new, lp_exe_path = None, lp_event_bus = one_listener, lp_group = 10 * r + 5,
     lp_memory = 10 * r + 6, lp_fsinfo = 10 * r + 7, lp_fdtable = 10 * r + 8, lp_signal = 10 * r + 9, lp_timer_map = []\<rparr>"

definition demo_k :: "(nat, usize list, nat) kstate" where
  "demo_k = \<lparr>k_pids = pool_new 4, k_procs = [0 \<mapsto> demo_proc 0, 1 \<mapsto> demo_proc 1, 2 \<mapsto> demo_proc 2],
     k_mgr = [(1, 0), (2, 1), (3, 2)], k_parents = [13 \<mapsto> 0, 23 \<mapsto> 1],
     k_children = (\<lambda>_. [])(4 := [1], 14 := [2]),
     k_groups = (\<lambda>c. \<lparr>members = [(of_nat (c div 10 + 1), c div 10)], leader = Some (c div 10)\<rparr>),
     k_mems = (\<lambda>_. \<lparr>page_table = empty_pt, areas = [(0, \<lparr>node_end = 0x1000, node_value = \<lparr>kind = MmapAnonymous, perm = 3\<rparr>\<rparr>)]\<rparr>),
     k_fsinfos = (\<lambda>_. from_string ''/''), k_fdtables = (\<lambda>_. std_table), k_signals = (\<lambda>_. signal_new uniform_ctx),
     k_next = 30, k_fds = std_store, k_shm = \<lparr>shm_cells = (\<lambda>_. \<lparr>attach_cnt = 0, last_operater = 0, shm_size = 0, creater = 0, shm_frames = []\<rparr>), shm_fresh = 0\<rparr>, k_shm_mgr = [],
     k_mem = empty_mem, k_umem = (\<lambda>_ _. 0), k_satp = 0, k_now = 0, k_now_ms = 0, k_woken = [], k_rw_trap = False,
     k_spawned = [], k_timer_ids = pool_new 1, k_delayed = []\<rparr>"

lemma demo_proc_cases: "k_procs demo_k r = Some p \<longleftrightarrow> r < 3 \<and> p = demo_proc r"
  by (auto simp: demo_k_def split: if_splits)

lemma demo_refs: "r < 3 \<longleftrightarrow> r = 0 \<or> r = 1 \<or> r = (2::nat)"
  by linarith

lemma demo_pids: "pids demo_k = {1, 2, 3}"
proof -
  have "pids demo_k = (\<lambda>r. lp_id (demo_proc r)) ` {0, 1, 2}"
    by (auto simp: pids_def demo_proc_cases demo_refs)
  thus ?thesis by (simp add: demo_proc_def)
qed

lemma demo_inv: "k_inv demo_k"
proof -
  have "lp_inv demo_k r (demo_proc r)" if r: "r < 3" for r
  proof -
    consider "r = 0" | "r = 1" | "r = 2" using r by linarith
    thus ?thesis
      by cases (simp_all add: lp_inv_def demo_proc_def demo_k_def lp_cells_def one_listener_inv bt_get_def)
  qed
  moreover have "bt_get pid (k_mgr demo_k) = Some r \<longleftrightarrow> r < 3 \<and> lp_id (demo_proc r) = pid" for pid r
  proof -
    have "r < 3 \<and> lp_id (demo_proc r) = pid \<longleftrightarrow> r = 0 \<and> pid = 1 \<or> r = 1 \<and> pid = 2 \<or> r = 2 \<and> pid = 3"
      unfolding demo_refs by (cases "r = 0"; cases "r = 1"; cases "r = 2") (auto simp: demo_proc_def)
    thus ?thesis by (auto simp: demo_k_def bt_get_def split: if_splits)
  qed
  ultimately show ?thesis
    by (auto simp: k_inv_def k_core_def demo_proc_cases demo_pids) (simp_all add: demo_k_def bt_wf_def pool_inv_def pool_new_def)
qed

lemma demo_flags [simp]: "cf_contains CF_VM CF_VM" "\<not> cf_contains CF_VM CF_THREAD"
  "\<not> cf_contains CF_VM CF_FS" "\<not> cf_contains CF_VM CF_FILES" "\<not> cf_contains CF_VM CF_SIGHAND"
  by (simp_all add: cf_contains_def CF_VM_def CF_THREAD_def CF_FS_def CF_FILES_def CF_SIGHAND_def)

lemma demo_pid: "alloc_pid demo_k = Some (4, demo_k\<lparr>k_pids := pool_new 5\<rparr>)"
proof -
  have "k_pids demo_k = pool_new 4" by (simp add: demo_k_def)
  moreover have "pool_get (pool_new 4) = Some (4, pool_new 5)" by (simp add: pool_get_def pool_new_def uadd_def last_of_def)
  ultimately show ?thesis by (simp add: alloc_pid_def)
qed

lemma demo_stack: "clone_stack E CF_VM (Some sp) (demo_proc 1) c k = Some (sp, k)" if "k_mems k = k_mems demo_k"
proof -
  have "get_user_sp (lp_context (demo_proc 1)) = 5"
    by (simp add: demo_proc_def get_user_sp_def uniform_ctx_def nth_replicate)
  moreover have "areas (k_mems k m) = [(0, \<lparr>node_end = 0x1000, node_value = \<lparr>kind = MmapAnonymous, perm = 3\<rparr>\<rparr>)]" for m
    using that by (simp add: demo_k_def)
  ultimately show ?thesis by (simp add: clone_stack_def rm_get_def bt_last_le_def usub_def last_of_def)
qed

lemma do_clone_runs:
  assumes "k_procs k r = Some p" "alloc_pid k = Some (pid, k0)" "clone_family flags r p k0 = ((a, b, g), k1)"
    "clone_memory E flags p k1 = Some (mc, k2)" "clone_stack E flags us p mc k2 = Some (sp, k3)"
    "clone_fsinfo flags p k3 = (fc, k4)" "clone_fdtable flags p k4 = (tc, k5)" "clone_signal E flags p k5 = (sc, k6)"
    "\<not> cf_contains flags CF_THREAD" "k_groups k6 g = tg_new_empty"
  shows "\<exists>n k'. do_clone E flags us r k = Some (n, k')"
  using assms by (simp add: do_clone_def new_shared_def mgr_put_def tg_push_leader_def tg_new_empty_def)

lemma demo_clone: "\<exists>n k'. do_clone E CF_VM (Some 0x800) 1 demo_k = Some (n, k')"
proof -
  let ?k0 = "demo_k\<lparr>k_pids := pool_new 5\<rparr>"
  have p: "k_procs demo_k 1 = Some (demo_proc 1)" by (simp add: demo_proc_cases)
  obtain a b g k1 where k1: "clone_family CF_VM 1 (demo_proc 1) ?k0 = ((a, b, g), k1)"
    "k_groups k1 g = tg_new_empty" "k_mems k1 = k_mems demo_k"
    by (simp add: clone_family_def new_shared_def)
  obtain fc k4 where k4: "clone_fsinfo CF_VM (demo_proc 1) k1 = (fc, k4)" "k_groups k4 = k_groups k1"
    by (simp add: clone_fsinfo_def new_shared_def)
  obtain tc k5 where k5: "clone_fdtable CF_VM (demo_proc 1) k4 = (tc, k5)" "k_groups k5 = k_groups k4"
    by (simp add: clone_fdtable_def new_shared_def)
  obtain sc k6 where k6: "clone_signal E CF_VM (demo_proc 1) k5 = (sc, k6)" "k_groups k6 = k_groups k5"
    by (simp add: clone_signal_def new_shared_def)
  have m: "clone_memory E CF_VM (demo_proc 1) k1 = Some (lp_memory (demo_proc 1), k1)" by (simp add: clone_memory_def)
  show ?thesis
    by (rule do_clone_runs[OF p demo_pid k1(1) m demo_stack[OF k1(3)] k4(1) k5(1) k6(1)]) (simp_all add: k1 k4 k5 k6)
qed

lemma demo_children: "lp_children (demo_proc 1) = 14" "k_children demo_k 14 = [2]"
  by (simp_all add: demo_proc_def demo_k_def)

theorem do_clone_spec_witness:
  "\<forall>E. \<exists>n k' q. do_clone E CF_VM (Some 0x800) 1 demo_k = Some (n, k') \<and> k_inv k' \<and> k_procs k' n = Some q \<and>
     lp_id q \<notin> {1, 2, 3} \<and> k_parents k' (lp_parent q) = Some 1 \<and> k_children k' 14 = [2, n]"
proof
  fix E :: "(nat, usize list) kenv"
  obtain n k' where c: "do_clone E CF_VM (Some 0x800) 1 demo_k = Some (n, k')" using demo_clone by blast
  from do_clone_spec[OF demo_inv c] show
    "\<exists>n k' q. do_clone E CF_VM (Some 0x800) 1 demo_k = Some (n, k') \<and> k_inv k' \<and> k_procs k' n = Some q \<and>
     lp_id q \<notin> {1, 2, 3} \<and> k_parents k' (lp_parent q) = Some 1 \<and> k_children k' 14 = [2, n]"
    using c by (auto simp: demo_pids demo_proc_cases demo_children simp del: One_nat_def)
qed


end
