(* ===== verification/Process_Table.thy ===== *)
theory Process_Table
  imports Lproc_Laws
begin

text \<open>
  Every operation on the process table keeps the invariant of \<^verbatim>\<open>Lproc_Laws\<close>, whenever it returns: creation, cloning,
  exit, exec, signals and the setters. \<open>k_reach\<close> is the set of states that the operations reach from the empty
  table, in any order and from any process.
\<close>

section \<open>Every operation keeps the tables\<close>

lemma send_signal_inv:
  assumes "k_inv k" "lproc_send_signal signum r k = Some k'"
  shows "k_inv k'"
proof -
  obtain p where p: "k_procs k r = Some p" using assms(2) by (auto simp: lproc_send_signal_def bind_eq_Some_conv)
  have "signal_bit signum \<noteq> None" using assms(2) p by (auto simp: lproc_send_signal_def send_signal_def bind_eq_Some_conv)
  hence "1 \<le> unat signum" "unat signum \<le> 34" by (auto simp: signal_bit_eq split: if_splits)
  from send_signal_run[OF assms(1) p this] show ?thesis using assms(2) by auto
qed

lemma leave_children_inv:
  assumes "k_inv k" "k_procs k r = Some p0" "lp_children p0 = lp_children p" "leave_children p k = Some k'"
  shows "k_inv k'"
proof (cases "k_children k (lp_children p) = []")
  case False
  obtain i where i: "bt_get 1 (k_mgr k) = Some i"
    using assms False by (auto simp: leave_children_def mgr_get_live Let_def bind_eq_Some_conv)
  hence "\<exists>q. k_procs k i = Some q" using k_inv_core[OF assms(1)] unfolding k_core_def by blast
  then obtain q where q: "k_procs k i = Some q" by blast
  have live: "\<forall>c\<in>set (k_children k (lp_children p)). k_procs k c \<noteq> None"
    using k_core_lp[of k r p0] assms by (simp add: lp_inv_def)
  obtain ps where ps: "foldM (reparent i) (k_children k (lp_children p)) k = Some (k\<lparr>k_parents := ps\<rparr>)"
    using reparent_run[OF assms(1) _ live, of i] q by auto
  have "lp_children q \<noteq> lp_children p"
    using assms(4) False i q ps assms(1) by (simp add: leave_children_def mgr_get_live Let_def split: if_splits)
  thus ?thesis using leave_children_run[OF assms(1-3)] i q assms(4) by auto
qed (use assms in \<open>simp add: leave_children_def\<close>)

lemma set_field_inv: "k_inv k \<Longrightarrow> k_inv (set_status s r k)" "k_inv k \<Longrightarrow> k_inv (set_exit_code c r k)"
  "k_inv k \<Longrightarrow> k_inv (set_pgid g r k)"
  unfolding set_status_def set_exit_code_def set_pgid_def
  by (rule upd_lproc_inv, assumption, simp add: keeps_links_def lp_cells_def)+

lemma do_exit_inv:
  assumes "k_inv k" "do_exit r k = Some k'"
  shows "k_inv k'"
proof -
  obtain p k2 k3 t where p: "k_procs k r = Some p"
    and k2: "(case k_parents k (lp_parent p) of None \<Rightarrow> Some k
           | Some parent \<Rightarrow> do { k \<leftarrow> lproc_send_signal (get_signum SIGCHLD) parent k; Some (set_status STOPPED r k) }) = Some k2"
    and k3: "leave_children p k2 = Some k3" and k': "k' = k3\<lparr>k_fdtables := (k_fdtables k3)(lp_fdtable p := t)\<rparr>"
    using assms(2) by (auto simp: do_exit_def bind_eq_Some_conv)
  have "k_inv k2 \<and> (\<exists>p0. k_procs k2 r = Some p0 \<and> lp_children p0 = lp_children p)"
  proof (cases "k_parents k (lp_parent p)")
    case None
    thus ?thesis using k2 p assms(1) by simp
  next
    case (Some x)
    then obtain k1 where k1: "lproc_send_signal (get_signum SIGCHLD) x k = Some k1" "k2 = set_status STOPPED r k1"
      using k2 by (auto simp: bind_eq_Some_conv)
    moreover have "k_inv k1" using send_signal_inv[OF assms(1) k1(1)] .
    moreover have "\<exists>p0. k_procs k1 r = Some p0 \<and> lp_children p0 = lp_children p"
      using k1(1) p by (auto simp: lproc_send_signal_def upd_lproc_def bind_eq_Some_conv)
    ultimately show ?thesis using set_field_inv(1) by (auto simp: set_status_def upd_lproc_def)
  qed
  thus ?thesis using leave_children_inv k3 k' by auto
qed

lemma fewer_children_inv:
  assumes "k_inv k" "\<And>c. set (f c) \<subseteq> set (k_children k c)"
  shows "k_inv (k\<lparr>k_children := f\<rparr>)"
proof -
  have "lp_inv (k\<lparr>k_children := f\<rparr>) r p" if "k_procs k r = Some p" for r p
    using k_core_lp[of k r p] assms that by (simp add: lp_inv_def) blast
  thus ?thesis using assms(1) by (simp add: k_inv_def k_core_def pids_def)
qed

lemma remove_child_inv:
  assumes "k_inv k" "remove_child p c k = Some k'"
  shows "k_inv k'"
proof -
  have "k' = k\<lparr>k_children := (k_children k)(lp_children p := remove1 c (k_children k (lp_children p)))\<rparr>"
    using assms(2) by (auto simp: remove_child_def split: if_splits)
  thus ?thesis using fewer_children_inv[OF assms(1)] set_remove1_subset by (metis fun_upd_apply order_refl)
qed

lemma k_inv_cells:
  assumes "k_inv k"
  shows "k_inv (k\<lparr>k_mems := a\<rparr>)" "k_inv (k\<lparr>k_mem := b\<rparr>)" "k_inv (k\<lparr>k_umem := c\<rparr>)" "k_inv (k\<lparr>k_satp := d\<rparr>)"
    "k_inv (k\<lparr>k_rw_trap := e\<rparr>)" "k_inv (k\<lparr>k_spawned := f\<rparr>)" "k_inv (k\<lparr>k_timer_ids := g\<rparr>)" "k_inv (k\<lparr>k_delayed := h\<rparr>)"
    "k_inv (k\<lparr>k_now := i\<rparr>)" "k_inv (k\<lparr>k_now_ms := j\<rparr>)" "k_inv (k\<lparr>k_shm := s\<rparr>)" "k_inv (k\<lparr>k_shm_mgr := t\<rparr>)"
  using assms by (simp_all add: k_inv_def k_core_def lp_inv_def pids_def)

lemma do_exec_inv:
  assumes "k_inv k" "do_exec E f args envp r k = Some k'"
  shows "k_inv k'"
proof -
  have "keeps_links (\<lambda>p. p\<lparr>lp_context := g (lp_context p), lp_status := st\<rparr>)" for g st
    by (simp add: keeps_links_def lp_cells_def)
  moreover have "(case l of Inl _ \<Rightarrow> None | Inr x \<Rightarrow> Some x) = Some v \<longleftrightarrow> l = Inr v" for l :: "SysError + 'x" and v
    by (cases l) auto
  ultimately show ?thesis using assms
    by (auto simp: do_exec_def bind_eq_Some_conv Let_def k_inv_cells intro!: upd_lproc_inv)
qed

lemma clear_signal_inv: "k_inv k \<Longrightarrow> k_inv (lproc_clear_signal f p k)"
  by (simp add: lproc_clear_signal_def)

lemma lproc_newE:
  assumes "lproc_new E k = Some (r, k')"
  obtains pid k0 p where "alloc_pid k = Some (pid, k0)" "r = k_next k0 + 7" "lp_id p = pid" "lp_event_bus p = bus_new"
    "lp_cells p = map ((+) (k_next k0)) [0..<7]" "k_procs k' = (k_procs k0)(r := Some p)" "k_mgr k' = bt_insert pid r (k_mgr k0)"
    "k_pids k' = k_pids k0" "k_next k' = k_next k0 + 8" "k_parents k' = (k_parents k0)(lp_parent p := None)"
    "k_children k' = (k_children k0)(lp_children p := [])"
    "k_groups k' = (k_groups k0)(lp_group p := \<lparr>members = [(pid, r)], leader = Some r\<rparr>)"
proof -
  obtain pid k0 where a: "alloc_pid k = Some (pid, k0)" using assms by (auto simp: lproc_new_def bind_eq_Some_conv)
  define p where "p = the (k_procs k' r)"
  have k': "r = k_next k0 + 7 \<and> lp_id p = pid \<and> lp_event_bus p = bus_new \<and>
    lp_cells p = map ((+) (k_next k0)) [0..<7] \<and> k_procs k' = (k_procs k0)(r := Some p) \<and> k_mgr k' = bt_insert pid r (k_mgr k0) \<and>
    k_pids k' = k_pids k0 \<and> k_next k' = k_next k0 + 8 \<and> k_parents k' = (k_parents k0)(lp_parent p := None) \<and>
    k_children k' = (k_children k0)(lp_children p := []) \<and>
    k_groups k' = (k_groups k0)(lp_group p := \<lparr>members = [(pid, r)], leader = Some r\<rparr>)"
    using assms unfolding p_def
    by (auto simp: lproc_new_def bind_eq_Some_conv a new_shared_def tg_push_leader_def tg_new_empty_def mgr_put_def
      lp_cells_def upt_conv_Cons)
  thus thesis using that[OF a] by blast
qed

lemma lproc_new_inv:
  assumes "k_inv k" "lproc_new E k = Some (r, k')"
  shows "k_inv k'"
proof (rule lproc_newE[OF assms(2)], goal_cases)
  case (1 pid k0 p)
  note al = alloc_pid_inv[OF assms(1) 1(1)]
  define s where "s = k0\<lparr>k_next := k_next k0 + 8, k_parents := k_parents k', k_children := k_children k',
    k_groups := (k_groups k0)(lp_group p := tg_new_empty)\<rparr>"
  have cells: "lp_parent p = k_next k0" "lp_children p = k_next k0 + 1" "lp_group p = k_next k0 + 2"
    using 1(5) by (simp_all add: lp_cells_def upt_conv_Cons)
  have e: "extends k0 s" using 1 cells by (simp add: extends_def s_def)
  have sc: "k_core s" using extends_core[OF e al(1)] .
  have sp: "k_procs s = k_procs k0" "k_mgr s = k_mgr k0" "k_pids s = k_pids k0" "pids s = pids k" "k_next s = k_next k0 + 8"
    using extends_pids[OF e] al(3) by (simp_all add: s_def)
  have new: "lp_inv k' r p"
    using 1 cells bus_inv_new by (auto simp: lp_inv_def bt_get_def)
  show "k_inv k'"
  proof (rule add_process[of s p r])
    show "leader \<lparr>members = [(pid, r)], leader = Some r\<rparr> = leader (k_groups s (lp_group p))"
      if "k_procs s x = Some y" "lp_group y = lp_group p" for x y
    proof -
      have "lp_group y < k_next k0" using k_core_lp[OF al(1), of x y] that sp by (simp add: lp_inv_def lp_cells_def)
      thus ?thesis using that cells by simp
    qed
  qed (use 1 sc sp al k_core_fresh[OF al(1), of r] new in
      \<open>auto simp: s_def tg_new_empty_def bt_get_def\<close>)
qed

lemma do_clone_inv: "k_inv k \<Longrightarrow> do_clone E flags us r k = Some (n, k') \<Longrightarrow> k_inv k'"
proof (rule do_cloneE, assumption, goal_cases)
  case (1 p pid k0 a b g k1 mc k2 sp k3 fc k4 tc k5 sc k6 q gr k7)
  have ready: "clone_ready flags r p k q k6" unfolding 1(12) by (rule clone_ready_run[OF 1(1) 1(3-10)])
  have e: "lp_group q = g" "lp_id q = pid" by (simp_all add: 1(12))
  from clone_enter(1)[OF 1(1) 1(3) ready 1(11) 1(13)[folded e] 1(14)[folded e] 1(15)] show ?case .
qed

section \<open>Reachable states\<close>

inductive k_reach :: "('f, 'fa) kenv \<Rightarrow> ('f, 'fa, 'w) kstate \<Rightarrow> bool" for E where
  boot: "k_procs k = Map.empty \<Longrightarrow> k_mgr k = [] \<Longrightarrow> k_pids k = pool_new 1 \<Longrightarrow> k_reach E k"
| new: "k_reach E k \<Longrightarrow> lproc_new E k = Some (r, k') \<Longrightarrow> k_reach E k'"
| clone: "k_reach E k \<Longrightarrow> do_clone E flags us r k = Some (n, k') \<Longrightarrow> k_reach E k'"
| exec: "k_reach E k \<Longrightarrow> do_exec E f args envp r k = Some k' \<Longrightarrow> k_reach E k'"
| exit: "k_reach E k \<Longrightarrow> do_exit r k = Some k' \<Longrightarrow> k_reach E k'"
| signal: "k_reach E k \<Longrightarrow> lproc_send_signal signum r k = Some k' \<Longrightarrow> k_reach E k'"
| clear: "k_reach E k \<Longrightarrow> k_reach E (lproc_clear_signal sg p k)"
| status: "k_reach E k \<Longrightarrow> k_reach E (set_status st r k)"
| exit_code: "k_reach E k \<Longrightarrow> k_reach E (set_exit_code c r k)"
| pgid: "k_reach E k \<Longrightarrow> k_reach E (set_pgid g r k)"
| wait: "k_reach E k \<Longrightarrow> remove_child p c k = Some k' \<Longrightarrow> k_reach E k'"

inductive_cases k_reachE: "k_reach E k"

lemma k_reach_inv: "k_reach E k \<Longrightarrow> k_inv k"
proof (induction rule: k_reach.induct)
  case (boot k)
  thus ?case by (simp add: k_inv_def k_core_def pids_def pool_inv_new bt_wf_def bt_get_def)
qed (auto intro: lproc_new_inv do_clone_inv do_exec_inv do_exit_inv send_signal_inv clear_signal_inv set_field_inv
    remove_child_inv)

text \<open>The process table (C5): in every reachable state the table finds each process under its pid, no two processes
  have the same pid, a pid in use is not handed out again, and a process is in the member table of its own
  thread group.\<close>

theorem process_table_invariant:
  assumes "k_reach E k" "k_procs k r = Some p"
  shows "mgr_get (lp_id p) k = (Some r, k) \<and> bt_get (lp_id p) (members (k_groups k (lp_group p))) = Some r \<and>
    (\<forall>r' p'. k_procs k r' = Some p' \<and> lp_id p' = lp_id p \<longrightarrow> r' = r) \<and>
    (\<forall>pid k0. alloc_pid k = Some (pid, k0) \<longrightarrow> pid \<noteq> lp_id p)"
proof -
  have i: "k_inv k" using k_reach_inv[OF assms(1)] .
  have m: "bt_get (lp_id p) (k_mgr k) = Some r" using i assms(2) by (auto simp: k_inv_def k_core_def)
  have "bt_get (lp_id p) (members (k_groups k (lp_group p))) = Some r"
    using k_core_lp[OF k_inv_core[OF i] assms(2)] by (simp add: lp_inv_def)
  moreover have "lp_id p \<in> pids k" using assms(2) by (auto simp: pids_def)
  ultimately show ?thesis
    using mgr_get_live[OF k_inv_core[OF i]] m k_core_unique[OF k_inv_core[OF i] _ assms(2)] alloc_pid_inv(2)[OF i] by fastforce
qed

text \<open>With a free frame and a boot page table inside the mapped memory, a process is created.\<close>

lemma us_new_runs:
  assumes ok: "platform_ok P" "bit_alloc_ok B free" "frame_inv P free m" "free (falloc m) \<noteq> {}"
    and boot: "assert_4k (boot_pagetable_paddr P) = Some b" "kernel_phys_to_virt P b \<noteq> None"
  shows "\<exists>us m'. us_new P B m = Some (us, m')"
proof -
  obtain i m1 where a: "alloc_frame P B m = Some (Some (frame_addr P i), m1)" and i: "i \<in> free (falloc m)"
    using alloc_frame_cases[OF ok(1-3)] ok(4) by auto
  have mi: "managed P i" using ok(3) i by (auto simp: frame_inv_def)
  show ?thesis using boot virt_frame_addr[OF ok(1) mi]
    by (auto simp: us_new_def new_with_kernel_seg_def alloc_table_def a fill_frame[OF ok(1) mi] page_copy_def)
qed

lemma lproc_new_runs:
  fixes E :: "('f, 'fa) kenv" and us :: "'f UserSpace"
  assumes "us_new (e_platform E) (e_alloc E) (k_mem k) = Some (us, m)" "unat (next_id (k_pids k)) + 1 < 2 ^ 64"
  shows "\<exists>r k'. lproc_new E k = Some (r, k')"
proof -
  obtain pid k0 where a: "alloc_pid k = Some (pid, k0)" "k_mem k0 = k_mem k"
    using pool_get_total[OF assms(2)] by (auto simp: alloc_pid_def)
  obtain t st where "new_with_std (e_std E) (k_fds k0) = Some (t, st)"
    by (auto simp: new_with_std_def add_std_def fdt_new_empty_def fd_new_def fd_alloc_cell_def bt_get_def Let_def)
  thus ?thesis
    using a assms(1)
    by (simp add: lproc_new_def new_shared_def tg_push_leader_def tg_new_empty_def mgr_put_def Let_def)
qed

definition boot_k :: "(nat, usize list, nat) kstate" where
  "boot_k = demo_k\<lparr>k_procs := Map.empty, k_mgr := [], k_pids := pool_new 1, k_mem := small_mem\<rparr>"

lemma boot_board: "assert_4k (boot_pagetable_paddr board) = Some 0x80300000" "kernel_phys_to_virt board 0x80300000 \<noteq> None"
  by (simp_all add: assert_4k_def board_def kernel_phys_to_virt_def uadd_def usub_def K_SEG_BEG_def K_SEG_PHY_MEM_BEG_def PAGE_MASK_def)

theorem process_table_invariant_witness:
  "\<forall>E. \<exists>r k p. lproc_new (E\<lparr>e_platform := board, e_alloc := list_alloc\<rparr>) boot_k = Some (r, k) \<and> k_procs k r = Some p \<and>
     mgr_get (lp_id p) k = (Some r, k)"
proof
  fix E :: "(nat, usize list) kenv"
  let ?E = "E\<lparr>e_platform := board, e_alloc := list_alloc\<rparr>"
  obtain us :: "nat UserSpace" and m where "us_new (e_platform ?E) (e_alloc ?E) (k_mem boot_k) = Some (us, m)"
    using us_new_runs[OF board_ok list_alloc_ok small_mem_inv _ boot_board] by (auto simp: boot_k_def small_mem_def)
  then obtain r k where n: "lproc_new ?E boot_k = Some (r, k)"
    using lproc_new_runs[of ?E boot_k us m] by (auto simp: boot_k_def pool_new_def)
  have b: "k_reach ?E boot_k" by (rule k_reach.boot) (simp_all add: boot_k_def)
  obtain p where p: "k_procs k r = Some p" by (rule lproc_newE[OF n]) simp
  show "\<exists>r k p. lproc_new ?E boot_k = Some (r, k) \<and> k_procs k r = Some p \<and> mgr_get (lp_id p) k = (Some r, k)"
    using n p process_table_invariant[OF k_reach.new[OF b n] p] by blast
qed

end
