(* ===== verification/Fat_Table.thy ===== *)
theory Fat_Table
  imports Address BTree_Map Bytes
begin

text \<open>
  The FAT32 volume, from \<^verbatim>\<open>fs/nfat32/fs.rs\<close>, \<^verbatim>\<open>fs/nfat32/tools.rs\<close> and \<^verbatim>\<open>fs/nfat32/mod.rs\<close>: reading the boot
  record, the file allocation table, the arithmetic of clusters and sectors, the block cache and the cluster
  chain of a file.

  The block device is a parameter \<open>D\<close>: what reading a block gives and what writing one does. The allocation
  table is a list of words. A reference to a cached block is the number of the block: the code never removes a
  block from the cache. The use counter of a cached block is not kept, nothing reads it. \<open>sys_bind\<close> sequences
  operations that may panic (\<open>None\<close>), fail (\<open>Inl\<close>) and change the volume.
\<close>

text \<open>The macro \<open>parse!\<close>; \<open>n\<close> is the size of the result in bytes.\<close>

definition parse_le :: "nat \<Rightarrow> u8 list \<Rightarrow> nat \<Rightarrow> 'a::len word option" where
  "parse_le n buf i = do { rassert (i + n \<le> length buf); Some (from_le (take n (drop i buf))) }"

abbreviation BLOCK_SIZE :: nat where "BLOCK_SIZE \<equiv> 512"
abbreviation LOG2_BLOCK_SIZE :: nat where "LOG2_BLOCK_SIZE \<equiv> 9"

section \<open>The block device and its cache\<close>

datatype DevError = AlreadyExists | Again | BadState | InvalidParam | DevIO | NoMemory | ResourceBusy | Unsupported

fun cvt_err :: "DevError \<Rightarrow> SysError" where
  "cvt_err AlreadyExists = EEXIST"
| "cvt_err Again = EAGAIN"
| "cvt_err BadState = EIO"
| "cvt_err InvalidParam = EINVAL"
| "cvt_err DevIO = EIO"
| "cvt_err NoMemory = ENOMEM"
| "cvt_err ResourceBusy = EBUSY"
| "cvt_err Unsupported = EINVAL"

record 'd blk_ops =
  read_block :: "'d \<Rightarrow> u64 \<Rightarrow> DevError + u8 list"
  write_block :: "u64 \<Rightarrow> u8 list \<Rightarrow> 'd \<Rightarrow> (DevError + unit) \<times> 'd"

record BlockCacheEntry =
  bc_data :: "u8 list"
  bc_dirty :: bool

record 'd Fat32FS =
  blk_dev :: 'd
  blk_cache :: "(u64, BlockCacheEntry) btree"
  fat_begins :: "u64 list"
  fat :: "u32 list"
  device_id :: usize
  cluster_size_byte :: u32
  cluster_size_sct :: u32
  log_cls_size_sct :: u8
  data_begin_sct :: u64
  root_id_cls :: u32

type_synonym ('d, 'a) fat_result = "('a SysResult \<times> 'd Fat32FS) option"

text \<open>\<open>CachedBlkDev\<close>\<close>

definition read_noc :: "'d blk_ops \<Rightarrow> u64 \<Rightarrow> 'd Fat32FS \<Rightarrow> ('d, u8 list) fat_result" where
  "read_noc D bid fs = (case read_block D (blk_dev fs) bid of
     Inl e \<Rightarrow> Some (Inl (cvt_err e), fs)
   | Inr d \<Rightarrow> Some (Inr d, fs))"

definition write_noc :: "'d blk_ops \<Rightarrow> u64 \<Rightarrow> u8 list \<Rightarrow> 'd Fat32FS \<Rightarrow> ('d, unit) fat_result" where
  "write_noc D bid buf fs = (case write_block D bid buf (blk_dev fs) of
     (Inl e, dev) \<Rightarrow> Some (Inl (cvt_err e), fs\<lparr>blk_dev := dev\<rparr>)
   | (Inr _, dev) \<Rightarrow> Some (Inr (), fs\<lparr>blk_dev := dev\<rparr>))"

definition cache_get :: "'d blk_ops \<Rightarrow> u64 \<Rightarrow> 'd Fat32FS \<Rightarrow> ('d, u64) fat_result" where
  "cache_get D bid fs = (case bt_get bid (blk_cache fs) of
     Some _ \<Rightarrow> Some (Inr bid, fs)
   | None \<Rightarrow> sys_bind (read_noc D bid fs) (\<lambda>d fs.
       Some (Inr bid, fs\<lparr>blk_cache := bt_insert bid \<lparr>bc_data = d, bc_dirty = False\<rparr> (blk_cache fs)\<rparr>)))"

text \<open>The bytes behind a reference, and writing through it with and without marking the block.\<close>

definition as_slice :: "u64 \<Rightarrow> 'd Fat32FS \<Rightarrow> u8 list option" where
  "as_slice bid fs = map_option bc_data (bt_get bid (blk_cache fs))"

definition just_mut :: "u64 \<Rightarrow> (u8 list \<Rightarrow> u8 list) \<Rightarrow> 'd Fat32FS \<Rightarrow> 'd Fat32FS option" where
  "just_mut bid f fs = do {
     e \<leftarrow> bt_get bid (blk_cache fs);
     Some (fs\<lparr>blk_cache := bt_insert bid (e\<lparr>bc_data := f (bc_data e)\<rparr>) (blk_cache fs)\<rparr>) }"

definition as_mut_slice :: "u64 \<Rightarrow> (u8 list \<Rightarrow> u8 list) \<Rightarrow> 'd Fat32FS \<Rightarrow> 'd Fat32FS option" where
  "as_mut_slice bid f fs = do {
     e \<leftarrow> bt_get bid (blk_cache fs);
     Some (fs\<lparr>blk_cache := bt_insert bid \<lparr>bc_data = f (bc_data e), bc_dirty = True\<rparr> (blk_cache fs)\<rparr>) }"

definition cache_read :: "'d blk_ops \<Rightarrow> u64 \<Rightarrow> nat \<Rightarrow> 'd Fat32FS \<Rightarrow> ('d, u8 list) fat_result" where
  "cache_read D bid len fs = sys_bind (cache_get D bid fs) (\<lambda>e fs. do {
     d \<leftarrow> as_slice e fs;
     rassert (len = length d);
     Some (Inr d, fs) })"

definition cache_write :: "'d blk_ops \<Rightarrow> u64 \<Rightarrow> u8 list \<Rightarrow> 'd Fat32FS \<Rightarrow> ('d, unit) fat_result" where
  "cache_write D bid buf fs = sys_bind (cache_get D bid fs) (\<lambda>e fs. do {
     d \<leftarrow> as_slice e fs;
     fs \<leftarrow> as_mut_slice e (\<lambda>_. buf) fs;
     rassert (length buf = length d);
     Some (Inr (), fs) })"

text \<open>\<open>Fat32FS::read_sector\<close> into a buffer of \<open>len\<close> bytes and \<open>Fat32FS::write_sector\<close>; both go past the cache.\<close>

definition read_sector :: "'d blk_ops \<Rightarrow> u64 \<Rightarrow> nat \<Rightarrow> 'd Fat32FS \<Rightarrow> ('d, u8 list) fat_result" where
  "read_sector D sid len fs =
     (if len = BLOCK_SIZE then read_noc D sid fs
      else sys_bind (read_noc D sid fs) (\<lambda>blk_buf fs. do {
        rassert (len \<le> BLOCK_SIZE);
        Some (Inr (take len blk_buf), fs) }))"

definition write_sector :: "'d blk_ops \<Rightarrow> u64 \<Rightarrow> u8 list \<Rightarrow> 'd Fat32FS \<Rightarrow> ('d, unit) fat_result" where
  "write_sector D sid buf fs =
     (if length buf = BLOCK_SIZE then write_noc D sid buf fs
      else sys_bind (read_noc D sid fs) (\<lambda>blk_buf fs. do {
        rassert (length buf \<le> BLOCK_SIZE);
        write_noc D sid (buf @ drop (length buf) blk_buf) fs }))"

section \<open>The allocation table\<close>

definition get_fat :: "u32 list \<Rightarrow> u32 \<Rightarrow> u32 option" where
  "get_fat t cid = (if unat cid < length t then Some (t ! unat cid) else None)"

definition put_fat :: "u32 \<Rightarrow> u32 \<Rightarrow> u32 list \<Rightarrow> u32 list option" where
  "put_fat cid v t = (if unat cid < length t then Some (t[unat cid := v]) else None)"

definition free_cluster_count :: "u32 list \<Rightarrow> nat" where
  "free_cluster_count t = length (filter (\<lambda>v. v = 0) t)"

definition find_first_free :: "u32 list \<Rightarrow> u32 option" where
  "find_first_free t = map_option (\<lambda>(i, _). word_of_nat i) (find (\<lambda>(i, v). v = 0) (enumerate 0 t))"

definition fat_next :: "u32 list \<Rightarrow> u32 \<Rightarrow> u32 option option" where
  "fat_next t cid = do {
     next_cid \<leftarrow> get_fat t cid;
     Some (if next_cid \<ge> 0x0FFFFFF8 then None else Some next_cid) }"

primrec fat_find :: "u32 list \<Rightarrow> u32 \<Rightarrow> nat \<Rightarrow> u32 option option" where
  "fat_find t cur 0 = Some (Some cur)"
| "fat_find t cur (Suc n) = do {
     nx \<leftarrow> fat_next t cur;
     case nx of None \<Rightarrow> Some None | Some c \<Rightarrow> fat_find t c n }"

primrec range_loop :: "u32 list \<Rightarrow> u32 \<Rightarrow> nat \<Rightarrow> u32 list option" where
  "range_loop t cur 0 = Some []"
| "range_loop t cur (Suc n) = do {
     nx \<leftarrow> fat_next t cur;
     case nx of None \<Rightarrow> Some [cur] | Some c \<Rightarrow> do { r \<leftarrow> range_loop t c n; Some (cur # r) } }"

definition find_range :: "u32 list \<Rightarrow> u32 \<Rightarrow> nat \<Rightarrow> nat \<Rightarrow> u32 list option option" where
  "find_range t start skip_n n = do {
     s \<leftarrow> fat_find t start skip_n;
     case s of None \<Rightarrow> Some None | Some c \<Rightarrow> do { r \<leftarrow> range_loop t c n; Some (Some r) } }"

definition fat_alloc :: "u32 list \<Rightarrow> (u32 \<times> u32 list) option" where
  "fat_alloc t = do {
     cid \<leftarrow> find_first_free t;
     t \<leftarrow> put_fat cid 0x0FFFFFFF t;
     Some (cid, t) }"

definition fat_free :: "u32 \<Rightarrow> u32 list \<Rightarrow> u32 list option" where
  "fat_free cid t = put_fat cid 0 t"

definition set_next :: "u32 \<Rightarrow> u32 \<Rightarrow> u32 list \<Rightarrow> u32 list option" where
  "set_next cid next_cid t = put_fat cid next_cid t"

definition alloc_next :: "u32 \<Rightarrow> u32 list \<Rightarrow> (u32 \<times> u32 list) option" where
  "alloc_next cid t = do {
     (next_cid, t) \<leftarrow> fat_alloc t;
     t \<leftarrow> set_next cid next_cid t;
     Some (next_cid, t) }"

text \<open>\<open>FATTableManager::chain\<close> follows the links for as long as there are any.\<close>

partial_function (option) chain_loop :: "u32 list \<Rightarrow> u32 \<Rightarrow> u32 list option" where
  "chain_loop t cur = do {
     nx \<leftarrow> fat_next t cur;
     case nx of
       None \<Rightarrow> Some [cur]
     | Some c \<Rightarrow> do { r \<leftarrow> chain_loop t c; Some (cur # r) } }"

declare chain_loop.simps [code]

definition fat_chain :: "u32 list \<Rightarrow> u32 \<Rightarrow> u32 list option" where
  "fat_chain t start = chain_loop t start"

section \<open>Clusters and sectors\<close>

definition first_sector :: "'d Fat32FS \<Rightarrow> u32 \<Rightarrow> u64 option" where
  "first_sector fs cid = do {
     i \<leftarrow> usub (ucast cid) 2;
     off \<leftarrow> umul i (ucast (cluster_size_sct fs));
     uadd (data_begin_sct fs) off }"

definition find_cluster :: "'d Fat32FS \<Rightarrow> u64 \<Rightarrow> u32 option" where
  "find_cluster fs sid = do {
     relative_sid \<leftarrow> usub sid (data_begin_sct fs);
     c \<leftarrow> uadd (drop_bit (unat (log_cls_size_sct fs)) relative_sid) 2;
     Some (ucast c) }"

definition next_sector :: "'d Fat32FS \<Rightarrow> u64 \<Rightarrow> u64 option option" where
  "next_sector fs sid = do {
     let lcss = unat (log_cls_size_sct fs);
     relative_sid \<leftarrow> usub sid (data_begin_sct fs);
     c \<leftarrow> uadd (drop_bit lcss relative_sid) 2;
     let cluster_id = ucast c;
     let offset = relative_sid AND NOT (push_bit lcss (NOT 0));
     if offset = push_bit lcss 1 - 1 then do {
       ncid \<leftarrow> fat_next (fat fs) cluster_id;
       case ncid of None \<Rightarrow> Some None | Some c \<Rightarrow> do { s \<leftarrow> first_sector fs c; Some (Some s) } }
     else do { s \<leftarrow> uadd sid 1; Some (Some s) } }"

section \<open>Mounting\<close>

definition int_log2 :: "u8 \<Rightarrow> u8 option" where
  "int_log2 x = map_of [(0x01, 0), (0x02, 1), (0x04, 2), (0x08, 3), (0x10, 4), (0x20, 5), (0x40, 6), (0x80, 7)] x"

text \<open>The loop that reads the first allocation table, one sector at a time.\<close>

primrec read_fat :: "'d blk_ops \<Rightarrow> 'd \<Rightarrow> u64 \<Rightarrow> nat \<Rightarrow> (u32 list SysResult) option" where
  "read_fat D dev first 0 = Some (Inr [])"
| "read_fat D dev first (Suc i) = do {
     l \<leftarrow> read_fat D dev first i;
     (case l of Inl e \<Rightarrow> Some (Inl e)
      | Inr t \<Rightarrow> do {
          blk_offset \<leftarrow> uadd first (word_of_nat i);
          (case read_block D dev blk_offset of
             Inl e \<Rightarrow> Some (Inl (cvt_err e))
           | Inr s \<Rightarrow> Some (Inr (t @ map (\<lambda>j. from_le (take 4 (drop (4 * j) s))) [0..<BLOCK_SIZE div 4]))) }) }"

text \<open>\<open>junk\<close> is what the part of the table that is not read holds: the code allocates one word for every byte.\<close>

definition fat32_new :: "'d blk_ops \<Rightarrow> (nat \<Rightarrow> u32) \<Rightarrow> 'd \<Rightarrow> ('d Fat32FS SysResult) option" where
  "fat32_new D junk dev = (case read_block D dev 0 of
     Inl e \<Rightarrow> Some (Inl (cvt_err e))
   | Inr boot_record \<Rightarrow> do {
       sector_size_byte \<leftarrow> (parse_le 2 boot_record 0x0B :: u16 option);
       cluster_size_sct \<leftarrow> (parse_le 1 boot_record 0x0D :: u8 option);
       cluster_size_byte \<leftarrow> umul (ucast cluster_size_sct) sector_size_byte;
       rassert (unat sector_size_byte = BLOCK_SIZE);
       rassert (unat cluster_size_byte \<le> unat PAGE_SIZE);
       log_cls_size_sct \<leftarrow> int_log2 cluster_size_sct;
       reserved_size_sct \<leftarrow> (parse_le 2 boot_record 0x0E :: u16 option);
       fat_cnt \<leftarrow> (parse_le 1 boot_record 0x10 :: u8 option);
       fat_size_sct \<leftarrow> (parse_le 4 boot_record 0x24 :: u32 option);
       root_id_cls \<leftarrow> (parse_le 4 boot_record 0x2C :: u32 option);
       rassert (0x43 + 4 \<le> length boot_record);
       let first_fat_begin_sct = (ucast reserved_size_sct :: u64);
       fat_begins \<leftarrow> those (map (\<lambda>i. do {
           offset \<leftarrow> umul (word_of_nat i) (ucast fat_size_sct);
           uadd first_fat_begin_sct offset }) [0..<unat fat_cnt]);
       main_fat \<leftarrow> read_fat D dev first_fat_begin_sct (unat fat_size_sct);
       (case main_fat of
          Inl e \<Rightarrow> Some (Inl e)
        | Inr t \<Rightarrow> do {
            fats \<leftarrow> umul (ucast fat_cnt) (ucast fat_size_sct);
            data_begin_sct \<leftarrow> uadd first_fat_begin_sct fats;
            Some (Inr \<lparr>blk_dev = dev, blk_cache = [], fat_begins = fat_begins,
              fat = t @ map junk [BLOCK_SIZE div 4 * unat fat_size_sct..<BLOCK_SIZE * unat fat_size_sct],
              device_id = 114514, cluster_size_byte = ucast cluster_size_byte, cluster_size_sct = ucast cluster_size_sct,
              log_cls_size_sct = log_cls_size_sct, data_begin_sct = data_begin_sct, root_id_cls = root_id_cls\<rparr>) }) })"

section \<open>The cluster chain of a file\<close>

definition chain_new :: "'d Fat32FS \<Rightarrow> u32 \<Rightarrow> u32 list option" where
  "chain_new fs begin_cluster = fat_chain (fat fs) begin_cluster"

definition cc_first :: "u32 list \<Rightarrow> u32 option" where
  "cc_first ch = (case ch of [] \<Rightarrow> None | c # _ \<Rightarrow> Some c)"

definition cc_last :: "u32 list \<Rightarrow> u32 option" where
  "cc_last ch = last_of ch"

primrec alloc_push :: "nat \<Rightarrow> u32 list \<times> u32 list \<Rightarrow> (u32 list \<times> u32 list) option" where
  "alloc_push 0 s = Some s"
| "alloc_push (Suc n) s = do {
     (cid, t) \<leftarrow> fat_alloc (snd s);
     alloc_push n (fst s @ [cid], t) }"

primrec free_pop :: "nat \<Rightarrow> u32 list \<times> u32 list \<Rightarrow> (u32 list \<times> u32 list) option" where
  "free_pop 0 s = Some s"
| "free_pop (Suc n) s = do {
     c \<leftarrow> last_of (fst s);
     t \<leftarrow> fat_free c (snd s);
     free_pop n (butlast (fst s), t) }"

definition free_all :: "u32 list \<Rightarrow> u32 list \<Rightarrow> u32 list option" where
  "free_all ch t = foldM fat_free ch t"

definition offset_sct :: "'d Fat32FS \<Rightarrow> u32 list \<Rightarrow> usize \<Rightarrow> (u64 \<times> u16) option" where
  "offset_sct fs ch byte_offset = do {
     let lcsb = unat (log_cls_size_sct fs) + LOG2_BLOCK_SIZE;
     let cluster_idx = unat (drop_bit lcsb byte_offset);
     rassert (cluster_idx < length ch);
     first_sector_id \<leftarrow> first_sector fs (ch ! cluster_idx);
     let cluster_offset = byte_offset AND NOT (push_bit lcsb (NOT 0));
     let sector_idx = drop_bit LOG2_BLOCK_SIZE cluster_offset;
     sector_id \<leftarrow> uadd first_sector_id sector_idx;
     let sector_offset = cluster_offset AND NOT (push_bit LOG2_BLOCK_SIZE (NOT 0));
     Some (sector_id, ucast sector_offset) }"

end
