(* ===== verification/Fat_Dir.thy ===== *)
theory Fat_Dir
  imports Fat_Table Vfs_Types
begin

text \<open>
  FAT32 directories, from \<^verbatim>\<open>fs/nfat32/dir.rs\<close>: the 32-byte entries, the window over the entries of a directory
  and the iterator over groups (the long-name entries of a file followed by its 8.3 entry).

  A view of an entry is the number of its block and a byte offset in it; the entry itself is in the block cache.
  Text is a list of Unicode code points. The loops that walk a directory end only if its cluster chain does, so
  they are partial functions.
\<close>

section \<open>Text\<close>

type_synonym rstr = "nat list"

definition utf8_len :: "nat \<Rightarrow> nat" where
  "utf8_len c = (if c < 0x80 then 1 else if c < 0x800 then 2 else if c < 0x10000 then 3 else 4)"

definition str_len :: "rstr \<Rightarrow> nat" where
  "str_len s = sum_list (map utf8_len s)"

text \<open>\<open>&s[..n]\<close> and \<open>&s[n..]\<close> with \<open>n\<close> in bytes; cutting a character in two panics.\<close>

fun str_split :: "nat \<Rightarrow> rstr \<Rightarrow> (rstr \<times> rstr) option" where
  "str_split 0 s = Some ([], s)"
| "str_split (Suc n) [] = None"
| "str_split (Suc n) (c # s) =
     (if utf8_len c \<le> Suc n then do { (l, r) \<leftarrow> str_split (Suc n - utf8_len c) s; Some (c # l, r) } else None)"

definition utf8_cont :: "u8 \<Rightarrow> bool" where
  "utf8_cont b \<longleftrightarrow> b AND 0xC0 = 0x80"

text \<open>\<open>String::from_utf8\<close>, rejecting overlong forms, surrogates and values above \<open>0x10FFFF\<close>; \<open>utf8_char\<close>
  reads the character that starts with the byte \<open>a\<close> and tells how many more bytes it takes.\<close>

definition utf8_char :: "u8 \<Rightarrow> u8 list \<Rightarrow> (nat \<times> nat) option" where
  "utf8_char a r = (
     let k = (\<lambda>i. unat (r ! i) - 0x80);
         v3 = (unat a - 0xE0) * 4096 + k 0 * 64 + k 1;
         v4 = (unat a - 0xF0) * 262144 + k 0 * 4096 + k 1 * 64 + k 2
     in if a < 0x80 then Some (unat a, 0)
        else if 0xC2 \<le> a \<and> a < 0xE0 \<and> 1 \<le> length r \<and> utf8_cont (r ! 0)
        then Some ((unat a - 0xC0) * 64 + k 0, 1)
        else if 0xE0 \<le> a \<and> a < 0xF0 \<and> 2 \<le> length r \<and> utf8_cont (r ! 0) \<and> utf8_cont (r ! 1) \<and>
          0x800 \<le> v3 \<and> \<not> (0xD800 \<le> v3 \<and> v3 < 0xE000)
        then Some (v3, 2)
        else if 0xF0 \<le> a \<and> a < 0xF8 \<and> 3 \<le> length r \<and> utf8_cont (r ! 0) \<and> utf8_cont (r ! 1) \<and> utf8_cont (r ! 2) \<and>
          0x10000 \<le> v4 \<and> v4 < 0x110000
        then Some (v4, 3)
        else None)"

fun from_utf8 :: "u8 list \<Rightarrow> rstr option" where
  "from_utf8 [] = Some []"
| "from_utf8 (a # r) = do { (c, n) \<leftarrow> utf8_char a r; s \<leftarrow> from_utf8 (drop n r); Some (c # s) }"

fun from_utf16 :: "u16 list \<Rightarrow> rstr option" where
  "from_utf16 [] = Some []"
| "from_utf16 (a # us) =
    (if a < 0xD800 \<or> 0xE000 \<le> a then map_option ((#) (unat a)) (from_utf16 us)
     else case us of
       b # us1 \<Rightarrow>
         if a < 0xDC00 \<and> 0xDC00 \<le> b \<and> b < 0xE000
         then map_option ((#) (0x10000 + (unat a - 0xD800) * 1024 + (unat b - 0xDC00))) (from_utf16 us1)
         else None
     | [] \<Rightarrow> None)"

section \<open>Entries\<close>

type_synonym Fat32DEntryAttr = u8

abbreviation ATTR_DIRECTORY :: Fat32DEntryAttr where "ATTR_DIRECTORY \<equiv> 0x10"
abbreviation ATTR_ARCHIVE :: Fat32DEntryAttr where "ATTR_ARCHIVE \<equiv> 0x20"

definition attr_from_kind :: "VfsFileKind \<Rightarrow> Fat32DEntryAttr option" where
  "attr_from_kind k = (case k of RegularFile \<Rightarrow> Some ATTR_ARCHIVE | Directory \<Rightarrow> Some ATTR_DIRECTORY | _ \<Rightarrow> None)"

definition kind_from_attr :: "Fat32DEntryAttr \<Rightarrow> VfsFileKind" where
  "kind_from_attr a = (if a AND ATTR_DIRECTORY = ATTR_DIRECTORY then Directory else RegularFile)"

record FatDEntryData =
  de_attr :: Fat32DEntryAttr
  de_begin_cluster :: u32
  de_name :: rstr
  de_size :: u32

definition lfn_needed :: "FatDEntryData \<Rightarrow> nat" where
  "lfn_needed d = (let name_len = str_len (de_name d) in if name_len \<le> 8 then 0 else (name_len + 12) div 13)"

abbreviation DENTRY_SIZE :: nat where "DENTRY_SIZE \<equiv> 32"
abbreviation BLK_ADE_CNT :: nat where "BLK_ADE_CNT \<equiv> 16"

record Standard8p3EntryRepr =
  std_name :: "u8 list"
  std_ext :: "u8 list"
  std_attr :: u8
  std_reserved :: u8
  std_ctime_ts :: u8
  std_ctime :: u16
  std_cdate :: u16
  std_adate :: u16
  std_cluster_high :: u16
  std_mtime :: u16
  std_mdate :: u16
  std_cluster_low :: u16
  std_size :: u32

definition as_std :: "u8 list \<Rightarrow> Standard8p3EntryRepr" where
  "as_std b = \<lparr>std_name = take 8 b, std_ext = take 3 (drop 8 b), std_attr = b ! 11, std_reserved = b ! 12,
     std_ctime_ts = b ! 13, std_ctime = from_le (take 2 (drop 14 b)), std_cdate = from_le (take 2 (drop 16 b)),
     std_adate = from_le (take 2 (drop 18 b)), std_cluster_high = from_le (take 2 (drop 20 b)),
     std_mtime = from_le (take 2 (drop 22 b)), std_mdate = from_le (take 2 (drop 24 b)),
     std_cluster_low = from_le (take 2 (drop 26 b)), std_size = from_le (take 4 (drop 28 b))\<rparr>"

definition std_bytes :: "Standard8p3EntryRepr \<Rightarrow> u8 list" where
  "std_bytes e = std_name e @ std_ext e @ [std_attr e, std_reserved e, std_ctime_ts e] @ to_le 2 (std_ctime e) @
     to_le 2 (std_cdate e) @ to_le 2 (std_adate e) @ to_le 2 (std_cluster_high e) @ to_le 2 (std_mtime e) @
     to_le 2 (std_mdate e) @ to_le 2 (std_cluster_low e) @ to_le 4 (std_size e)"

definition attr_from_bits :: "u8 \<Rightarrow> Fat32DEntryAttr option" where
  "attr_from_bits b = (if b AND NOT 0x3F = 0 then Some b else None)"

definition std_attr_get :: "Standard8p3EntryRepr \<Rightarrow> Fat32DEntryAttr option" where
  "std_attr_get e = attr_from_bits (std_attr e)"

definition std_new_empty :: "VfsFileKind \<Rightarrow> Standard8p3EntryRepr option" where
  "std_new_empty k = do { a \<leftarrow> attr_from_kind k; Some ((as_std (replicate 32 0))\<lparr>std_attr := a\<rparr>) }"

record LongFileNameEntryRepr =
  lfn_order :: u8
  lfn_name1 :: "u16 list"
  lfn_attr :: u8
  lfn_type :: u8
  lfn_checksum :: u8
  lfn_name2 :: "u16 list"
  lfn_reserved :: u16
  lfn_name3 :: "u16 list"

definition u16s :: "nat \<Rightarrow> nat \<Rightarrow> u8 list \<Rightarrow> u16 list" where
  "u16s n i b = map (\<lambda>j. from_le (take 2 (drop (i + 2 * j) b))) [0..<n]"

definition as_lfn :: "u8 list \<Rightarrow> LongFileNameEntryRepr" where
  "as_lfn b = \<lparr>lfn_order = b ! 0, lfn_name1 = u16s 5 1 b, lfn_attr = b ! 11, lfn_type = b ! 12, lfn_checksum = b ! 13,
     lfn_name2 = u16s 6 14 b, lfn_reserved = from_le (take 2 (drop 26 b)), lfn_name3 = u16s 2 28 b\<rparr>"

definition lfn_bytes :: "LongFileNameEntryRepr \<Rightarrow> u8 list" where
  "lfn_bytes e = [lfn_order e] @ concat (map (to_le 2) (lfn_name1 e)) @ [lfn_attr e, lfn_type e, lfn_checksum e] @
     concat (map (to_le 2) (lfn_name2 e)) @ to_le 2 (lfn_reserved e) @ concat (map (to_le 2) (lfn_name3 e))"

definition collect_chars :: "LongFileNameEntryRepr \<Rightarrow> u16 list" where
  "collect_chars e = lfn_name1 e @ lfn_name2 e @ lfn_name3 e"

definition is_std :: "u8 list \<Rightarrow> bool" where "is_std b \<longleftrightarrow> b ! 11 \<noteq> 0x0F"
definition is_unused :: "u8 list \<Rightarrow> bool" where "is_unused b \<longleftrightarrow> b ! 0 = 0xE5"
definition is_end :: "u8 list \<Rightarrow> bool" where "is_end b \<longleftrightarrow> b ! 0 = 0x00"

text \<open>A view: the block and the byte offset of the entry in it.\<close>

type_synonym ade_view = "u64 \<times> nat"

definition ade_bytes :: "ade_view \<Rightarrow> 'd Fat32FS \<Rightarrow> u8 list option" where
  "ade_bytes v fs = do {
     d \<leftarrow> as_slice (fst v) fs;
     rassert (snd v + DENTRY_SIZE \<le> length d);
     Some (take DENTRY_SIZE (drop (snd v) d)) }"

definition ade_write :: "ade_view \<Rightarrow> u8 list \<Rightarrow> 'd Fat32FS \<Rightarrow> 'd Fat32FS option" where
  "ade_write v bs fs = just_mut (fst v) (\<lambda>d. take (snd v) d @ bs @ drop (snd v + length bs) d) fs"

definition ade_set_first :: "u8 \<Rightarrow> ade_view \<Rightarrow> 'd Fat32FS \<Rightarrow> 'd Fat32FS option" where
  "ade_set_first b v fs = ade_write v [b] fs"

section \<open>Positions\<close>

text \<open>\<open>AtomDEPos\<close> and \<open>GroupDEPos\<close>: a byte offset in the directory, all ones when there is none.\<close>

abbreviation null_pos :: usize where "null_pos \<equiv> - 1"

definition as_byte_offset :: "usize \<Rightarrow> usize option" where
  "as_byte_offset p = do { rassert (p \<noteq> null_pos); Some p }"

definition offset_byte :: "usize \<Rightarrow> int \<Rightarrow> usize option" where
  "offset_byte p byte = do {
     rassert (p \<noteq> null_pos);
     rassert (byte mod 32 = 0);
     rassert (sint p + byte < 2 ^ 63);
     rassert (sint p + byte \<ge> 0);
     Some (word_of_int (sint p + byte)) }"

definition offset_ade :: "usize \<Rightarrow> int \<Rightarrow> usize option" where
  "offset_ade p n = do { rassert (- (2 ^ 63) \<le> n * 32 \<and> n * 32 < 2 ^ 63); offset_byte p (n * 32) }"

definition as_ade_offset :: "usize \<Rightarrow> nat option" where
  "as_ade_offset p = do { b \<leftarrow> as_byte_offset p; Some (unat b div DENTRY_SIZE) }"

definition round_down_sct :: "usize \<Rightarrow> usize option" where
  "round_down_sct p = do { b \<leftarrow> as_byte_offset p; Some (word_of_nat ((unat b div BLK_ADE_CNT) * BLK_ADE_CNT)) }"

section \<open>The window\<close>

text \<open>\<open>sector_bufs\<close> are the sectors in the buffer, all loaded.\<close>

record AtomDEntryWindow =
  sector_bufs :: "u64 list"
  in_append :: bool
  next_sct :: "u64 option"
  begin_pos :: usize
  left_pos :: usize
  right_pos :: usize

record GroupDEntryIter =
  window :: AtomDEntryWindow
  is_deleted :: bool
  it_chain :: "u32 list option"

type_synonym ('d, 'a) it_result = "('a SysResult \<times> GroupDEntryIter \<times> 'd Fat32FS) option"

definition window_new :: "'d Fat32FS \<Rightarrow> u32 \<Rightarrow> AtomDEntryWindow option" where
  "window_new fs begin_cluster = do {
     s \<leftarrow> first_sector fs begin_cluster;
     Some \<lparr>sector_bufs = [], in_append = False, next_sct = Some s, begin_pos = 0, left_pos = 0, right_pos = 0\<rparr> }"

definition window_new_middle :: "u64 \<Rightarrow> usize \<Rightarrow> AtomDEntryWindow option" where
  "window_new_middle sector gde_pos = do {
     b \<leftarrow> round_down_sct gde_pos;
     l \<leftarrow> as_byte_offset gde_pos;
     Some \<lparr>sector_bufs = [], in_append = False, next_sct = Some sector, begin_pos = b, left_pos = l, right_pos = l\<rparr> }"

definition buf_idx :: "AtomDEntryWindow \<Rightarrow> usize \<Rightarrow> nat option" where
  "buf_idx w pos = do {
     p \<leftarrow> as_byte_offset pos;
     b \<leftarrow> as_byte_offset (begin_pos w);
     d \<leftarrow> usub p b;
     Some (unat d div BLOCK_SIZE) }"

definition get_in_buf :: "AtomDEntryWindow \<Rightarrow> nat \<Rightarrow> ade_view option" where
  "get_in_buf w buf_ade_idx = do {
     let i = buf_ade_idx div BLK_ADE_CNT;
     rassert (i < length (sector_bufs w));
     Some (sector_bufs w ! i, buf_ade_idx mod BLK_ADE_CNT * DENTRY_SIZE) }"

definition get_in_dir :: "AtomDEntryWindow \<Rightarrow> usize \<Rightarrow> ade_view option" where
  "get_in_dir w pos = do {
     p \<leftarrow> as_ade_offset pos;
     b \<leftarrow> as_ade_offset (begin_pos w);
     rassert (b \<le> p);
     get_in_buf w (p - b) }"

definition window_len :: "AtomDEntryWindow \<Rightarrow> nat option" where
  "window_len w = do {
     r \<leftarrow> as_byte_offset (right_pos w);
     l \<leftarrow> as_byte_offset (left_pos w);
     d \<leftarrow> usub r l;
     Some (unat d div DENTRY_SIZE) }"

definition window_last :: "AtomDEntryWindow \<Rightarrow> ade_view option" where
  "window_last w = do { p \<leftarrow> offset_ade (right_pos w) (- 1); get_in_dir w p }"

definition move_left :: "nat \<Rightarrow> AtomDEntryWindow \<Rightarrow> AtomDEntryWindow option" where
  "move_left n w = do {
     new_left \<leftarrow> offset_ade (left_pos w) (int n);
     rassert (\<not> new_left > right_pos w);
     i \<leftarrow> buf_idx w new_left;
     new_begin \<leftarrow> offset_byte (begin_pos w) (int (i * BLOCK_SIZE));
     Some (w\<lparr>sector_bufs := drop i (sector_bufs w), left_pos := new_left, begin_pos := new_begin\<rparr>) }"

text \<open>Loading a sector at the right end of the buffer.\<close>

definition load_sector :: "'d blk_ops \<Rightarrow> u64 \<Rightarrow> GroupDEntryIter \<times> 'd Fat32FS \<Rightarrow> ('d, unit) it_result" where
  "load_sector D sid s = (case s of (it, fs) \<Rightarrow> do {
     (r, fs) \<leftarrow> cache_get D sid fs;
     (case r of
        Inl e \<Rightarrow> Some (Inl e, it, fs)
      | Inr b \<Rightarrow> do {
          nx \<leftarrow> next_sector fs sid;
          let w = window it;
          Some (Inr (), it\<lparr>window := w\<lparr>sector_bufs := sector_bufs w @ [b], next_sct := nx\<rparr>\<rparr>, fs) }) })"

definition step_right :: "GroupDEntryIter \<times> 'd Fat32FS \<Rightarrow> ('d, ade_view option) it_result" where
  "step_right s = (case s of (it, fs) \<Rightarrow> do {
     let w = window it;
     let current = right_pos w;
     i \<leftarrow> buf_idx w current;
     rassert (i < length (sector_bufs w));
     p \<leftarrow> offset_ade current 1;
     let w = w\<lparr>right_pos := p\<rparr>;
     last_ade \<leftarrow> get_in_dir w current;
     b \<leftarrow> ade_bytes last_ade fs;
     Some (Inr (if is_end b \<and> \<not> in_append w then None else Some last_ade), it\<lparr>window := w\<rparr>, fs) })"

definition move_right_one :: "'d blk_ops \<Rightarrow> GroupDEntryIter \<times> 'd Fat32FS \<Rightarrow> ('d, ade_view option) it_result" where
  "move_right_one D s = (case s of (it, fs) \<Rightarrow> do {
     let w = window it;
     cur_buf_idx \<leftarrow> buf_idx w (right_pos w);
     if cur_buf_idx \<ge> length (sector_bufs w) then do {
       rassert (cur_buf_idx = length (sector_bufs w));
       (case next_sct w of
          Some sct \<Rightarrow> sys_bind (load_sector D sct (it, fs)) (\<lambda>_. step_right)
        | None \<Rightarrow>
            if in_append w then do {
              chain \<leftarrow> it_chain it;
              last_cluster \<leftarrow> cc_last chain;
              (new_cluster, t) \<leftarrow> alloc_next last_cluster (fat fs);
              let fs = fs\<lparr>fat := t\<rparr>;
              new_sector \<leftarrow> first_sector fs new_cluster;
              sys_bind (load_sector D new_sector (it\<lparr>it_chain := Some (chain @ [new_cluster])\<rparr>, fs)) (\<lambda>_. step_right) }
            else Some (Inr None, it, fs)) }
     else step_right (it, fs) })"

text \<open>The views of the window, from left to right.\<close>

partial_function (option) atom_iter :: "AtomDEntryWindow \<Rightarrow> usize \<Rightarrow> ade_view list option" where
  "atom_iter w cur = (if cur = right_pos w then Some [] else do {
     v \<leftarrow> get_in_dir w cur;
     nx \<leftarrow> offset_ade cur 1;
     vs \<leftarrow> atom_iter w nx;
     Some (v # vs) })"

declare atom_iter.simps [code]

section \<open>The iterator\<close>

definition it_new :: "'d Fat32FS \<Rightarrow> u32 \<Rightarrow> GroupDEntryIter option" where
  "it_new fs begin_cluster = do { w \<leftarrow> window_new fs begin_cluster; Some \<lparr>window = w, is_deleted = False, it_chain = None\<rparr> }"

definition it_new_middle :: "u64 \<Rightarrow> usize \<Rightarrow> GroupDEntryIter option" where
  "it_new_middle sector gde_pos = do {
     w \<leftarrow> window_new_middle sector gde_pos;
     Some \<lparr>window = w, is_deleted = False, it_chain = None\<rparr> }"

definition it_gde_pos :: "GroupDEntryIter \<Rightarrow> usize option" where
  "it_gde_pos it = as_byte_offset (left_pos (window it))"

definition std_pos :: "GroupDEntryIter \<Rightarrow> usize option" where
  "std_pos it = offset_ade (right_pos (window it)) (- 1)"

definition std_clone :: "GroupDEntryIter \<Rightarrow> 'd Fat32FS \<Rightarrow> Standard8p3EntryRepr option" where
  "std_clone it fs = do { v \<leftarrow> window_last (window it); b \<leftarrow> ade_bytes v fs; Some (as_std b) }"

definition get_begin_cluster :: "GroupDEntryIter \<Rightarrow> 'd Fat32FS \<Rightarrow> u32 option" where
  "get_begin_cluster it fs = do {
     e \<leftarrow> std_clone it fs;
     Some (push_bit 16 (ucast (std_cluster_high e)) OR ucast (std_cluster_low e)) }"

text \<open>The names: of an 8.3 entry alone, and of the long-name entries read from the last to the first.\<close>

definition name_8p3 :: "Standard8p3EntryRepr \<Rightarrow> rstr option" where
  "name_8p3 e = (
     let name = filter (\<lambda>c. c \<noteq> 0x20 \<and> c \<noteq> 0) (std_name e);
         ext = filter (\<lambda>c. c \<noteq> 0x20 \<and> c \<noteq> 0) (std_ext e)
     in from_utf8 (if ext \<noteq> [] then name @ 0x2E # ext else name))"

definition name_lfn :: "u8 list list \<Rightarrow> rstr option" where
  "name_lfn es = (
     let blocks = map (\<lambda>b. collect_chars (as_lfn b)) (takeWhile (\<lambda>b. \<not> is_std b) es)
     in from_utf16 (filter (\<lambda>c. c \<noteq> 0xFFFF) (takeWhile (\<lambda>c. c \<noteq> 0) (concat (rev blocks)))))"

definition collect_name :: "GroupDEntryIter \<Rightarrow> 'd Fat32FS \<Rightarrow> rstr option" where
  "collect_name it fs = do {
     n \<leftarrow> window_len (window it);
     if n = 1 then do { e \<leftarrow> std_clone it fs; name_8p3 e }
     else do {
       vs \<leftarrow> atom_iter (window it) (left_pos (window it));
       es \<leftarrow> those (map (\<lambda>v. ade_bytes v fs) vs);
       name_lfn es } }"

definition change_size :: "u32 \<Rightarrow> GroupDEntryIter \<Rightarrow> 'd Fat32FS \<Rightarrow> 'd Fat32FS option" where
  "change_size new_size it fs = do {
     v \<leftarrow> window_last (window it);
     b \<leftarrow> ade_bytes v fs;
     ade_write v (std_bytes ((as_std b)\<lparr>std_size := new_size\<rparr>)) fs }"

definition delete_entry :: "GroupDEntryIter \<times> 'd Fat32FS \<Rightarrow> (GroupDEntryIter \<times> 'd Fat32FS) option" where
  "delete_entry s = (case s of (it, fs) \<Rightarrow> do {
     vs \<leftarrow> atom_iter (window it) (left_pos (window it));
     fs \<leftarrow> foldM (ade_set_first 0xE5) vs fs;
     Some (it\<lparr>is_deleted := True\<rparr>, fs) })"

definition can_create_any :: "GroupDEntryIter \<Rightarrow> 'd Fat32FS \<Rightarrow> bool option" where
  "can_create_any it fs = do {
     v \<leftarrow> get_in_buf (window it) 0;
     b \<leftarrow> ade_bytes v fs;
     Some (is_unused b \<or> is_deleted it \<or> in_append (window it)) }"

definition can_create :: "FatDEntryData \<Rightarrow> GroupDEntryIter \<Rightarrow> 'd Fat32FS \<Rightarrow> bool option" where
  "can_create dentry it fs = do {
     a \<leftarrow> can_create_any it fs;
     if a then do { n \<leftarrow> window_len (window it); Some (lfn_needed dentry < n) } else Some False }"

text \<open>One long-name entry of \<open>create_entry\<close>.\<close>

definition lfn_entry :: "rstr \<Rightarrow> nat \<Rightarrow> LongFileNameEntryRepr option" where
  "lfn_entry name i = do {
     let e = min (str_len name) ((i + 1) * 13);
     (upto, _) \<leftarrow> str_split e name;
     (_, part) \<leftarrow> str_split (i * 13) upto;
     let lfn_buf = map word_of_nat part @ replicate (13 - length part) 0;
     order \<leftarrow> uadd (word_of_nat i) 1;
     Some \<lparr>lfn_order = order, lfn_name1 = take 5 lfn_buf, lfn_attr = 0x0F, lfn_type = 0, lfn_checksum = 0,
       lfn_name2 = take 6 (drop 5 lfn_buf), lfn_reserved = 0, lfn_name3 = take 2 (drop 11 lfn_buf)\<rparr> }"

definition write_lfn :: "rstr \<Rightarrow> AtomDEntryWindow \<Rightarrow> nat \<Rightarrow> 'd Fat32FS \<Rightarrow> 'd Fat32FS option" where
  "write_lfn name w i fs = do {
     e \<leftarrow> lfn_entry name i;
     v \<leftarrow> get_in_buf w i;
     _ \<leftarrow> ade_bytes v fs;
     ade_write v (lfn_bytes e) fs }"

definition std_entry :: "FatDEntryData \<Rightarrow> Standard8p3EntryRepr \<Rightarrow> Standard8p3EntryRepr option" where
  "std_entry dentry old = do {
     let name = de_name dentry;
     rassert (lfn_needed dentry = 0 \<longrightarrow> length name \<le> 8);
     Some (old\<lparr>
       std_name := if lfn_needed dentry = 0 then map word_of_nat name @ drop (length name) (std_name old) else replicate 8 0x20,
       std_ext := replicate 3 0x20, std_attr := de_attr dentry, std_reserved := 0, std_ctime_ts := 0, std_ctime := 0,
       std_cdate := 0, std_adate := 0, std_cluster_high := ucast (drop_bit 16 (de_begin_cluster dentry)), std_mtime := 0,
       std_mdate := 0, std_cluster_low := ucast (de_begin_cluster dentry AND 0xFFFF), std_size := de_size dentry\<rparr>) }"

definition create_entry :: "FatDEntryData \<Rightarrow> GroupDEntryIter \<times> 'd Fat32FS \<Rightarrow> (GroupDEntryIter \<times> 'd Fat32FS) option" where
  "create_entry dentry s = (case s of (it, fs) \<Rightarrow> do {
     c \<leftarrow> can_create dentry it fs;
     rassert c;
     fs \<leftarrow> foldM (write_lfn (de_name dentry) (window it)) [0..<lfn_needed dentry] fs;
     v \<leftarrow> get_in_buf (window it) (lfn_needed dentry);
     b \<leftarrow> ade_bytes v fs;
     e \<leftarrow> std_entry dentry (as_std b);
     fs \<leftarrow> ade_write v (std_bytes e) fs;
     w \<leftarrow> move_left (lfn_needed dentry + 1) (window it);
     Some (it\<lparr>window := w\<rparr>, fs) })"

partial_function (option) mark_next :: "'d blk_ops \<Rightarrow> GroupDEntryIter \<times> 'd Fat32FS \<Rightarrow> ('d, bool) it_result" where
  "mark_next D s = do {
     (r, s) \<leftarrow> move_right_one D s;
     (case r of
        Inl e \<Rightarrow> Some (Inl e, s)
      | Inr None \<Rightarrow> Some (Inr False, s)
      | Inr (Some v) \<Rightarrow> do {
          b \<leftarrow> ade_bytes v (snd s);
          if is_std b then Some (Inr True, s) else mark_next D s }) }"

declare mark_next.simps [code]

definition leave_next :: "GroupDEntryIter \<Rightarrow> GroupDEntryIter option" where
  "leave_next it = do {
     n \<leftarrow> window_len (window it);
     w \<leftarrow> move_left n (window it);
     Some (it\<lparr>window := w\<rparr>) }"

section \<open>Appending\<close>

definition append_enter :: "u32 list \<Rightarrow> GroupDEntryIter \<Rightarrow> GroupDEntryIter" where
  "append_enter chain it = it\<lparr>window := (window it)\<lparr>in_append := True\<rparr>, it_chain := Some chain\<rparr>"

primrec move_right_n :: "'d blk_ops \<Rightarrow> nat \<Rightarrow> GroupDEntryIter \<times> 'd Fat32FS \<Rightarrow> ('d, unit) it_result" where
  "move_right_n D 0 s = Some (Inr (), s)"
| "move_right_n D (Suc n) s = sys_bind (move_right_one D s) (\<lambda>_. move_right_n D n)"

definition it_append :: "'d blk_ops \<Rightarrow> FatDEntryData \<Rightarrow> GroupDEntryIter \<times> 'd Fat32FS \<Rightarrow> ('d, unit) it_result" where
  "it_append D dentry s = sys_bind (move_right_n D (lfn_needed dentry + 1) s) (\<lambda>_ s. do {
     s \<leftarrow> create_entry dentry s;
     Some (Inr (), s) })"

definition append_end :: "'d blk_ops \<Rightarrow> GroupDEntryIter \<times> 'd Fat32FS \<Rightarrow> ('d, unit) it_result" where
  "append_end D s = sys_bind (move_right_one D s) (\<lambda>_ s. (case s of (it, fs) \<Rightarrow> do {
     v \<leftarrow> window_last (window it);
     fs \<leftarrow> ade_set_first 0 v fs;
     it \<leftarrow> leave_next it;
     Some (Inr (), it\<lparr>window := (window it)\<lparr>in_append := False\<rparr>\<rparr>, fs) }))"

end
