(* ===== verification/Fat_File.thy ===== *)
theory Fat_File
  imports Fat_Dir
begin

text \<open>
  Files and directories of a FAT32 volume, from \<^verbatim>\<open>fs/nfat32/file.rs\<close>: the object behind an open file, reading and
  writing its pages, changing its size, and looking up, creating, renaming and removing the files of a directory.

  The operations change the file object through interior mutability: here they return it updated. Reading and
  writing of pages go to the device directly; directory entries live in the block cache. \<open>delete_recursive\<close> is not
  modelled: nothing calls it.
\<close>

section \<open>The file object\<close>

record DEntryPosInfo =
  dp_gde_pos :: usize
  dp_sector :: u64
  dp_offset :: u16

record FATFile =
  f_pos :: DEntryPosInfo
  f_std :: Standard8p3EntryRepr
  f_dirty :: bool
  f_chain :: "u32 list"

definition no_pos :: DEntryPosInfo where
  "no_pos = \<lparr>dp_gde_pos = null_pos, dp_sector = 0, dp_offset = 0\<rparr>"

definition is_free :: "FATFile \<Rightarrow> bool" where
  "is_free f \<longleftrightarrow> dp_gde_pos (f_pos f) = null_pos"

definition set_free :: "FATFile \<Rightarrow> FATFile" where
  "set_free f = f\<lparr>f_pos := (f_pos f)\<lparr>dp_gde_pos := null_pos\<rparr>\<rparr>"

definition editor_sync :: "'d blk_ops \<Rightarrow> FATFile \<times> 'd Fat32FS \<Rightarrow> (unit SysResult \<times> FATFile \<times> 'd Fat32FS) option" where
  "editor_sync D s = (case s of (f, fs) \<Rightarrow>
     if f_dirty f \<and> \<not> is_free f then do {
       (r, fs) \<leftarrow> cache_get D (dp_sector (f_pos f)) fs;
       (case r of
          Inl e \<Rightarrow> Some (Inl e, f, fs)
        | Inr b \<Rightarrow> do {
            let off = unat (dp_offset (f_pos f));
            d \<leftarrow> as_slice b fs;
            rassert (off + 32 \<le> length d);
            fs \<leftarrow> as_mut_slice b (\<lambda>d. take off d @ std_bytes (f_std f) @ drop (off + 32) d) fs;
            Some (Inr (), f\<lparr>f_dirty := False\<rparr>, fs) }) }
     else Some (Inr (), f, fs))"

text \<open>\<open>Drop\<close>: writing the entry back must not fail.\<close>

definition file_drop :: "'d blk_ops \<Rightarrow> FATFile \<Rightarrow> 'd Fat32FS \<Rightarrow> 'd Fat32FS option" where
  "file_drop D f fs = do {
     (r, _, fs) \<leftarrow> editor_sync D (f, fs);
     (case r of Inl _ \<Rightarrow> None | Inr _ \<Rightarrow> Some fs) }"

definition file_new_free :: "'d Fat32FS \<Rightarrow> u32 \<Rightarrow> VfsFileKind \<Rightarrow> FATFile option" where
  "file_new_free fs begin_cluster kind = do {
     e \<leftarrow> std_new_empty kind;
     ch \<leftarrow> chain_new fs begin_cluster;
     Some \<lparr>f_pos = no_pos, f_std = e, f_dirty = False, f_chain = ch\<rparr> }"

definition file_size :: "FATFile \<Rightarrow> usize" where
  "file_size f = ucast (std_size (f_std f))"

definition file_attr_kind :: "FATFile \<Rightarrow> VfsFileKind option" where
  "file_attr_kind f = do { a \<leftarrow> std_attr_get (f_std f); Some (kind_from_attr a) }"

definition file_attr_size :: "'d Fat32FS \<Rightarrow> FATFile \<Rightarrow> (usize \<times> usize) option" where
  "file_attr_size fs f = do {
     blocks \<leftarrow> umul (word_of_nat (length (f_chain f))) (ucast (cluster_size_sct fs));
     Some (file_size f, blocks) }"

section \<open>Reading and writing pages\<close>

text \<open>The loop of \<open>read_page_at\<close>: \<open>n\<close> bytes of the buffer and \<open>readable\<close> bytes of the file are left.\<close>

function read_loop :: "'d blk_ops \<Rightarrow> nat \<Rightarrow> nat \<Rightarrow> u64 \<Rightarrow> 'd Fat32FS \<Rightarrow> ('d, u8 list) fat_result" where
  "read_loop D n readable sid fs = (
     let len = min (min n readable) BLOCK_SIZE
     in sys_bind (read_sector D sid len fs) (\<lambda>d fs. do {
       nx \<leftarrow> next_sector fs sid;
       (case nx of
          None \<Rightarrow> Some (Inr d, fs)
        | Some sid \<Rightarrow>
            if readable - len = 0 \<or> n - len = 0 then Some (Inr d, fs)
            else sys_bind (read_loop D (n - len) (readable - len) sid fs) (\<lambda>r fs. Some (Inr (d @ r), fs))) }))"
  by pat_completeness auto
termination by (relation "measure (\<lambda>(_, n, _). n)") auto

definition read_page_at :: "'d blk_ops \<Rightarrow> FATFile \<Rightarrow> usize \<Rightarrow> nat \<Rightarrow> 'd Fat32FS \<Rightarrow> ('d, u8 list) fat_result" where
  "read_page_at D f offset n fs = do {
     rassert (unat offset mod BLOCK_SIZE = 0);
     rassert (n mod BLOCK_SIZE = 0);
     if offset \<ge> file_size f then Some (Inr [], fs)
     else do {
       (sct_id, sct_off) \<leftarrow> offset_sct fs (f_chain f) offset;
       rassert (sct_off = 0);
       read_loop D n (unat (file_size f - offset)) sct_id fs } }"

function write_loop :: "'d blk_ops \<Rightarrow> u8 list \<Rightarrow> nat \<Rightarrow> u64 \<Rightarrow> 'd Fat32FS \<Rightarrow> ('d, nat) fat_result" where
  "write_loop D buf writable sid fs = (
     let len = min (min (length buf) writable) BLOCK_SIZE
     in sys_bind (write_sector D sid (take len buf) fs) (\<lambda>_ fs. do {
       nx \<leftarrow> next_sector fs sid;
       (case nx of
          None \<Rightarrow> Some (Inr len, fs)
        | Some sid \<Rightarrow>
            if writable - len = 0 \<or> drop len buf = [] then Some (Inr len, fs)
            else sys_bind (write_loop D (drop len buf) (writable - len) sid fs) (\<lambda>r fs. Some (Inr (len + r), fs))) }))"
  by pat_completeness auto
termination by (relation "measure (\<lambda>(_, buf, _). length buf)") auto

definition write_page_at :: "'d blk_ops \<Rightarrow> FATFile \<Rightarrow> usize \<Rightarrow> u8 list \<Rightarrow> 'd Fat32FS \<Rightarrow> ('d, nat) fat_result" where
  "write_page_at D f offset buf fs = do {
     rassert (unat offset mod BLOCK_SIZE = 0);
     rassert (length buf mod BLOCK_SIZE = 0);
     if offset \<ge> file_size f then Some (Inr 0, fs)
     else do {
       (sct_id, sct_off) \<leftarrow> offset_sct fs (f_chain f) offset;
       rassert (sct_off = 0);
       write_loop D buf (unat (file_size f - offset)) sct_id fs } }"

declare read_loop.simps [simp del] write_loop.simps [simp del]

section \<open>Changing the size\<close>

text \<open>The middle sectors of \<open>fill_with_zero\<close>.\<close>

function zero_loop :: "'d blk_ops \<Rightarrow> u64 option \<Rightarrow> nat \<Rightarrow> 'd Fat32FS \<Rightarrow> ('d, u64 option \<times> nat) fat_result" where
  "zero_loop D sid_opt wl fs = (case sid_opt of
     None \<Rightarrow> Some (Inr (None, wl), fs)
   | Some sid \<Rightarrow>
       if wl \<ge> BLOCK_SIZE
       then sys_bind (write_sector D sid (replicate BLOCK_SIZE 0) fs) (\<lambda>_ fs. do {
         nx \<leftarrow> next_sector fs sid;
         zero_loop D nx (wl - BLOCK_SIZE) fs })
       else Some (Inr (Some sid, wl), fs))"
  by pat_completeness auto
termination by (relation "measure (\<lambda>(_, _, wl, _). wl)") auto

declare zero_loop.simps [simp del]

definition fill_with_zero :: "'d blk_ops \<Rightarrow> FATFile \<Rightarrow> usize \<Rightarrow> nat \<Rightarrow> 'd Fat32FS \<Rightarrow> ('d, unit) fat_result" where
  "fill_with_zero D f offset len fs = do {
     (sct_id, sct_off) \<leftarrow> offset_sct fs (f_chain f) offset;
     sys_bind (if sct_off \<noteq> 0
        then sys_bind (read_sector D sct_id BLOCK_SIZE fs) (\<lambda>buf fs. do {
          rassert (unat sct_off \<le> length buf);
          sys_bind (write_sector D sct_id (take (unat sct_off) buf @ replicate (length buf - unat sct_off) 0) fs) (\<lambda>_ fs. do {
            nx \<leftarrow> next_sector fs sct_id;
            Some (Inr nx, fs) }) })
        else Some (Inr (Some sct_id), fs)) (\<lambda>first fs.
     sys_bind (zero_loop D first len fs) (\<lambda>(sid_opt, wl) fs. (case sid_opt of
        None \<Rightarrow> Some (Inr (), fs)
      | Some sid \<Rightarrow>
          if wl \<noteq> 0
          then sys_bind (read_sector D sid BLOCK_SIZE fs) (\<lambda>buf fs. do {
            rassert (wl \<le> length buf);
            write_sector D sid (replicate wl 0 @ drop wl buf) fs })
          else Some (Inr (), fs)))) }"

definition file_truncate :: "'d blk_ops \<Rightarrow> usize \<Rightarrow> FATFile \<times> 'd Fat32FS \<Rightarrow> (unit SysResult \<times> FATFile \<times> 'd Fat32FS) option" where
  "file_truncate D new_size s = (case s of (f, fs) \<Rightarrow> do {
     let new_size_cls = unat (drop_bit (unat (log_cls_size_sct fs) + LOG2_BLOCK_SIZE) new_size);
     let old_size_cls = length (f_chain f);
     (r, f, fs) \<leftarrow> (if new_size_cls > old_size_cls then do {
         (ch, t) \<leftarrow> alloc_push (new_size_cls - old_size_cls) (f_chain f, fat fs);
         let f = f\<lparr>f_chain := ch\<rparr>;
         (r, fs) \<leftarrow> fill_with_zero D f (file_size f) (unat new_size) (fs\<lparr>fat := t\<rparr>);
         Some (r, f, fs) }
       else if new_size_cls < old_size_cls then do {
         (ch, t) \<leftarrow> free_pop (old_size_cls - new_size_cls) (f_chain f, fat fs);
         Some (Inr (), f\<lparr>f_chain := ch\<rparr>, fs\<lparr>fat := t\<rparr>) }
       else Some (Inr (), f, fs));
     (case r of
        Inl e \<Rightarrow> Some (Inl e, f, fs)
      | Inr _ \<Rightarrow> Some (Inr (), f\<lparr>f_std := (f_std f)\<lparr>std_size := ucast new_size\<rparr>, f_dirty := True\<rparr>, fs)) })"

definition file_delete :: "FATFile \<Rightarrow> 'd Fat32FS \<Rightarrow> ('d, unit) fat_result" where
  "file_delete f fs = do { t \<leftarrow> free_all (f_chain f) (fat fs); Some (Inr (), fs\<lparr>fat := t\<rparr>) }"

section \<open>Directories\<close>

definition gde_iter :: "FATFile \<Rightarrow> 'd Fat32FS \<Rightarrow> GroupDEntryIter option" where
  "gde_iter f fs = do { c \<leftarrow> cc_first (f_chain f); it_new fs c }"

definition into_de_pos :: "FATFile \<Rightarrow> GroupDEntryIter \<Rightarrow> 'd Fat32FS \<Rightarrow> DEntryPosInfo option" where
  "into_de_pos f it fs = do {
     p \<leftarrow> std_pos it;
     p \<leftarrow> as_byte_offset p;
     (sector, offset) \<leftarrow> offset_sct fs (f_chain f) p;
     g \<leftarrow> it_gde_pos it;
     Some \<lparr>dp_gde_pos = g, dp_sector = sector, dp_offset = offset\<rparr> }"

definition into_file :: "FATFile \<Rightarrow> GroupDEntryIter \<Rightarrow> 'd Fat32FS \<Rightarrow> FATFile option" where
  "into_file f it fs = do {
     pos \<leftarrow> into_de_pos f it fs;
     e \<leftarrow> std_clone it fs;
     c \<leftarrow> get_begin_cluster it fs;
     ch \<leftarrow> chain_new fs c;
     Some \<lparr>f_pos = pos, f_std = e, f_dirty = False, f_chain = ch\<rparr> }"

partial_function (option) lookup_loop ::
  "'d blk_ops \<Rightarrow> FATFile \<Rightarrow> rstr \<Rightarrow> GroupDEntryIter \<times> 'd Fat32FS \<Rightarrow> ('d, FATFile) fat_result" where
  "lookup_loop D f name s = do {
     (r, it, fs) \<leftarrow> mark_next D s;
     (case r of
        Inl e \<Rightarrow> Some (Inl e, fs)
      | Inr found \<Rightarrow>
          if \<not> found then Some (Inl ENOENT, fs)
          else do {
            n \<leftarrow> collect_name it fs;
            if n = name then do { g \<leftarrow> into_file f it fs; Some (Inr g, fs) }
            else do { it \<leftarrow> leave_next it; lookup_loop D f name (it, fs) } }) }"

definition file_lookup :: "'d blk_ops \<Rightarrow> FATFile \<Rightarrow> rstr \<Rightarrow> 'd Fat32FS \<Rightarrow> ('d, FATFile) fat_result" where
  "file_lookup D f name fs = do { it \<leftarrow> gde_iter f fs; lookup_loop D f name (it, fs) }"

partial_function (option) list_loop ::
  "'d blk_ops \<Rightarrow> FATFile \<Rightarrow> GroupDEntryIter \<times> 'd Fat32FS \<Rightarrow> ('d, (rstr \<times> FATFile) list) fat_result" where
  "list_loop D f s = do {
     (r, it, fs) \<leftarrow> mark_next D s;
     (case r of
        Inl e \<Rightarrow> Some (Inl e, fs)
      | Inr found \<Rightarrow>
          if \<not> found then Some (Inr [], fs)
          else do {
            n \<leftarrow> collect_name it fs;
            g \<leftarrow> into_file f it fs;
            it \<leftarrow> leave_next it;
            (r, fs) \<leftarrow> list_loop D f (it, fs);
            (case r of Inl e \<Rightarrow> Some (Inl e, fs) | Inr l \<Rightarrow> Some (Inr ((n, g) # l), fs)) }) }"

declare lookup_loop.simps [code] list_loop.simps [code]

definition file_list :: "'d blk_ops \<Rightarrow> FATFile \<Rightarrow> 'd Fat32FS \<Rightarrow> ('d, (rstr \<times> FATFile) list) fat_result" where
  "file_list D f fs = do { it \<leftarrow> gde_iter f fs; list_loop D f (it, fs) }"

text \<open>\<open>attach_impl\<close>: \<open>d\<close> is the directory and \<open>file\<close> the file that gets an entry in it. The loop goes on after an
  entry was created, and an entry is appended in any case.\<close>

partial_function (option) attach_loop ::
  "'d blk_ops \<Rightarrow> FatDEntryData \<Rightarrow> FATFile \<Rightarrow> FATFile \<Rightarrow> GroupDEntryIter \<times> 'd Fat32FS \<Rightarrow>
   (unit SysResult \<times> FATFile \<times> GroupDEntryIter \<times> 'd Fat32FS) option" where
  "attach_loop D data d file s = do {
     (r, it, fs) \<leftarrow> mark_next D s;
     (case r of
        Inl e \<Rightarrow> Some (Inl e, file, it, fs)
      | Inr found \<Rightarrow>
          if \<not> found then Some (Inr (), file, it, fs)
          else do {
            c \<leftarrow> can_create data it fs;
            (file, it, fs) \<leftarrow> (if c then do {
                (it, fs) \<leftarrow> create_entry data (it, fs);
                pos \<leftarrow> into_de_pos d it fs;
                Some (file\<lparr>f_pos := pos\<rparr>, it, fs) }
              else Some (file, it, fs));
            it \<leftarrow> leave_next it;
            attach_loop D data d file (it, fs) }) }"

declare attach_loop.simps [code]

definition chain_back :: "FATFile \<Rightarrow> GroupDEntryIter \<Rightarrow> FATFile" where
  "chain_back d it = (case it_chain it of None \<Rightarrow> d | Some ch \<Rightarrow> d\<lparr>f_chain := ch\<rparr>)"

type_synonym ('d, 'a) dir_result = "('a SysResult \<times> (FATFile \<times> FATFile) \<times> 'd Fat32FS) option"

definition attach_impl :: "'d blk_ops \<Rightarrow> FatDEntryData \<Rightarrow> (FATFile \<times> FATFile) \<times> 'd Fat32FS \<Rightarrow> ('d, unit) dir_result" where
  "attach_impl D data s = (case s of ((d, file), fs) \<Rightarrow> do {
     rassert (is_free file);
     it \<leftarrow> gde_iter d fs;
     (r, file, it, fs) \<leftarrow> attach_loop D data d file (it, fs);
     (case r of
        Inl e \<Rightarrow> Some (Inl e, (d, file), fs)
      | Inr _ \<Rightarrow> do {
          (r, it, fs) \<leftarrow> it_append D data (append_enter (f_chain d) it, fs);
          (case r of
             Inl e \<Rightarrow> Some (Inl e, (chain_back d it, file), fs)
           | Inr _ \<Rightarrow> do {
               pos \<leftarrow> into_de_pos (chain_back d it) it fs;
               let file = file\<lparr>f_pos := pos\<rparr>;
               (r, it, fs) \<leftarrow> append_end D (it, fs);
               Some (r, (chain_back d it, file), fs) }) }) })"

definition detach_impl :: "'d blk_ops \<Rightarrow> FATFile \<times> 'd Fat32FS \<Rightarrow> (GroupDEntryIter SysResult \<times> FATFile \<times> 'd Fat32FS) option" where
  "detach_impl D s = (case s of (file, fs) \<Rightarrow> do {
     it \<leftarrow> it_new_middle (dp_sector (f_pos file)) (dp_gde_pos (f_pos file));
     (r, it, fs) \<leftarrow> mark_next D (it, fs);
     (case r of
        Inl e \<Rightarrow> Some (Inl e, file, fs)
      | Inr _ \<Rightarrow> do {
          (it, fs) \<leftarrow> delete_entry (it, fs);
          Some (Inr it, set_free file, fs) }) })"

definition entry_data :: "FATFile \<Rightarrow> rstr \<Rightarrow> FatDEntryData option" where
  "entry_data file name = do {
     a \<leftarrow> std_attr_get (f_std file);
     c \<leftarrow> cc_first (f_chain file);
     Some \<lparr>de_attr = a, de_begin_cluster = c, de_name = name, de_size = std_size (f_std file)\<rparr> }"

definition dir_create :: "'d blk_ops \<Rightarrow> rstr \<Rightarrow> VfsFileKind \<Rightarrow> FATFile \<times> 'd Fat32FS \<Rightarrow> ('d, unit) dir_result" where
  "dir_create D name kind s = (case s of (d, fs) \<Rightarrow> do {
     (begin_cluster, t) \<leftarrow> fat_alloc (fat fs);
     let fs = fs\<lparr>fat := t\<rparr>;
     a \<leftarrow> attr_from_kind kind;
     file \<leftarrow> file_new_free fs begin_cluster kind;
     attach_impl D \<lparr>de_attr = a, de_begin_cluster = begin_cluster, de_name = name, de_size = 0\<rparr> ((d, file), fs) })"

definition dir_rename :: "'d blk_ops \<Rightarrow> rstr \<Rightarrow> (FATFile \<times> FATFile) \<times> 'd Fat32FS \<Rightarrow> ('d, unit) dir_result" where
  "dir_rename D new_name s = (case s of ((d, file), fs) \<Rightarrow> do {
     (r, file, fs) \<leftarrow> detach_impl D (file, fs);
     (case r of
        Inl e \<Rightarrow> Some (Inl e, (d, file), fs)
      | Inr it \<Rightarrow> do {
          data \<leftarrow> entry_data file new_name;
          c \<leftarrow> can_create data it fs;
          if c then do {
            (it, fs) \<leftarrow> create_entry data (it, fs);
            pos \<leftarrow> into_de_pos d it fs;
            Some (Inr (), (d, file\<lparr>f_pos := pos\<rparr>), fs) }
          else attach_impl D data ((d, file), fs) }) })"

definition dir_attach :: "'d blk_ops \<Rightarrow> rstr \<Rightarrow> (FATFile \<times> FATFile) \<times> 'd Fat32FS \<Rightarrow> ('d, unit) dir_result" where
  "dir_attach D name s = do { data \<leftarrow> entry_data (snd (fst s)) name; attach_impl D data s }"

definition dir_detach :: "'d blk_ops \<Rightarrow> FATFile \<times> 'd Fat32FS \<Rightarrow> (unit SysResult \<times> FATFile \<times> 'd Fat32FS) option" where
  "dir_detach D s = do {
     (r, file, fs) \<leftarrow> detach_impl D s;
     (case r of
        Inl e \<Rightarrow> Some (Inl e, file, fs)
      | Inr it \<Rightarrow> do { it \<leftarrow> leave_next it; Some (Inr (), file, fs) }) }"

section \<open>The volume\<close>

definition fat_root :: "'d Fat32FS \<Rightarrow> FATFile option" where
  "fat_root fs = file_new_free fs (root_id_cls fs) Directory"

definition fat_attr :: "'d Fat32FS \<Rightarrow> VfsFSAttr option" where
  "fat_attr fs = do {
     let total_cls_cnt = word_of_nat (length (fat fs));
     let free_cls_cnt = word_of_nat (free_cluster_count (fat fs));
     total \<leftarrow> umul total_cls_cnt (ucast (cluster_size_byte fs));
     free \<leftarrow> umul free_cls_cnt (ucast (cluster_size_byte fs));
     Some \<lparr>fsa_kind = Fs_Fat, fs_id = device_id fs, total_block_size = total, free_block_size = free, total_file_count = total_cls_cnt,
       free_file_count = free_cls_cnt, max_file_name_length = 511\<rparr> }"

end
