(* ===== verification/Fat_Chain.thy ===== *)
theory Fat_Chain
  imports Fat_File
begin

text \<open>
  Laws of the allocation table and of the arithmetic of sectors: what \<open>FATTableManager::chain\<close> returns and when it
  returns, what allocation does to chains, and that walking a file sector by sector (\<open>next_sector\<close>) visits the
  sectors that \<open>offset_sct\<close> computes directly.
\<close>

section \<open>Chains\<close>

fun is_chain :: "u32 list \<Rightarrow> u32 list \<Rightarrow> bool" where
  "is_chain t [] \<longleftrightarrow> False"
| "is_chain t [c] \<longleftrightarrow> fat_next t c = Some None"
| "is_chain t (c # d # cs) \<longleftrightarrow> fat_next t c = Some (Some d) \<and> is_chain t (d # cs)"

lemma is_chain_Cons: "is_chain t (c # cs) \<longleftrightarrow>
  (if cs = [] then fat_next t c = Some None else fat_next t c = Some (Some (hd cs)) \<and> is_chain t cs)"
  by (cases cs) auto

lemma chain_complete: "is_chain t cs \<Longrightarrow> chain_loop t (hd cs) = Some cs"
proof (induction cs)
  case (Cons c cs)
  thus ?case by (subst chain_loop.simps) (auto simp: is_chain_Cons split: if_splits)
qed simp

lemma chain_sound: "chain_loop t c = Some cs \<Longrightarrow> is_chain t cs \<and> hd cs = c"
proof (erule chain_loop.raw_induct[rotated, where P = "\<lambda>t c cs. is_chain t cs \<and> hd cs = c"])
  fix f :: "u32 list \<Rightarrow> u32 \<Rightarrow> u32 list option" and t c cs
  assume IH: "\<And>t c cs. f t c = Some cs \<Longrightarrow> is_chain t cs \<and> hd cs = c"
    and "fat_next t c \<bind> (\<lambda>nx. case nx of None \<Rightarrow> Some [c] | Some c' \<Rightarrow> f t c' \<bind> (\<lambda>r. Some (c # r))) = Some cs"
  then obtain nx where nx: "fat_next t c = Some nx"
    "(case nx of None \<Rightarrow> Some [c] | Some c' \<Rightarrow> f t c' \<bind> (\<lambda>r. Some (c # r))) = Some cs"
    by (auto simp: bind_eq_Some_conv)
  thus "is_chain t cs \<and> hd cs = c"
    by (cases nx) (auto simp: is_chain_Cons bind_eq_Some_conv dest!: IH)
qed

text \<open>\<open>chain\<close> returns exactly the chains.\<close>

lemma fat_chain_iff: "fat_chain t c = Some cs \<longleftrightarrow> is_chain t cs \<and> hd cs = c"
  using chain_complete[of t cs] chain_sound[of t c cs] by (auto simp: fat_chain_def)

lemma is_chain_suffix: "is_chain t (xs @ c # ys) \<Longrightarrow> is_chain t (c # ys)"
  by (induction xs) (auto simp: is_chain_Cons split: if_splits)

lemma chain_distinct: "is_chain t cs \<Longrightarrow> distinct cs"
proof (rule ccontr)
  assume c: "is_chain t cs" and "\<not> distinct cs"
  then obtain xs ys zs x where cs: "cs = xs @ x # ys @ x # zs"
    by (metis append.assoc append_Cons append_Nil not_distinct_decomp)
  have "is_chain t (x # ys @ x # zs)" "is_chain t (x # zs)"
    using c is_chain_suffix[of t xs x "ys @ x # zs"] is_chain_suffix[of t "xs @ x # ys" x zs] by (simp_all add: cs)
  hence "x # ys @ x # zs = x # zs" using chain_complete by (metis list.sel(1) option.inject)
  thus False by (metis append_Cons append_eq_conv_conj append_self_conv2 length_append length_Cons add_Suc_right
      list.inject list.size(3) not_add_less2 lessI less_SucI append_Nil self_append_conv2 list.distinct(1) append.left_neutral)
qed

lemma is_chain_mem: "is_chain t cs \<Longrightarrow> c \<in> set cs \<Longrightarrow> unat c < length t"
  by (induction cs) (auto simp: is_chain_Cons fat_next_def get_fat_def split: if_splits)

lemma is_chain_cong: "is_chain t cs \<Longrightarrow> (\<And>c. c \<in> set cs \<Longrightarrow> get_fat t' c = get_fat t c) \<Longrightarrow> is_chain t' cs"
  by (induction cs) (auto simp: is_chain_Cons fat_next_def split: if_splits)

lemma get_put_fat: "put_fat c v t = Some t' \<Longrightarrow> get_fat t' d = (if d = c then Some v else get_fat t d)"
  by (auto simp: put_fat_def get_fat_def nth_list_update word_unat_eq_iff split: if_splits)

lemma is_chain_link:
  assumes "is_chain t cs" "\<And>c. c \<in> set (butlast cs) \<Longrightarrow> get_fat t' c = get_fat t c"
    "fat_next t' (last cs) = Some (Some n)" "fat_next t' n = Some None"
  shows "is_chain t' (cs @ [n])"
  using assms
proof (induction cs)
  case (Cons c cs)
  thus ?case by (cases cs) (auto simp: is_chain_Cons fat_next_def split: if_splits)
qed simp

section \<open>Allocation\<close>

lemma find_first_free_spec:
  assumes "find_first_free t = Some n" "length t \<le> 2 ^ 32"
  shows "unat n < length t \<and> t ! unat n = 0 \<and> (\<forall>i < unat n. t ! i \<noteq> 0)"
proof -
  obtain i where i: "i < length (enumerate 0 t)" "(\<lambda>(i, v). v = 0) (enumerate 0 t ! i)" "n = word_of_nat (fst (enumerate 0 t ! i))"
    "\<forall>j<i. \<not> (\<lambda>(i, v). v = 0) (enumerate 0 t ! j)"
    using assms(1) by (auto simp: find_first_free_def find_Some_iff)
  have n: "unat n = i" using i assms(2) by (simp add: nth_enumerate_eq unat_word_of_nat)
  thus ?thesis using i by (simp add: nth_enumerate_eq)
qed

lemma fat_alloc_spec:
  assumes "fat_alloc t = Some (n, t')" "length t \<le> 2 ^ 32"
  shows "get_fat t n = Some 0" "get_fat t' d = (if d = n then Some 0x0FFFFFFF else get_fat t d)" "length t' = length t"
    "unat n < length t"
proof -
  have f: "find_first_free t = Some n" "put_fat n 0x0FFFFFFF t = Some t'"
    using assms(1) by (auto simp: fat_alloc_def bind_eq_Some_conv)
  show "get_fat t n = Some 0" "unat n < length t" using find_first_free_spec[OF f(1) assms(2)] by (simp_all add: get_fat_def)
  show "get_fat t' d = (if d = n then Some 0x0FFFFFFF else get_fat t d)" using get_put_fat[OF f(2)] .
  show "length t' = length t" using f(2) by (auto simp: put_fat_def split: if_splits)
qed

lemma fat_alloc_total: "0 \<in> set t \<Longrightarrow> length t \<le> 2 ^ 32 \<Longrightarrow> \<exists>n t'. fat_alloc t = Some (n, t')"
proof -
  assume a: "0 \<in> set t" "length t \<le> 2 ^ 32"
  have "find (\<lambda>(i, v). v = 0) (enumerate 0 t) \<noteq> None"
  proof -
    obtain i where "i < length t" "t ! i = 0" using a(1) by (auto simp: in_set_conv_nth)
    hence "(i, 0) \<in> set (enumerate 0 t)" by (simp add: in_set_enumerate_eq)
    thus ?thesis by (auto simp: find_None_iff)
  qed
  then obtain n where n: "find_first_free t = Some n" by (auto simp: find_first_free_def)
  thus ?thesis using find_first_free_spec[OF n a(2)] by (simp add: fat_alloc_def put_fat_def)
qed

text \<open>A table of at most \<open>0x0FFFFFF8\<close> entries, so that no cluster number reads as the end of a chain, and chains of
  used clusters.\<close>

definition used :: "u32 list \<Rightarrow> u32 list \<Rightarrow> bool" where
  "used t cs \<longleftrightarrow> (\<forall>c\<in>set cs. get_fat t c \<noteq> Some 0)"

text \<open>Extending a directory (C26): \<open>alloc_next\<close> returns when a cluster is free, adds one free cluster to the end of
  the chain and leaves every other chain as it is.\<close>

theorem alloc_next_extends:
  assumes chain: "fat_chain t c = Some cs" "used t cs" and free: "0 \<in> set t" and small: "length t \<le> 0x0FFFFFF8"
  shows "\<exists>n t'. alloc_next (last cs) t = Some (n, t') \<and> n \<notin> set cs \<and> fat_chain t' c = Some (cs @ [n]) \<and>
    (\<forall>d ds. fat_chain t d = Some ds \<and> used t ds \<and> set ds \<inter> set cs = {} \<longrightarrow> fat_chain t' d = Some ds \<and> n \<notin> set ds)"
proof -
  have ch: "is_chain t cs" "hd cs = c" "cs \<noteq> []" using chain by (auto simp: fat_chain_iff)
  have l: "length t \<le> 2 ^ 32" using small by simp
  obtain n t1 where al: "fat_alloc t = Some (n, t1)" using fat_alloc_total[OF free l] by blast
  note a = fat_alloc_spec[OF al l]
  have n: "n \<notin> set cs" using a(1) chain(2) by (auto simp: used_def)
  have nb: "n < 0x0FFFFFF8" using a(4) small by (simp add: word_less_nat_alt)
  obtain t' where t': "put_fat (last cs) n t1 = Some t'"
    using is_chain_mem[OF ch(1), of "last cs"] ch(3) a(3) by (simp add: put_fat_def)
  have g: "get_fat t' d = (if d = last cs then Some n else if d = n then Some 0x0FFFFFFF else get_fat t d)" for d
    using get_put_fat[OF t'] a(2) by simp
  have ne: "last cs \<noteq> n" using n ch(3) by auto
  have "last cs \<notin> set (butlast cs)" using chain_distinct[OF ch(1)] ch(3) by (cases cs rule: rev_cases) auto
  hence "is_chain t' (cs @ [n])"
    using ch n nb ne by (intro is_chain_link[OF ch(1)]) (auto simp: fat_next_def g dest: in_set_butlastD)
  moreover have "is_chain t' ds \<and> n \<notin> set ds" if "is_chain t ds" "used t ds" "set ds \<inter> set cs = {}" for ds
  proof -
    have "n \<notin> set ds" using a(1) that(2) by (auto simp: used_def)
    moreover have "last cs \<notin> set ds" using that(3) last_in_set[OF ch(3)] by blast
    ultimately show ?thesis by (auto intro!: is_chain_cong[OF that(1)] simp: g)
  qed
  ultimately show ?thesis
    using al t' n ch by (auto simp: alloc_next_def set_next_def fat_chain_iff)
qed

theorem alloc_next_extends_witness:
  "\<exists>n t'. alloc_next 3 [0x0FFFFFF8, 0x0FFFFFFF, 3, 0x0FFFFFFF, 0] = Some (n, t') \<and> fat_chain t' 2 = Some [2, 3, n]"
proof -
  let ?t = "[0x0FFFFFF8, 0x0FFFFFFF, 3, 0x0FFFFFFF, 0] :: u32 list"
  have "fat_chain ?t 2 = Some [2, 3]" "used ?t [2, 3]"
    by (simp_all add: fat_chain_iff fat_next_def get_fat_def used_def)
  from alloc_next_extends[OF this] show ?thesis by auto
qed

section \<open>Growing and shrinking a file\<close>

lemma used_alloc:
  assumes "fat_alloc t = Some (n, t')" "length t \<le> 2 ^ 32" "used t cs" "is_chain t cs"
  shows "used t' cs" "is_chain t' cs" "n \<notin> set cs"
proof -
  note a = fat_alloc_spec[OF assms(1,2)]
  show n: "n \<notin> set cs" using a(1) assms(3) by (auto simp: used_def)
  show "used t' cs" using a(2) assms(3) by (simp add: used_def)
  show "is_chain t' cs" using n by (intro is_chain_cong[OF assms(4)]) (auto simp: a(2))
qed

lemma alloc_free_count:
  assumes "fat_alloc t = Some (n, t')" "length t \<le> 2 ^ 32"
  shows "free_cluster_count t = Suc (free_cluster_count t')"
proof -
  have f: "find_first_free t = Some n" "t' = t[unat n := 0x0FFFFFFF]"
    using assms(1) by (auto simp: fat_alloc_def put_fat_def bind_eq_Some_conv split: if_splits)
  note i = find_first_free_spec[OF f(1) assms(2)]
  let ?l = "take (unat n) t" and ?r = "drop (Suc (unat n)) t"
  have t: "t = ?l @ 0 # ?r" using i id_take_nth_drop[of "unat n" t] by simp
  have t': "t' = ?l @ 0x0FFFFFFF # ?r" using f(2) i by (simp add: upd_conv_take_nth_drop)
  have "free_cluster_count (l @ 0 # r) = Suc (free_cluster_count (l @ 0x0FFFFFFF # r))" for l r :: "u32 list"
    by (simp add: free_cluster_count_def)
  from this[of ?l ?r] show ?thesis unfolding t' using t by simp
qed

lemma alloc_push_run:
  assumes "n \<le> free_cluster_count t" "length t \<le> 2 ^ 32"
  shows "\<exists>new t'. alloc_push n (ch, t) = Some (ch @ new, t') \<and> length new = n \<and> length t' = length t \<and>
    (\<forall>cs. is_chain t cs \<and> used t cs \<longrightarrow> is_chain t' cs \<and> used t' cs \<and> set new \<inter> set cs = {}) \<and>
    (\<forall>d\<in>set new. is_chain t' [d])"
  using assms
proof (induction n arbitrary: ch t)
  case (Suc n)
  have "filter (\<lambda>v. v = 0) t \<noteq> []" using Suc.prems(1) by (auto simp: free_cluster_count_def)
  hence "0 \<in> set t" by (auto simp: filter_empty_conv)
  then obtain c t1 where a: "fat_alloc t = Some (c, t1)" using fat_alloc_total Suc.prems(2) by blast
  note s = fat_alloc_spec[OF a Suc.prems(2)]
  have "n \<le> free_cluster_count t1" "length t1 \<le> 2 ^ 32" using Suc.prems alloc_free_count[OF a] s(3) by simp_all
  from Suc.IH[OF this, of "ch @ [c]"] obtain new t' where r:
    "alloc_push n (ch @ [c], t1) = Some (ch @ c # new, t')" "length new = n" "length t' = length t1"
    "\<forall>cs. is_chain t1 cs \<and> used t1 cs \<longrightarrow> is_chain t' cs \<and> used t' cs \<and> set new \<inter> set cs = {}" "\<forall>d\<in>set new. is_chain t' [d]"
    by auto
  have c1: "is_chain t1 [c]" "used t1 [c]" by (simp_all add: fat_next_def s(2) used_def)
  have "alloc_push (Suc n) (ch, t) = Some (ch @ c # new, t')" using a r(1) by simp
  moreover have "\<forall>cs. is_chain t cs \<and> used t cs \<longrightarrow> is_chain t' cs \<and> used t' cs \<and> set (c # new) \<inter> set cs = {}"
    using r(4) used_alloc[OF a Suc.prems(2)] by auto
  moreover have "\<forall>d\<in>set (c # new). is_chain t' [d]" using r(5) r(4)[rule_format, OF conjI, OF c1] by simp
  ultimately show ?case using r(2,3) s(3) by (rule_tac exI[of _ "c # new"], rule_tac exI[of _ t']) simp
qed auto

text \<open>Growing a file (C27): the new clusters enter the chain of the open file, but no link to them enters the
  allocation table. There the file keeps its old chain, and each new cluster is a chain of its own.\<close>

theorem alloc_push_unlinked:
  assumes "fat_chain t c = Some cs" "used t cs" "n \<le> free_cluster_count t" "length t \<le> 2 ^ 32"
  shows "\<exists>new t'. alloc_push n (cs, t) = Some (cs @ new, t') \<and> length new = n \<and> set new \<inter> set cs = {} \<and>
    fat_chain t' c = Some cs \<and> (\<forall>d\<in>set new. fat_chain t' d = Some [d])"
  using alloc_push_run[OF assms(3,4), of cs] assms(1,2) by (auto simp: fat_chain_iff)

theorem alloc_push_unlinked_witness:
  "\<exists>new t'. alloc_push 2 ([2], [0x0FFFFFF8, 0x0FFFFFFF, 0x0FFFFFFF, 0, 0]) = Some (2 # new, t') \<and> length new = 2 \<and>
     fat_chain t' 2 = Some [2]"
proof -
  let ?t = "[0x0FFFFFF8, 0x0FFFFFFF, 0x0FFFFFFF, 0, 0] :: u32 list"
  have "fat_chain ?t 2 = Some [2]" "used ?t [2]" "2 \<le> free_cluster_count ?t" "length ?t \<le> 2 ^ 32"
    by (simp_all add: fat_chain_iff fat_next_def get_fat_def used_def free_cluster_count_def)
  from alloc_push_unlinked[OF this] show ?thesis by auto
qed

text \<open>Shrinking frees the clusters but keeps the link of the last remaining one.\<close>

lemma free_pop_keeps_link:
  assumes "is_chain t (cs @ [a, b])" "free_pop 1 (cs @ [a, b], t) = Some (ch, t')"
  shows "ch = cs @ [a]" "fat_next t' a = Some (Some b)" "get_fat t' b = Some 0"
proof -
  have "a \<noteq> b" using chain_distinct[OF assms(1)] by simp
  moreover have "fat_next t a = Some (Some b)" using is_chain_suffix[OF assms(1)] by simp
  moreover have "put_fat b 0 t = Some t'" "ch = cs @ [a]"
    using assms(2) by (auto simp: fat_free_def last_of_def bind_eq_Some_conv butlast_append)
  ultimately show "ch = cs @ [a]" "fat_next t' a = Some (Some b)" "get_fat t' b = Some 0"
    using get_put_fat[of b 0 t t'] by (simp_all add: fat_next_def)
qed

end
