(* ===== verification/Fat_Sectors.thy ===== *)
theory Fat_Sectors
  imports Fat_Chain
begin

text \<open>
  The sectors of a file. \<open>fs_ok\<close> is what mounting establishes of the geometry of a volume; under it, the sectors
  of a cluster chain form one list, \<open>offset_sct\<close> indexes that list, and \<open>next_sector\<close> steps through it. Reading
  and writing pages of a file then mean reading and writing a part of the list of its bytes.
\<close>

section \<open>Geometry\<close>

definition fs_ok :: "'d Fat32FS \<Rightarrow> bool" where
  "fs_ok fs \<longleftrightarrow> unat (log_cls_size_sct fs) \<le> 7 \<and> unat (cluster_size_sct fs) = 2 ^ unat (log_cls_size_sct fs) \<and>
     unat (data_begin_sct fs) < 2 ^ 48"

abbreviation cls :: "'d Fat32FS \<Rightarrow> nat" where
  "cls fs \<equiv> 2 ^ unat (log_cls_size_sct fs)"

definition sct_no :: "'d Fat32FS \<Rightarrow> u32 \<Rightarrow> nat \<Rightarrow> nat" where
  "sct_no fs c k = unat (data_begin_sct fs) + (unat c - 2) * cls fs + k"

lemma cls_le: "fs_ok fs \<Longrightarrow> cls fs \<le> 128"
  using power_increasing[of "unat (log_cls_size_sct fs)" 7 "2::nat"] by (simp add: fs_ok_def)

lemma sct_no_bound:
  assumes "fs_ok fs" "k < cls fs"
  shows "sct_no fs c k < 2 ^ 49"
proof -
  have "unat c - 2 < 2 ^ 32" using unat_lt2p[of c] by simp
  hence "(unat c - 2) * cls fs \<le> 2 ^ 32 * 128" using cls_le[OF assms(1)] by (intro mult_mono) simp_all
  thus ?thesis using assms cls_le[OF assms(1)] by (simp add: sct_no_def fs_ok_def)
qed

lemma unat_sct_no: "fs_ok fs \<Longrightarrow> k < cls fs \<Longrightarrow> unat (word_of_nat (sct_no fs c k) :: u64) = sct_no fs c k"
  using sct_no_bound[of fs k c] by (intro unat_word_of_nat) simp

lemma unat_ucast_up: "LENGTH('a) \<le> LENGTH('b) \<Longrightarrow> unat (ucast (x :: 'a::len word) :: 'b::len word) = unat x"
  by (simp add: unsigned_ucast_eq take_bit_nat_eq_self_iff order_less_le_trans[OF unat_lt2p])

lemma umul_unat: "unat x = a \<Longrightarrow> unat y = b \<Longrightarrow> a * b < 2 ^ LENGTH('a) \<Longrightarrow> umul x (y :: 'a::len word) = Some (word_of_nat (a * b))"
  by (auto simp: umul_def)

lemma uadd_unat: "unat x = a \<Longrightarrow> unat y = b \<Longrightarrow> a + b < 2 ^ LENGTH('a) \<Longrightarrow> uadd x (y :: 'a::len word) = Some (word_of_nat (a + b))"
  by (auto simp: uadd_def)

lemma usub_unat: "unat x = a \<Longrightarrow> unat y = b \<Longrightarrow> b \<le> a \<Longrightarrow> usub x (y :: 'a::len word) = Some (word_of_nat (a - b))"
  by (auto simp: usub_def word_le_nat_alt)

lemma first_sector_eq:
  assumes ok: "fs_ok fs" and c: "2 \<le> unat c"
  shows "first_sector fs c = Some (word_of_nat (sct_no fs c 0))"
proof -
  have u: "unat (word_of_nat (unat c - 2) :: u64) = unat c - 2"
    by (rule unat_word_of_nat) (use unat_lt2p[of c] in simp)
  have b: "(unat c - 2) * cls fs < 2 ^ 64" "unat (data_begin_sct fs) + (unat c - 2) * cls fs < 2 ^ 64"
    using sct_no_bound[OF ok, of 0 c] by (simp_all add: sct_no_def)
  have "usub (ucast c :: u64) 2 = Some (word_of_nat (unat c - 2))" using c by (intro usub_unat) (simp_all add: unat_ucast_up)
  moreover have "umul (word_of_nat (unat c - 2)) (ucast (cluster_size_sct fs) :: u64) = Some (word_of_nat ((unat c - 2) * cls fs))"
    using ok b(1) by (intro umul_unat u) (simp_all add: unat_ucast_up fs_ok_def)
  moreover have "uadd (data_begin_sct fs) (word_of_nat ((unat c - 2) * cls fs)) =
      Some (word_of_nat (unat (data_begin_sct fs) + (unat c - 2) * cls fs))"
    using b by (intro uadd_unat refl unat_word_of_nat) simp_all
  ultimately show ?thesis unfolding first_sector_def sct_no_def by (simp del: of_nat_add of_nat_mult)
qed

lemma not_push_mask: "NOT (push_bit n (NOT 0)) = (mask n :: 'a::len word)"
  by (rule bit_word_eqI) (simp add: bit_simps)

lemma and_not_push_mask: "(x :: 'a::len word) AND NOT (push_bit n (NOT 0)) = take_bit n x"
  by (simp only: not_push_mask take_bit_eq_mask)

lemma unat_drop_bit: "unat (drop_bit n (x :: 'a::len word)) = unat x div 2 ^ n"
  by (rule bit_eqI) (auto simp: bit_simps drop_bit_eq_div[symmetric] dest: bit_imp_le_length)

lemma unat_take_bit: "unat (take_bit n (x :: 'a::len word)) = unat x mod 2 ^ n"
  by (simp only: unsigned_take_bit_eq) (simp only: take_bit_eq_mod)

text \<open>The part of a sector number that is below the start of the data area is subtracted exactly.\<close>

lemma relative_sector:
  assumes "fs_ok fs" "k < cls fs"
  shows "usub (word_of_nat (sct_no fs c k)) (data_begin_sct fs) = Some (word_of_nat ((unat c - 2) * cls fs + k))"
    "unat (word_of_nat ((unat c - 2) * cls fs + k) :: u64) = (unat c - 2) * cls fs + k"
proof -
  show u: "unat (word_of_nat ((unat c - 2) * cls fs + k) :: u64) = (unat c - 2) * cls fs + k"
    using sct_no_bound[OF assms, of c] by (intro unat_word_of_nat) (simp add: sct_no_def)
  show "usub (word_of_nat (sct_no fs c k)) (data_begin_sct fs) = Some (word_of_nat ((unat c - 2) * cls fs + k))"
    using unat_sct_no[OF assms] u
    by (simp add: usub_def word_le_nat_alt word_unat_eq_iff unat_sub_if' sct_no_def)
qed

lemma sector_cluster:
  fixes c :: u32
  assumes "fs_ok fs" "k < cls fs" "2 \<le> unat c"
  shows "uadd (drop_bit (unat (log_cls_size_sct fs)) (word_of_nat ((unat c - 2) * cls fs + k) :: u64)) 2 = Some (ucast c)"
proof -
  have "unat (drop_bit (unat (log_cls_size_sct fs)) (word_of_nat ((unat c - 2) * cls fs + k) :: u64)) = unat c - 2"
    unfolding unat_drop_bit relative_sector(2)[OF assms(1,2)] using assms(2) by simp
  hence "uadd (drop_bit (unat (log_cls_size_sct fs)) (word_of_nat ((unat c - 2) * cls fs + k) :: u64)) 2 =
      Some (word_of_nat (unat c - 2 + 2))"
    using unat_lt2p[of c] by (intro uadd_unat) simp_all
  moreover have "word_of_nat (unat c - 2 + 2) = (ucast c :: u64)" using assms(3) by simp
  ultimately show ?thesis by (simp only:)
qed

lemma ucast_back: "ucast (ucast (c :: u32) :: u64) = c"
  by (rule bit_word_eqI) (simp add: bit_simps)

text \<open>\<open>find_cluster\<close> inverts \<open>first_sector\<close> on every sector of the cluster.\<close>

lemma find_cluster_eq:
  assumes "fs_ok fs" "k < cls fs" "2 \<le> unat c"
  shows "find_cluster fs (word_of_nat (sct_no fs c k)) = Some c"
proof -
  have "ucast (ucast c :: u64) = c" by (rule ucast_back)
  thus ?thesis using relative_sector(1)[OF assms(1,2)] sector_cluster[OF assms] by (simp add: find_cluster_def)
qed

lemma next_sector_eq:
  assumes ok: "fs_ok fs" and k: "k < cls fs" and c: "2 \<le> unat c"
  shows "next_sector fs (word_of_nat (sct_no fs c k)) =
    (if Suc k < cls fs then Some (Some (word_of_nat (sct_no fs c (Suc k))))
     else do { n \<leftarrow> fat_next (fat fs) c; case n of None \<Rightarrow> Some None | Some d \<Rightarrow> do { s \<leftarrow> first_sector fs d; Some (Some s) } })"
proof -
  let ?l = "unat (log_cls_size_sct fs)" and ?r = "word_of_nat ((unat c - 2) * cls fs + k) :: u64"
  have l: "?l \<le> 7" using ok by (simp add: fs_ok_def)
  have t: "unat (take_bit ?l ?r) = k" unfolding unat_take_bit relative_sector(2)[OF ok k] using k by simp
  have "unat (push_bit ?l 1 - 1 :: u64) = cls fs - 1"
  proof -
    have "unat (word_of_nat (cls fs - 1) :: u64) = cls fs - 1" using cls_le[OF ok] by (intro unat_word_of_nat) simp
    moreover have "word_of_nat (cls fs - 1) = (push_bit ?l 1 - 1 :: u64)" by (simp add: of_nat_diff push_bit_of_1)
    ultimately show ?thesis by (simp only:)
  qed
  hence e: "?r AND NOT (push_bit ?l (NOT 0)) = push_bit ?l 1 - 1 \<longleftrightarrow> \<not> Suc k < cls fs"
    using k t unfolding and_not_push_mask by (auto simp: word_unat_eq_iff)
  have c64: "ucast (ucast c :: u64) = c" by (rule ucast_back)
  have s: "uadd (word_of_nat (sct_no fs c k) :: u64) 1 = Some (word_of_nat (sct_no fs c (Suc k)))"
    using sct_no_bound[OF ok k, of c] unat_sct_no[OF ok k, of c] by (simp add: uadd_def sct_no_def)
  show ?thesis
    unfolding next_sector_def Let_def relative_sector(1)[OF ok k] Option.bind.bind_lunit sector_cluster[OF ok k c] e
    using c64 s by simp
qed

section \<open>The sectors of a chain\<close>

definition sectors :: "'d Fat32FS \<Rightarrow> u32 list \<Rightarrow> u64 list" where
  "sectors fs cs = concat (map (\<lambda>c. map (\<lambda>k. word_of_nat (sct_no fs c k)) [0..<cls fs]) cs)"

lemma length_sectors [simp]: "length (sectors fs cs) = length cs * cls fs"
  by (induction cs) (simp_all add: sectors_def)

lemma nth_sectors:
  "i < length cs * cls fs \<Longrightarrow> sectors fs cs ! i = word_of_nat (sct_no fs (cs ! (i div cls fs)) (i mod cls fs))"
proof (induction cs arbitrary: i)
  case (Cons c cs)
  show ?case
  proof (cases "i < cls fs")
    case False
    hence "i - cls fs < length cs * cls fs" "i div cls fs = Suc ((i - cls fs) div cls fs)" "(i - cls fs) mod cls fs = i mod cls fs"
      using Cons.prems by (simp_all add: le_div_geq le_mod_geq)
    thus ?thesis using Cons.IH[of "i - cls fs"] False by (simp add: sectors_def nth_append)
  qed (simp add: sectors_def nth_append)
qed simp

lemma is_chain_nth:
  "is_chain t cs \<Longrightarrow> j < length cs \<Longrightarrow> fat_next t (cs ! j) = Some (if Suc j < length cs then Some (cs ! Suc j) else None)"
proof (induction cs arbitrary: j)
  case (Cons c cs)
  thus ?case by (cases j) (auto simp: is_chain_Cons hd_conv_nth split: if_splits)
qed simp

text \<open>A chain of a well-formed volume.\<close>

definition chain_ok :: "'d Fat32FS \<Rightarrow> u32 list \<Rightarrow> bool" where
  "chain_ok fs cs \<longleftrightarrow> fs_ok fs \<and> is_chain (fat fs) cs \<and> (\<forall>c\<in>set cs. 2 \<le> unat c) \<and> length cs * cls fs * 512 < 2 ^ 64"

lemma next_walk:
  assumes "chain_ok fs cs" "i < length cs * cls fs"
  shows "next_sector fs (sectors fs cs ! i) = Some (if Suc i < length cs * cls fs then Some (sectors fs cs ! Suc i) else None)"
proof -
  let ?n = "cls fs" let ?j = "i div ?n" and ?k = "i mod ?n"
  have ok: "fs_ok fs" "is_chain (fat fs) cs" and j: "?j < length cs" using assms by (simp_all add: chain_ok_def less_mult_imp_div_less)
  have c: "2 \<le> unat (cs ! ?j)" using assms(1) j by (simp add: chain_ok_def)
  have k: "?k < ?n" by simp
  note nx = next_sector_eq[OF ok(1) k c]
  show ?thesis
  proof (cases "Suc ?k < ?n")
    case True
    hence d: "Suc i div ?n = ?j" "Suc i mod ?n = Suc ?k" using mod_Suc[of i ?n] div_Suc[of i ?n] by simp_all
    have "Suc i < length cs * ?n"
      using d(1) j by (metis div_less_iff_less_mult zero_less_numeral zero_less_power)
    thus ?thesis using nx True d by (simp add: nth_sectors assms(2))
  next
    case False
    hence ke: "Suc ?k = ?n" using k by linarith
    hence d: "Suc i div ?n = Suc ?j" "Suc i mod ?n = 0" using mod_Suc[of i ?n] div_Suc[of i ?n] by simp_all
    have e: "Suc i < length cs * ?n \<longleftrightarrow> Suc ?j < length cs"
      using d(1) by (metis div_less_iff_less_mult zero_less_numeral zero_less_power)
    have "first_sector fs (cs ! Suc ?j) = Some (word_of_nat (sct_no fs (cs ! Suc ?j) 0))" if "Suc ?j < length cs"
      using that assms(1) by (intro first_sector_eq[OF ok(1)]) (simp add: chain_ok_def)
    thus ?thesis using nx False d e is_chain_nth[OF ok(2) j] by (auto simp: nth_sectors assms(2))
  qed
qed

lemma offset_sct_eq:
  assumes "chain_ok fs cs" "unat off div 512 < length cs * cls fs"
  shows "offset_sct fs cs off = Some (sectors fs cs ! (unat off div 512), word_of_nat (unat off mod 512))"
proof -
  let ?l = "unat (log_cls_size_sct fs)" let ?n = "cls fs" let ?i = "unat off div 512"
  let ?j = "?i div ?n" and ?k = "?i mod ?n"
  have ok: "fs_ok fs" and j: "?j < length cs" using assms by (simp_all add: chain_ok_def less_mult_imp_div_less)
  have c: "2 \<le> unat (cs ! ?j)" using assms(1) j by (simp add: chain_ok_def)
  have p: "(2::nat) ^ (?l + 9) = 512 * ?n" by (simp add: power_add)
  have ci: "unat (drop_bit (?l + 9) off) = ?j" unfolding unat_drop_bit p by (simp add: div_mult2_eq)
  have co: "unat (take_bit (?l + 9) off) = 512 * ?k + unat off mod 512" unfolding unat_take_bit p by (simp add: mod_mult2_eq)
  have si: "unat (drop_bit 9 (take_bit (?l + 9) off)) = ?k" unfolding unat_drop_bit co by simp
  have so: "unat (take_bit 9 (take_bit (?l + 9) off)) = unat off mod 512" unfolding unat_take_bit[of 9] co by simp
  have "uadd (word_of_nat (sct_no fs (cs ! ?j) 0)) (drop_bit 9 (take_bit (?l + 9) off)) =
      Some (word_of_nat (sct_no fs (cs ! ?j) 0 + ?k))"
    using sct_no_bound[OF ok, of ?k "cs ! ?j"] by (intro uadd_unat si unat_sct_no[OF ok]) (simp_all add: sct_no_def)
  moreover have "sct_no fs (cs ! ?j) 0 + ?k = sct_no fs (cs ! ?j) ?k" by (simp add: sct_no_def)
  moreover have "ucast (take_bit 9 (take_bit (?l + 9) off)) = (word_of_nat (unat off mod 512) :: u16)"
  proof -
    have "word_of_nat (unat x) = (ucast x :: u16)" for x :: u64 by simp
    from this[of "take_bit 9 (take_bit (?l + 9) off)"] show ?thesis unfolding so by (simp only:)
  qed
  ultimately show ?thesis
    unfolding offset_sct_def Let_def and_not_push_mask ci using j first_sector_eq[OF ok c]
    by (simp add: nth_sectors assms(2))
qed

text \<open>Walking and indexing agree: from the sector at some offset of a file, \<open>next_sector\<close> gives the sector that
  \<open>offset_sct\<close> gives 512 bytes further on, and nothing at the end of the chain.\<close>

theorem sector_walk:
  assumes chain: "chain_ok fs cs" and i: "i < length cs * cls fs"
  shows "\<exists>s. offset_sct fs cs (word_of_nat (512 * i)) = Some (s, 0) \<and>
    next_sector fs s = (if Suc i < length cs * cls fs
      then do { (s', _) \<leftarrow> offset_sct fs cs (word_of_nat (512 * Suc i)); Some (Some s') } else Some None)"
proof -
  have o: "offset_sct fs cs (word_of_nat (512 * j)) = Some (sectors fs cs ! j, 0)" if j: "j < length cs * cls fs" for j
  proof -
    have "512 * j < 2 ^ 64" using chain j by (simp add: chain_ok_def)
    hence u: "unat (word_of_nat (512 * j) :: u64) = 512 * j" by (intro unat_word_of_nat) simp
    show ?thesis using offset_sct_eq[OF chain, of "word_of_nat (512 * j)"] j unfolding u by simp
  qed
  show ?thesis using o[OF i] next_walk[OF chain i] o[of "Suc i"] by auto
qed

text \<open>A volume of two-sector clusters; the file has the clusters 3 and 5.\<close>

definition demo_fs :: "(u64 \<Rightarrow> nat \<Rightarrow> u8) Fat32FS" where
  "demo_fs = \<lparr>blk_dev = (\<lambda>b i. ucast b + word_of_nat i), blk_cache = [], fat_begins = [32],
     fat = [0x0FFFFFF8, 0x0FFFFFFF, 0x0FFFFFFF, 5, 0, 0x0FFFFFFF, 0], device_id = 1, cluster_size_byte = 1024,
     cluster_size_sct = 2, log_cls_size_sct = 1, data_begin_sct = 100, root_id_cls = 2\<rparr>"

lemma demo_chain: "chain_ok demo_fs [3, 5]"
  by (simp add: chain_ok_def fs_ok_def demo_fs_def fat_next_def get_fat_def)

theorem sector_walk_witness:
  "\<exists>s. offset_sct demo_fs [3, 5] 512 = Some (s, 0) \<and> next_sector demo_fs s = Some (Some 106)"
proof -
  have l: "cls demo_fs = 2" by (simp add: demo_fs_def)
  have "sectors demo_fs [3, 5] ! 2 = 106" 
    using nth_sectors[of 2 "[3, 5]" demo_fs] by (simp add: l) (simp add: sct_no_def demo_fs_def)
  hence "offset_sct demo_fs [3, 5] (word_of_nat (512 * Suc 1)) = Some (106, 0)"
    using offset_sct_eq[OF demo_chain, of "word_of_nat (512 * Suc 1)"] l by simp
  thus ?thesis using sector_walk[OF demo_chain, of 1] l by auto
qed

section \<open>Mounting\<close>

lemma int_log2_pow: "int_log2 x = Some l \<Longrightarrow> unat l \<le> 7 \<and> unat x = 2 ^ unat l"
  by (auto simp: int_log2_def split: if_splits)

lemma case_sum_Inr:
  "(case x of Inl e \<Rightarrow> Some (Inl (g e)) | Inr t \<Rightarrow> f t) = Some (Inr v) \<longleftrightarrow> (\<exists>t. x = Inr t \<and> f t = Some (Inr v))"
  by (cases x) auto

lemma read_fat_length: "read_fat D dev first n = Some (Inr t) \<Longrightarrow> length t = 128 * n"
proof (induction n arbitrary: t)
  case (Suc n)
  then obtain l where l: "read_fat D dev first n = Some l" by (auto simp: bind_eq_Some_conv)
  show ?case
  proof (cases l)
    case (Inr t0)
    then obtain b where "uadd first (word_of_nat n) = Some b" using Suc.prems l by (auto simp: bind_eq_Some_conv)
    thus ?thesis using Suc.prems Suc.IH[of t0] l Inr by (cases "read_block D dev b") auto
  qed (use Suc.prems l in simp)
qed simp

text \<open>A volume that mounts has a geometry within the bounds (C28): a power of two of sectors per cluster, at most
  4096 bytes in all, and a data area that starts below sector \<open>2 ^ 48\<close>. The table in memory has four times as
  many entries as the table on the disk, and only the first quarter of them was read.\<close>

theorem mount_geometry:
  assumes "fat32_new D junk dev = Some (Inr fs)"
  shows "fs_ok fs \<and> unat (cluster_size_byte fs) = 512 * cls fs \<and> cls fs \<le> 8 \<and>
    (\<exists>first t n. read_fat D dev first n = Some (Inr t) \<and> length t = 128 * n \<and>
      length (fat fs) = 512 * n \<and> take (128 * n) (fat fs) = t)"
proof -
  obtain br ssb csb rs fc fsz l csz main t fats db where b:
    "read_block D dev 0 = Inr br" "umul (ucast csz) (ssb :: u16) = Some csb" "unat ssb = 512" "unat csb \<le> unat PAGE_SIZE" "int_log2 csz = Some l"
    "read_fat D dev (ucast (rs :: u16)) (unat fsz) = Some (Inr t)" "umul (ucast (fc :: u8)) (ucast (fsz :: u32)) = Some fats"
    "uadd (ucast rs) fats = Some db" "log_cls_size_sct fs = l" "cluster_size_sct fs = ucast csz" "data_begin_sct fs = db"
    "cluster_size_byte fs = ucast csb" "fat fs = t @ map junk [128 * unat fsz..<512 * unat fsz]"
    using assms
    by (auto simp: fat32_new_def bind_eq_Some_conv Let_def case_sum_Inr split: if_split_asm)
  have g: "unat (ucast csz :: u32) = unat csz" "unat (ucast csb :: u32) = unat csb" "unat (ucast rs :: u64) = unat rs"
    "unat (ucast fc :: u64) = unat fc" "unat (ucast fsz :: u64) = unat fsz" "unat (ucast csz :: u16) = unat csz"
    by (simp_all add: unat_ucast_up)
  have lg: "unat l \<le> 7" "unat csz = 2 ^ unat l" using int_log2_pow[OF b(5)] by simp_all
  have "unat csb = 512 * 2 ^ unat l" using unat_umul[OF b(2)] b(3) lg(2) g(6) by simp
  moreover have "unat csb \<le> 4096" using b(4) by (simp add: PAGE_SIZE_def)
  moreover have "unat db = unat rs + unat fc * unat fsz" using unat_uadd[OF b(8)] unat_umul[OF b(7)] g by simp
  moreover have "unat fc * unat fsz \<le> 2 ^ 8 * 2 ^ 32"
    using unat_lt2p[of fc] unat_lt2p[of fsz] by (intro mult_mono) simp_all
  moreover have "unat rs < 2 ^ 16" using unat_lt2p[of rs] by simp
  ultimately have "fs_ok fs \<and> unat (cluster_size_byte fs) = 512 * cls fs \<and> cls fs \<le> 8"
    using lg g b(9-12) by (simp add: fs_ok_def)
  thus ?thesis using read_fat_length[OF b(6)] b(6,13) by auto
qed

text \<open>A disk in memory.\<close>

definition ram_content :: "(u64 \<Rightarrow> nat \<Rightarrow> u8) \<Rightarrow> u64 \<Rightarrow> u8 list" where
  "ram_content d b = map (d b) [0..<512]"

definition ram_ops :: "(u64 \<Rightarrow> nat \<Rightarrow> u8) blk_ops" where
  "ram_ops = \<lparr>read_block = (\<lambda>d b. Inr (ram_content d b)), write_block = (\<lambda>b bs d. (Inr (), d(b := nth bs)))\<rparr>"

definition boot_byte :: "nat \<Rightarrow> u8" where
  "boot_byte i = (if i \<in> {0x0C, 0x2C} then 2 else if i \<in> {0x0D, 0x0E, 0x10, 0x24} then 1 else 0)"

definition boot_sector :: "u8 list" where
  "boot_sector = map boot_byte [0..<512]"

lemma boot_parse:
  assumes "i + n \<le> 512"
  shows "parse_le n boot_sector i =
    Some (from_le (map boot_byte [i..<i + n]))"
  using assms by (simp add: parse_le_def boot_sector_def take_map drop_map del: upt_rec_numeral)

lemma boot_fields:
  "parse_le 2 boot_sector 0x0B = Some (0x200 :: u16)" "parse_le 1 boot_sector 0x0D = Some (1 :: u8)"
  "parse_le 2 boot_sector 0x0E = Some (1 :: u16)" "parse_le 1 boot_sector 0x10 = Some (1 :: u8)"
  "parse_le 4 boot_sector 0x24 = Some (1 :: u32)" "parse_le 4 boot_sector 0x2C = Some (2 :: u32)" "length boot_sector = 512"
  by (subst boot_parse; simp add: boot_byte_def)+ (simp add: boot_sector_def del: upt_rec_numeral)

lemma boot_fat: "read_fat ram_ops (\<lambda>_. boot_byte) 1 1 = Some (Inr (map (\<lambda>j. from_le (take 4 (drop (4 * j) boot_sector))) [0..<128]))"
  by (simp add: ram_ops_def ram_content_def boot_sector_def uadd_def del: upt_rec_numeral)

theorem mount_geometry_witness:
  "\<exists>fs. fat32_new ram_ops (\<lambda>_. 0) (\<lambda>_. boot_byte) = Some (Inr fs) \<and> fs_ok fs \<and> cls fs \<le> 8"
proof -
  have r: "read_block ram_ops (\<lambda>_. boot_byte) b = Inr boot_sector" for b by (simp add: ram_ops_def ram_content_def boot_sector_def)
  have f: "[0..<1] = [0]" by simp
  have "case fat32_new ram_ops (\<lambda>_. 0) (\<lambda>_. boot_byte) of Some (Inr _) \<Rightarrow> True | _ \<Rightarrow> False"
    unfolding fat32_new_def r
    by (simp add: boot_fields boot_fat umul_def uadd_def int_log2_def PAGE_SIZE_def Let_def f del: upt_rec_numeral One_nat_def)
  then obtain fs where m: "fat32_new ram_ops (\<lambda>_. 0) (\<lambda>_. boot_byte) = Some (Inr fs)"
    by (auto split: option.splits sum.splits)
  show ?thesis by (rule exI[of _ fs]) (use m mount_geometry[OF m] in simp)
qed

end
