(* ===== verification/Fat_Pages.thy ===== *)
theory Fat_Pages
  imports Fat_Sectors
begin

text \<open>
  Reading and writing the pages of a FAT32 file. \<open>blk_ok\<close> is what the file system relies on of its block device:
  blocks of 512 bytes that keep what was last written to them. Over such a device the bytes of a file are those of
  its sectors in order, \<open>read_page_at\<close> returns a part of them and \<open>write_page_at\<close> replaces a part of them.
\<close>

section \<open>The device and the bytes of a file\<close>

definition blk_ok :: "'d blk_ops \<Rightarrow> ('d \<Rightarrow> u64 \<Rightarrow> u8 list) \<Rightarrow> bool" where
  "blk_ok D content \<longleftrightarrow> (\<forall>d b. read_block D d b = Inr (content d b) \<and> length (content d b) = 512 \<and>
     (\<forall>bs. length bs = 512 \<longrightarrow> (\<exists>d'. write_block D b bs d = (Inr (), d') \<and> content d' = (content d)(b := bs))))"

definition file_bytes :: "('d \<Rightarrow> u64 \<Rightarrow> u8 list) \<Rightarrow> 'd Fat32FS \<Rightarrow> u32 list \<Rightarrow> u8 list" where
  "file_bytes content fs cs = concat (map (content (blk_dev fs)) (sectors fs cs))"

lemma read_noc_ok: "blk_ok D content \<Longrightarrow> read_noc D b fs = Some (Inr (content (blk_dev fs) b), fs)"
  by (simp add: read_noc_def blk_ok_def)

lemma write_noc_ok:
  assumes "blk_ok D content" "length bs = 512"
  shows "\<exists>d'. write_noc D b bs fs = Some (Inr (), fs\<lparr>blk_dev := d'\<rparr>) \<and> content d' = (content (blk_dev fs))(b := bs)"
proof -
  obtain d' where "write_block D b bs (blk_dev fs) = (Inr (), d')" "content d' = (content (blk_dev fs))(b := bs)"
    using assms unfolding blk_ok_def by blast
  thus ?thesis by (auto simp: write_noc_def)
qed

lemma content_length: "blk_ok D content \<Longrightarrow> length (content d b) = 512"
  by (simp add: blk_ok_def)

lemma read_sector_ok:
  "blk_ok D content \<Longrightarrow> len \<le> 512 \<Longrightarrow> read_sector D b len fs = Some (Inr (take len (content (blk_dev fs) b)), fs)"
  using content_length[of D content "blk_dev fs" b] by (auto simp: read_sector_def read_noc_ok sys_bind_def)

lemma write_sector_ok:
  assumes "blk_ok D content" "length bs \<le> 512"
  shows "\<exists>d'. write_sector D b bs fs = Some (Inr (), fs\<lparr>blk_dev := d'\<rparr>) \<and>
    content d' = (content (blk_dev fs))(b := bs @ drop (length bs) (content (blk_dev fs) b))"
proof (cases "length bs = 512")
  case True
  thus ?thesis using write_noc_ok[OF assms(1) True, of b fs] content_length[OF assms(1), of "blk_dev fs" b]
    by (simp add: write_sector_def)
next
  case False
  have "length (bs @ drop (length bs) (content (blk_dev fs) b)) = 512"
    using assms(2) content_length[OF assms(1)] by simp
  from write_noc_ok[OF assms(1) this, of b fs] show ?thesis
    using False assms by (auto simp: write_sector_def read_noc_ok sys_bind_def)
qed

lemma concat_drop_step: "i < length xs \<Longrightarrow> concat (map f (drop i xs)) = f (xs ! i) @ concat (map f (drop (Suc i) xs))"
  by (simp add: Cons_nth_drop_Suc[symmetric])

lemma drop_concat_sectors:
  "(\<And>x. x \<in> set xs \<Longrightarrow> length (f x) = 512) \<Longrightarrow> i \<le> length xs \<Longrightarrow> drop (512 * i) (concat (map f xs)) = concat (map f (drop i xs))"
proof (induction i arbitrary: xs)
  case (Suc i)
  thus ?case by (cases xs) auto
qed simp

section \<open>Reading\<close>

lemma read_loop_run:
  assumes ok: "blk_ok D content" "chain_ok fs cs"
  shows "i < length cs * cls fs \<Longrightarrow> read_loop D n r (sectors fs cs ! i) fs =
    Some (Inr (take (min n r) (concat (map (content (blk_dev fs)) (drop i (sectors fs cs))))), fs)"
proof (induction n arbitrary: i r rule: less_induct)
  case (less n)
  let ?s = "sectors fs cs" and ?c = "content (blk_dev fs)" let ?len = "min (min n r) 512"
  have i: "i < length ?s" using less.prems by simp
  have l: "length (?c (?s ! i)) = 512" using content_length[OF ok(1)] .
  have rd: "read_sector D (?s ! i) ?len fs = Some (Inr (take ?len (?c (?s ! i))), fs)"
    by (rule read_sector_ok[OF ok(1)]) simp
  have nx: "next_sector fs (?s ! i) = Some (if Suc i < length cs * cls fs then Some (?s ! Suc i) else None)"
    using next_walk[OF ok(2) less.prems] .
  have all: "concat (map ?c (drop i ?s)) = ?c (?s ! i) @ concat (map ?c (drop (Suc i) ?s))" using concat_drop_step[OF i] .
  show ?case
  proof (cases "Suc i < length cs * cls fs \<and> 512 < n \<and> 512 < r")
    case True
    have "read_loop D (n - 512) (r - 512) (?s ! Suc i) fs =
        Some (Inr (take (min (n - 512) (r - 512)) (concat (map ?c (drop (Suc i) ?s)))), fs)"
      using less.IH[of "n - 512" "Suc i" "r - 512"] True by simp
    moreover have "?len = 512" "min (n - 512) (r - 512) = min n r - 512" using True by auto
    ultimately show ?thesis using True rd nx l
      by (subst read_loop.simps) (simp add: all sys_bind_def Let_def)
  next
    case False
    hence "\<not> Suc i < length cs * cls fs \<or> min n r \<le> 512" by linarith
    hence "take (min n r) (concat (map ?c (drop i ?s))) = take ?len (?c (?s ! i))"
      using l all by (auto simp: min_def)
    moreover have "Suc i < length cs * cls fs \<Longrightarrow> r - ?len = 0 \<or> n - ?len = 0" using False by auto
    ultimately show ?thesis using rd nx by (subst read_loop.simps) (simp add: sys_bind_def Let_def)
  qed
qed

text \<open>Reading a page (C24): \<open>read_page_at\<close> returns exactly the bytes of the file from the offset on, as far as the
  buffer and the file go, and changes nothing.\<close>

theorem read_page_at_spec:
  assumes ok: "blk_ok D content" "chain_ok fs (f_chain f)"
    and page: "unat offset mod 512 = 0" "n mod 512 = 0"
    and size: "unat (file_size f) \<le> length (f_chain f) * cls fs * 512"
  shows "read_page_at D f offset n fs =
    Some (Inr (take n (drop (unat offset) (take (unat (file_size f)) (file_bytes content fs (f_chain f))))), fs)"
proof (cases "offset \<ge> file_size f")
  case True
  hence "length (take (unat (file_size f)) (file_bytes content fs (f_chain f))) \<le> unat offset" by (simp add: word_le_nat_alt)
  thus ?thesis using True page by (simp add: read_page_at_def)
next
  case False
  let ?i = "unat offset div 512" let ?s = "sectors fs (f_chain f)" and ?c = "content (blk_dev fs)"
  have lt: "unat offset < unat (file_size f)" using False by (simp add: word_le_nat_alt)
  have i: "?i < length (f_chain f) * cls fs" using lt size by linarith
  have o: "512 * ?i = unat offset" using page(1) by auto
  have d: "drop (unat offset) (file_bytes content fs (f_chain f)) = concat (map ?c (drop ?i ?s))"
    using drop_concat_sectors[of ?s ?c ?i] content_length[OF ok(1)] i unfolding o file_bytes_def by simp
  have "unat (file_size f - offset) = unat (file_size f) - unat offset" using False by (intro unat_sub) simp
  hence "read_page_at D f offset n fs =
      Some (Inr (take (min n (unat (file_size f) - unat offset)) (concat (map ?c (drop ?i ?s)))), fs)"
    using False page offset_sct_eq[OF ok(2) i] read_loop_run[OF ok i] by (simp add: read_page_at_def)
  thus ?thesis by (simp add: drop_take d)
qed

text \<open>The disk in memory satisfies the contract; the file of 1500 bytes in clusters 3 and 5.\<close>

lemma ram_blk_ok: "blk_ok ram_ops ram_content"
proof -
  have "ram_content (d(b := nth bs)) = (ram_content d)(b := bs)" if "length bs = 512" for d b and bs :: "u8 list"
  proof
    fix x
    have "map (nth bs) [0..<512] = bs" using map_nth[of bs] unfolding that .
    thus "ram_content (d(b := nth bs)) x = ((ram_content d)(b := bs)) x" by (simp add: ram_content_def del: upt_rec_numeral)
  qed
  thus ?thesis by (auto simp: blk_ok_def ram_ops_def) (simp_all add: ram_content_def del: upt_rec_numeral)
qed

definition demo_file :: FATFile where
  "demo_file = \<lparr>f_pos = no_pos, f_std = (as_std (replicate 32 0))\<lparr>std_size := 1500\<rparr>, f_dirty = False, f_chain = [3, 5]\<rparr>"

lemma demo_file_ok: "chain_ok demo_fs (f_chain demo_file)" "unat (file_size demo_file) = 1500"
  "unat (file_size demo_file) \<le> length (f_chain demo_file) * cls demo_fs * 512"
  using demo_chain by (simp_all add: demo_file_def file_size_def demo_fs_def)

theorem read_page_at_spec_witness:
  "read_page_at ram_ops demo_file 1024 4096 demo_fs =
     Some (Inr (take 4096 (drop 1024 (take 1500 (file_bytes ram_content demo_fs [3, 5])))), demo_fs)"
  using read_page_at_spec[OF ram_blk_ok demo_file_ok(1) _ _ demo_file_ok(3), of 1024 4096] demo_file_ok(2)
  by (simp add: demo_file_def)

section \<open>Writing\<close>

lemma sct_no_inj:
  assumes "sct_no fs c k = sct_no fs d j" "k < cls fs" "j < cls fs" "2 \<le> unat c" "2 \<le> unat d"
  shows "c = d \<and> k = j"
proof -
  have e: "(unat c - 2) * cls fs + k = (unat d - 2) * cls fs + j" using assms(1) by (simp add: sct_no_def)
  have "((unat c - 2) * cls fs + k) div cls fs = unat c - 2" "((unat d - 2) * cls fs + j) div cls fs = unat d - 2"
    using assms(2,3) by simp_all
  hence "unat c - 2 = unat d - 2" using e by simp
  thus ?thesis using e assms(4,5) by (simp add: word_unat_eq_iff)
qed

lemma distinct_sectors:
  assumes "chain_ok fs cs"
  shows "distinct (sectors fs cs)"
proof -
  have ok: "fs_ok fs" "distinct cs" "\<forall>c\<in>set cs. 2 \<le> unat c"
    using assms chain_distinct by (auto simp: chain_ok_def)
  show ?thesis
  proof (rule distinct_conv_nth[THEN iffD2], intro allI impI)
    fix i j assume ij: "i < length (sectors fs cs)" "j < length (sectors fs cs)" "i \<noteq> j"
    let ?c = "\<lambda>i. cs ! (i div cls fs)"
    have n: "i div cls fs < length cs" "j div cls fs < length cs" using ij by (simp_all add: less_mult_imp_div_less)
    show "sectors fs cs ! i \<noteq> sectors fs cs ! j"
    proof
      assume "sectors fs cs ! i = sectors fs cs ! j"
      hence "unat (word_of_nat (sct_no fs (?c i) (i mod cls fs)) :: u64) = unat (word_of_nat (sct_no fs (?c j) (j mod cls fs)) :: u64)"
        using ij by (simp add: nth_sectors)
      hence "sct_no fs (?c i) (i mod cls fs) = sct_no fs (?c j) (j mod cls fs)"
        by (simp only: unat_sct_no[OF ok(1)] mod_less_divisor zero_less_power zero_less_numeral)
      from sct_no_inj[OF this] have "?c i = ?c j" "i mod cls fs = j mod cls fs" using ok(3) n by auto
      hence "i div cls fs = j div cls fs" "i mod cls fs = j mod cls fs" using ok(2) n by (auto simp: nth_eq_iff_index_eq)
      thus False using ij(3) by (metis div_mult_mod_eq)
    qed
  qed
qed

text \<open>The geometry does not depend on the contents of the device.\<close>

lemma dev_update [simp]:
  "sectors (fs\<lparr>blk_dev := d\<rparr>) cs = sectors fs cs" "chain_ok (fs\<lparr>blk_dev := d\<rparr>) cs \<longleftrightarrow> chain_ok fs cs"
  by (simp_all add: sectors_def sct_no_def chain_ok_def fs_ok_def)

text \<open>What a write leaves of the contents: \<open>bs\<close> from the start of sector number \<open>i\<close> on, all else as before.\<close>

definition written :: "u64 list \<Rightarrow> nat \<Rightarrow> u8 list \<Rightarrow> (u64 \<Rightarrow> u8 list) \<Rightarrow> (u64 \<Rightarrow> u8 list) \<Rightarrow> bool" where
  "written ss i bs c c' \<longleftrightarrow> concat (map c' (drop i ss)) = bs @ drop (length bs) (concat (map c (drop i ss))) \<and>
     (\<forall>b. b \<notin> set (drop i ss) \<longrightarrow> c' b = c b)"

lemma map_upd_drop: "distinct ss \<Longrightarrow> i < length ss \<Longrightarrow> map (c(ss ! i := x)) (drop (Suc i) ss) = map c (drop (Suc i) ss)"
proof -
  assume a: "distinct ss" "i < length ss"
  hence "ss ! i \<notin> set (drop (Suc i) ss)" by (metis Cons_nth_drop_Suc distinct.simps(2) distinct_drop)
  thus ?thesis by (auto intro: map_cong)
qed

lemma write_loop_run:
  assumes ok: "blk_ok D content" "chain_ok fs cs"
  shows "i < length cs * cls fs \<Longrightarrow> \<exists>d m. write_loop D buf w (sectors fs cs ! i) fs = Some (Inr m, fs\<lparr>blk_dev := d\<rparr>) \<and>
    m = min (min (length buf) w) ((length cs * cls fs - i) * 512) \<and>
    written (sectors fs cs) i (take m buf) (content (blk_dev fs)) (content d)"
  using ok(2)
proof (induction "length buf" arbitrary: buf i w fs rule: less_induct)
  case less
  let ?s = "sectors fs cs" and ?c = "content (blk_dev fs)" let ?len = "min (min (length buf) w) 512"
  have i: "i < length ?s" using less.prems by simp
  have l: "length (?c (?s ! i)) = 512" using content_length[OF ok(1)] .
  have "length (take ?len buf) \<le> 512" "length (take ?len buf) = ?len" by auto
  then obtain d where wr: "write_sector D (?s ! i) (take ?len buf) fs = Some (Inr (), fs\<lparr>blk_dev := d\<rparr>)"
    and cd: "content d = ?c(?s ! i := take ?len buf @ drop ?len (?c (?s ! i)))"
    using write_sector_ok[OF ok(1), of "take ?len buf" "?s ! i" fs] by auto
  have nx: "next_sector (fs\<lparr>blk_dev := d\<rparr>) (?s ! i) = Some (if Suc i < length cs * cls fs then Some (?s ! Suc i) else None)"
    using next_walk[of "fs\<lparr>blk_dev := d\<rparr>" cs i] less.prems by simp
  have rest: "map (content d) (drop (Suc i) ?s) = map ?c (drop (Suc i) ?s)"
    unfolding cd using distinct_sectors[OF less.prems(2)] i by (rule map_upd_drop)
  have one: "written ?s i (take ?len buf) ?c (content d)"
    using l i unfolding written_def concat_drop_step[OF i] rest by (auto simp: cd Cons_nth_drop_Suc[symmetric])
  show ?case
  proof (cases "Suc i < length cs * cls fs \<and> 512 < length buf \<and> 512 < w")
    case True
    hence len: "?len = 512" and sh: "length (drop 512 buf) < length buf" by (auto intro: diff_less)
    obtain d' m where r: "write_loop D (drop 512 buf) (w - 512) (?s ! Suc i) (fs\<lparr>blk_dev := d\<rparr>) = Some (Inr m, fs\<lparr>blk_dev := d'\<rparr>)"
      "m = min (min (length buf - 512) (w - 512)) ((length cs * cls fs - Suc i) * 512)"
      "written ?s (Suc i) (take m (drop 512 buf)) (content d) (content d')"
      using less.hyps[OF sh, of "Suc i" "fs\<lparr>blk_dev := d\<rparr>" "w - 512"] True less.prems by auto
    have nin: "?s ! i \<notin> set (drop (Suc i) ?s)"
      using distinct_sectors[OF less.prems(2)] i by (metis Cons_nth_drop_Suc distinct.simps(2) distinct_drop)
    have "content d' (?s ! i) = take 512 buf" using r(3) nin cd len l by (simp add: written_def)
    hence "written ?s i (take (512 + m) buf) ?c (content d')"
      using r(3) l True unfolding written_def concat_drop_step[OF i] rest
      by (auto simp: cd take_add Cons_nth_drop_Suc[OF i, symmetric])
    moreover have "512 + m = min (min (length buf) w) ((length cs * cls fs - i) * 512)"
      unfolding r(2) using True by (auto simp: min_def diff_mult_distrib)
    moreover have "write_loop D buf w (?s ! i) fs = Some (Inr (512 + m), fs\<lparr>blk_dev := d'\<rparr>)"
      using True wr nx r(1) len by (subst write_loop.simps) (simp add: sys_bind_def Let_def)
    ultimately show ?thesis by blast
  next
    case False
    hence "Suc i < length cs * cls fs \<Longrightarrow> w - ?len = 0 \<or> drop ?len buf = []" by auto
    hence "write_loop D buf w (?s ! i) fs = Some (Inr ?len, fs\<lparr>blk_dev := d\<rparr>)"
      using wr nx by (subst write_loop.simps) (simp add: sys_bind_def Let_def)
    moreover have "?len = min (min (length buf) w) ((length cs * cls fs - i) * 512)"
      using False i by (auto simp: min_def)
    ultimately show ?thesis using one by metis
  qed
qed

lemma written_concat:
  assumes w: "written ss i bs c c'" and d: "distinct ss" "i \<le> length ss" and l: "\<And>b. length (c b) = 512"
  shows "concat (map c' ss) = take (512 * i) (concat (map c ss)) @ bs @ drop (512 * i + length bs) (concat (map c ss))"
proof -
  have "set (take i ss) \<inter> set (drop i ss) = {}" using d(1) by (metis append_take_drop_id distinct_append)
  hence "concat (map c' (take i ss)) = concat (map c (take i ss))"
    using w by (auto simp: written_def intro!: arg_cong[where f = concat] map_cong)
  moreover have "take (512 * i) (concat (map c ss)) = concat (map c (take i ss))"
  proof -
    have "length (concat (map c (take i ss))) = 512 * i" using d(2) l by (simp add: length_concat comp_def sum_list_triv)
    thus ?thesis by (metis append_take_drop_id append_eq_conv_conj concat_append map_append)
  qed
  moreover have "drop (512 * i) (concat (map c ss)) = concat (map c (drop i ss))" using drop_concat_sectors[of ss c i] l d(2) by simp
  moreover have "concat (map c' ss) = concat (map c' (take i ss)) @ concat (map c' (drop i ss))"
    by (metis append_take_drop_id concat_append map_append)
  ultimately show ?thesis using w by (simp add: written_def add.commute drop_drop[symmetric] del: drop_drop)
qed

text \<open>Writing a page (C25): \<open>write_page_at\<close> returns, replaces exactly the bytes of the file from the offset on, as
  far as the buffer and the size of the file go, and touches no sector of another file.\<close>

theorem write_page_at_spec:
  assumes ok: "blk_ok D content" "chain_ok fs (f_chain f)"
    and page: "unat offset mod 512 = 0" "length buf mod 512 = 0"
    and size: "unat (file_size f) \<le> length (f_chain f) * cls fs * 512"
    and m: "m = min (length buf) (unat (file_size f) - unat offset)"
    and old: "old = file_bytes content fs (f_chain f)"
  shows "\<exists>d. write_page_at D f offset buf fs = Some (Inr m, fs\<lparr>blk_dev := d\<rparr>) \<and>
    file_bytes content (fs\<lparr>blk_dev := d\<rparr>) (f_chain f) = take (unat offset) old @ take m buf @ drop (unat offset + m) old \<and>
    (\<forall>b. b \<notin> set (sectors fs (f_chain f)) \<longrightarrow> content d b = content (blk_dev fs) b)"
proof (cases "offset \<ge> file_size f")
  case True
  hence "m = 0" using m by (simp add: word_le_nat_alt)
  thus ?thesis using True page old by (intro exI[of _ "blk_dev fs"]) (simp add: write_page_at_def)
next
  case False
  let ?i = "unat offset div 512" let ?s = "sectors fs (f_chain f)"
  have lt: "unat offset < unat (file_size f)" using False by (simp add: word_le_nat_alt)
  have i: "?i < length (f_chain f) * cls fs" using lt size by linarith
  have o: "512 * ?i = unat offset" using page(1) by auto
  have sz: "unat (file_size f - offset) = unat (file_size f) - unat offset" using False by (intro unat_sub) simp
  have mm: "min (min (length buf) (unat (file_size f) - unat offset)) ((length (f_chain f) * cls fs - ?i) * 512) = m"
    using size o i m by (simp add: diff_mult_distrib)
  obtain d where d: "write_loop D buf (unat (file_size f) - unat offset) (?s ! ?i) fs = Some (Inr m, fs\<lparr>blk_dev := d\<rparr>)"
    "written ?s ?i (take m buf) (content (blk_dev fs)) (content d)"
    using write_loop_run[OF ok i, of buf "unat (file_size f) - unat offset"] mm by auto
  have "length (take m buf) = m" using m by simp
  hence "file_bytes content (fs\<lparr>blk_dev := d\<rparr>) (f_chain f) = take (unat offset) old @ take m buf @ drop (unat offset + m) old"
    using written_concat[OF d(2) distinct_sectors[OF ok(2)], of] i content_length[OF ok(1)] unfolding o file_bytes_def old by simp
  moreover have "\<forall>b. b \<notin> set ?s \<longrightarrow> content d b = content (blk_dev fs) b"
    using d(2) by (auto simp: written_def dest: in_set_dropD)
  moreover have "write_page_at D f offset buf fs = Some (Inr m, fs\<lparr>blk_dev := d\<rparr>)"
    using False page offset_sct_eq[OF ok(2) i] d(1) sz by (simp add: write_page_at_def)
  ultimately show ?thesis by blast
qed

theorem write_page_at_spec_witness:
  "\<exists>d. write_page_at ram_ops demo_file 1024 (replicate 512 7) demo_fs = Some (Inr 476, demo_fs\<lparr>blk_dev := d\<rparr>) \<and>
     (\<forall>b. b \<notin> set (sectors demo_fs [3, 5]) \<longrightarrow> ram_content d b = ram_content (blk_dev demo_fs) b)"
  using write_page_at_spec[OF ram_blk_ok demo_file_ok(1) _ _ demo_file_ok(3), of 1024 "replicate 512 7", OF _ _ refl refl]
    demo_file_ok(2) by (auto simp: demo_file_def)

end
