(* ===== verification/Fat_Names.thy ===== *)
theory Fat_Names
  imports Fat_Pages
begin

text \<open>
  Directory entries: the encoding of an entry in 32 bytes and back, the names that are read back from the entries that
  \<open>create_entry\<close> writes, and where it writes them.
\<close>

section \<open>Entries as bytes\<close>

definition std_wf :: "Standard8p3EntryRepr \<Rightarrow> bool" where
  "std_wf e \<longleftrightarrow> length (std_name e) = 8 \<and> length (std_ext e) = 3"

lemma length_std_bytes: "std_wf e \<Longrightarrow> length (std_bytes e) = 32"
  by (simp add: std_bytes_def std_wf_def)

lemma as_std_bytes: "std_wf e \<Longrightarrow> as_std (std_bytes e) = e"
  by (rule Standard8p3EntryRepr.equality)
     (simp_all add: as_std_def std_bytes_def std_wf_def nth_append from_to_le_full)

lemma as_std_wf: "length b = 32 \<Longrightarrow> std_wf (as_std b)"
  by (simp add: as_std_def std_wf_def)

lemma as_std_inj: "length b = 32 \<Longrightarrow> std_bytes (as_std b) = b"
proof -
  assume l: "length b = 32"
  have t: "to_le 2 (from_le (take 2 (drop i b)) :: u16) = take 2 (drop i b)" if "i \<le> 30" for i
    using to_from_le[where 'a = 16, of "take 2 (drop i b)"] l that by simp
  have f: "to_le 4 (from_le (take 4 (drop 28 b)) :: u32) = take 4 (drop 28 b)"
    using to_from_le[where 'a = 32, of "take 4 (drop 28 b)"] l by simp
  have n: "[b ! 11, b ! 12, b ! 13] = take 3 (drop 11 b)"
    using l by (intro nth_equalityI) (auto simp: less_Suc_eq numeral_3_eq_3)
  have c: "take n (drop i b) @ drop j b = drop i b" if "j = i + n" for n i j
    using append_take_drop_id[of n "drop i b"] that by (simp add: add.commute)
  have e: "take 4 (drop 28 b) = drop 28 b" using l by simp
  have "std_bytes (as_std b) = take 8 (drop 0 b) @ take 3 (drop 8 b) @ take 3 (drop 11 b) @ take 2 (drop 14 b) @
      take 2 (drop 16 b) @ take 2 (drop 18 b) @ take 2 (drop 20 b) @ take 2 (drop 22 b) @ take 2 (drop 24 b) @
      take 2 (drop 26 b) @ drop 28 b"
    unfolding std_bytes_def n[symmetric] by (simp add: as_std_def t f[unfolded e] e)
  thus ?thesis by (simp add: c)
qed

text \<open>Long-name entries.\<close>

lemma u16s_to_le: "length ws = n \<Longrightarrow> length pre = i \<Longrightarrow> u16s n i (pre @ concat (map (to_le 2) ws) @ post) = ws"
proof (induction ws arbitrary: n i pre)
  case (Cons w ws)
  have "u16s (Suc (length ws)) i b = from_le (take 2 (drop i b)) # u16s (length ws) (i + 2) b" for b
    unfolding u16s_def by (subst upt_conv_Cons) (simp_all add: map_Suc_upt[symmetric] comp_def del: upt_Suc)
  thus ?case using Cons.prems Cons.IH[of "length ws" "pre @ to_le 2 w" "i + 2"] by (auto simp: from_to_le_full)
qed (simp add: u16s_def)

definition lfn_wf :: "LongFileNameEntryRepr \<Rightarrow> bool" where
  "lfn_wf e \<longleftrightarrow> length (lfn_name1 e) = 5 \<and> length (lfn_name2 e) = 6 \<and> length (lfn_name3 e) = 2"

lemma length_concat_le [simp]: "length (concat (map (to_le 2) ws)) = 2 * length ws"
  by (induction ws) simp_all

lemma as_lfn_bytes: "lfn_wf e \<Longrightarrow> as_lfn (lfn_bytes e) = e"
proof -
  assume w: "lfn_wf e"
  let ?n1 = "concat (map (to_le 2) (lfn_name1 e))" and ?n2 = "concat (map (to_le 2) (lfn_name2 e))"
    and ?n3 = "concat (map (to_le 2) (lfn_name3 e))" and ?m = "[lfn_attr e, lfn_type e, lfn_checksum e]"
  have "u16s 5 1 (lfn_bytes e) = lfn_name1 e"
    using w u16s_to_le[of "lfn_name1 e" 5 "[lfn_order e]" 1 "?m @ ?n2 @ to_le 2 (lfn_reserved e) @ ?n3"]
    by (simp add: lfn_bytes_def lfn_wf_def)
  moreover have "u16s 6 14 (lfn_bytes e) = lfn_name2 e"
    using w u16s_to_le[of "lfn_name2 e" 6 "[lfn_order e] @ ?n1 @ ?m" 14 "to_le 2 (lfn_reserved e) @ ?n3"]
    by (simp add: lfn_bytes_def lfn_wf_def)
  moreover have "u16s 2 28 (lfn_bytes e) = lfn_name3 e"
    using w u16s_to_le[of "lfn_name3 e" 2 "[lfn_order e] @ ?n1 @ ?m @ ?n2 @ to_le 2 (lfn_reserved e)" 28 "[]"]
    by (simp add: lfn_bytes_def lfn_wf_def)
  ultimately show ?thesis
    using w by (intro LongFileNameEntryRepr.equality)
      (simp_all add: as_lfn_def, simp_all add: lfn_bytes_def lfn_wf_def nth_append from_to_le_full)
qed

section \<open>Names\<close>

definition ascii_name :: "rstr \<Rightarrow> bool" where
  "ascii_name s \<longleftrightarrow> (\<forall>c\<in>set s. c \<noteq> 0 \<and> c < 0x80)"

lemma ascii_len: "ascii_name s \<Longrightarrow> str_len s = length s"
  by (induction s) (simp_all add: ascii_name_def str_len_def utf8_len_def)

lemma ascii_split: "ascii_name s \<Longrightarrow> n \<le> length s \<Longrightarrow> str_split n s = Some (take n s, drop n s)"
  by (induction n s rule: str_split.induct) (auto simp: ascii_name_def utf8_len_def)

lemma utf16_ascii: "ascii_name s \<Longrightarrow> from_utf16 (map word_of_nat s) = Some s"
  by (induction s) (auto simp: ascii_name_def word_less_nat_alt unat_word_of_nat)

lemma utf8_ascii: "ascii_name s \<Longrightarrow> from_utf8 (map word_of_nat s) = Some s"
  by (induction s) (auto simp: ascii_name_def word_less_nat_alt unat_word_of_nat utf8_char_def)

lemma lfn_entry_ascii:
  assumes "ascii_name s" "i * 13 \<le> length s" "i < 255"
  shows "\<exists>e. lfn_entry s i = Some e \<and> lfn_wf e \<and> lfn_attr e = 0x0F \<and>
    collect_chars e = map word_of_nat (take 13 (drop (i * 13) s)) @ replicate (13 - length (take 13 (drop (i * 13) s))) 0"
proof -
  let ?e = "min (length s) ((i + 1) * 13)"
  have u: "ascii_name (take ?e s)" using assms(1) by (auto simp: ascii_name_def dest: in_set_takeD)
  have s1: "str_split ?e s = Some (take ?e s, drop ?e s)" using ascii_split[OF assms(1)] by simp
  have s2: "str_split (i * 13) (take ?e s) = Some (take (i * 13) (take ?e s), drop (i * 13) (take ?e s))"
    using ascii_split[OF u] assms(2) by simp
  define part where "part = take 13 (drop (i * 13) s)"
  define buf :: "u16 list" where "buf = map word_of_nat part @ replicate (13 - length part) 0"
  have p: "drop (i * 13) (take ?e s) = part" unfolding part_def by (auto simp: take_drop min_def algebra_simps)
  have l: "length buf = 13" by (simp add: buf_def part_def)
  have o: "uadd (word_of_nat i :: u8) 1 = Some (word_of_nat i + 1)" using assms(3) by (simp add: uadd_def unat_word_of_nat)
  have e: "lfn_entry s i = Some \<lparr>lfn_order = word_of_nat i + 1, lfn_name1 = take 5 buf, lfn_attr = 0x0F, lfn_type = 0,
      lfn_checksum = 0, lfn_name2 = take 6 (drop 5 buf), lfn_reserved = 0, lfn_name3 = take 2 (drop 11 buf)\<rparr>"
    unfolding lfn_entry_def Let_def ascii_len[OF assms(1)] s1 Option.bind.bind_lunit prod.case s2 p o buf_def ..
  have "take 5 buf @ take 6 (drop 5 buf) @ take 2 (drop 11 buf) = buf"
    using l append_take_drop_id[of 5 buf] append_take_drop_id[of 6 "drop 5 buf"] by simp
  thus ?thesis unfolding e using l by (simp add: lfn_wf_def collect_chars_def) (simp add: buf_def part_def)
qed

lemma is_std_bytes: "std_wf e \<Longrightarrow> is_std (std_bytes e) \<longleftrightarrow> std_attr e \<noteq> 0x0F"
  by (simp add: is_std_def std_bytes_def std_wf_def nth_append)

lemma is_lfn_bytes: "lfn_wf e \<Longrightarrow> is_std (lfn_bytes e) \<longleftrightarrow> lfn_attr e \<noteq> 0x0F"
  by (simp add: is_std_def lfn_bytes_def lfn_wf_def nth_append)

lemma take_name_chars:
  assumes "ascii_name p"
  shows "filter (\<lambda>c. c \<noteq> 0xFFFF) (takeWhile (\<lambda>c. c \<noteq> 0) (map word_of_nat p @ replicate (Suc k) 0 @ r)) = (map word_of_nat p :: u16 list)"
proof -
  have "\<forall>c\<in>set p. (word_of_nat c :: u16) \<noteq> 0 \<and> (word_of_nat c :: u16) \<noteq> 0xFFFF"
    using assms by (auto simp: ascii_name_def word_unat_eq_iff unat_word_of_nat)
  thus ?thesis by (induction p) auto
qed

lemma those_map_Some: "(\<And>x. x \<in> set xs \<Longrightarrow> f x = Some (g x)) \<Longrightarrow> those (map f xs) = Some (map g xs)"
  by (induction xs) auto

lemma blocks_ceil: "(n :: nat) mod 13 \<noteq> 0 \<Longrightarrow> (n + 12) div 13 = Suc (n div 13)"
proof -
  assume "n mod 13 \<noteq> 0"
  hence "(n mod 13 + 12) div 13 = 1" using mod_less_divisor[of 13 n] by (intro div_nat_eqI) simp_all
  thus ?thesis using div_add1_eq[of n 12 13] by simp
qed

text \<open>Long names (C29): of the long-name entries that \<open>create_entry\<close> writes for a name, \<open>collect_name\<close> reads only the
  last block of 13 characters when the length of the name is not a multiple of 13. So a name of 9 to 12 characters
  is read back as it was written, and a name of 14 to 25 characters as its end from the 14th character on.\<close>

theorem long_name_read_back:
  assumes name: "ascii_name (de_name d)" "8 < length (de_name d)" "length (de_name d) mod 13 \<noteq> 0" "length (de_name d) \<le> 3315"
    and std: "std_wf e" "std_attr e \<noteq> 0x0F"
  shows "\<exists>les. those (map (lfn_entry (de_name d)) [0..<lfn_needed d]) = Some les \<and>
    name_lfn (map lfn_bytes les @ [std_bytes e]) = Some (drop (length (de_name d) div 13 * 13) (de_name d))"
proof -
  let ?s = "de_name d" let ?k = "length ?s div 13"
  have n: "lfn_needed d = Suc ?k" using name(2) blocks_ceil[OF name(3)] by (simp add: lfn_needed_def ascii_len[OF name(1)] Let_def)
  define g where "g i = the (lfn_entry ?s i)" for i
  have g: "lfn_entry ?s i = Some (g i) \<and> lfn_wf (g i) \<and> lfn_attr (g i) = 0x0F \<and>
    collect_chars (g i) = map word_of_nat (take 13 (drop (i * 13) ?s)) @ replicate (13 - length (take 13 (drop (i * 13) ?s))) 0"
    if i: "i < Suc ?k" for i
  proof -
    have le: "i * 13 \<le> length ?s" using i by (simp add: less_eq_div_iff_mult_less_eq[symmetric])
    have "length ?s \<noteq> 3315" using name(3) by auto
    hence "i < 255" using le name(4) by linarith
    thus ?thesis using lfn_entry_ascii[OF name(1) le] by (auto simp: g_def)
  qed
  let ?les = "map g [0..<Suc ?k]" and ?p = "drop (?k * 13) ?s"
  have t: "those (map (lfn_entry ?s) [0..<lfn_needed d]) = Some ?les" unfolding n by (rule those_map_Some) (use g in auto)
  have "takeWhile (\<lambda>b. \<not> is_std b) (map lfn_bytes ?les @ [std_bytes e]) = map lfn_bytes ?les"
    using g is_lfn_bytes is_std_bytes[OF std(1)] std(2) by (subst takeWhile_append2) auto
  moreover have "map (\<lambda>b. collect_chars (as_lfn b)) (map lfn_bytes ?les) = map (\<lambda>i. collect_chars (g i)) [0..<Suc ?k]"
    using g as_lfn_bytes by auto
  moreover have lp: "length ?p < 13" using mod_less_divisor[of 13 "length ?s"] by (simp add: minus_div_mult_eq_mod)
  moreover have "take 13 ?p = ?p" using lp by simp
  moreover have "collect_chars (g ?k) = map word_of_nat ?p @ replicate (Suc (12 - length ?p)) 0"
    using g[of ?k] lp by (simp add: Suc_diff_le del: replicate.simps)
  moreover have "ascii_name ?p" using name(1) by (auto simp: ascii_name_def dest: in_set_dropD)
  ultimately have "name_lfn (map lfn_bytes ?les @ [std_bytes e]) = Some ?p"
    using take_name_chars[of ?p "12 - length ?p"] utf16_ascii[of ?p] by (simp add: name_lfn_def Let_def del: replicate.simps)
  thus ?thesis using t by blast
qed

theorem long_name_read_back_witness:
  "\<exists>les. those (map (lfn_entry (replicate 15 0x61)) [0..<2]) = Some les \<and>
     name_lfn (map lfn_bytes les @ [std_bytes (as_std (replicate 32 0))]) = Some [0x61, 0x61]"
proof -
  let ?d = "\<lparr>de_attr = 0, de_begin_cluster = 0, de_name = replicate 15 0x61, de_size = 0\<rparr>"
  have a: "ascii_name (de_name ?d)" by (simp add: ascii_name_def)
  have n: "lfn_needed ?d = 2" using ascii_len[OF a] by (simp add: lfn_needed_def)
  have e: "std_wf (as_std (replicate 32 0))" "std_attr (as_std (replicate 32 0)) \<noteq> 0x0F"
    by (simp_all add: as_std_wf) (simp add: as_std_def)
  have "drop 13 (replicate 15 0x61) = [0x61, 0x61 :: nat]" by (simp add: numeral_2_eq_2)
  thus ?thesis using long_name_read_back[OF a _ _ _ e] unfolding n by simp
qed

text \<open>A short name is written over the old one, and what is left of the old one is read as part of it.\<close>

lemma short_name_leftover:
  assumes "lfn_needed d = 0" "std_entry d old = Some e" "length (std_name old) = 8"
    "ascii_name (de_name d)" "0x20 \<notin> set (de_name d)"
  shows "name_8p3 e = from_utf8 (map word_of_nat (de_name d) @
    filter (\<lambda>c. c \<noteq> 0x20 \<and> c \<noteq> 0) (drop (length (de_name d)) (std_name old)))"
proof -
  have e: "std_name e = map word_of_nat (de_name d) @ drop (length (de_name d)) (std_name old)" "std_ext e = replicate 3 0x20"
    using assms(1,2) by (auto simp: std_entry_def Let_def split: if_splits)
  have "\<forall>c\<in>set (de_name d). (word_of_nat c :: u8) \<noteq> 0 \<and> (word_of_nat c :: u8) \<noteq> 0x20"
    using assms(4,5) by (auto simp: ascii_name_def word_unat_eq_iff unat_word_of_nat)
  hence "filter (\<lambda>c. c \<noteq> 0x20 \<and> c \<noteq> 0) (map word_of_nat (de_name d) :: u8 list) = map word_of_nat (de_name d)"
    by (simp add: filter_id_conv)
  thus ?thesis by (simp add: name_8p3_def e Let_def)
qed

section \<open>Where an entry is written\<close>

lemma as_slice_just_mut:
  "just_mut b g fs = Some fs' \<Longrightarrow> as_slice x fs' = (if x = b then map_option g (as_slice b fs) else as_slice x fs)"
  by (auto simp: just_mut_def as_slice_def bind_eq_Some_conv bt_gets)

lemma as_slice_as_mut:
  "as_mut_slice b g fs = Some fs' \<Longrightarrow> as_slice x fs' = (if x = b then map_option g (as_slice b fs) else as_slice x fs)"
  by (auto simp: as_mut_slice_def as_slice_def bind_eq_Some_conv bt_gets)

lemma std_entry_wf: "std_entry d old = Some e \<Longrightarrow> std_wf old \<Longrightarrow> std_wf e"
  by (auto simp: std_entry_def std_wf_def Let_def split: if_splits)

text \<open>The place of a new entry: for a short name \<open>create_entry\<close> overwrites the first entry of the first
  sector in the buffer of the window, wherever the window itself stands. Appending a file to a directory destroys
  the entry that the last sector of the directory starts with.\<close>

theorem create_entry_place:
  assumes run: "create_entry d (it, fs) = Some (it', fs')" and short: "lfn_needed d = 0"
    and buf: "sector_bufs (window it) = s # ss" "as_slice s fs = Some blk" "length blk = 512"
  shows "\<exists>e. std_entry d (as_std (take 32 blk)) = Some e \<and> as_slice s fs' = Some (std_bytes e @ drop 32 blk) \<and>
    (\<forall>b. b \<noteq> s \<longrightarrow> as_slice b fs' = as_slice b fs)"
proof -
  have v: "get_in_buf (window it) 0 = Some (s, 0)" using buf(1) by (simp add: get_in_buf_def)
  have b: "ade_bytes (s, 0) fs = Some (take 32 blk)" using buf by (simp add: ade_bytes_def)
  obtain e where e: "std_entry d (as_std (take 32 blk)) = Some e" "ade_write (s, 0) (std_bytes e) fs = Some fs'"
    using run short by (auto simp: create_entry_def bind_eq_Some_conv v b split: if_splits)
  have "length (std_bytes e) = 32" using buf(3) by (intro length_std_bytes std_entry_wf[OF e(1)] as_std_wf) simp
  hence "as_slice x fs' = (if x = s then Some (std_bytes e @ drop 32 blk) else as_slice x fs)" for x
    using as_slice_just_mut[of s _ fs fs' x] e(2) buf(2) by (simp add: ade_write_def)
  thus ?thesis using e(1) by simp
qed

text \<open>A directory with two files in its first sector, and the window behind them.\<close>

definition dir_fs :: "(u64 \<Rightarrow> nat \<Rightarrow> u8) Fat32FS" where
  "dir_fs = demo_fs\<lparr>blk_cache := [(100, \<lparr>bc_data = replicate 512 0x41, bc_dirty = False\<rparr>)]\<rparr>"

definition dir_it :: GroupDEntryIter where
  "dir_it = \<lparr>window = \<lparr>sector_bufs = [100], in_append = True, next_sct = None, begin_pos = 0, left_pos = 64, right_pos = 96\<rparr>,
     is_deleted = False, it_chain = Some [2]\<rparr>"

definition new_entry :: FatDEntryData where
  "new_entry = \<lparr>de_attr = 0x20, de_begin_cluster = 9, de_name = [0x61, 0x62], de_size = 0\<rparr>"

lemma new_entry_short: "lfn_needed new_entry = 0"
  by (simp add: lfn_needed_def new_entry_def str_len_def utf8_len_def)

lemma dir_block: "as_slice 100 dir_fs = Some (replicate 512 0x41)"
  by (simp add: as_slice_def dir_fs_def bt_get_def)

theorem create_entry_place_witness:
  "\<exists>it' fs' e. create_entry new_entry (dir_it, dir_fs) = Some (it', fs') \<and> left_pos (window it') = 96 \<and>
     as_slice 100 fs' = Some (std_bytes e @ replicate 480 0x41)"
proof -
  have v: "get_in_buf (window dir_it) 0 = Some (100, 0)" by (simp add: get_in_buf_def dir_it_def)
  have b: "ade_bytes (100, 0) dir_fs = Some (replicate 32 0x41)" by (simp add: ade_bytes_def dir_block)
  have c: "can_create new_entry dir_it dir_fs = Some True"
    by (simp add: can_create_def can_create_any_def v b new_entry_short)
       (simp add: dir_it_def window_len_def as_byte_offset_def usub_def)
  obtain e where e: "std_entry new_entry (as_std (replicate 32 0x41)) = Some e"
    by (simp add: std_entry_def new_entry_short Let_def) (simp add: new_entry_def)
  have "bt_get 100 (blk_cache dir_fs) \<noteq> None" by (simp add: dir_fs_def bt_get_def)
  then obtain fs' where w: "ade_write (100, 0) (std_bytes e) dir_fs = Some fs'" by (auto simp: ade_write_def just_mut_def)
  obtain w' where m: "move_left 1 (window dir_it) = Some w'" "left_pos w' = 96"
    by (simp add: move_left_def dir_it_def offset_ade_def offset_byte_def buf_idx_def as_byte_offset_def usub_def)
  have r: "create_entry new_entry (dir_it, dir_fs) = Some (dir_it\<lparr>window := w'\<rparr>, fs')"
    using m(1) by (simp add: create_entry_def c v b e w new_entry_short)
  have "sector_bufs (window dir_it) = [100]" by (simp add: dir_it_def)
  from create_entry_place[OF r new_entry_short this dir_block] obtain e' where
    "as_slice 100 fs' = Some (std_bytes e' @ replicate 480 0x41)" by auto
  thus ?thesis using r m(2) by auto
qed

section \<open>Writing back the entry of a created file\<close>

lemma truncate_entry:
  assumes "file_truncate D n (f, fs) = Some (Inr u, g, fs')"
  shows "f_pos g = f_pos f" "f_std g = (f_std f)\<lparr>std_size := ucast n\<rparr>" "f_dirty g"
proof -
  have "f_pos g = f_pos f \<and> f_std g = (f_std f)\<lparr>std_size := ucast n\<rparr> \<and> f_dirty g"
    using assms by (auto simp: file_truncate_def Let_def bind_eq_Some_conv split: if_split_asm sum.split_asm)
      (metis sumE old.unit.exhaust)+
  thus "f_pos g = f_pos f" "f_std g = (f_std f)\<lparr>std_size := ucast n\<rparr>" "f_dirty g" by simp_all
qed

lemma new_free_std: "file_new_free fs c k = Some f \<Longrightarrow> std_wf (f_std f) \<and> std_name (f_std f) = replicate 8 0"
  by (auto simp: file_new_free_def std_new_empty_def bind_eq_Some_conv as_std_def std_wf_def)

lemma sync_writes:
  assumes "editor_sync D (f, fs) = Some (Inr u, g, fs')" "f_dirty f" "\<not> is_free f" "std_wf (f_std f)"
  shows "ade_bytes (dp_sector (f_pos f), unat (dp_offset (f_pos f))) fs' = Some (std_bytes (f_std f))"
proof -
  let ?s = "dp_sector (f_pos f)" and ?o = "unat (dp_offset (f_pos f))"
  obtain r fs1 where c: "cache_get D ?s fs = Some (r, fs1)" using assms(1-3) by (auto simp: editor_sync_def bind_eq_Some_conv)
  moreover have "r = Inl e \<Longrightarrow> False" for e using assms(1-3) c by (simp add: editor_sync_def)
  moreover have "b = ?s" if "r = Inr b" for b
    using c that by (auto simp: cache_get_def sys_bind_def bind_eq_Some_conv split: option.split_asm sum.split_asm)
      (metis sumE)
  ultimately have c: "cache_get D ?s fs = Some (Inr ?s, fs1)" by (cases r) auto
  obtain d where d: "as_slice ?s fs1 = Some d" "?o + 32 \<le> length d"
    "as_mut_slice ?s (\<lambda>d. take ?o d @ std_bytes (f_std f) @ drop (?o + 32) d) fs1 = Some fs'"
    using assms(1-3) c by (auto simp: editor_sync_def bind_eq_Some_conv Let_def split: if_splits)
  show ?thesis using as_slice_as_mut[OF d(3), of ?s] d(1,2) length_std_bytes[OF assms(4)] by (simp add: ade_bytes_def)
qed

text \<open>The entry of a created file: the object that \<open>create\<close> returns holds an empty entry, without name and
  first cluster. As soon as its size is set and the entry is written back, the directory holds an end mark in its
  place: the file and all that follow it are no longer found.\<close>

theorem created_entry_erased:
  assumes new: "file_new_free fs c kind = Some f" and pos: "dp_gde_pos p \<noteq> null_pos"
    and size: "file_truncate D n (f\<lparr>f_pos := p\<rparr>, fs1) = Some (Inr u, g, fs2)"
    and sync: "editor_sync D (g, fs2) = Some (Inr v, h, fs3)"
  shows "\<exists>b. ade_bytes (dp_sector p, unat (dp_offset p)) fs3 = Some b \<and> is_end b \<and> std_cluster_low (as_std b) = 0"
proof -
  note t = truncate_entry[OF size]
  have w: "std_wf (f_std g)" "std_name (f_std g) = replicate 8 0" using new_free_std[OF new] t(2) by (simp_all add: std_wf_def)
  have "ade_bytes (dp_sector p, unat (dp_offset p)) fs3 = Some (std_bytes (f_std g))"
    using sync_writes[OF sync t(3) _ w(1)] pos t(1) by (simp add: is_free_def)
  moreover have "is_end (std_bytes (f_std g))" using w by (simp add: is_end_def std_bytes_def nth_append)
  moreover have "std_cluster_low (f_std g) = 0"
    using t(2) new by (auto simp: file_new_free_def std_new_empty_def bind_eq_Some_conv as_std_def numeral_2_eq_2)
  ultimately show ?thesis using as_std_bytes[OF w(1)] by simp
qed

theorem created_entry_erased_witness:
  "\<exists>f g h fs2 fs3 b. file_new_free dir_fs 5 RegularFile = Some f \<and>
     file_truncate ram_ops 100 (f\<lparr>f_pos := \<lparr>dp_gde_pos = 64, dp_sector = 100, dp_offset = 64\<rparr>\<rparr>, dir_fs) = Some (Inr (), g, fs2) \<and>
     editor_sync ram_ops (g, fs2) = Some (Inr (), h, fs3) \<and> ade_bytes (100, 64) fs3 = Some b \<and> is_end b"
proof -
  let ?p = "\<lparr>dp_gde_pos = 64, dp_sector = 100, dp_offset = 64\<rparr> :: DEntryPosInfo"
  have "is_chain (fat dir_fs) [5]" by (simp add: dir_fs_def demo_fs_def fat_next_def get_fat_def)
  hence ch: "chain_new dir_fs 5 = Some [5]" using fat_chain_iff[of "fat dir_fs" 5 "[5]"] by (simp add: chain_new_def)
  define f where "f = \<lparr>f_pos = no_pos, f_std = (as_std (replicate 32 0))\<lparr>std_attr := 0x20\<rparr>, f_dirty = False, f_chain = [5]\<rparr>"
  have n: "file_new_free dir_fs 5 RegularFile = Some f"
    by (simp add: file_new_free_def std_new_empty_def attr_from_kind_def ch f_def)
  let ?g = "f\<lparr>f_pos := ?p, f_chain := [], f_std := (f_std f)\<lparr>std_size := 100\<rparr>, f_dirty := True\<rparr>"
  let ?fs2 = "dir_fs\<lparr>fat := (fat dir_fs)[5 := 0]\<rparr>"
  have t: "file_truncate ram_ops 100 (f\<lparr>f_pos := ?p\<rparr>, dir_fs) = Some (Inr (), ?g, ?fs2)"
    by (simp add: file_truncate_def f_def dir_fs_def demo_fs_def Let_def last_of_def fat_free_def put_fat_def)
  have c: "cache_get ram_ops 100 ?fs2 = Some (Inr 100, ?fs2)" by (simp add: cache_get_def dir_fs_def bt_get_def)
  have d: "as_slice 100 ?fs2 = Some (replicate 512 0x41)" by (simp add: as_slice_def dir_fs_def bt_get_def)
  hence "bt_get 100 (blk_cache ?fs2) \<noteq> None" by (auto simp: as_slice_def)
  then obtain fs3 where m: "as_mut_slice 100 (\<lambda>d. take 64 d @ std_bytes (f_std ?g) @ drop 96 d) ?fs2 = Some fs3"
    by (auto simp: as_mut_slice_def)
  have s: "editor_sync ram_ops (?g, ?fs2) = Some (Inr (), ?g\<lparr>f_dirty := False\<rparr>, fs3)"
    using m by (simp add: editor_sync_def is_free_def c d)
  have "dp_gde_pos ?p \<noteq> null_pos" by simp
  from created_entry_erased[OF n this t s] show ?thesis using n t s by auto
qed

end
