(* ===== verification/User_Ptr.thy ===== *)
theory User_Ptr
  imports Process_Table Bytes
begin

text \<open>
  Checked access to user memory, \<^verbatim>\<open>memory/user_ptr.rs\<close>. Before the kernel touches a range of user addresses it probes
  every page of it and lets the page-fault handler bring in the pages that the probe cannot access.

  The probes are instructions: whether the memory unit denies an access is the parameter \<open>s_denied\<close>, a function of the
  root of the current page table, the memory, the address and the kind of access. \<open>Trap_Entry\<close> shows that a probe returns just
  that, and that the write probe stores a byte it was not given: \<open>s_junk\<close> is that byte. A value of a Rust type is its
  bytes in memory; the argument \<open>sz\<close> is the size of the type.
\<close>

record ('f, 'fa) senv =
  s_kenv :: "('f, 'fa) kenv"
  s_denied :: "usize \<Rightarrow> 'fa kmem \<Rightarrow> usize \<Rightarrow> PageFaultAccessType \<Rightarrow> bool"
  s_junk :: "usize \<Rightarrow> u8"

type_synonym ('f, 'fa, 'w, 'a) sysm = "('a SysResult \<times> ('f, 'fa, 'w) kstate) option"

section \<open>User memory of a process\<close>

definition lp_umem :: "nat \<Rightarrow> ('f, 'fa, 'w) kstate \<Rightarrow> umem option" where
  "lp_umem r k = do { p \<leftarrow> k_procs k r; Some (k_umem k (lp_memory p)) }"

definition upd_umem :: "(umem \<Rightarrow> umem) \<Rightarrow> nat \<Rightarrow> ('f, 'fa, 'w) kstate \<Rightarrow> ('f, 'fa, 'w) kstate option" where
  "upd_umem f r k = do {
     p \<leftarrow> k_procs k r;
     Some (k\<lparr>k_umem := (k_umem k)(lp_memory p := f (k_umem k (lp_memory p)))\<rparr>) }"

definition user_load :: "usize \<Rightarrow> nat \<Rightarrow> nat \<Rightarrow> ('f, 'fa, 'w) kstate \<Rightarrow> u8 list option" where
  "user_load va n r k = do { u \<leftarrow> lp_umem r k; Some (read_bytes u va n) }"

definition user_store :: "usize \<Rightarrow> u8 list \<Rightarrow> nat \<Rightarrow> ('f, 'fa, 'w) kstate \<Rightarrow> ('f, 'fa, 'w) kstate option" where
  "user_store va bs r k = upd_umem (write_bytes va bs) r k"

text \<open>\<open>handle_pagefault\<close> on the address space of a process. A page that had no entry before holds afterwards what
  its new frame holds.\<close>

definition lproc_pagefault ::
  "('f, 'fa) senv \<Rightarrow> usize \<Rightarrow> PageFaultAccessType \<Rightarrow> nat \<Rightarrow> ('f, 'fa, 'w) kstate \<Rightarrow>
   ((PageFaultErr + unit) \<times> ('f, 'fa, 'w) kstate) option" where
  "lproc_pagefault E va acc r k = do {
     p \<leftarrow> k_procs k r;
     let P = e_platform (s_kenv E);
     let c = lp_memory p;
     old \<leftarrow> get_pte_copied_from_vpn P (page_table (k_mems k c)) (page_num_down va) (k_mem k);
     (res, us, m) \<leftarrow> handle_pagefault P (e_alloc (s_kenv E)) (e_get_page (s_kenv E)) (k_satp k) va acc (k_mems k c, k_mem k);
     let u = (if old = None \<and> res = Inr ()
              then (\<lambda>a. if page_num_down a = page_num_down va then user_view P (page_table us) m a else k_umem k c a)
              else k_umem k c);
     Some (res, k\<lparr>k_mems := (k_mems k)(c := us), k_mem := m, k_umem := (k_umem k)(c := u)\<rparr>) }"

section \<open>Making a range accessible\<close>

datatype control_flow = Continue | Break "SysError option"

text \<open>\<open>will_read_fail\<close> and \<open>will_write_fail\<close>, chosen by the kind of access.\<close>

definition test_fn ::
  "('f, 'fa) senv \<Rightarrow> PageFaultAccessType \<Rightarrow> usize \<Rightarrow> nat \<Rightarrow> ('f, 'fa, 'w) kstate \<Rightarrow> (bool \<times> ('f, 'fa, 'w) kstate) option" where
  "test_fn E acc va r k = do {
     rassert (acc = A_RO \<or> acc = A_RW);
     rassert (k_rw_trap k);
     let failed = s_denied E (k_satp k) (k_mem k) va acc;
     if acc = A_RW \<and> \<not> failed then do {
       k \<leftarrow> upd_umem (\<lambda>u. u(va := s_junk E va)) r k;
       Some (failed, k) }
     else Some (failed, k) }"

definition ensure_page ::
  "('f, 'fa) senv \<Rightarrow> PageFaultAccessType \<Rightarrow> usize \<Rightarrow> nat \<Rightarrow> ('f, 'fa, 'w) kstate \<Rightarrow> ('f, 'fa, 'w, unit) sysm" where
  "ensure_page E acc va r k = do {
     (failed, k) \<leftarrow> test_fn E acc va r k;
     if failed then do {
       (res, k) \<leftarrow> lproc_pagefault E va acc r k;
       Some (case res of Inl _ \<Rightarrow> Inl EFAULT | Inr _ \<Rightarrow> Inr (), k) }
     else Some (Inr (), k) }"

lemma page_step: "next_page (round_down va) = Some n \<Longrightarrow> unat n = unat va - unat va mod 4096 + 4096"
  using unat_floor4k[of va] by (auto simp: next_page_def round_down_def floor4k_def PAGE_SIZE_eq minus_mod_eq_div_mult dest!: unat_uadd)

lemma page_less: "next_page (round_down va) = Some n \<Longrightarrow> 2 ^ 64 - unat n < 2 ^ 64 - unat va"
  using page_step[of va n] mod_less_divisor[of 4096 "unat va"] unat_lt2p[of n] unat_lt2p[of va] by auto

text \<open>The loop of \<open>ensure_user_area\<close>; \<open>f\<close> is the closure that is called with each piece, with the variables it captures.\<close>

function ensure_loop ::
  "('f, 'fa) senv \<Rightarrow> PageFaultAccessType \<Rightarrow> nat \<Rightarrow>
   (usize \<Rightarrow> usize \<Rightarrow> 's \<times> ('f, 'fa, 'w) kstate \<Rightarrow> (control_flow \<times> 's \<times> ('f, 'fa, 'w) kstate) option) \<Rightarrow>
   usize \<Rightarrow> usize \<Rightarrow> usize \<Rightarrow> 's \<times> ('f, 'fa, 'w) kstate \<Rightarrow> (unit SysResult \<times> 's \<times> ('f, 'fa, 'w) kstate) option" where
  "ensure_loop E acc r f len cur readable s = (
     if len \<le> readable then Some (Inr (), fst s, (snd s)\<lparr>k_rw_trap := False\<rparr>)
     else case ensure_page E acc cur r (snd s) of
       None \<Rightarrow> None
     | Some (Inl e, k) \<Rightarrow> Some (Inl e, fst s, k)
     | Some (Inr _, k) \<Rightarrow> (case next_page (round_down cur) of
         None \<Rightarrow> None
       | Some nxt \<Rightarrow> (case f cur (nxt - cur) (fst s, k) of
           None \<Rightarrow> None
         | Some (Break None, s) \<Rightarrow> Some (Inr (), s)
         | Some (Break (Some e), s) \<Rightarrow> Some (Inl e, s)
         | Some (Continue, s) \<Rightarrow> (case uadd readable (nxt - cur) of
             None \<Rightarrow> None
           | Some readable \<Rightarrow> ensure_loop E acc r f len nxt readable s))))"
  by pat_completeness auto
termination
  by (relation "measure (\<lambda>(E, acc, r, f, len, cur, readable, s). 2 ^ 64 - unat cur)") (auto dest: page_less)

declare ensure_loop.simps [simp del]

definition ensure_user_area ::
  "('f, 'fa) senv \<Rightarrow> usize \<Rightarrow> usize \<Rightarrow> PageFaultAccessType \<Rightarrow> nat \<Rightarrow>
   (usize \<Rightarrow> usize \<Rightarrow> 's \<times> ('f, 'fa, 'w) kstate \<Rightarrow> (control_flow \<times> 's \<times> ('f, 'fa, 'w) kstate) option) \<Rightarrow>
   's \<times> ('f, 'fa, 'w) kstate \<Rightarrow> (unit SysResult \<times> 's \<times> ('f, 'fa, 'w) kstate) option" where
  "ensure_user_area E beg len acc r f s =
     (if len = 0 then Some (Inr (), s)
      else ensure_loop E acc r f len beg 0 (fst s, (snd s)\<lparr>k_rw_trap := True\<rparr>))"

definition just_ensure_user_area ::
  "('f, 'fa) senv \<Rightarrow> usize \<Rightarrow> usize \<Rightarrow> PageFaultAccessType \<Rightarrow> nat \<Rightarrow> ('f, 'fa, 'w) kstate \<Rightarrow> ('f, 'fa, 'w, unit) sysm" where
  "just_ensure_user_area E beg len acc r k = do {
     (res, _, k) \<leftarrow> ensure_user_area E beg len acc r (\<lambda>_ _ s. Some (Continue, s)) ((), k);
     Some (res, k) }"

section \<open>User pointers\<close>

definition up_add :: "usize \<Rightarrow> usize \<Rightarrow> usize \<Rightarrow> usize" where
  "up_add sz ptr count = ptr + sz * count"

definition up_read :: "('f, 'fa) senv \<Rightarrow> usize \<Rightarrow> usize \<Rightarrow> nat \<Rightarrow> ('f, 'fa, 'w) kstate \<Rightarrow> ('f, 'fa, 'w, u8 list) sysm" where
  "up_read E sz ptr r k = do {
     rassert (ptr \<noteq> 0);
     sys_bind (just_ensure_user_area E ptr sz A_RO r k) (\<lambda>_ k. do {
       bs \<leftarrow> user_load ptr (unat sz) r k;
       Some (Inr bs, k) }) }"

text \<open>The bytes of the slice. A reference to a slice that may be written is its address, so \<open>up_as_mut_slice\<close> only
  makes the range accessible.\<close>

definition up_as_slice ::
  "('f, 'fa) senv \<Rightarrow> usize \<Rightarrow> usize \<Rightarrow> usize \<Rightarrow> nat \<Rightarrow> ('f, 'fa, 'w) kstate \<Rightarrow> ('f, 'fa, 'w, u8 list) sysm" where
  "up_as_slice E sz ptr n r k = do {
     rassert (n = 0 \<or> ptr \<noteq> 0);
     total \<leftarrow> umul sz n;
     sys_bind (just_ensure_user_area E ptr total A_RO r k) (\<lambda>_ k. do {
       bs \<leftarrow> user_load ptr (unat total) r k;
       Some (Inr bs, k) }) }"

definition up_read_array ::
  "('f, 'fa) senv \<Rightarrow> usize \<Rightarrow> usize \<Rightarrow> usize \<Rightarrow> nat \<Rightarrow> ('f, 'fa, 'w) kstate \<Rightarrow> ('f, 'fa, 'w, u8 list list) sysm" where
  "up_read_array E sz ptr n r k = sys_bind (up_as_slice E sz ptr n r k) (\<lambda>bs k.
     Some (Inr (map (\<lambda>i. take (unat sz) (drop (i * unat sz) bs)) [0..<unat n]), k))"

fun cstr_scan :: "umem \<Rightarrow> usize \<Rightarrow> nat \<Rightarrow> string \<Rightarrow> bool \<times> string" where
  "cstr_scan u va 0 str = (False, str)"
| "cstr_scan u va (Suc n) str =
     (if u va = 0 then (True, str) else cstr_scan u (va + 1) n (str @ [char_of (unat (u va))]))"

definition read_cstr_piece ::
  "nat \<Rightarrow> usize \<Rightarrow> usize \<Rightarrow> (string \<times> bool) \<times> ('f, 'fa, 'w) kstate \<Rightarrow>
   (control_flow \<times> (string \<times> bool) \<times> ('f, 'fa, 'w) kstate) option" where
  "read_cstr_piece r beg len s = (case s of ((str, has_ended), k) \<Rightarrow> do {
     u \<leftarrow> lp_umem r k;
     let (e, str) = cstr_scan u beg (unat len) str;
     Some (if e then Break None else Continue, (str, has_ended \<or> e), k) })"

definition up_read_cstr :: "('f, 'fa) senv \<Rightarrow> usize \<Rightarrow> nat \<Rightarrow> ('f, 'fa, 'w) kstate \<Rightarrow> ('f, 'fa, 'w, string) sysm" where
  "up_read_cstr E ptr r k = do {
     rassert (ptr \<noteq> 0);
     (res, (str, has_ended), k) \<leftarrow> ensure_user_area E ptr (- 1) A_RO r (read_cstr_piece r) (([], False), k);
     Some (case res of Inl e \<Rightarrow> Inl e | Inr _ \<Rightarrow> if has_ended then Inr str else Inl EINVAL, k) }"

definition up_as_mut_slice ::
  "('f, 'fa) senv \<Rightarrow> usize \<Rightarrow> usize \<Rightarrow> usize \<Rightarrow> nat \<Rightarrow> ('f, 'fa, 'w) kstate \<Rightarrow> ('f, 'fa, 'w, unit) sysm" where
  "up_as_mut_slice E sz ptr n r k = do {
     rassert (n = 0 \<or> ptr \<noteq> 0);
     total \<leftarrow> umul sz n;
     just_ensure_user_area E ptr total A_RW r k }"

definition up_write ::
  "('f, 'fa) senv \<Rightarrow> usize \<Rightarrow> u8 list \<Rightarrow> nat \<Rightarrow> ('f, 'fa, 'w) kstate \<Rightarrow> ('f, 'fa, 'w, unit) sysm" where
  "up_write E ptr val r k = do {
     rassert (ptr \<noteq> 0);
     sys_bind (just_ensure_user_area E ptr (word_of_nat (length val)) A_RW r k) (\<lambda>_ k. do {
       k \<leftarrow> user_store ptr val r k;
       Some (Inr (), k) }) }"

definition up_write_array ::
  "('f, 'fa) senv \<Rightarrow> usize \<Rightarrow> usize \<Rightarrow> u8 list list \<Rightarrow> nat \<Rightarrow> ('f, 'fa, 'w) kstate \<Rightarrow> ('f, 'fa, 'w, unit) sysm" where
  "up_write_array E sz ptr val r k = do {
     rassert (ptr \<noteq> 0);
     total \<leftarrow> umul sz (word_of_nat (length val));
     sys_bind (just_ensure_user_area E ptr total A_RW r k) (\<lambda>_ k. do {
       k \<leftarrow> user_store ptr (concat val) r k;
       Some (Inr (), k) }) }"

text \<open>The bytes of a string: a character from 128 on has two.\<close>

definition char_bytes :: "char \<Rightarrow> u8 list" where
  "char_bytes c = (let n = of_char c :: nat in
     if n < 128 then [word_of_nat n] else [word_of_nat (192 + n div 64), word_of_nat (128 + n mod 64)])"

definition as_bytes :: "string \<Rightarrow> u8 list" where
  "as_bytes s = concat (map char_bytes s)"

definition write_cstr_piece ::
  "nat \<Rightarrow> usize \<Rightarrow> usize \<Rightarrow> (u8 list \<times> bool) \<times> ('f, 'fa, 'w) kstate \<Rightarrow>
   (control_flow \<times> (u8 list \<times> bool) \<times> ('f, 'fa, 'w) kstate) option" where
  "write_cstr_piece r beg len s = (case s of ((str, has_filled_zero), k) \<Rightarrow> do {
     let writable_len = min (unat len) (length str);
     k \<leftarrow> user_store beg (take writable_len str) r k;
     let str = drop writable_len str;
     if str = [] \<and> writable_len < unat len then do {
       k \<leftarrow> user_store (beg + word_of_nat writable_len) [0] r k;
       Some (Continue, (str, True), k) }
     else Some (Continue, (str, has_filled_zero), k) })"

definition up_write_cstr ::
  "('f, 'fa) senv \<Rightarrow> usize \<Rightarrow> string \<Rightarrow> nat \<Rightarrow> ('f, 'fa, 'w) kstate \<Rightarrow> ('f, 'fa, 'w, unit) sysm" where
  "up_write_cstr E ptr val r k = do {
     rassert (ptr \<noteq> 0);
     len \<leftarrow> uadd (word_of_nat (length (as_bytes val))) 1;
     (res, (_, has_filled_zero), k) \<leftarrow>
       ensure_user_area E ptr len A_RW r (write_cstr_piece r) ((as_bytes val, False), k);
     Some (case res of Inl e \<Rightarrow> Inl e | Inr _ \<Rightarrow> if has_filled_zero then Inr () else Inl EINVAL, k) }"

end
