(* ===== verification/User_Ptr_Laws.thy ===== *)
theory User_Ptr_Laws
  imports User_Ptr Elf_Laws
begin

text \<open>
  Laws of the checked access to user memory. \<open>allowed\<close> says that the memory unit lets the kernel access a range. On such a
  range a value that was written is read back, and a C string is read up to its terminator; a range that cannot be
  made accessible gives \<open>EFAULT\<close>. In all cases but the first the trap vector of the probes stays in place.
\<close>

definition allowed :: "('f, 'fa) senv \<Rightarrow> PageFaultAccessType \<Rightarrow> nat \<Rightarrow> nat \<Rightarrow> ('f, 'fa, 'w) kstate \<Rightarrow> bool" where
  "allowed E acc lo hi k \<longleftrightarrow> (\<forall>a. lo \<le> unat a \<and> unat a < hi \<longrightarrow> \<not> s_denied E (k_satp k) (k_mem k) a acc)"

definition with_umem :: "nat \<Rightarrow> umem \<Rightarrow> ('f, 'fa, 'w) kstate \<Rightarrow> ('f, 'fa, 'w) kstate" where
  "with_umem c u k = k\<lparr>k_umem := (k_umem k)(c := u)\<rparr>"

definition probed :: "('f, 'fa) senv \<Rightarrow> PageFaultAccessType \<Rightarrow> usize \<Rightarrow> umem \<Rightarrow> umem" where
  "probed E acc va u = (if acc = A_RW then u(va := s_junk E va) else u)"

lemma with_umem_sel [simp]:
  "k_procs (with_umem c u k) = k_procs k" "k_satp (with_umem c u k) = k_satp k" "k_mem (with_umem c u k) = k_mem k"
  "k_rw_trap (with_umem c u k) = k_rw_trap k" "k_umem (with_umem c u k) c = u"
  "with_umem c v (with_umem c u k) = with_umem c v k" "with_umem c (k_umem k c) k = k"
  "(with_umem c u k)\<lparr>k_rw_trap := b\<rparr> = with_umem c u (k\<lparr>k_rw_trap := b\<rparr>)"
  by (simp_all add: with_umem_def)

lemma allowed_sel [simp]:
  "allowed E acc lo hi (with_umem c u k) = allowed E acc lo hi k" "allowed E acc lo hi (k\<lparr>k_rw_trap := b\<rparr>) = allowed E acc lo hi k"
  by (simp_all add: allowed_def)

lemma allowed_mono: "allowed E acc lo hi k \<Longrightarrow> lo \<le> lo' \<Longrightarrow> hi' \<le> hi \<Longrightarrow> allowed E acc lo' hi' k"
  by (auto simp: allowed_def)

lemma access_cases: "A_RO \<noteq> A_RW"
  by (simp add: A_RO_def A_RW_def A_READ_def A_WRITE_def)

lemma ensure_page_ok:
  assumes "k_procs k r = Some p" "k_rw_trap k" "acc = A_RO \<or> acc = A_RW" "allowed E acc (unat va) hi k" "unat va < hi"
  shows "ensure_page E acc va r k = Some (Inr (), with_umem (lp_memory p) (probed E acc va (k_umem k (lp_memory p))) k)"
  using assms by (auto simp: ensure_page_def test_fn_def allowed_def upd_umem_def probed_def with_umem_def Let_def)

text \<open>The next page of an address below the last page.\<close>

lemma next_page_ok:
  fixes va :: usize
  assumes "unat va + 4096 < 2 ^ 64"
  obtains n where "next_page (round_down va) = Some n" "unat n = unat va - unat va mod 4096 + 4096"
    "unat (n - va) = unat n - unat va" "unat va < unat n"
proof -
  have f: "unat (round_down va) = unat va - unat va mod 4096"
    using unat_floor4k[of va] by (simp add: floor4k_def minus_mod_eq_div_mult)
  have "unat (round_down va) + unat PAGE_SIZE < 2 ^ 64" using f assms by (simp add: PAGE_SIZE_eq)
  hence n: "next_page (round_down va) = Some (round_down va + PAGE_SIZE)" by (simp add: next_page_def uadd_def)
  note u = page_step[OF n]
  have lt: "unat va < unat (round_down va + PAGE_SIZE)" using u mod_less_divisor[of 4096 "unat va"] by linarith
  thus thesis using that[OF n u] by (simp add: unat_sub word_le_nat_alt)
qed

text \<open>One round of the loop.\<close>

lemma loop_step:
  fixes cur :: usize
  assumes "unat cur + 4096 < 2 ^ 64" "unat readable \<le> unat cur"
  obtains n where "next_page (round_down cur) = Some n" "unat (n - cur) = unat n - unat cur" "unat cur < unat n"
    "uadd readable (n - cur) = Some (readable + (n - cur))"
    "unat (readable + (n - cur)) = unat readable + (unat n - unat cur)" "unat (readable + (n - cur)) \<le> unat n"
    "unat n + 4096 \<le> 2 ^ 64"
proof -
  obtain n where n: "next_page (round_down cur) = Some n" "unat n = unat cur - unat cur mod 4096 + 4096"
    "unat (n - cur) = unat n - unat cur" "unat cur < unat n" by (rule next_page_ok[OF assms(1)])
  have lt: "unat readable + (unat n - unat cur) < 2 ^ 64" using assms n(2) by linarith
  hence ua: "uadd readable (n - cur) = Some (readable + (n - cur))" by (simp add: uadd_def n(3))
  have ur: "unat (readable + (n - cur)) = unat readable + (unat n - unat cur)" using unat_uadd[OF ua] n(3) by simp
  have "unat n = (unat cur div 4096 + 1) * 4096" using n(2) by (simp add: minus_mod_eq_div_mult)
  moreover have "x * 4096 + 4096 \<le> 2 ^ 64" if "x * 4096 < (2 ^ 64 :: nat)" for x
  proof -
    have "x * 4096 < 2 ^ 52 * 4096" using that by simp
    hence "Suc x \<le> 2 ^ 52" by (simp only: mult_less_cancel2 Suc_le_eq)
    hence "Suc x * 4096 \<le> 2 ^ 52 * 4096" by (rule mult_le_mono1)
    thus ?thesis by simp
  qed
  ultimately have "unat n + 4096 \<le> 2 ^ 64" using unat_lt2p[of n] by simp
  moreover have "unat readable + (unat n - unat cur) \<le> unat n" using assms(2) n(4) by linarith
  ultimately show thesis using that[OF n(1,3,4) ua ur] ur by simp
qed

lemma ensure_loop_ok:
  assumes "k_procs k r = Some p" "k_rw_trap k" "acc = A_RO \<or> acc = A_RW" "unat readable \<le> unat cur"
    "allowed E acc (unat cur) (unat cur + (unat len - unat readable)) k"
    "unat cur + (unat len - unat readable) + 4096 \<le> 2 ^ 64"
  shows "\<exists>u. ensure_loop E acc r (\<lambda>_ _ s. Some (Continue, s)) len cur readable ((), k) =
      Some (Inr (), (), with_umem (lp_memory p) u (k\<lparr>k_rw_trap := False\<rparr>)) \<and>
    (\<forall>a. \<not> (unat cur \<le> unat a \<and> unat a < unat cur + (unat len - unat readable)) \<longrightarrow> u a = k_umem k (lp_memory p) a) \<and>
    (acc = A_RO \<longrightarrow> u = k_umem k (lp_memory p))"
  using assms
proof (induction "unat len - unat readable" arbitrary: cur readable k rule: less_induct)
  case less
  show ?case
  proof (cases "len \<le> readable")
    case True
    thus ?thesis
      by (intro exI[of _ "k_umem k (lp_memory p)"]) (simp add: ensure_loop.simps[of E acc r _ len cur readable] with_umem_def)
  next
    case False
    hence lt: "unat readable < unat len" by (simp add: word_le_nat_alt)
    have b: "unat cur + 4096 < 2 ^ 64" using lt less.prems(6) by linarith
    obtain n where n: "next_page (round_down cur) = Some n" "unat (n - cur) = unat n - unat cur" "unat cur < unat n"
      "uadd readable (n - cur) = Some (readable + (n - cur))"
      "unat (readable + (n - cur)) = unat readable + (unat n - unat cur)" "unat (readable + (n - cur)) \<le> unat n"
      "unat n + 4096 \<le> 2 ^ 64" by (rule loop_step[OF b less.prems(4)])
    let ?d = "unat n - unat cur" let ?k = "with_umem (lp_memory p) (probed E acc cur (k_umem k (lp_memory p))) k"
    have ep: "ensure_page E acc cur r k = Some (Inr (), ?k)"
      using less.prems lt by (intro ensure_page_ok[where hi = "unat cur + (unat len - unat readable)"]) auto
    have st: "ensure_loop E acc r (\<lambda>_ _ s. Some (Continue, s)) len cur readable ((), k) =
      ensure_loop E acc r (\<lambda>_ _ s. Some (Continue, s)) len n (readable + (n - cur)) ((), ?k)"
      by (subst ensure_loop.simps) (simp add: False ep n(1,4))
    have al: "allowed E acc (unat n) (unat n + (unat len - (unat readable + ?d))) ?k"
      using less.prems(5) n(3) unfolding allowed_def by auto
    have bb: "unat n + (unat len - (unat readable + ?d)) + 4096 \<le> 2 ^ 64"
      using less.prems(6) n(3,7) by linarith
    have "unat len - unat (readable + (n - cur)) < unat len - unat readable" using n(3,5) lt by linarith
    note ih = less.hyps[OF this, where k = ?k and cur = n, unfolded n(5) with_umem_sel]
    have "\<exists>u. ensure_loop E acc r (\<lambda>_ _ s. Some (Continue, s)) len n (readable + (n - cur)) ((), ?k) =
        Some (Inr (), (), with_umem (lp_memory p) u (k\<lparr>k_rw_trap := False\<rparr>)) \<and>
      (\<forall>a. \<not> (unat n \<le> unat a \<and> unat a < unat n + (unat len - (unat readable + ?d))) \<longrightarrow>
        u a = probed E acc cur (k_umem k (lp_memory p)) a) \<and> (acc = A_RO \<longrightarrow> u = probed E acc cur (k_umem k (lp_memory p)))"
      using n(6) unfolding n(5) by (intro ih[OF less.prems(1-3) _ al bb])
    then obtain u where u: "ensure_loop E acc r (\<lambda>_ _ s. Some (Continue, s)) len n (readable + (n - cur)) ((), ?k) =
        Some (Inr (), (), with_umem (lp_memory p) u (k\<lparr>k_rw_trap := False\<rparr>))"
      "\<forall>a. \<not> (unat n \<le> unat a \<and> unat a < unat n + (unat len - (unat readable + ?d))) \<longrightarrow>
        u a = probed E acc cur (k_umem k (lp_memory p)) a" "acc = A_RO \<longrightarrow> u = probed E acc cur (k_umem k (lp_memory p))"
      by blast
    show ?thesis
    proof (intro exI[of _ u] conjI allI impI)
      show "ensure_loop E acc r (\<lambda>_ _ s. Some (Continue, s)) len cur readable ((), k) =
        Some (Inr (), (), with_umem (lp_memory p) u (k\<lparr>k_rw_trap := False\<rparr>))" using st u(1) by simp
    next
      fix a :: usize assume a: "\<not> (unat cur \<le> unat a \<and> unat a < unat cur + (unat len - unat readable))"
      hence "\<not> (unat n \<le> unat a \<and> unat a < unat n + (unat len - (unat readable + ?d)))" "a \<noteq> cur" using n(3) lt by auto
      thus "u a = k_umem k (lp_memory p) a" using u(2) by (simp add: probed_def)
    next
      assume "acc = A_RO"
      thus "u = k_umem k (lp_memory p)" using u(3) access_cases by (simp add: probed_def)
    qed
  qed
qed

lemma just_ensure_ok:
  assumes "k_procs k r = Some p" "acc = A_RO \<or> acc = A_RW" "allowed E acc (unat va) (unat va + unat len) k"
    "unat va + unat len + 4096 \<le> 2 ^ 64"
  shows "\<exists>u b. just_ensure_user_area E va len acc r k = Some (Inr (), with_umem (lp_memory p) u (k\<lparr>k_rw_trap := b\<rparr>)) \<and>
    (\<forall>a. \<not> (unat va \<le> unat a \<and> unat a < unat va + unat len) \<longrightarrow> u a = k_umem k (lp_memory p) a) \<and>
    (acc = A_RO \<longrightarrow> u = k_umem k (lp_memory p))"
proof (cases "len = 0")
  case True
  thus ?thesis
    by (intro exI[of _ "k_umem k (lp_memory p)"] exI[of _ "k_rw_trap k"])
      (simp add: just_ensure_user_area_def ensure_user_area_def with_umem_def)
next
  case False
  obtain u where u: "ensure_loop E acc r (\<lambda>_ _ s. Some (Continue, s)) len va 0 ((), k\<lparr>k_rw_trap := True\<rparr>) =
      Some (Inr (), (), with_umem (lp_memory p) u (k\<lparr>k_rw_trap := False\<rparr>))"
    "\<forall>a. \<not> (unat va \<le> unat a \<and> unat a < unat va + unat len) \<longrightarrow> u a = k_umem k (lp_memory p) a"
    "acc = A_RO \<longrightarrow> u = k_umem k (lp_memory p)"
    using ensure_loop_ok[of "k\<lparr>k_rw_trap := True\<rparr>" r p acc 0 va E len] assms by auto
  show ?thesis
    by (rule exI[of _ u], rule exI[of _ False])
      (use u False in \<open>simp add: just_ensure_user_area_def ensure_user_area_def\<close>)
qed

lemma with_umem_store:
  "k_procs k r = Some p \<Longrightarrow> user_store va bs r k = Some (with_umem (lp_memory p) (write_bytes va bs (k_umem k (lp_memory p))) k)"
  by (simp add: user_store_def upd_umem_def with_umem_def)

lemma write_bytes_outside:
  assumes "\<not> (unat va \<le> unat a \<and> unat a < unat va + length bs)" "unat va + length bs < 2 ^ 64"
  shows "write_bytes va bs u a = u a"
proof -
  have "\<not> unat (a - va) < length bs"
  proof (cases "va \<le> a")
    case True
    thus ?thesis using assms(1) by (auto simp: unat_sub word_le_nat_alt)
  next
    case False
    have "unat (a - va) = 2 ^ 64 - (unat va - unat a)"
      using False by (simp add: unat_sub_if' word_le_nat_alt)
    thus ?thesis using assms(2) unat_lt2p[of va] by auto
  qed
  thus ?thesis by (simp add: write_bytes_def)
qed

text \<open>Writing and reading back (C15): a value that the kernel writes to accessible user memory is the value it reads
  there; nothing outside its bytes changes.\<close>

theorem user_write_read:
  assumes p: "k_procs k r = Some p" and ptr: "ptr \<noteq> 0" "unat ptr + length val + 4096 \<le> 2 ^ 64"
    and ok: "allowed E A_RW (unat ptr) (unat ptr + length val) k" "allowed E A_RO (unat ptr) (unat ptr + length val) k"
  shows "\<exists>u b. up_write E ptr val r k = Some (Inr (), k\<lparr>k_rw_trap := b, k_umem := (k_umem k)(lp_memory p := u)\<rparr>) \<and>
    (\<forall>a. \<not> (unat ptr \<le> unat a \<and> unat a < unat ptr + length val) \<longrightarrow> u a = k_umem k (lp_memory p) a) \<and>
    (\<exists>k'. up_read E (word_of_nat (length val)) ptr r (k\<lparr>k_rw_trap := b, k_umem := (k_umem k)(lp_memory p := u)\<rparr>) =
      Some (Inr val, k'))"
proof -
  let ?n = "word_of_nat (length val) :: usize" let ?c = "lp_memory p"
  have n: "unat ?n = length val" using ptr(2) by (intro unat_word_of_nat) simp
  obtain v b where v: "just_ensure_user_area E ptr ?n A_RW r k = Some (Inr (), with_umem ?c v (k\<lparr>k_rw_trap := b\<rparr>))"
    "\<forall>a. \<not> (unat ptr \<le> unat a \<and> unat a < unat ptr + length val) \<longrightarrow> v a = k_umem k ?c a"
    using just_ensure_ok[OF p, of A_RW E ptr ?n] ok ptr unfolding n by blast
  let ?u = "write_bytes ptr val v" let ?k = "with_umem ?c ?u (k\<lparr>k_rw_trap := b\<rparr>)"
  have w: "up_write E ptr val r k = Some (Inr (), ?k)"
    using ptr(1) p by (simp add: up_write_def v(1) with_umem_store)
  have kp: "k_procs ?k r = Some p" using p by simp
  obtain b' where "just_ensure_user_area E ptr ?n A_RO r ?k = Some (Inr (), with_umem ?c ?u (?k\<lparr>k_rw_trap := b'\<rparr>))"
    using just_ensure_ok[OF kp, of A_RO E ptr ?n] ok ptr unfolding n by auto
  moreover have "read_bytes ?u ptr (length val) = val" using ptr(2) by (intro read_written) simp
  ultimately have "\<exists>k'. up_read E ?n ptr r ?k = Some (Inr val, k')"
    using ptr(1) p by (simp add: up_read_def user_load_def lp_umem_def n)
  moreover have "\<forall>a. \<not> (unat ptr \<le> unat a \<and> unat a < unat ptr + length val) \<longrightarrow> ?u a = k_umem k ?c a"
    using v(2) ptr(2) by (auto simp: write_bytes_outside)
  ultimately show ?thesis using w by (intro exI[of _ ?u] exI[of _ b]) (simp add: with_umem_def)
qed

section \<open>Errors\<close>

lemma lproc_pagefault_trap: "lproc_pagefault E va acc r k = Some (res, k') \<Longrightarrow> k_rw_trap k' = k_rw_trap k"
  by (auto simp: lproc_pagefault_def bind_eq_Some_conv Let_def)

lemma ensure_page_trap: "ensure_page E acc va r k = Some (res, k') \<Longrightarrow> k_rw_trap k' = k_rw_trap k \<and> (\<forall>e. res = Inl e \<longrightarrow> e = EFAULT)"
  by (auto simp: ensure_page_def test_fn_def upd_umem_def bind_eq_Some_conv Let_def
    split: if_split_asm sum.split_asm dest!: lproc_pagefault_trap) (metis sumE old.unit.exhaust)+

lemma ensure_loop_fault:
  assumes "ensure_loop E acc r (\<lambda>_ _ s. Some (Continue, s)) len cur readable ((), k) = Some (Inl e, (), k')" "k_rw_trap k"
  shows "e = EFAULT \<and> k_rw_trap k'"
  using assms
proof (induction "2 ^ 64 - unat cur" arbitrary: cur readable k rule: less_induct)
  case less
  have step: "\<not> len \<le> readable" using less.prems(1) by (auto simp: ensure_loop.simps[of E acc r _ len cur readable])
  then obtain res k1 where ep: "ensure_page E acc cur r k = Some (res, k1)"
    using less.prems(1) by (cases "ensure_page E acc cur r k") (auto simp: ensure_loop.simps[of E acc r _ len cur readable])
  note tr = ensure_page_trap[OF ep]
  show ?case
  proof (cases res)
    case (Inl e')
    thus ?thesis using less.prems tr step ep by (auto simp: ensure_loop.simps[of E acc r _ len cur readable])
  next
    case (Inr x)
    obtain n where n: "next_page (round_down cur) = Some n"
      using less.prems(1) step ep Inr
      by (cases "next_page (round_down cur)") (auto simp: ensure_loop.simps[of E acc r _ len cur readable])
    obtain rd where rd: "uadd readable (n - cur) = Some rd"
      using less.prems(1) step ep Inr n
      by (cases "uadd readable (n - cur)") (auto simp: ensure_loop.simps[of E acc r _ len cur readable])
    have "ensure_loop E acc r (\<lambda>_ _ s. Some (Continue, s)) len n rd ((), k1) = Some (Inl e, (), k')"
      using less.prems(1) step ep Inr n rd by (auto simp: ensure_loop.simps[of E acc r _ len cur readable])
    thus ?thesis using less.hyps[OF page_less[OF n]] tr less.prems(2) by blast
  qed
qed

text \<open>Memory that cannot be accessed (C16): the only error of the check is \<open>EFAULT\<close>, and the hart is then left with the
  trap vector of the probes.\<close>

theorem ensure_fault:
  assumes "just_ensure_user_area E va len acc r k = Some (Inl e, k')"
  shows "e = EFAULT \<and> k_rw_trap k'"
  using assms ensure_loop_fault[of E acc r len va 0 "k\<lparr>k_rw_trap := True\<rparr>" e k']
  by (auto simp: just_ensure_user_area_def ensure_user_area_def bind_eq_Some_conv split: if_splits)

section \<open>C strings\<close>

lemma cstr_scan_all:
  assumes "\<forall>i<n. u (va + word_of_nat i) \<noteq> 0"
  shows "cstr_scan u va n str = (False, str @ map (\<lambda>b. char_of (unat b)) (read_bytes u va n))"
  using assms
proof (induction n arbitrary: va str)
  case (Suc n)
  have "u (va + 1 + word_of_nat i) \<noteq> 0" if "i < n" for i
    using Suc.prems[rule_format, of "Suc i"] that by (simp add: add.assoc)
  moreover have "u va \<noteq> 0" using Suc.prems[rule_format, of 0] by simp
  moreover have "read_bytes u va (Suc n) = u va # read_bytes u (va + 1) n"
    by (simp add: read_bytes_def upt_conv_Cons map_Suc_upt[symmetric] comp_def add.assoc del: upt_Suc)
  ultimately show ?case using Suc.IH by simp
qed (simp add: read_bytes_def)

lemma cstr_scan_found:
  assumes "\<forall>i<m. u (va + word_of_nat i) \<noteq> 0" "u (va + word_of_nat m) = 0" "m < n"
  shows "cstr_scan u va n str = (True, str @ map (\<lambda>b. char_of (unat b)) (read_bytes u va m))"
  using assms
proof (induction n arbitrary: va str m)
  case (Suc n)
  note IH = Suc.IH and prems = Suc.prems
  show ?case
  proof (cases m)
    case 0
    thus ?thesis using prems by (simp add: read_bytes_def)
  next
    case (Suc m')
    have "u (va + 1 + word_of_nat i) \<noteq> 0" if "i < m'" for i
      using prems(1)[rule_format, of "Suc i"] that Suc by (simp add: add.assoc)
    moreover have "u va \<noteq> 0" using prems(1)[rule_format, of 0] Suc by simp
    moreover have "read_bytes u va (Suc m') = u va # read_bytes u (va + 1) m'"
      by (simp add: read_bytes_def upt_conv_Cons map_Suc_upt[symmetric] comp_def add.assoc del: upt_Suc)
    moreover have "u (va + 1 + word_of_nat m') = 0" "m' < n" using prems(2,3) Suc by (simp_all add: add.assoc)
    ultimately show ?thesis using Suc IH[of m' "va + 1"] by simp
  qed
qed simp

lemma read_bytes_split: "read_bytes u va (m + n) = read_bytes u va m @ read_bytes u (va + word_of_nat m) n"
  by (rule nth_equalityI) (auto simp: read_bytes_def nth_append add.assoc simp flip: of_nat_add)

text \<open>The loop of \<open>read_cstr\<close>, with \<open>m\<close> bytes to go before the terminator.\<close>

lemma cstr_loop:
  assumes "k_procs k r = Some p" "k_rw_trap k" "unat readable \<le> unat cur"
    "allowed E A_RO (unat cur) (unat cur + m + 1) k" "unat cur + m + 1 + 4096 \<le> 2 ^ 64"
    "\<forall>i<m. k_umem k (lp_memory p) (cur + word_of_nat i) \<noteq> 0" "k_umem k (lp_memory p) (cur + word_of_nat m) = 0"
  shows "ensure_loop E A_RO r (read_cstr_piece r) (- 1) cur readable ((str, False), k) =
    Some (Inr (), (str @ map (\<lambda>b. char_of (unat b)) (read_bytes (k_umem k (lp_memory p)) cur m), True), k)"
  using assms
proof (induction m arbitrary: cur readable str rule: less_induct)
  case (less m)
  let ?u = "k_umem k (lp_memory p)"
  have b: "unat cur + 4096 < 2 ^ 64" using less.prems(5) by linarith
  obtain n where n: "next_page (round_down cur) = Some n" "unat (n - cur) = unat n - unat cur" "unat cur < unat n"
    "uadd readable (n - cur) = Some (readable + (n - cur))"
    "unat (readable + (n - cur)) = unat readable + (unat n - unat cur)" "unat (readable + (n - cur)) \<le> unat n"
    "unat n + 4096 \<le> 2 ^ 64" by (rule loop_step[OF b less.prems(3)])
  have "unat readable < unat (- 1 :: usize)" using less.prems(3) b by (simp add: unsigned_minus_1_eq_mask mask_eq_exp_minus_1)
  hence nl: "\<not> (- 1 :: usize) \<le> readable" by (simp add: word_le_nat_alt)
  have ep: "ensure_page E A_RO cur r k = Some (Inr (), k)"
    using ensure_page_ok[OF less.prems(1,2) _ less.prems(4)] access_cases by (simp add: probed_def)
  have lu: "lp_umem r k = Some ?u" using less.prems(1) by (simp add: lp_umem_def)
  show ?case
  proof (cases "m < unat (n - cur)")
    case True
    thus ?thesis using cstr_scan_found[OF less.prems(6,7) True, of str] nl ep n(1) lu
      by (subst ensure_loop.simps) (simp add: read_cstr_piece_def)
  next
    case False
    let ?d = "unat (n - cur)" let ?str = "str @ map (\<lambda>b. char_of (unat b)) (read_bytes ?u cur ?d)"
    have d: "?d \<le> m" "0 < ?d" "unat cur + ?d = unat n" using False n(2,3) by linarith+
    have nn: "n = cur + word_of_nat ?d" by simp
    have sh: "n + word_of_nat i = cur + word_of_nat (?d + i)" for i by (subst nn) (simp only: of_nat_add add.assoc)
    have "cstr_scan ?u cur ?d str = (False, ?str)" using less.prems(6) d(1) by (intro cstr_scan_all) simp
    hence "ensure_loop E A_RO r (read_cstr_piece r) (- 1) cur readable ((str, False), k) =
      ensure_loop E A_RO r (read_cstr_piece r) (- 1) n (readable + (n - cur)) ((?str, False), k)"
      using nl ep n(1,4) lu by (subst ensure_loop.simps) (simp add: read_cstr_piece_def)
    also have "\<dots> = Some (Inr (), (?str @ map (\<lambda>b. char_of (unat b)) (read_bytes ?u n (m - ?d)), True), k)"
    proof (rule less.IH[OF _ less.prems(1,2) n(6)])
      show "m - ?d < m" using d by linarith
      show "allowed E A_RO (unat n) (unat n + (m - ?d) + 1) k"
        by (rule allowed_mono[OF less.prems(4)]) (use d in linarith)+
      show "unat n + (m - ?d) + 1 + 4096 \<le> 2 ^ 64" using less.prems(5) d by linarith
      show "\<forall>i<m - ?d. ?u (n + word_of_nat i) \<noteq> 0"
        unfolding sh using less.prems(6) less_diff_conv[of _ m ?d, THEN iffD1] by (metis add.commute)
      have "?d + (m - ?d) = m" using d(1) by simp
      thus "?u (n + word_of_nat (m - ?d)) = 0" unfolding sh by (simp only: less.prems(7))
    qed
    also have "read_bytes ?u cur ?d @ read_bytes ?u n (m - ?d) = read_bytes ?u cur m"
      using read_bytes_split[of ?u cur ?d "m - ?d"] d(1) by simp
    hence "?str @ map (\<lambda>b. char_of (unat b)) (read_bytes ?u n (m - ?d)) = str @ map (\<lambda>b. char_of (unat b)) (read_bytes ?u cur m)"
      by (metis append.assoc map_append)
    finally show ?thesis .
  qed
qed

text \<open>Reading a C string: the bytes up to the terminator become the characters of the string, and user memory is
  unchanged. The call returns early from the check, so the trap vector of the probes stays in place.\<close>

lemma read_cstr_run:
  assumes p: "k_procs k r = Some p" and ptr: "ptr \<noteq> 0" "unat ptr + length bs + 1 + 4096 \<le> 2 ^ 64"
    and mem: "cstr_at (k_umem k (lp_memory p)) ptr bs" "0 \<notin> set bs" and ok: "allowed E A_RO (unat ptr) (unat ptr + length bs + 1) k"
  shows "up_read_cstr E ptr r k = Some (Inr (map (\<lambda>b. char_of (unat b)) bs), k\<lparr>k_rw_trap := True\<rparr>)"
proof -
  let ?u = "k_umem k (lp_memory p)" let ?m = "length bs"
  have rb: "read_bytes ?u ptr ?m @ [?u (ptr + word_of_nat ?m)] = bs @ [0]"
    using mem(1) by (simp add: cstr_at_def read_bytes_def)
  hence z: "read_bytes ?u ptr ?m = bs" "?u (ptr + word_of_nat ?m) = 0" by simp_all
  have "\<forall>i<?m. ?u (ptr + word_of_nat i) \<noteq> 0"
    using mem(2) arg_cong[OF z(1), of set] by (auto simp: read_bytes_def)
  thus ?thesis
    using cstr_loop[of "k\<lparr>k_rw_trap := True\<rparr>" r p 0 ptr E ?m "[]"] assms z
    by (simp add: up_read_cstr_def ensure_user_area_def)
qed

lemma unat_plus_index: "unat va + i < 2 ^ 64 \<Longrightarrow> unat (va + word_of_nat i :: usize) = unat va + i"
  using unat_word_of_nat[of i, where 'a = 64] by (simp add: unat_word_ariths)

lemma read_bytes_same:
  assumes "unat va + n \<le> 2 ^ 64" "\<forall>a. unat va \<le> unat a \<and> unat a < unat va + n \<longrightarrow> u a = v a"
  shows "read_bytes u va n = read_bytes v va n"
  using assms by (auto simp: read_bytes_def unat_plus_index)

lemma read_written_cstr:
  assumes "unat va + length bs + 1 < 2 ^ 64"
  shows "write_bytes (va + word_of_nat (length bs)) [0] (write_bytes va bs u) = write_bytes va (bs @ [0]) u"
proof
  fix a
  have l: "unat (va + word_of_nat (length bs)) = unat va + length bs" using assms by (simp add: unat_plus_index)
  have e: "a - (va + word_of_nat (length bs)) = 0 \<longleftrightarrow> unat (a - va) = length bs"
  proof -
    have "unat (word_of_nat (length bs) :: usize) = length bs" using assms by (intro unat_word_of_nat) simp
    hence "unat (a - va) = length bs \<longleftrightarrow> a - va = word_of_nat (length bs)" by (metis word_unat_eq_iff)
    thus ?thesis by (auto simp: algebra_simps)
  qed
  show "write_bytes (va + word_of_nat (length bs)) [0] (write_bytes va bs u) a = write_bytes va (bs @ [0]) u a"
    using e by (auto simp: write_bytes_def nth_append less_Suc_eq unat_eq_zero)
qed

lemma write_cstr_loop:
  assumes "k_procs k r = Some p" "k_rw_trap k" "unat readable \<le> unat cur" "unat len = unat readable + length bs + 1"
    "allowed E A_RW (unat cur) (unat cur + length bs + 1) k" "unat cur + length bs + 1 + 4096 \<le> 2 ^ 64"
  shows "\<exists>u. ensure_loop E A_RW r (write_cstr_piece r) len cur readable ((bs, False), k) =
      Some (Inr (), ([], True), with_umem (lp_memory p) u (k\<lparr>k_rw_trap := False\<rparr>)) \<and>
    read_bytes u cur (length bs + 1) = bs @ [0] \<and>
    (\<forall>a. \<not> (unat cur \<le> unat a \<and> unat a < unat cur + length bs + 1) \<longrightarrow> u a = k_umem k (lp_memory p) a)"
  using assms
proof (induction "length bs" arbitrary: bs cur readable k rule: less_induct)
  case less
  let ?c = "lp_memory p"
  have b: "unat cur + 4096 < 2 ^ 64" using less.prems(6) by linarith
  obtain n where n: "next_page (round_down cur) = Some n" "unat (n - cur) = unat n - unat cur" "unat cur < unat n"
    "uadd readable (n - cur) = Some (readable + (n - cur))"
    "unat (readable + (n - cur)) = unat readable + (unat n - unat cur)" "unat (readable + (n - cur)) \<le> unat n"
    "unat n + 4096 \<le> 2 ^ 64" by (rule loop_step[OF b less.prems(3)])
  let ?d = "unat (n - cur)"
  let ?v = "probed E A_RW cur (k_umem k ?c)"
  have nl: "\<not> len \<le> readable" using less.prems(4) by (simp add: word_le_nat_alt)
  have ep: "ensure_page E A_RW cur r k = Some (Inr (), with_umem ?c ?v k)"
    using ensure_page_ok[OF less.prems(1,2) _ less.prems(5)] by simp
  have v: "?v a = k_umem k ?c a" if "a \<noteq> cur" for a using that by (simp add: probed_def)
  show ?case
  proof (cases "length bs < ?d")
    case True
    let ?u = "write_bytes cur (bs @ [0]) ?v"
    have "len \<le> readable + (n - cur)" using True n(2,5) less.prems(4) by (simp add: word_le_nat_alt)
    moreover have "write_cstr_piece r cur (n - cur) ((bs, False), with_umem ?c ?v k) = Some (Continue, ([], True), with_umem ?c ?u k)"
      using True less.prems(1,6) by (simp add: write_cstr_piece_def with_umem_store read_written_cstr)
    ultimately have "ensure_loop E A_RW r (write_cstr_piece r) len cur readable ((bs, False), k) =
      Some (Inr (), ([], True), with_umem ?c ?u (k\<lparr>k_rw_trap := False\<rparr>))"
      using nl ep n(1,4)
      by (subst ensure_loop.simps) (simp add: ensure_loop.simps[of E A_RW r _ len n "readable + (n - cur)"])
    moreover have "read_bytes ?u cur (length (bs @ [0])) = bs @ [0]" using less.prems(6) by (intro read_written) simp
    moreover have "?u a = k_umem k ?c a" if "\<not> (unat cur \<le> unat a \<and> unat a < unat cur + length bs + 1)" for a
    proof -
      have "?u a = ?v a" using that less.prems(6) by (intro write_bytes_outside) auto
      moreover have "a \<noteq> cur" using that by (intro notI) simp
      ultimately show ?thesis using v[of a] by simp
    qed
    ultimately show ?thesis by (intro exI[of _ ?u]) simp
  next
    case False
    let ?w = "write_bytes cur (take ?d bs) ?v"
    have d: "?d \<le> length bs" "0 < ?d" "unat cur + ?d = unat n" using False n(2,3) by linarith+
    have "write_cstr_piece r cur (n - cur) ((bs, False), with_umem ?c ?v k) = Some (Continue, (drop ?d bs, False), with_umem ?c ?w k)"
      using d less.prems(1) by (simp add: write_cstr_piece_def with_umem_store min_def Let_def)
    hence st: "ensure_loop E A_RW r (write_cstr_piece r) len cur readable ((bs, False), k) =
      ensure_loop E A_RW r (write_cstr_piece r) len n (readable + (n - cur)) ((drop ?d bs, False), with_umem ?c ?w k)"
      using nl ep n(1,4) by (subst ensure_loop.simps) simp
    have "\<exists>u. ensure_loop E A_RW r (write_cstr_piece r) len n (readable + (n - cur)) ((drop ?d bs, False), with_umem ?c ?w k) =
        Some (Inr (), ([], True), with_umem ?c u ((with_umem ?c ?w k)\<lparr>k_rw_trap := False\<rparr>)) \<and>
      read_bytes u n (length (drop ?d bs) + 1) = drop ?d bs @ [0] \<and>
      (\<forall>a. \<not> (unat n \<le> unat a \<and> unat a < unat n + length (drop ?d bs) + 1) \<longrightarrow> u a = k_umem (with_umem ?c ?w k) ?c a)"
    proof (rule less.hyps[OF _ _ _ n(6)])
      show "allowed E A_RW (unat n) (unat n + length (drop ?d bs) + 1) (with_umem ?c ?w k)"
        unfolding allowed_sel by (rule allowed_mono[OF less.prems(5)]) (use d in auto)
    qed (use d n(2,5) less.prems in auto)
    then obtain u where u: "ensure_loop E A_RW r (write_cstr_piece r) len n (readable + (n - cur)) ((drop ?d bs, False), with_umem ?c ?w k) =
        Some (Inr (), ([], True), with_umem ?c u (k\<lparr>k_rw_trap := False\<rparr>))"
      "read_bytes u n (length bs - ?d + 1) = drop ?d bs @ [0]"
      "\<forall>a. \<not> (unat n \<le> unat a \<and> unat a < unat n + (length bs - ?d) + 1) \<longrightarrow> u a = ?w a" by auto
    have l: "length (take ?d bs) = ?d" using d(1) by simp
    have "read_bytes u cur ?d = read_bytes ?w cur ?d"
      using u(3) d less.prems(6) by (intro read_bytes_same) auto
    also have "\<dots> = take ?d bs" using read_written[of cur "take ?d bs" ?v] d less.prems(6) unfolding l by simp
    finally have "read_bytes u cur (?d + (length bs - ?d + 1)) = take ?d bs @ drop ?d bs @ [0]"
      using u(2) by (simp only: read_bytes_split) simp
    hence rb: "read_bytes u cur (length bs + 1) = bs @ [0]" using d(1) by simp
    have "u a = k_umem k ?c a" if a: "\<not> (unat cur \<le> unat a \<and> unat a < unat cur + length bs + 1)" for a
    proof -
      have "u a = ?w a" using u(3) a d by auto
      also have "\<dots> = ?v a" using a d less.prems(6) by (intro write_bytes_outside) auto
      finally have "u a = ?v a" .
      moreover have "a \<noteq> cur" using a by (intro notI) simp
      ultimately show ?thesis using v[of a] by simp
    qed
    thus ?thesis using st u(1) rb by (intro exI[of _ u]) simp
  qed
qed

lemma length_as_bytes: "length (as_bytes s) = length s + length (filter (\<lambda>c. \<not> of_char c < (128 :: nat)) s)"
  by (induction s) (auto simp: as_bytes_def char_bytes_def Let_def)

lemma as_bytes_ascii: "\<forall>c\<in>set s. of_char c < (128 :: nat) \<Longrightarrow> map (\<lambda>b. char_of (unat b)) (as_bytes s) = s"
  by (induction s) (auto simp: as_bytes_def char_bytes_def Let_def unat_word_of_nat)

lemma as_bytes_back: "map (\<lambda>b. char_of (unat b)) (as_bytes s) = s \<longleftrightarrow> (\<forall>c\<in>set s. of_char c < (128 :: nat))"
proof
  assume "map (\<lambda>b. char_of (unat b)) (as_bytes s) = s"
  hence "length (as_bytes s) = length s" by (metis length_map)
  thus "\<forall>c\<in>set s. of_char c < (128 :: nat)" by (simp add: length_as_bytes filter_empty_conv)
qed (rule as_bytes_ascii)

text \<open>Strings through user memory (C17): what \<open>write_cstr\<close> writes \<open>read_cstr\<close> reads back, byte by byte: the string itself
  just when all its characters are ASCII, since the kernel writes UTF-8 and reads one character for each byte.\<close>

theorem cstr_write_read:
  assumes p: "k_procs k r = Some p" and ptr: "ptr \<noteq> 0" "unat ptr + length (as_bytes val) + 1 + 4096 \<le> 2 ^ 64"
    and ok: "allowed E A_RW (unat ptr) (unat ptr + length (as_bytes val) + 1) k"
      "allowed E A_RO (unat ptr) (unat ptr + length (as_bytes val) + 1) k"
    and nul: "0 \<notin> set (as_bytes val)"
  shows "\<exists>k' s. up_write_cstr E ptr val r k = Some (Inr (), k') \<and>
    up_read_cstr E ptr r k' = Some (Inr s, k'\<lparr>k_rw_trap := True\<rparr>) \<and> length s = length (as_bytes val) \<and>
    (s = val \<longleftrightarrow> (\<forall>c\<in>set val. of_char c < (128 :: nat)))"
proof -
  let ?bs = "as_bytes val" let ?c = "lp_memory p"
  have n: "unat (word_of_nat (length ?bs) :: usize) = length ?bs" using ptr(2) by (intro unat_word_of_nat) simp
  hence len: "uadd (word_of_nat (length ?bs)) 1 = Some (word_of_nat (length ?bs) + 1 :: usize)"
    using ptr(2) by (simp add: uadd_def)
  have ul: "unat (word_of_nat (length ?bs) + 1 :: usize) = length ?bs + 1" using unat_uadd[OF len] n by simp
  obtain u where u: "ensure_loop E A_RW r (write_cstr_piece r) (word_of_nat (length ?bs) + 1) ptr 0
      ((?bs, False), k\<lparr>k_rw_trap := True\<rparr>) = Some (Inr (), ([], True), with_umem ?c u (k\<lparr>k_rw_trap := False\<rparr>))"
    "read_bytes u ptr (length ?bs + 1) = ?bs @ [0]"
    using write_cstr_loop[of "k\<lparr>k_rw_trap := True\<rparr>" r p 0 ptr "word_of_nat (length ?bs) + 1" ?bs E] p ok ptr ul by auto
  let ?k = "with_umem ?c u (k\<lparr>k_rw_trap := False\<rparr>)"
  have nz: "word_of_nat (length ?bs) + 1 \<noteq> (0 :: usize)" using ul by (metis Suc_eq_plus1 nat.simps(3) unsigned_0)
  have "up_write_cstr E ptr val r k = Some (Inr (), ?k)"
    using ptr(1) nz by (simp add: up_write_cstr_def ensure_user_area_def len u(1))
  moreover have "up_read_cstr E ptr r ?k = Some (Inr (map (\<lambda>b. char_of (unat b)) ?bs), ?k\<lparr>k_rw_trap := True\<rparr>)"
    by (rule read_cstr_run[of _ _ p]) (use p ptr ok nul u(2) in \<open>simp_all add: cstr_at_def\<close>)
  ultimately show ?thesis using as_bytes_back[of val] by (intro exI conjI) auto
qed

section \<open>Instances\<close>

text \<open>The board of \<open>Frame\<close> with the little ELF file of \<open>Elf_Laws\<close>. \<open>open_env\<close> is a machine that denies no access, \<open>shut_env\<close> one
  that denies every access.\<close>

definition demo_kenv :: "(nat, usize list) kenv" where
  "demo_kenv = \<lparr>e_platform = board, e_alloc = list_alloc, e_get_page = (\<lambda>_ _ m. Some (Inl EIO, m)), e_std = (0, 1, 2),
     e_uninit = uniform_ctx, e_elf = tiny_elf, e_read = (\<lambda>_. tiny_read), e_rounding = 0, e_sstatus = 0\<rparr>"

definition open_env :: "(nat, usize list) senv" where
  "open_env = \<lparr>s_kenv = demo_kenv, s_denied = (\<lambda>_ _ _ _. False), s_junk = (\<lambda>_. 7)\<rparr>"

definition shut_env :: "(nat, usize list) senv" where
  "shut_env = \<lparr>s_kenv = demo_kenv, s_denied = (\<lambda>_ _ _ _. True), s_junk = (\<lambda>_. 7)\<rparr>"

lemma open_allowed [simp]: "allowed open_env acc lo hi k"
  by (simp add: allowed_def open_env_def)

lemma demo_zero: "k_procs demo_k 0 = Some (demo_proc 0)"
  by (simp add: demo_k_def)

theorem user_write_read_witness:
  "\<exists>k' k''. up_write open_env 0x40001FFE [1, 2, 3, 4] 0 demo_k = Some (Inr (), k') \<and>
    up_read open_env 4 0x40001FFE 0 k' = Some (Inr [1, 2, 3, 4], k'')"
  using user_write_read[OF demo_zero, of "0x40001FFE" "[1, 2, 3, 4]" open_env] by auto

theorem cstr_write_read_witness:
  "\<exists>k'. up_write_cstr open_env 0x40001FFE ''/bin/sh'' 0 demo_k = Some (Inr (), k') \<and>
    up_read_cstr open_env 0x40001FFE 0 k' = Some (Inr ''/bin/sh'', k'\<lparr>k_rw_trap := True\<rparr>)"
proof -
  have b: "as_bytes ''/bin/sh'' = [0x2f, 0x62, 0x69, 0x6e, 0x2f, 0x73, 0x68]" by (simp add: as_bytes_def char_bytes_def)
  show ?thesis using cstr_write_read[OF demo_zero, of "0x40001FFE" "''/bin/sh''" open_env] by (auto simp: b)
qed

lemma shut_page: "\<exists>k'. just_ensure_user_area shut_env 0x40001000 8 A_RW 0 demo_k = Some (Inl EFAULT, k')"
proof -
  have a: "areas (k_mems demo_k c) = [(0, \<lparr>node_end = 0x1000, node_value = \<lparr>kind = MmapAnonymous, perm = 3\<rparr>\<rparr>)]" for c
    by (simp add: demo_k_def)
  have v: "page_num_down 0x40001000 = 0x40001" "page_num_addr 0x40001 = Some 0x40001000"
    by (simp_all add: page_num_down_def page_num_addr_def PAGE_SIZE_eq umul_def)
  have m: "rm_get (areas (k_mems demo_k c)) 0x40001000 = None" for c
    by (simp add: a rm_get_def bt_last_le_def last_of_def)
  have pt: "page_table (k_mems demo_k c) = empty_pt" "k_mem demo_k = empty_mem" for c
    by (simp_all add: demo_k_def)
  have "\<exists>k'. lproc_pagefault shut_env 0x40001000 A_RW 0 (demo_k\<lparr>k_rw_trap := True\<rparr>) = Some (Inl NoSegment, k')"
    by (simp add: lproc_pagefault_def shut_env_def demo_kenv_def demo_zero v m pt empty_pt_none handle_pagefault_def
      areas_page_fault_def Let_def)
  thus ?thesis
    by (auto simp: just_ensure_user_area_def ensure_user_area_def ensure_loop.simps[of shut_env] ensure_page_def test_fn_def)
      (simp_all add: shut_env_def)
qed

theorem ensure_fault_witness:
  "\<exists>k'. just_ensure_user_area shut_env 0x40001000 8 A_RW 0 demo_k = Some (Inl EFAULT, k') \<and> k_rw_trap k'"
  using shut_page ensure_fault by blast

end
