(* ===== verification/Syscall_Memory.thy ===== *)
theory Syscall_Memory
  imports User_Ptr_Laws User_Area_Laws
begin

text \<open>
  The system calls on memory, \<^verbatim>\<open>syscall/memory.rs\<close>: \<open>brk\<close>, \<open>mmap\<close>, \<open>munmap\<close>, \<open>mprotect\<close> and the calls on shared segments. A
  system call of a process \<open>r\<close> takes its arguments from the saved registers of the process.
\<close>

section \<open>Arguments and parts of a process\<close>

definition sys_args :: "nat \<Rightarrow> ('f, 'fa, 'w) kstate \<Rightarrow> usize list option" where
  "sys_args r k = do { p \<leftarrow> k_procs k r; Some (syscall_args (lp_context p)) }"

text \<open>\<open>with_mut_memory\<close>: the address space of a process is replaced.\<close>

definition set_space :: "nat \<Rightarrow> 'f UserSpace \<Rightarrow> ('f, 'fa, 'w) kstate \<Rightarrow> ('f, 'fa, 'w) kstate" where
  "set_space c us k = k\<lparr>k_mems := (k_mems k)(c := us)\<rparr>"

definition set_areas :: "nat \<Rightarrow> 'f UserAreaManager \<Rightarrow> ('f, 'fa, 'w) kstate \<Rightarrow> ('f, 'fa, 'w) kstate" where
  "set_areas c am k = set_space c ((k_mems k c)\<lparr>areas := am\<rparr>) k"

definition set_shm_table :: "ShmTable \<Rightarrow> nat \<Rightarrow> ('f, 'fa, 'w) kstate \<Rightarrow> ('f, 'fa, 'w) kstate" where
  "set_shm_table t r k = upd_lproc r (\<lambda>p. p\<lparr>lp_shm_table := t\<rparr>) k"

section \<open>Protection and flags\<close>

type_synonym MMAPPROT = u32
type_synonym MMAPFlags = u32

definition PROT_READ :: MMAPPROT where "PROT_READ = push_bit 0 1"
definition PROT_WRITE :: MMAPPROT where "PROT_WRITE = push_bit 1 1"
definition PROT_EXEC :: MMAPPROT where "PROT_EXEC = push_bit 2 1"

definition prot_from_bits :: "u32 \<Rightarrow> MMAPPROT option" where
  "prot_from_bits b = (if b AND NOT (PROT_READ OR PROT_WRITE OR PROT_EXEC) = 0 then Some b else None)"

definition prot_contains :: "u32 \<Rightarrow> u32 \<Rightarrow> bool" where
  "prot_contains v f \<longleftrightarrow> v AND f = f"

definition prot_to_flags :: "MMAPPROT \<Rightarrow> PTEFlags" where
  "prot_to_flags val = (
     let flag = F_U;
         flag = (if prot_contains val PROT_READ then flag OR F_R else flag);
         flag = (if prot_contains val PROT_WRITE then flag OR F_W else flag)
     in if prot_contains val PROT_EXEC then flag OR F_X else flag)"

definition prot_to_perm :: "MMAPPROT \<Rightarrow> UserAreaPerm" where
  "prot_to_perm val = (
     let flag = 0;
         flag = (if prot_contains val PROT_READ then flag OR P_READ else flag);
         flag = (if prot_contains val PROT_WRITE then flag OR P_WRITE else flag)
     in if prot_contains val PROT_EXEC then flag OR P_EXECUTE else flag)"

definition MAP_SHARED :: MMAPFlags where "MAP_SHARED = push_bit 0 1"
definition MAP_PRIVATE :: MMAPFlags where "MAP_PRIVATE = push_bit 1 1"
definition MAP_FIXED :: MMAPFlags where "MAP_FIXED = push_bit 4 1"
definition MAP_ANONYMOUS :: MMAPFlags where "MAP_ANONYMOUS = push_bit 5 1"
definition MAP_NORESERVE :: MMAPFlags where "MAP_NORESERVE = push_bit 14 1"

definition mmap_flags_from_bits :: "u32 \<Rightarrow> MMAPFlags option" where
  "mmap_flags_from_bits b =
     (if b AND NOT (MAP_SHARED OR MAP_PRIVATE OR MAP_FIXED OR MAP_ANONYMOUS OR MAP_NORESERVE) = 0 then Some b else None)"

section \<open>Break and mappings\<close>

definition sys_brk :: "nat \<Rightarrow> ('f, 'fa, 'w) kstate \<Rightarrow> ('f, 'fa, 'w, usize) sysm" where
  "sys_brk r k = do {
     args \<leftarrow> sys_args r k;
     p \<leftarrow> k_procs k r;
     let brk = args ! 0;
     let c = lp_memory p;
     if brk = 0 then do {
       cur_brk \<leftarrow> get_heap_break (areas (k_mems k c));
       Some (Inr cur_brk, k) }
     else do {
       res \<leftarrow> reset_heap_break brk (areas (k_mems k c));
       Some (case res of Inl e \<Rightarrow> (Inl e, k) | Inr am \<Rightarrow> (Inr brk, set_areas c am k)) } }"

text \<open>The end of both kinds of mapping: the start of the range that was inserted.\<close>

definition mmap_result ::
  "nat \<Rightarrow> ((VirtAddrRange \<times> 'f UserAreaManager) SysResult) \<Rightarrow> ('f, 'fa, 'w) kstate \<Rightarrow> usize SysResult \<times> ('f, 'fa, 'w) kstate" where
  "mmap_result c res k = (case res of Inl e \<Rightarrow> (Inl e, k) | Inr (rng, am) \<Rightarrow> (Inr (fst rng), set_areas c am k))"

definition sys_mmap :: "nat \<Rightarrow> ('f, 'fa, 'w) kstate \<Rightarrow> ('f, 'fa, 'w, usize) sysm" where
  "sys_mmap r k = do {
     args \<leftarrow> sys_args r k;
     p \<leftarrow> k_procs k r;
     let c = lp_memory p;
     let start = args ! 0;
     let len = args ! 1;
     prot \<leftarrow> prot_from_bits (ucast (args ! 2));
     flags \<leftarrow> mmap_flags_from_bits (ucast (args ! 3));
     let fd = (ucast (args ! 4) :: u32);
     let offset = args ! 5;
     if start = 0 \<and> prot_contains flags MAP_FIXED then Some (Inl EINVAL, k)
     else if prot_contains flags MAP_ANONYMOUS then
       (if fd = - 1 \<and> offset = 0 then do {
          res \<leftarrow> insert_mmap_anonymous len (prot_to_perm prot) (areas (k_mems k c));
          Some (mmap_result c res k) }
        else Some (Inl EINVAL, k))
     else if 0 \<le> sint fd then
       (case fdt_get (scast fd) (k_fdtables k (lp_fdtable p)) of
          Some a \<Rightarrow> do {
            res \<leftarrow> insert_mmap_private len (prot_to_perm prot) (fd_file (fds (k_fds k) a)) offset (areas (k_mems k c));
            Some (mmap_result c res k) }
        | None \<Rightarrow> Some (Inl EBADF, k))
     else Some (Inl EINVAL, k) }"

definition sys_munmap :: "('f, 'fa) senv \<Rightarrow> nat \<Rightarrow> ('f, 'fa, 'w) kstate \<Rightarrow> ('f, 'fa, 'w, usize) sysm" where
  "sys_munmap E r k = do {
     args \<leftarrow> sys_args r k;
     p \<leftarrow> k_procs k r;
     let start = args ! 0;
     let len = args ! 1;
     if start AND PAGE_MASK \<noteq> 0 then Some (Inl EINVAL, k)
     else do {
       e \<leftarrow> uadd start len;
       (us, m) \<leftarrow> us_unmap_range (e_platform (s_kenv E)) (e_alloc (s_kenv E)) (start, e) (k_mems k (lp_memory p), k_mem k);
       Some (Inr 0, set_space (lp_memory p) us (k\<lparr>k_mem := m\<rparr>)) } }"

definition sys_mprotect :: "nat \<Rightarrow> ('f, 'fa, 'w) kstate \<Rightarrow> ('f, 'fa, 'w, usize) sysm" where
  "sys_mprotect r k = do {
     args \<leftarrow> sys_args r k;
     p \<leftarrow> k_procs k r;
     let c = lp_memory p;
     let start = args ! 0;
     let len = args ! 1;
     prot \<leftarrow> prot_from_bits (ucast (args ! 2));
     if start AND PAGE_MASK \<noteq> 0 then Some (Inl EINVAL, k)
     else do {
       e \<leftarrow> uadd start len;
       (case rm_get_mut (areas (k_mems k c)) start (set_perm (prot_to_perm prot)) of
          None \<Rightarrow> Some (Inl ENOMEM, k)
        | Some (old_range, am) \<Rightarrow>
            if (start, e) = old_range then Some (Inr 0, set_areas c am k)
            else do {
              us \<leftarrow> us_remap_range (start, e) (prot_to_perm prot) (k_mems k c);
              Some (Inr 0, set_space c us k) }) } }"

section \<open>Shared segments\<close>

definition IPC_CREAT :: usize where "IPC_CREAT = 0x200"
definition IPC_EXCL :: usize where "IPC_EXCL = 0x400"
definition IPC_RMID :: usize where "IPC_RMID = 0"
definition IPC_SET :: usize where "IPC_SET = 1"
definition IPC_STAT :: usize where "IPC_STAT = 2"
definition IPC_PRIVATE :: usize where "IPC_PRIVATE = 0"
definition SHM_RDONLY :: usize where "SHM_RDONLY = 0x1000"

definition shm_result ::
  "nat \<Rightarrow> nat \<Rightarrow> ('f, 'fa, 'w) kstate \<Rightarrow> ('f, 'fa, 'w, usize) sysm" where
  "shm_result r shm k = do {
     p \<leftarrow> k_procs k r;
     (i, t) \<leftarrow> shmt_alloc shm (lp_shm_table p);
     Some (Inr i, set_shm_table t r k) }"

definition sys_shmget :: "('f, 'fa) senv \<Rightarrow> nat \<Rightarrow> ('f, 'fa, 'w) kstate \<Rightarrow> ('f, 'fa, 'w, usize) sysm" where
  "sys_shmget E r k = do {
     args \<leftarrow> sys_args r k;
     p \<leftarrow> k_procs k r;
     let key = args ! 0;
     let sz = args ! 1;
     let shmflg = args ! 2;
     (case shm_mgr_get key (k_shm_mgr k) of
        Some shm \<Rightarrow>
          if shmflg AND IPC_CREAT \<noteq> 0 \<and> shmflg AND IPC_EXCL \<noteq> 0 then Some (Inl EEXIST, k)
          else shm_result r shm k
      | None \<Rightarrow>
          if shmflg AND IPC_CREAT = 0 then Some (Inl ENOENT, k)
          else do {
            (res, mgr, st, m) \<leftarrow> shm_mgr_create (e_platform (s_kenv E)) (e_alloc (s_kenv E))
               (if key = IPC_PRIVATE then None else Some key) sz (lp_id p) (k_shm_mgr k, k_shm k, k_mem k);
            let k = k\<lparr>k_shm_mgr := mgr, k_shm := st, k_mem := m\<rparr>;
            (case res of Inl e \<Rightarrow> Some (Inl e, k) | Inr shm \<Rightarrow> shm_result r shm k) }) }"

definition sys_shmat :: "('f, 'fa) senv \<Rightarrow> nat \<Rightarrow> ('f, 'fa, 'w) kstate \<Rightarrow> ('f, 'fa, 'w, usize) sysm" where
  "sys_shmat E r k = do {
     args \<leftarrow> sys_args r k;
     p \<leftarrow> k_procs k r;
     let shmid = args ! 0;
     let shmaddr = args ! 1;
     let shmflg = args ! 2;
     (case shmt_get shmid (lp_shm_table p) of
        None \<Rightarrow> Some (Inl EINVAL, k)
      | Some shm \<Rightarrow> do {
          let vaddr = (if shmaddr = 0 then None else Some shmaddr);
          let perm = (if shmflg AND SHM_RDONLY \<noteq> 0 then P_READ else P_READ OR P_WRITE);
          (res, us, st, m) \<leftarrow> attach_shm (e_platform (s_kenv E)) (e_alloc (s_kenv E)) vaddr (lp_id p) shmid shm perm
             (k_mems k (lp_memory p), k_shm k, k_mem k);
          Some (res, set_space (lp_memory p) us (k\<lparr>k_shm := st, k_mem := m\<rparr>)) }) }"

definition sys_shmdt :: "('f, 'fa) senv \<Rightarrow> nat \<Rightarrow> ('f, 'fa, 'w) kstate \<Rightarrow> ('f, 'fa, 'w, usize) sysm" where
  "sys_shmdt E r k = do {
     args \<leftarrow> sys_args r k;
     p \<leftarrow> k_procs k r;
     (res, us, m) \<leftarrow> detach_shm (e_platform (s_kenv E)) (e_alloc (s_kenv E)) (args ! 0) (k_mems k (lp_memory p), k_mem k);
     let k = set_space (lp_memory p) us (k\<lparr>k_mem := m\<rparr>);
     Some (case res of Inl e \<Rightarrow> (Inl e, k) | Inr _ \<Rightarrow> (Inr 0, k)) }"

text \<open>The structure \<open>ShmIdDs\<close> in memory: \<open>IPCPerm\<close> with its padding first.\<close>

definition shm_id_ds :: "usize \<Rightarrow> Shm \<Rightarrow> u8 list" where
  "shm_id_ds shmid shm =
     to_le 4 shmid @ replicate 16 0 @ to_le 4 (0x1FF :: u32) @ replicate 8 0 @ replicate 16 0 @
     to_le 8 (shm_size shm) @ replicate 24 0 @ to_le 4 (creater shm) @ to_le 4 (last_operater shm) @
     to_le 8 (attach_cnt shm) @ replicate 16 0"

definition sys_shmctl :: "('f, 'fa) senv \<Rightarrow> nat \<Rightarrow> ('f, 'fa, 'w) kstate \<Rightarrow> ('f, 'fa, 'w, usize) sysm" where
  "sys_shmctl E r k = do {
     args \<leftarrow> sys_args r k;
     p \<leftarrow> k_procs k r;
     let shmid = args ! 0;
     let cmd = args ! 1;
     (case shmt_get shmid (lp_shm_table p) of
        None \<Rightarrow> Some (Inl EINVAL, k)
      | Some shm \<Rightarrow>
          if cmd = IPC_STAT then
            sys_bind (up_write E (args ! 2) (shm_id_ds shmid (shm_cells (k_shm k) shm)) r k) (\<lambda>_ k. Some (Inr 0, k))
          else if cmd = IPC_SET then Some (Inr 0, k)
          else if cmd = IPC_RMID then do {
            (res, t) \<leftarrow> shmt_remove shmid (lp_shm_table p);
            let k = set_shm_table t r k;
            Some (case res of Some _ \<Rightarrow> Inr 0 | None \<Rightarrow> Inl EINVAL, k) }
          else Some (Inl EINVAL, k)) }"

end
