(* ===== verification/Sleep_Queue.thy ===== *)
theory Sleep_Queue
  imports Prelude "HOL-Library.Multiset"
begin

text \<open>
  The queue of sleepers, \<^verbatim>\<open>timer/async_sleep.rs\<close>, and the small futures of \<^verbatim>\<open>executor/util_futures.rs\<close>. A future of type \<open>'f\<close> is
  polled by a function that gives \<open>Some\<close> the output when the future is ready and \<open>None\<close> when it is pending, with
  the future and the rest of the state afterwards. A waker is a value of type \<open>'w\<close>.
\<close>

section \<open>The queue\<close>

type_synonym 'w node = "usize \<times> 'w"

text \<open>The binary heap by its nodes. \<open>peek\<close> gives one with the smallest time; which of several is
  not said by the heap, so no lemma below depends on it.\<close>

definition sq_push :: "'w node \<Rightarrow> 'w node list \<Rightarrow> 'w node list" where
  "sq_push n h = n # h"

definition heap_peek :: "'w node list \<Rightarrow> 'w node option" where
  "heap_peek h = (case h of [] \<Rightarrow> None | n # ns \<Rightarrow> Some (fold (\<lambda>n m. if fst n < fst m then n else m) ns n))"

lemma fold_least:
  fixes n :: "'w node"
  shows "fold (\<lambda>n m. if fst n < fst m then n else m) ns n \<in> set (n # ns) \<and>
   (\<forall>x \<in> set (n # ns). fst (fold (\<lambda>n m. if fst n < fst m then n else m) ns n) \<le> fst x)"
proof (induction ns arbitrary: n)
  case (Cons a ns)
  show ?case
    using Cons.IH [of "if fst a < fst n then a else n"] by (auto simp: not_less split: if_splits)
qed simp

lemma heap_peek_Some: "heap_peek h = Some n \<Longrightarrow> n \<in> set h \<and> (\<forall>x \<in> set h. fst n \<le> fst x)"
  using fold_least by (cases h) (simp_all add: heap_peek_def, blast)

lemma heap_peek_None: "heap_peek h = None \<longleftrightarrow> h = []"
  by (simp add: heap_peek_def split: list.splits)

lemma heap_pop_shorter: "heap_peek h = Some n \<Longrightarrow> length (remove1 n h) < length h"
  using heap_peek_Some [of h n] length_pos_if_in_set [of n h] by (simp add: length_remove1)

text \<open>The loop of \<open>wake_ready\<close>: the nodes that are woken, in order, and the queue that is left.\<close>

function wake_ready :: "usize \<Rightarrow> 'w node list \<Rightarrow> 'w node list \<times> 'w node list" where
  "wake_ready now h = (case heap_peek h of
     None \<Rightarrow> ([], h)
   | Some n \<Rightarrow> if fst n > now then ([], h) else let (ws, h') = wake_ready now (remove1 n h) in (n # ws, h'))"
  by pat_completeness auto
termination
  by (relation "measure (\<lambda>(_, h). length h)", simp, simp only: in_measure prod.case heap_pop_shorter)

declare wake_ready.simps [simp del]

lemma wake_ready_mset:
  assumes "wake_ready now h = (ws, h')"
  shows "mset ws = filter_mset (\<lambda>n. fst n \<le> now) (mset h) \<and> mset h' = filter_mset (\<lambda>n. \<not> fst n \<le> now) (mset h)
    \<and> sorted (map fst ws)"
  using assms
proof (induction now h arbitrary: ws h' rule: wake_ready.induct)
  case (1 now h)
  show ?case
  proof (cases "heap_peek h")
    case None
    then have "wake_ready now h = ([], h)" by (subst wake_ready.simps) simp
    then show ?thesis using 1 (2) None by (simp add: heap_peek_None)
  next
    case (Some n)
    note n = heap_peek_Some [OF Some]
    show ?thesis
    proof (cases "fst n > now")
      case True
      then have "\<forall>x \<in> set h. \<not> fst x \<le> now" using n by (auto dest: order_trans)
      then have "filter_mset (\<lambda>n. fst n \<le> now) (mset h) = {#}" "filter_mset (\<lambda>n. \<not> fst n \<le> now) (mset h) = mset h"
        by (simp_all add: filter_mset_eq_conv)
      then show ?thesis using 1 (2) Some True by (simp add: wake_ready.simps [of now h])
    next
      case False
      obtain ws' where ws: "wake_ready now (remove1 n h) = (ws', h')" "ws = n # ws'"
        using 1 (2) Some False by (auto simp: wake_ready.simps [of now h] split: prod.splits)
      note IH = 1 (1) [OF Some False ws (1)]
      have h: "mset h = add_mset n (mset (remove1 n h))" using n by simp
      have "set_mset (mset ws') \<subseteq> set_mset (mset (remove1 n h))"
        unfolding conjunct1 [OF IH] by (rule set_mset_mono [OF multiset_filter_subset])
      then have "set ws' \<subseteq> set h" by (metis set_mset_mset set_remove1_subset subset_trans)
      then have "sorted (map fst ws)" using IH n ws (2) by auto
      moreover have "mset ws = filter_mset (\<lambda>n. fst n \<le> now) (mset h)" unfolding h ws (2) using IH False by simp
      moreover have "mset h' = filter_mset (\<lambda>n. \<not> fst n \<le> now) (mset h)" unfolding h using IH False by simp
      ultimately show ?thesis by simp
    qed
  qed
qed

section \<open>Sleeping futures\<close>

record 'f SleepFuture =
  wake_up_time :: usize
  is_done :: bool
  is_registered :: bool
  sf_future :: 'f

definition sleep_future_new :: "usize \<Rightarrow> 'f \<Rightarrow> 'f SleepFuture" where
  "sleep_future_new t f = \<lparr>wake_up_time = t, is_done = False, is_registered = False, sf_future = f\<rparr>"

text \<open>One poll with the waker \<open>w\<close>, at the time \<open>now\<close>.\<close>

definition sleep_poll ::
  "('f \<Rightarrow> 's \<Rightarrow> 'o option \<times> 'f \<times> 's) \<Rightarrow> 'w \<Rightarrow> usize \<Rightarrow> 'f SleepFuture \<Rightarrow> 'w node list \<times> 's \<Rightarrow>
   'o option option \<times> 'f SleepFuture \<times> 'w node list \<times> 's" where
  "sleep_poll inner w now this st = (case st of (h, s) \<Rightarrow>
     if is_done this then (None, this, h, s)
     else case inner (sf_future this) s of
       (Some v, f, s) \<Rightarrow> (Some (Some v), this\<lparr>is_done := True, sf_future := f\<rparr>, h, s)
     | (None, f, s) \<Rightarrow>
         let this = this\<lparr>sf_future := f\<rparr> in
         if wake_up_time this \<le> now then (Some None, this\<lparr>is_done := True\<rparr>, h, s)
         else if \<not> is_registered this then
           (None, this\<lparr>is_registered := True\<rparr>, sq_push (wake_up_time this, w) h, s)
         else (None, this, h, s))"

definition always_pending_poll :: "unit \<Rightarrow> 's \<Rightarrow> unit option \<times> unit \<times> 's" where
  "always_pending_poll f s = (None, f, s)"

definition with_timeout_start :: "usize \<Rightarrow> usize \<Rightarrow> 'f \<Rightarrow> 'f SleepFuture option" where
  "with_timeout_start now ms f = do { t \<leftarrow> uadd now ms; Some (sleep_future_new t f) }"

section \<open>Small futures\<close>

definition yield_poll :: "'w \<Rightarrow> bool \<Rightarrow> 'w list \<Rightarrow> unit option \<times> bool \<times> 'w list" where
  "yield_poll w polled woken = (if polled then (Some (), polled, woken) else (None, True, woken @ [w]))"

text \<open>\<open>AnyFuture\<close> polls its futures in order until one is ready. The poll of a future of a file may panic.\<close>

fun any_scan ::
  "('f \<Rightarrow> 's \<Rightarrow> ('o option \<times> 'f \<times> 's) option) \<Rightarrow> nat \<Rightarrow> 'f list \<Rightarrow> 's \<Rightarrow> ((nat \<times> 'o) option \<times> 'f list \<times> 's) option" where
  "any_scan poll i [] s = Some (None, [], s)"
| "any_scan poll i (f # fs) s = do {
     (res, f, s) \<leftarrow> poll f s;
     (case res of
        Some v \<Rightarrow> Some (Some (i, v), f # fs, s)
      | None \<Rightarrow> do {
          (res, fs, s) \<leftarrow> any_scan poll (Suc i) fs s;
          Some (res, f # fs, s) }) }"

definition any_poll ::
  "('f \<Rightarrow> 's \<Rightarrow> ('o option \<times> 'f \<times> 's) option) \<Rightarrow> 'f list \<times> bool \<Rightarrow> 's \<Rightarrow> ((nat \<times> 'o) option \<times> ('f list \<times> bool) \<times> 's) option" where
  "any_poll poll this s = (case this of (fs, has_returned) \<Rightarrow>
     if has_returned then Some (None, this, s)
     else do { (res, fs, s) \<leftarrow> any_scan poll 0 fs s; Some (res, (fs, res \<noteq> None), s) })"

definition any_new_with :: "'f list \<Rightarrow> ('f list \<times> bool) option" where
  "any_new_with fs = do { rassert (length fs > 0); Some (fs, False) }"

definition join_poll ::
  "('l \<Rightarrow> 's \<Rightarrow> 'a option \<times> 'l \<times> 's) \<Rightarrow> ('r \<Rightarrow> 's \<Rightarrow> 'b option \<times> 'r \<times> 's) \<Rightarrow> 'l \<times> 'r \<Rightarrow> 's \<Rightarrow>
   ('a + 'b) option \<times> ('l \<times> 'r) \<times> 's" where
  "join_poll pl pr this s = (case this of (l, r) \<Rightarrow> (case pl l s of
     (Some v, l, s) \<Rightarrow> (Some (Inl v), (l, r), s)
   | (None, l, s) \<Rightarrow> (case pr r s of
       (Some v, r, s) \<Rightarrow> (Some (Inr v), (l, r), s)
     | (None, r, s) \<Rightarrow> (None, (l, r), s))))"

section \<open>Ticks and sleepers\<close>

text \<open>What happens to the queue over time: a node is pushed, or the timer interrupt comes at a time. The second
  part of the state is the log of what was woken.\<close>

datatype 'w sq_event = Sq_Push "'w node" | Sq_Tick usize

fun sq_step :: "'w sq_event \<Rightarrow> 'w node list \<times> 'w node list \<Rightarrow> 'w node list \<times> 'w node list" where
  "sq_step (Sq_Push n) (h, woken) = (sq_push n h, woken)"
| "sq_step (Sq_Tick now) (h, woken) = (case wake_ready now h of (ws, h') \<Rightarrow> (h', woken @ ws))"

text \<open>Every node is somewhere.\<close>

fun pushed :: "'w sq_event list \<Rightarrow> 'w node list" where
  "pushed [] = []"
| "pushed (Sq_Push n # es) = n # pushed es"
| "pushed (Sq_Tick _ # es) = pushed es"

lemma wake_ready_split: "wake_ready now h = (ws, h') \<Longrightarrow> mset ws + mset h' = mset h"
  using wake_ready_mset [of now h ws h'] multiset_partition [of "mset h" "\<lambda>n. fst n \<le> now"] by simp

lemma sq_run_mset:
  "fold sq_step es (h, woken) = (h', woken') \<Longrightarrow> mset h' + mset woken' = mset h + mset woken + mset (pushed es)"
proof (induction es arbitrary: h woken)
  case (Cons e es)
  show ?case
  proof (cases e)
    case (Sq_Push n)
    then show ?thesis using Cons.IH [of "sq_push n h" woken] Cons.prems by (simp add: sq_push_def)
  next
    case (Sq_Tick now)
    obtain ws h1 where w: "wake_ready now h = (ws, h1)" by fastforce
    then show ?thesis
      using Cons.IH [of h1 "woken @ ws"] Cons.prems Sq_Tick wake_ready_split [OF w] by simp (metis add.assoc add.commute)
  qed
qed simp

text \<open>A node stays exactly as long as no tick has reached its time.\<close>

lemma sq_step_count:
  assumes "sq_step e (h, woken) = (h', woken')"
  shows "count (mset h') n = (case e of Sq_Push m \<Rightarrow> count (mset h) n + (if m = n then 1 else 0)
     | Sq_Tick now \<Rightarrow> if fst n \<le> now then 0 else count (mset h) n)"
proof (cases e)
  case (Sq_Tick now)
  then obtain ws where "wake_ready now h = (ws, h')" using assms by (auto split: prod.splits)
  then have "mset h' = filter_mset (\<lambda>n. \<not> fst n \<le> now) (mset h)" using wake_ready_mset by blast
  then show ?thesis using Sq_Tick by simp
qed (use assms in \<open>auto simp: sq_push_def\<close>)

lemma sq_run_stays:
  assumes "\<And>now. Sq_Tick now \<in> set es \<Longrightarrow> now < fst n" "fold sq_step es (h, woken) = (h', woken')"
  shows "count (mset h') n = count (mset h) n + count (mset (pushed es)) n"
  using assms
proof (induction es arbitrary: h woken)
  case (Cons e es)
  obtain h1 w1 where s: "sq_step e (h, woken) = (h1, w1)" by fastforce
  have "count (mset h') n = count (mset h1) n + count (mset (pushed es)) n"
    using Cons.IH [of h1 w1] Cons.prems s by simp
  moreover have "now < fst n" if "e = Sq_Tick now" for now using Cons.prems (1) that by simp
  ultimately show ?case using sq_step_count [OF s, of n] by (cases e) auto
qed simp

lemma pushed_append [simp]: "pushed (a @ b) = pushed a @ pushed b"
  by (induction a rule: pushed.induct) auto

lemma sq_run_absent:
  assumes "n \<notin> set h" "n \<notin> set (pushed es)" "fold sq_step es (h, woken) = (h', woken')"
  shows "n \<notin> set h'"
  using assms
proof (induction es arbitrary: h woken)
  case (Cons e es)
  obtain h1 w1 where s: "sq_step e (h, woken) = (h1, w1)" by fastforce
  have "count (mset h1) n = 0"
    using sq_step_count [OF s, of n] Cons.prems (1, 2) by (cases e) auto
  then show ?case using Cons.IH [of h1 w1] Cons.prems s by (cases e) auto
qed simp

lemma sq_run_gone:
  assumes "Sq_Tick now \<in> set es" "fst n \<le> now" "n \<notin> set (pushed es)" "fold sq_step es (h, woken) = (h', woken')"
  shows "n \<notin> set h'"
proof -
  obtain a b where es: "es = a @ Sq_Tick now # b" using assms (1) by (meson split_list)
  obtain ha wa where a: "fold sq_step a (h, woken) = (ha, wa)" by fastforce
  obtain hb wb where b: "sq_step (Sq_Tick now) (ha, wa) = (hb, wb)" by fastforce
  have "count (mset hb) n = 0" using sq_step_count [OF b, of n] assms (2) by simp
  then show ?thesis using sq_run_absent [of n hb b wb h' woken'] assms (3, 4) es a b by auto
qed

lemma sq_run_woken:
  assumes fresh: "n \<notin> set h" "n \<notin> set woken" "n \<notin> set (pushed es)"
    and run: "fold sq_step es (sq_push n h, woken) = (h', woken')"
  shows "count (mset woken') n = (if \<exists>now. Sq_Tick now \<in> set es \<and> fst n \<le> now then 1 else 0)"
proof -
  have "mset h' + mset woken' = add_mset n (mset h) + mset woken + mset (pushed es)"
    using sq_run_mset [OF run] by (simp add: sq_push_def)
  then have "count (mset h' + mset woken') n = 1"
    using fresh by (simp add: count_mset_0_iff [THEN iffD2])
  moreover have "count (mset h') n = (if \<exists>now. Sq_Tick now \<in> set es \<and> fst n \<le> now then 0 else 1)"
    using sq_run_gone [OF _ _ fresh (3) run] sq_run_stays [OF _ run] fresh by (auto simp: sq_push_def not_le)
  ultimately show ?thesis by (auto split: if_splits)
qed

text \<open>
  (C18) \<open>wake_after\<close> sleeps for its time and no longer than to the next tick: the first poll is pending and puts the waker
  into the queue; whatever else is pushed and however often the timer ticks, the waker is woken exactly once when a tick
  has reached the time, and not before; a poll is ready exactly from that time on.
\<close>

theorem wake_after_sleeps:
  assumes start: "with_timeout_start now0 ms () = Some f0" "0 < ms"
    and poll: "sleep_poll always_pending_poll w now0 f0 (h, s) = (r, f1, h1, s1)"
    and fresh: "(now0 + ms, w) \<notin> set h" "(now0 + ms, w) \<notin> set woken" "(now0 + ms, w) \<notin> set (pushed es)"
    and run: "fold sq_step es (h1, woken) = (h', woken')"
  shows "r = None \<and>
    count (mset woken') (now0 + ms, w) = (if \<exists>t. Sq_Tick t \<in> set es \<and> now0 + ms \<le> t then 1 else 0) \<and>
    fst (sleep_poll always_pending_poll w t f1 (h2, s2)) = (if now0 + ms \<le> t then Some None else None)"
proof -
  have T: "unat (now0 + ms) = unat now0 + unat ms" and f0: "f0 = sleep_future_new (now0 + ms) ()"
    using start by (auto simp: with_timeout_start_def uadd_def unat_plus_if' split: if_splits)
  have "now0 < now0 + ms" using T start (2) by (simp add: word_less_nat_alt)
  then have p: "r = None" "h1 = sq_push (now0 + ms, w) h" "f1 = f0\<lparr>is_registered := True\<rparr>"
    using poll f0 by (auto simp: sleep_poll_def always_pending_poll_def sleep_future_new_def not_le [symmetric])
  have "count (mset woken') (now0 + ms, w) = (if \<exists>t. Sq_Tick t \<in> set es \<and> now0 + ms \<le> t then 1 else 0)"
    using sq_run_woken [OF fresh] run p (2) by simp
  moreover have "fst (sleep_poll always_pending_poll w t f1 (h2, s2)) = (if now0 + ms \<le> t then Some None else None)"
    unfolding p (3) f0 by (simp add: sleep_poll_def always_pending_poll_def sleep_future_new_def)
  ultimately show ?thesis using p (1) by simp
qed

text \<open>A sleep of 10 from time 5 on, with ticks at 7 and 16 and another sleeper.\<close>

lemma wake_after_sleeps_witness:
  "fst (snd (snd (sleep_poll always_pending_poll (1 :: nat) 5 (sleep_future_new 15 ()) ([], ())))) = [(15, 1)] \<and>
   count (mset (snd (fold sq_step [Sq_Tick 7, Sq_Push (9, 2), Sq_Tick 16] ([(15, 1)], [])))) (15, 1 :: nat) = 1"
proof -
  have st: "with_timeout_start 5 10 () = Some (sleep_future_new 15 ())" by (simp add: with_timeout_start_def uadd_def)
  have po: "sleep_poll always_pending_poll (1 :: nat) 5 (sleep_future_new 15 ()) ([], ()) =
      (None, (sleep_future_new 15 ())\<lparr>is_registered := True\<rparr>, [(15, 1)], ())"
    by (simp add: sleep_poll_def always_pending_poll_def sleep_future_new_def sq_push_def)
  obtain h' w' where run: "fold sq_step [Sq_Tick 7, Sq_Push (9, 2), Sq_Tick 16] ([(15, 1 :: nat)], []) = (h', w')"
    by (cases "fold sq_step [Sq_Tick 7, Sq_Push (9, 2), Sq_Tick 16] ([(15, 1 :: nat)], [])") blast
  have "\<exists>t. Sq_Tick t \<in> set [Sq_Tick 7, Sq_Push (9, 2 :: nat), Sq_Tick 16] \<and> 15 \<le> t"
    by (rule exI [of _ 16]) simp
  then have "count (mset w') (15, 1) = 1"
    using wake_after_sleeps [OF st _ po, of "[]" "[Sq_Tick 7, Sq_Push (9, 2), Sq_Tick 16]" h' w' 0 "[]" "()"] run by simp
  then show ?thesis using po run by simp
qed

end
