(* ===== verification/Syscall_Process.thy ===== *)
theory Syscall_Process
  imports Syscall_Memory
begin

text \<open>
  The system calls on processes and signals, \<^verbatim>\<open>syscall/process.rs\<close> and \<^verbatim>\<open>syscall/signal.rs\<close>; \<open>chdir\<close> and \<open>execve\<close>, which need
  the file system, are in \<open>Syscall_Fs\<close>. While a call is suspended the rest of the system runs: \<open>Y\<close> is what it does to the state. The
  state of a call that may be suspended has a second part, which these calls pass on.
\<close>

section \<open>Waiting for a child\<close>

type_synonym WaitOptions = u32

definition WNOHANG :: WaitOptions where "WNOHANG = 1"

definition wait_from_bits_truncate :: "u32 \<Rightarrow> WaitOptions" where
  "wait_from_bits_truncate b = b AND 7"

datatype wait_step = Wait_None | Wait_Child nat | Wait_Again

definition stopped_children :: "'w LightProcess \<Rightarrow> ('f, 'fa, 'w) kstate \<Rightarrow> nat list" where
  "stopped_children p k = filter (\<lambda>c. case k_procs k c of Some q \<Rightarrow> lp_status q = STOPPED | None \<Rightarrow> False) (k_children k (lp_children p))"

fun find_tgid :: "usize \<Rightarrow> ('f, 'fa, 'w) kstate \<Rightarrow> nat list \<Rightarrow> nat option option" where
  "find_tgid t k [] = Some None"
| "find_tgid t k (c # cs) = do {
     q \<leftarrow> k_procs k c;
     g \<leftarrow> lproc_tgid q k;
     if g = t then Some (Some c) else find_tgid t k cs }"

definition target_child :: "usize \<Rightarrow> 'w LightProcess \<Rightarrow> ('f, 'fa, 'w) kstate \<Rightarrow> nat option option" where
  "target_child pid p k = (
     let stopped = stopped_children p k
     in if sint pid < - 1 then do { rassert (sint pid \<noteq> - (2 ^ 63)); find_tgid (- pid) k stopped }
        else if sint pid = - 1 then Some (last_of stopped)
        else if sint pid = 0 then Some (find (\<lambda>c. map_option lp_pgid (k_procs k c) = Some (lp_pgid p)) stopped)
        else Some (find (\<lambda>c. map_option lp_id (k_procs k c) = Some pid) stopped))"

text \<open>One round of the loop, after the yield.\<close>

definition wait_round ::
  "WaitOptions \<Rightarrow> usize \<Rightarrow> nat \<Rightarrow> ('f, 'fa, 'w) kstate \<Rightarrow> (wait_step \<times> ('f, 'fa, 'w) kstate) option" where
  "wait_round options pid r k = do {
     p \<leftarrow> k_procs k r;
     if prot_contains options WNOHANG \<and> stopped_children p k = [] then Some (Wait_None, k)
     else do {
       target \<leftarrow> target_child pid p k;
       (case target of
          Some child \<Rightarrow> do {
            k \<leftarrow> remove_child p child k;
            Some (Wait_Child child, lproc_clear_signal SIGCHLD p k) }
        | None \<Rightarrow> Some (Wait_Again, k)) } }"

partial_function (option) wait_loop ::
  "(('f, 'fa, 'w) kstate \<times> 'v \<Rightarrow> ('f, 'fa, 'w) kstate \<times> 'v) \<Rightarrow> WaitOptions \<Rightarrow> usize \<Rightarrow> nat \<Rightarrow> ('f, 'fa, 'w) kstate \<times> 'v \<Rightarrow>
   (nat option \<times> ('f, 'fa, 'w) kstate \<times> 'v) option" where
  "wait_loop Y options pid r s = (case wait_round options pid r (fst (Y s)) of
     None \<Rightarrow> None
   | Some (st, k) \<Rightarrow> (case st of
       Wait_None \<Rightarrow> Some (None, k, snd (Y s))
     | Wait_Child c \<Rightarrow> Some (Some c, k, snd (Y s))
     | Wait_Again \<Rightarrow> wait_loop Y options pid r (k, snd (Y s))))"

definition sys_wait ::
  "('f, 'fa) senv \<Rightarrow> (('f, 'fa, 'w) kstate \<times> 'v \<Rightarrow> ('f, 'fa, 'w) kstate \<times> 'v) \<Rightarrow> nat \<Rightarrow> ('f, 'fa, 'w) kstate \<times> 'v \<Rightarrow>
   (usize SysResult \<times> ('f, 'fa, 'w) kstate \<times> 'v) option" where
  "sys_wait E Y r s = (case s of (k, v) \<Rightarrow> do {
     args \<leftarrow> sys_args r k;
     p \<leftarrow> k_procs k r;
     let options = wait_from_bits_truncate (ucast (args ! 2));
     if signal_pending (k_signals k (lp_signal p)) AND (signal_all AND NOT SIGCHLD) \<noteq> 0 then Some (Inl EINTR, k, v)
     else do {
       (result, k, v) \<leftarrow> wait_loop Y options (args ! 0) r (k, v);
       (case result of
          None \<Rightarrow> Some (Inr 0, k, v)
        | Some c \<Rightarrow> do {
            q \<leftarrow> k_procs k c;
            let status = push_bit 8 (lp_exit_code q AND 0xff);
            (res, k) \<leftarrow> (if args ! 1 \<noteq> 0 then up_write E (args ! 1) (to_le 4 status) r k else Some (Inr (), k));
            Some (case res of Inl e \<Rightarrow> Inl e | Inr _ \<Rightarrow> Inr (lp_id q), k, v) }) } })"

section \<open>Cloning\<close>

definition clone_from_bits_truncate :: "u64 \<Rightarrow> CloneFlags" where
  "clone_from_bits_truncate b = b AND (CF_VM OR CF_FS OR CF_FILES OR CF_SIGHAND OR CF_PARENT OR CF_THREAD OR CF_SETTLS OR
     CF_PARENT_SETTID OR CF_CHILD_CLEARTID OR CF_CHILD_SETTID OR CF_CHILD_CLEAR_SIGHAND)"

text \<open>A plain store of the kernel to a user address of the current address space: if the memory unit denies it, the
  kernel takes an exception, which is fatal. \<open>n\<close> is the new process, whose segments are looked at.\<close>

definition checked_write_u32 ::
  "('f, 'fa) senv \<Rightarrow> nat \<Rightarrow> usize \<Rightarrow> u32 \<Rightarrow> nat \<Rightarrow> ('f, 'fa, 'w) kstate \<Rightarrow> ('f, 'fa, 'w, unit) sysm" where
  "checked_write_u32 E n ptr val r k = do {
     q \<leftarrow> k_procs k n;
     if \<not> has_perm (k_mems k (lp_memory q)) ptr P_WRITE then Some (Inl EPERM, k)
     else do {
       rassert (\<not> s_denied E (k_satp k) (k_mem k) ptr A_RW);
       k \<leftarrow> user_store ptr (to_le 4 val) r k;
       Some (Inr (), k) } }"

definition clone_settid ::
  "('f, 'fa) senv \<Rightarrow> CloneFlags \<Rightarrow> usize \<Rightarrow> usize \<Rightarrow> nat \<Rightarrow> nat \<Rightarrow> ('f, 'fa, 'w) kstate \<Rightarrow> ('f, 'fa, 'w, unit) sysm" where
  "clone_settid E flags parent_tid_ptr child_tid_ptr n r k = do {
     q \<leftarrow> k_procs k n;
     sys_bind (if cf_contains flags CF_CHILD_SETTID \<and> child_tid_ptr \<noteq> 0
               then checked_write_u32 E n child_tid_ptr (ucast (lp_id q)) r k else Some (Inr (), k)) (\<lambda>_ k.
       if cf_contains flags CF_PARENT_SETTID \<and> parent_tid_ptr \<noteq> 0 then do {
         parent_tid \<leftarrow> parent_id q k;
         checked_write_u32 E n parent_tid_ptr (ucast parent_tid) r k }
       else Some (Inr (), k)) }"

definition spawn_proc :: "nat \<Rightarrow> ('f, 'fa, 'w) kstate \<Rightarrow> ('f, 'fa, 'w) kstate" where
  "spawn_proc n k = k\<lparr>k_spawned := k_spawned k @ [n]\<rparr>"

definition sys_clone :: "('f, 'fa) senv \<Rightarrow> nat \<Rightarrow> ('f, 'fa, 'w) kstate \<Rightarrow> ('f, 'fa, 'w, usize) sysm" where
  "sys_clone E r k = do {
     args \<leftarrow> sys_args r k;
     let flags = clone_from_bits_truncate (args ! 0 AND NOT 0xff);
     let child_stack = args ! 1;
     let stack_begin = (if child_stack \<noteq> 0 then Some child_stack else None);
     (n, k) \<leftarrow> do_clone (s_kenv E) flags stack_begin r k;
     sys_bind (clone_settid E flags (args ! 2) (args ! 3) n r k) (\<lambda>_ k. do {
       let k = upd_lproc n (\<lambda>q. q\<lparr>lp_context := set_user_a0 0 (lp_context q)\<rparr>) k;
       q \<leftarrow> k_procs k n;
       Some (Inr (lp_id q), spawn_proc n k) }) }"

section \<open>Numbers of processes\<close>

definition sys_getpid :: "nat \<Rightarrow> ('f, 'fa, 'w) kstate \<Rightarrow> ('f, 'fa, 'w, usize) sysm" where
  "sys_getpid r k = do { p \<leftarrow> k_procs k r; t \<leftarrow> lproc_tgid p k; Some (Inr t, k) }"

definition sys_gettid :: "nat \<Rightarrow> ('f, 'fa, 'w) kstate \<Rightarrow> ('f, 'fa, 'w, usize) sysm" where
  "sys_gettid r k = do { p \<leftarrow> k_procs k r; Some (Inr (lp_id p), k) }"

definition sys_getppid :: "nat \<Rightarrow> ('f, 'fa, 'w) kstate \<Rightarrow> ('f, 'fa, 'w, usize) sysm" where
  "sys_getppid r k = do { p \<leftarrow> k_procs k r; i \<leftarrow> parent_id p k; Some (Inr i, k) }"

definition sys_set_tid_address :: "nat \<Rightarrow> ('f, 'fa, 'w) kstate \<Rightarrow> ('f, 'fa, 'w, usize) sysm" where
  "sys_set_tid_address r k = do {
     args \<leftarrow> sys_args r k;
     p \<leftarrow> k_procs k r;
     Some (Inr (lp_id p),
       upd_lproc r (\<lambda>p. p\<lparr>lp_private_info := (lp_private_info p)\<lparr>clear_child_tid := Some (args ! 0)\<rparr>\<rparr>) k) }"

text \<open>A process by its number; 0 is the caller.\<close>

definition target_lproc :: "usize \<Rightarrow> nat \<Rightarrow> ('f, 'fa, 'w) kstate \<Rightarrow> ('f, 'fa, 'w, nat) sysm" where
  "target_lproc pid r k =
     (if pid = 0 then Some (Inr r, k)
      else let (t, k) = mgr_get pid k in Some (case t of Some q \<Rightarrow> Inr q | None \<Rightarrow> Inl ESRCH, k))"

definition sys_getpgid :: "nat \<Rightarrow> ('f, 'fa, 'w) kstate \<Rightarrow> ('f, 'fa, 'w, usize) sysm" where
  "sys_getpgid r k = do {
     args \<leftarrow> sys_args r k;
     sys_bind (target_lproc (args ! 0) r k) (\<lambda>t k. do {
       q \<leftarrow> k_procs k t;
       Some (Inr (lp_pgid q), k) }) }"

definition sys_setpgid :: "nat \<Rightarrow> ('f, 'fa, 'w) kstate \<Rightarrow> ('f, 'fa, 'w, usize) sysm" where
  "sys_setpgid r k = do {
     args \<leftarrow> sys_args r k;
     sys_bind (target_lproc (args ! 0) r k) (\<lambda>t k. do {
       q \<leftarrow> k_procs k t;
       let new_pgid = (if args ! 1 = 0 then lp_id q else args ! 1);
       Some (Inr 0, set_pgid new_pgid t k) }) }"

section \<open>Exit\<close>

text \<open>The flag says that the user loop of the process is left.\<close>

definition sys_exit :: "nat \<Rightarrow> ('f, 'fa, 'w) kstate \<Rightarrow> (usize SysResult \<times> bool \<times> ('f, 'fa, 'w) kstate) option" where
  "sys_exit r k = do {
     args \<leftarrow> sys_args r k;
     Some (Inr 0, True, set_exit_code (ucast (args ! 0)) r k) }"

definition sys_exitgroup :: "nat \<Rightarrow> ('f, 'fa, 'w) kstate \<Rightarrow> (usize SysResult \<times> bool \<times> ('f, 'fa, 'w) kstate) option" where
  "sys_exitgroup r k = do {
     args \<leftarrow> sys_args r k;
     p \<leftarrow> k_procs k r;
     let exit_code = ucast (args ! 0);
     Some (Inr 0, True,
       fold (\<lambda>(_, lp) k. set_exit_code exit_code lp (set_status STOPPED lp k)) (members (k_groups k (lp_group p))) k) }"

section \<open>Limits\<close>

definition RL_INFINITY :: u64 where "RL_INFINITY = - 1"

datatype RLimitResource =
    RL_CPU | RL_FSIZE | RL_DATA | RL_STACK | RL_CORE | RL_RSS | RL_NPROC | RL_NOFILE | RL_MEMLOCK | RL_AS | RL_LOCKS
  | RL_SIGPENDING | RL_MSGQUEUE | RL_NICE | RL_RTPRIO | RL_RTTIME | RL_NLIMITS

definition rlimit_from_usize :: "usize \<Rightarrow> RLimitResource option" where
  "rlimit_from_usize v = (
     let all = [RL_CPU, RL_FSIZE, RL_DATA, RL_STACK, RL_CORE, RL_RSS, RL_NPROC, RL_NOFILE, RL_MEMLOCK, RL_AS, RL_LOCKS,
                RL_SIGPENDING, RL_MSGQUEUE, RL_NICE, RL_RTPRIO, RL_RTTIME, RL_NLIMITS]
     in if unat v < length all then Some (all ! unat v) else None)"

definition sys_prlimit :: "('f, 'fa) senv \<Rightarrow> nat \<Rightarrow> ('f, 'fa, 'w) kstate \<Rightarrow> ('f, 'fa, 'w, usize) sysm" where
  "sys_prlimit E r k = do {
     args \<leftarrow> sys_args r k;
     sys_bind (target_lproc (args ! 0) r k) (\<lambda>t k. (case rlimit_from_usize (args ! 1) of
       None \<Rightarrow> Some (Inl EINVAL, k)
     | Some res \<Rightarrow> do {
         q \<leftarrow> k_procs k t;
         let limit = (if res = RL_NOFILE then fd_limit (k_fdtables k (lp_fdtable q)) else RL_INFINITY);
         sys_bind (if args ! 3 \<noteq> 0 then up_write E (args ! 3) (to_le 8 limit @ to_le 8 limit) r k else Some (Inr (), k)) (\<lambda>_ k.
           if args ! 2 \<noteq> 0 then sys_bind (up_read E 16 (args ! 2) r k) (\<lambda>bs k.
             let cur = (from_le (take 8 bs) :: u64)
             in Some (Inr 0, if res = RL_NOFILE
               then k\<lparr>k_fdtables := (k_fdtables k)(lp_fdtable q := set_limit cur (k_fdtables k (lp_fdtable q)))\<rparr> else k))
           else Some (Inr 0, k)) })) }"

section \<open>The working directory\<close>

definition sys_getcwd :: "('f, 'fa) senv \<Rightarrow> nat \<Rightarrow> ('f, 'fa, 'w) kstate \<Rightarrow> ('f, 'fa, 'w, usize) sysm" where
  "sys_getcwd E r k = do {
     args \<leftarrow> sys_args r k;
     p \<leftarrow> k_procs k r;
     let buf = args ! 0;
     let len = args ! 1;
     if len = 0 \<and> buf \<noteq> 0 then Some (Inl EINVAL, k)
     else if buf = 0 then Some (Inl EINVAL, k)
     else do {
       let cwd = as_bytes (to_string (k_fsinfos k (lp_fsinfo p)));
       if length cwd + 1 > unat len then Some (Inr 0, k)
       else do {
         let n = min (length cwd) (unat len);
         sys_bind (up_as_mut_slice E 1 buf (word_of_nat n) r k) (\<lambda>_ k. do {
           k \<leftarrow> user_store buf (take n cwd) r k;
           sys_bind (up_write E (up_add 1 buf (word_of_nat n)) [0] r k) (\<lambda>_ k. Some (Inr buf, k)) }) } } }"

section \<open>Signals\<close>

definition kill_children :: "usize \<Rightarrow> usize \<Rightarrow> nat list \<Rightarrow> ('f, 'fa, 'w) kstate \<Rightarrow> ('f, 'fa, 'w) kstate option" where
  "kill_children signum pgid cs k = foldM (\<lambda>c k. do {
     q \<leftarrow> k_procs k c;
     if lp_pgid q = pgid then lproc_send_signal signum c k else Some k }) cs k"

definition sys_kill :: "nat \<Rightarrow> ('f, 'fa, 'w) kstate \<Rightarrow> ('f, 'fa, 'w, usize) sysm" where
  "sys_kill r k = do {
     args \<leftarrow> sys_args r k;
     p \<leftarrow> k_procs k r;
     let pid = args ! 0;
     let signum = args ! 1;
     if pid > 0 then sys_bind (target_lproc pid r k) (\<lambda>t k.
       if signum \<noteq> 0 then do { k \<leftarrow> lproc_send_signal signum t k; Some (Inr 0, k) } else Some (Inr 0, k))
     else if signum \<noteq> 0 then do {
       k \<leftarrow> kill_children signum (lp_pgid p) (k_children k (lp_children p)) k;
       k \<leftarrow> lproc_send_signal signum r k;
       Some (Inr 0, k) }
     else Some (Inr 0, k) }"

definition sys_tkill :: "nat \<Rightarrow> ('f, 'fa, 'w) kstate \<Rightarrow> ('f, 'fa, 'w, usize) sysm" where
  "sys_tkill r k = do {
     args \<leftarrow> sys_args r k;
     let pid = args ! 0;
     let signum = args ! 1;
     rassert (pid > 0);
     sys_bind (target_lproc pid r k) (\<lambda>t k.
       if signum \<noteq> 0 then do { k \<leftarrow> lproc_send_signal signum t k; Some (Inr 0, k) } else Some (Inr 0, k)) }"

text \<open>\<open>sigaction\<close> and \<open>sigreturn\<close> of \<open>Signal\<close>, on a process and its memory. The language leaves the layout of \<open>SigAction\<close> open,
  since it is not \<^verbatim>\<open>repr(C)\<close>: \<open>enc\<close> and \<open>dec\<close> are the layout that the compiler chose, \<open>32\<close> its size.\<close>

definition sys_sigaction ::
  "(SigAction \<Rightarrow> u8 list) \<Rightarrow> (u8 list \<Rightarrow> SigAction) \<Rightarrow> ('f, 'fa) senv \<Rightarrow> nat \<Rightarrow> ('f, 'fa, 'w) kstate \<Rightarrow> ('f, 'fa, 'w, usize) sysm" where
  "sys_sigaction enc dec E r k = do {
     args \<leftarrow> sys_args r k;
     p \<leftarrow> k_procs k r;
     let signum = args ! 0;
     let old = \<lparr>sa_handler = (case bt_get signum (signal_handler (k_signals k (lp_signal p))) of Some h \<Rightarrow> h | None \<Rightarrow> SIG_DFL),
                sa_flags = 0, sa_restorer = 0, sa_mask = 0\<rparr>;
     sys_bind (if args ! 2 \<noteq> 0 then up_write E (args ! 2) (enc old) r k else Some (Inr (), k)) (\<lambda>_ k.
       if args ! 1 \<noteq> 0 then sys_bind (up_read E 32 (args ! 1) r k) (\<lambda>bs k.
         let sg = k_signals k (lp_signal p);
             sg = sg\<lparr>signal_handler := bt_insert signum (sa_handler (dec bs)) (signal_handler sg)\<rparr>
         in Some (Inr 0, k\<lparr>k_signals := (k_signals k)(lp_signal p := sg)\<rparr>))
       else Some (Inr 0, k)) }"

text \<open>\<open>sigwait\<close> looks up to \<open>n\<close> times for a signal of the set and lets the others run between the looks.\<close>

fun sigwait_loop ::
  "(('f, 'fa, 'w) kstate \<times> 'v \<Rightarrow> ('f, 'fa, 'w) kstate \<times> 'v) \<Rightarrow> nat \<Rightarrow> u64 \<Rightarrow> nat \<Rightarrow> ('f, 'fa, 'w) kstate \<times> 'v \<Rightarrow>
   (usize SysResult \<times> ('f, 'fa, 'w) kstate \<times> 'v) option" where
  "sigwait_loop Y 0 waiting r s = Some (Inl EAGAIN, s)"
| "sigwait_loop Y (Suc n) waiting r s = do {
     p \<leftarrow> k_procs (fst s) r;
     let inter = signal_pending (k_signals (fst s) (lp_signal p)) AND waiting;
     if inter \<noteq> 0 then Some (Inr (inter AND push_bit (trailing_zeros inter) 1), s)
     else sigwait_loop Y n waiting r (Y s) }"

definition sys_sigwait ::
  "('f, 'fa) senv \<Rightarrow> (('f, 'fa, 'w) kstate \<times> 'v \<Rightarrow> ('f, 'fa, 'w) kstate \<times> 'v) \<Rightarrow> nat \<Rightarrow> ('f, 'fa, 'w) kstate \<times> 'v \<Rightarrow>
   (usize SysResult \<times> ('f, 'fa, 'w) kstate \<times> 'v) option" where
  "sys_sigwait E Y r s = (case s of (k, v) \<Rightarrow> do {
     args \<leftarrow> sys_args r k;
     (res, k) \<leftarrow> up_read E 8 (args ! 0) r k;
     (case res of
        Inl e \<Rightarrow> Some (Inl e, k, v)
      | Inr bs \<Rightarrow> sigwait_loop Y 100000 (from_le bs) r (k, v)) })"

definition call_sigreturn :: "nat \<Rightarrow> ('f, 'fa, 'w) kstate \<Rightarrow> ('f, 'fa, 'w, usize) sysm" where
  "call_sigreturn r k = do {
     p \<leftarrow> k_procs k r;
     (res, sg, cx) \<leftarrow> sys_sigreturn (k_signals k (lp_signal p), lp_context p);
     let k = k\<lparr>k_signals := (k_signals k)(lp_signal p := sg)\<rparr>;
     Some (res, upd_lproc r (\<lambda>p. p\<lparr>lp_context := cx\<rparr>) k) }"

end
