(* ===== verification/Syscall_Misc.thy ===== *)
theory Syscall_Misc
  imports Syscall_Process Sleep_Queue
begin

text \<open>
  The system calls on times, timers and limits of scheduling, \<^verbatim>\<open>syscall/misc.rs\<close> and \<^verbatim>\<open>syscall/resource.rs\<close>, with the
  calls that a timer makes when its time has come.
\<close>

section \<open>Structures in user memory\<close>

definition uts_from_str :: "string \<Rightarrow> u8 list" where
  "uts_from_str info = as_bytes info @ replicate (65 - length (as_bytes info)) 0"

definition uts_name_default :: "u8 list" where
  "uts_name_default = uts_from_str ''MankorOS'' @ uts_from_str ''MankorOS-VF2'' @ uts_from_str ''6.1.0-7-riscv64'' @
     uts_from_str ''unknown'' @ uts_from_str ''riscv64'' @ uts_from_str ''localhost''"

definition timeval_bytes :: "TimeVal \<Rightarrow> u8 list" where
  "timeval_bytes t = to_le 8 (tv_sec t) @ to_le 8 (tv_usec t)"

definition timeval_of_bytes :: "u8 list \<Rightarrow> TimeVal" where
  "timeval_of_bytes bs = \<lparr>tv_sec = from_le (take 8 bs), tv_usec = from_le (take 8 (drop 8 bs))\<rparr>"

definition timespec_bytes :: "TimeSpec \<Rightarrow> u8 list" where
  "timespec_bytes t = to_le 8 (ts_sec t) @ to_le 8 (ts_nsec t)"

definition timespec_of_bytes :: "u8 list \<Rightarrow> TimeSpec" where
  "timespec_of_bytes bs = \<lparr>ts_sec = from_le (take 8 bs), ts_nsec = from_le (take 8 (drop 8 bs))\<rparr>"

text \<open>The end of a call that writes a structure and returns 0.\<close>

definition write_out :: "('f, 'fa) senv \<Rightarrow> usize \<Rightarrow> u8 list \<Rightarrow> nat \<Rightarrow> ('f, 'fa, 'w) kstate \<Rightarrow> ('f, 'fa, 'w, usize) sysm" where
  "write_out E p bs r k = sys_bind (up_write E p bs r k) (\<lambda>_ k. Some (Inr 0, k))"

section \<open>Reading the clock\<close>

definition sys_uname :: "('f, 'fa) senv \<Rightarrow> nat \<Rightarrow> ('f, 'fa, 'w) kstate \<Rightarrow> ('f, 'fa, 'w, usize) sysm" where
  "sys_uname E r k = do {
     args \<leftarrow> sys_args r k;
     write_out E (args ! 0) uts_name_default r k }"

definition sys_gettimeofday :: "('f, 'fa) senv \<Rightarrow> nat \<Rightarrow> ('f, 'fa, 'w) kstate \<Rightarrow> ('f, 'fa, 'w, usize) sysm" where
  "sys_gettimeofday E r k = do {
     args \<leftarrow> sys_args r k;
     write_out E (args ! 0) (timeval_bytes (timeval_now (k_now k))) r k }"

definition sys_clockgettime :: "('f, 'fa) senv \<Rightarrow> nat \<Rightarrow> ('f, 'fa, 'w) kstate \<Rightarrow> ('f, 'fa, 'w, usize) sysm" where
  "sys_clockgettime E r k = do {
     args \<leftarrow> sys_args r k;
     write_out E (args ! 1) (timespec_bytes (timespec_now (k_now k))) r k }"

definition sys_times :: "('f, 'fa) senv \<Rightarrow> nat \<Rightarrow> ('f, 'fa, 'w) kstate \<Rightarrow> ('f, 'fa, 'w, usize) sysm" where
  "sys_times E r k = do {
     args \<leftarrow> sys_args r k;
     p \<leftarrow> k_procs k r;
     let (utime, stime) = timestat_output_us (lp_timer p);
     let tms = \<lparr>tms_utime = utime, tms_stime = stime, tms_cutime = utime, tms_cstime = stime\<rparr>;
     write_out E (args ! 0)
       (to_le 8 (tms_utime tms) @ to_le 8 (tms_stime tms) @ to_le 8 (tms_cutime tms) @ to_le 8 (tms_cstime tms)) r k }"

definition sys_clock_getres :: "('f, 'fa) senv \<Rightarrow> nat \<Rightarrow> ('f, 'fa, 'w) kstate \<Rightarrow> ('f, 'fa, 'w, usize) sysm" where
  "sys_clock_getres E r k = do {
     args \<leftarrow> sys_args r k;
     write_out E (args ! 1) (timespec_bytes (timespec_new 0 1)) r k }"

definition sys_getrusage :: "('f, 'fa) senv \<Rightarrow> nat \<Rightarrow> ('f, 'fa, 'w) kstate \<Rightarrow> ('f, 'fa, 'w, usize) sysm" where
  "sys_getrusage E r k = do {
     args \<leftarrow> sys_args r k;
     p \<leftarrow> k_procs k r;
     let who = (ucast (args ! 0) :: u32);
     let (utime, stime) = timestat_output_us (lp_timer p);
     if who = 0 \<or> who = 1 \<or> who = - 1 then
       (let data = \<lparr>ru_utime = timeval_from_us utime, ru_stime = timeval_from_us stime\<rparr>
        in write_out E (args ! 1) (timeval_bytes (ru_utime data) @ timeval_bytes (ru_stime data)) r k)
     else Some (Inl EINVAL, k) }"

definition cpu_set_new :: "usize \<Rightarrow> u8 list option" where
  "cpu_set_new cpus = do {
     i \<leftarrow> usub cpus 1;
     rassert (unat i < 64);
     Some (to_le 8 (push_bit (unat i) 1 :: usize) @ replicate 120 0) }"

definition sys_sched_getaffinity :: "('f, 'fa) senv \<Rightarrow> nat \<Rightarrow> ('f, 'fa, 'w) kstate \<Rightarrow> ('f, 'fa, 'w, usize) sysm" where
  "sys_sched_getaffinity E r k = do {
     args \<leftarrow> sys_args r k;
     set \<leftarrow> cpu_set_new 1;
     write_out E (args ! 1) set r k }"

section \<open>Sleeping\<close>

text \<open>\<open>wake_after\<close>: the future is polled after every suspension \<open>Y\<close>, and is ready when the clock has reached its time.\<close>

partial_function (option) sleep_until ::
  "(('f, 'fa, 'w) kstate \<times> 'v \<Rightarrow> ('f, 'fa, 'w) kstate \<times> 'v) \<Rightarrow> usize \<Rightarrow> ('f, 'fa, 'w) kstate \<times> 'v \<Rightarrow>
   (('f, 'fa, 'w) kstate \<times> 'v) option" where
  "sleep_until Y t s = (if t \<le> k_now_ms (fst s) then Some s else sleep_until Y t (Y s))"

definition wake_after ::
  "(('f, 'fa, 'w) kstate \<times> 'v \<Rightarrow> ('f, 'fa, 'w) kstate \<times> 'v) \<Rightarrow> usize \<Rightarrow> ('f, 'fa, 'w) kstate \<times> 'v \<Rightarrow>
   (('f, 'fa, 'w) kstate \<times> 'v) option" where
  "wake_after Y ms s = do { t \<leftarrow> uadd (k_now_ms (fst s)) ms; sleep_until Y t s }"

text \<open>The second part of the state is passed on by a call that does not use it.\<close>

definition lift_sys :: "(('f, 'fa, 'w) kstate \<Rightarrow> ('f, 'fa, 'w, 'a) sysm) \<Rightarrow> ('f, 'fa, 'w) kstate \<times> 'v \<Rightarrow>
   ('a SysResult \<times> ('f, 'fa, 'w) kstate \<times> 'v) option" where
  "lift_sys f s = do { (res, k) \<leftarrow> f (fst s); Some (res, k, snd s) }"

definition write_rem :: "('f, 'fa) senv \<Rightarrow> usize \<Rightarrow> nat \<Rightarrow> ('f, 'fa, 'w) kstate \<Rightarrow> ('f, 'fa, 'w, usize) sysm" where
  "write_rem E p r k = (if p \<noteq> 0 then write_out E p (timespec_bytes (timespec_new 0 0)) r k else Some (Inr 0, k))"

definition sys_nanosleep ::
  "('f, 'fa) senv \<Rightarrow> (('f, 'fa, 'w) kstate \<times> 'v \<Rightarrow> ('f, 'fa, 'w) kstate \<times> 'v) \<Rightarrow> nat \<Rightarrow> ('f, 'fa, 'w) kstate \<times> 'v \<Rightarrow>
   (usize SysResult \<times> ('f, 'fa, 'w) kstate \<times> 'v) option" where
  "sys_nanosleep E Y r s = do {
     args \<leftarrow> sys_args r (fst s);
     sys_bind (lift_sys (up_read E 16 (args ! 0) r) s) (\<lambda>bs s. do {
       sleep_time_ms \<leftarrow> timespec_in_ms (timespec_of_bytes bs);
       let before_sleep = k_now_ms (fst s);
       s \<leftarrow> wake_after Y sleep_time_ms s;
       let after_sleep = k_now_ms (fst s);
       limit \<leftarrow> uadd before_sleep sleep_time_ms;
       rassert (after_sleep \<ge> limit);
       lift_sys (write_rem E (args ! 1) r) s }) }"

definition sys_clock_nanosleep ::
  "('f, 'fa) senv \<Rightarrow> (('f, 'fa, 'w) kstate \<times> 'v \<Rightarrow> ('f, 'fa, 'w) kstate \<times> 'v) \<Rightarrow> nat \<Rightarrow> ('f, 'fa, 'w) kstate \<times> 'v \<Rightarrow>
   (usize SysResult \<times> ('f, 'fa, 'w) kstate \<times> 'v) option" where
  "sys_clock_nanosleep E Y r s = do {
     args \<leftarrow> sys_args r (fst s);
     sys_bind (lift_sys (up_read E 16 (args ! 2) r) s) (\<lambda>bs s. do {
       req_ms \<leftarrow> timespec_in_ms (timespec_of_bytes bs);
       let now = k_now_ms (fst s);
       let sleep_time_ms = (if args ! 1 = 1 then if req_ms > now then req_ms - now else 0 else req_ms);
       s \<leftarrow> (if sleep_time_ms \<noteq> 0 then wake_after Y sleep_time_ms s else Some s);
       lift_sys (write_rem E (args ! 3) r) s }) }"

section \<open>Interval timers\<close>

definition call_after :: "usize \<Rightarrow> delayed_call \<Rightarrow> ('f, 'fa, 'w) kstate \<Rightarrow> ('f, 'fa, 'w) kstate option" where
  "call_after ms c k = do {
     t \<leftarrow> uadd (k_now_ms k) ms;
     Some (k\<lparr>k_delayed := sq_push (t, c) (k_delayed k)\<rparr>) }"

definition sys_setitimer :: "('f, 'fa) senv \<Rightarrow> nat \<Rightarrow> ('f, 'fa, 'w) kstate \<Rightarrow> ('f, 'fa, 'w, usize) sysm" where
  "sys_setitimer E r k = do {
     args \<leftarrow> sys_args r k;
     if args ! 0 = 0 then sys_bind (up_read E 32 (args ! 1) r k) (\<lambda>bs k. do {
       next_wakeup_time \<leftarrow> timeval_in_ms (timeval_of_bytes (drop 16 bs));
       period \<leftarrow> timeval_in_ms (timeval_of_bytes bs);
       p \<leftarrow> k_procs k r;
       if period = 0 then
         if next_wakeup_time \<noteq> 0 then do {
           (timer_id, pool) \<leftarrow> pool_get (k_timer_ids k);
           let k = k\<lparr>k_timer_ids := pool\<rparr>;
           let k = upd_lproc r (\<lambda>p. p\<lparr>lp_timer_map := bt_insert timer_id True (lp_timer_map p)\<rparr>) k;
           k \<leftarrow> call_after next_wakeup_time (One_Shot (lp_id p) timer_id) k;
           Some (Inr 0, k) }
         else Some (Inr 0, upd_lproc r (\<lambda>p. p\<lparr>lp_timer_map := map (\<lambda>(i, _). (i, False)) (lp_timer_map p)\<rparr>) k)
       else do {
         (timer_id, pool) \<leftarrow> pool_get (k_timer_ids k);
         let k = k\<lparr>k_timer_ids := pool\<rparr>;
         k \<leftarrow> call_after next_wakeup_time (Periodic (lp_id p) timer_id period) k;
         Some (Inr 0, k) } })
     else Some (Inr 0, k) }"

text \<open>The futures that run when the time has come; a missing timer is a panic.\<close>

fun run_delayed :: "delayed_call \<Rightarrow> ('f, 'fa, 'w) kstate \<Rightarrow> ('f, 'fa, 'w) kstate option" where
  "run_delayed (One_Shot pid timer_id) k = (case mgr_get pid k of
     (None, k) \<Rightarrow> Some k
   | (Some q, k) \<Rightarrow> do {
       lp \<leftarrow> k_procs k q;
       armed \<leftarrow> bt_get timer_id (lp_timer_map lp);
       let k = upd_lproc q (\<lambda>p. p\<lparr>lp_timer_map := bt_remove timer_id (lp_timer_map p)\<rparr>) k;
       if armed then lproc_send_signal (get_signum SIGALRM) q k else Some k })"
| "run_delayed (Periodic pid timer_id period) k = (case mgr_get pid k of
     (None, k) \<Rightarrow> Some k
   | (Some q, k) \<Rightarrow> do {
       lp \<leftarrow> k_procs k q;
       armed \<leftarrow> bt_get timer_id (lp_timer_map lp);
       if armed then do {
         k \<leftarrow> lproc_send_signal (get_signum SIGALRM) q k;
         call_after period (Periodic_Again pid timer_id) k }
       else Some k })"
| "run_delayed (Periodic_Again pid timer_id) k = (case mgr_get pid k of
     (None, k) \<Rightarrow> Some k
   | (Some q, k) \<Rightarrow> do {
       lp \<leftarrow> k_procs k q;
       armed \<leftarrow> bt_get timer_id (lp_timer_map lp);
       if armed then lproc_send_signal (get_signum SIGALRM) q k else Some k })"

text \<open>The tick of the timer: the calls whose time has come are handed to the executor, which runs them.\<close>

definition timer_tick :: "('f, 'fa, 'w) kstate \<Rightarrow> ('f, 'fa, 'w) kstate option" where
  "timer_tick k = (case wake_ready (k_now_ms k) (k_delayed k) of
     (ready, rest) \<Rightarrow> foldM (\<lambda>(_, c). run_delayed c) ready (k\<lparr>k_delayed := rest\<rparr>))"

end
