(* ===== verification/Pipe.thy ===== *)
theory Pipe
  imports Tables Sleep_Queue
begin

text \<open>
  Pipes, \<^verbatim>\<open>fs/npipe.rs\<close>. The ring buffer is the one of the crate \<^verbatim>\<open>ringbuffer\<close>: its operations are a parameter, and \<open>ring_ok\<close> is
  what its documentation says of them. A future is modelled by its poll; between two polls other tasks run. The waker of a
  task is a token of type \<open>'w\<close>, and waking is an output of an operation.
\<close>

section \<open>The ring buffer\<close>

record 'b RingBuffer =
  rb_with_capacity :: "nat \<Rightarrow> 'b"
  rb_len :: "'b \<Rightarrow> nat"
  rb_capacity :: "'b \<Rightarrow> nat"
  rb_push :: "u8 \<Rightarrow> 'b \<Rightarrow> 'b"
  rb_dequeue :: "'b \<Rightarrow> (u8 \<times> 'b) option"

text \<open>\<open>bytes\<close> reads the queue off a buffer. A push to a buffer that is not full appends; a full one is not used.\<close>

definition ring_ok :: "'b RingBuffer \<Rightarrow> ('b \<Rightarrow> u8 list) \<Rightarrow> bool" where
  "ring_ok R bytes \<longleftrightarrow>
     (\<forall>n. bytes (rb_with_capacity R n) = [] \<and> rb_capacity R (rb_with_capacity R n) = n) \<and>
     (\<forall>b. rb_len R b = length (bytes b)) \<and>
     (\<forall>b x. rb_len R b < rb_capacity R b \<longrightarrow>
        bytes (rb_push R x b) = bytes b @ [x] \<and> rb_capacity R (rb_push R x b) = rb_capacity R b) \<and>
     (\<forall>b. case rb_dequeue R b of
        None \<Rightarrow> bytes b = []
      | Some (x, b') \<Rightarrow> bytes b = x # bytes b' \<and> rb_capacity R b' = rb_capacity R b)"

section \<open>The pipe\<close>

definition MAX_PIPE_SIZE :: nat where "MAX_PIPE_SIZE = 4 * 1024"

record ('b, 'w) Pipe =
  is_closed :: bool
  pbuf :: 'b
  read_waker :: "'w option"
  write_waker :: "'w option"

definition pipe_new :: "'b RingBuffer \<Rightarrow> ('b, 'w) Pipe" where
  "pipe_new R = \<lparr>is_closed = False, pbuf = rb_with_capacity R MAX_PIPE_SIZE, read_waker = None, write_waker = None\<rparr>"

text \<open>Dropping a pipe that is not closed panics.\<close>

definition pipe_drop :: "('b, 'w) Pipe \<Rightarrow> unit option" where
  "pipe_drop p = rassert (is_closed p)"

definition opt_list :: "'a option \<Rightarrow> 'a list" where
  "opt_list x = (case x of None \<Rightarrow> [] | Some y \<Rightarrow> [y])"

subsection \<open>The read end\<close>

definition read_future_poll :: "'b RingBuffer \<Rightarrow> 'w \<Rightarrow> ('b, 'w) Pipe \<Rightarrow> nat SysResult option \<times> ('b, 'w) Pipe" where
  "read_future_poll R w p =
     (if rb_len R (pbuf p) \<noteq> 0 then (Some (Inr (rb_len R (pbuf p))), p)
      else if is_closed p then (Some (Inl EPIPE), p)
      else (None, p\<lparr>read_waker := Some w\<rparr>))"

fun dequeue_n :: "'b RingBuffer \<Rightarrow> nat \<Rightarrow> 'b \<Rightarrow> (u8 list \<times> 'b) option" where
  "dequeue_n R 0 b = Some ([], b)"
| "dequeue_n R (Suc n) b = do {
     (x, b) \<leftarrow> rb_dequeue R b;
     (xs, b) \<leftarrow> dequeue_n R n b;
     Some (x # xs, b) }"

definition poll_read ::
  "'b RingBuffer \<Rightarrow> nat \<Rightarrow> ('b, 'w) Pipe \<Rightarrow> (u8 list \<times> ('b, 'w) Pipe \<times> 'w list) option" where
  "poll_read R buf_len p = do {
     rassert (rb_len R (pbuf p) \<noteq> 0);
     if buf_len = 0 then Some ([], p, [])
     else do {
       let len = min (rb_len R (pbuf p)) buf_len;
       (xs, b) \<leftarrow> dequeue_n R len (pbuf p);
       Some (xs, p\<lparr>pbuf := b, write_waker := None\<rparr>, opt_list (write_waker p)) } }"

definition read_end_drop :: "('b, 'w) Pipe \<Rightarrow> ('b, 'w) Pipe \<times> 'w list" where
  "read_end_drop p = (p\<lparr>is_closed := True, write_waker := None\<rparr>, opt_list (write_waker p))"

subsection \<open>The write end\<close>

definition write_future_poll :: "'b RingBuffer \<Rightarrow> 'w \<Rightarrow> ('b, 'w) Pipe \<Rightarrow> (nat SysResult option \<times> ('b, 'w) Pipe) option" where
  "write_future_poll R w p = do {
     rassert (rb_len R (pbuf p) \<le> rb_capacity R (pbuf p));
     let space_left = rb_capacity R (pbuf p) - rb_len R (pbuf p);
     Some (if is_closed p then (Some (Inl EPIPE), p)
           else if space_left \<noteq> 0 then (Some (Inr space_left), p)
           else (None, p\<lparr>write_waker := Some w\<rparr>)) }"

definition poll_write :: "'b RingBuffer \<Rightarrow> u8 list \<Rightarrow> ('b, 'w) Pipe \<Rightarrow> (nat \<times> ('b, 'w) Pipe \<times> 'w list) option" where
  "poll_write R buf p = do {
     rassert (rb_len R (pbuf p) \<le> rb_capacity R (pbuf p));
     let space_left = rb_capacity R (pbuf p) - rb_len R (pbuf p);
     rassert (space_left \<noteq> 0);
     if length buf = 0 then Some (0, p, [])
     else do {
       let len = min space_left (length buf);
       Some (len, p\<lparr>pbuf := fold (rb_push R) (take len buf) (pbuf p), read_waker := None\<rparr>, opt_list (read_waker p)) } }"

definition write_end_drop :: "('b, 'w) Pipe \<Rightarrow> ('b, 'w) Pipe \<times> 'w list" where
  "write_end_drop p = (p\<lparr>is_closed := True, read_waker := None\<rparr>, opt_list (read_waker p))"

subsection \<open>Waiting for the pipe or a signal\<close>

text \<open>\<open>await_or_signal\<close>: the future of the pipe is polled first, then the one that waits for a signal.\<close>

definition await_or_signal_poll ::
  "('p \<Rightarrow> (nat SysResult option \<times> 'p) option) \<Rightarrow> 'w EventBusWaitForFuture \<Rightarrow> 'p \<times> 'w EventBus \<Rightarrow>
   (nat SysResult option \<times> 'w EventBusWaitForFuture \<times> 'p \<times> 'w EventBus) option" where
  "await_or_signal_poll pipe_future f st = (case st of (p, bus) \<Rightarrow> do {
     (res, p) \<leftarrow> pipe_future p;
     (case res of
        Some x \<Rightarrow> Some (Some x, f, p, bus)
      | None \<Rightarrow> do {
          (ready, f, bus) \<leftarrow> wait_poll f bus;
          Some (if ready then Some (Inl EINTR) else None, f, p, bus) }) })"

text \<open>One poll of \<open>read_at\<close> and of \<open>write_at\<close>: when the pipe is ready the bytes move at once.\<close>

definition read_at_poll ::
  "'b RingBuffer \<Rightarrow> 'w \<Rightarrow> nat \<Rightarrow> 'w EventBusWaitForFuture \<Rightarrow> ('b, 'w) Pipe \<times> 'w EventBus \<Rightarrow>
   (u8 list SysResult option \<times> 'w EventBusWaitForFuture \<times> (('b, 'w) Pipe \<times> 'w EventBus) \<times> 'w list) option" where
  "read_at_poll R w buf_len f st = do {
     (res, f, p, bus) \<leftarrow> await_or_signal_poll (\<lambda>p. Some (read_future_poll R w p)) f st;
     (case res of
        None \<Rightarrow> Some (None, f, (p, bus), [])
      | Some (Inl e) \<Rightarrow> Some (Some (Inl e), f, (p, bus), [])
      | Some (Inr _) \<Rightarrow> do {
          (xs, p, ws) \<leftarrow> poll_read R buf_len p;
          Some (Some (Inr xs), f, (p, bus), ws) }) }"

definition write_at_poll ::
  "'b RingBuffer \<Rightarrow> 'w \<Rightarrow> u8 list \<Rightarrow> 'w EventBusWaitForFuture \<Rightarrow> ('b, 'w) Pipe \<times> 'w EventBus \<Rightarrow>
   (nat SysResult option \<times> 'w EventBusWaitForFuture \<times> (('b, 'w) Pipe \<times> 'w EventBus) \<times> 'w list) option" where
  "write_at_poll R w buf f st = do {
     (res, f, p, bus) \<leftarrow> await_or_signal_poll (write_future_poll R w) f st;
     (case res of
        None \<Rightarrow> Some (None, f, (p, bus), [])
      | Some (Inl e) \<Rightarrow> Some (Some (Inl e), f, (p, bus), [])
      | Some (Inr _) \<Rightarrow> do {
          (n, p, ws) \<leftarrow> poll_write R buf p;
          Some (Some (Inr n), f, (p, bus), ws) }) }"

end
