(* ===== verification/Pipe_Laws.thy ===== *)
theory Pipe_Laws
  imports Pipe
begin

text \<open>
  A pipe between a reading and a writing task, as a step relation: what the reader has got, followed by what is in the buffer,
  is what the writer has written, and no task sleeps on a pipe that is ready for it.
\<close>

section \<open>The ring buffer as a queue\<close>

lemma ring_len: "ring_ok R bytes \<Longrightarrow> rb_len R b = length (bytes b)"
  by (simp add: ring_ok_def)

lemma ring_push:
  "ring_ok R bytes \<Longrightarrow> length (bytes b) < rb_capacity R b \<Longrightarrow>
   bytes (rb_push R x b) = bytes b @ [x] \<and> rb_capacity R (rb_push R x b) = rb_capacity R b"
  by (simp add: ring_ok_def)

lemma ring_push_all:
  "ring_ok R bytes \<Longrightarrow> length (bytes b) + length xs \<le> rb_capacity R b \<Longrightarrow>
   bytes (fold (rb_push R) xs b) = bytes b @ xs \<and> rb_capacity R (fold (rb_push R) xs b) = rb_capacity R b"
proof (induction xs arbitrary: b)
  case (Cons x xs)
  then show ?case using ring_push [of R bytes b x] Cons.IH [of "rb_push R x b"] by auto
qed simp

lemma ring_dequeue:
  assumes "ring_ok R bytes" "bytes b = x # xs"
  obtains b' where "rb_dequeue R b = Some (x, b')" "bytes b' = xs" "rb_capacity R b' = rb_capacity R b"
proof -
  have "case rb_dequeue R b of None \<Rightarrow> bytes b = []
      | Some (x, b') \<Rightarrow> bytes b = x # bytes b' \<and> rb_capacity R b' = rb_capacity R b"
    using assms (1) by (simp add: ring_ok_def)
  then show thesis using assms (2) that by (auto split: option.splits)
qed

lemma ring_dequeue_n:
  assumes "ring_ok R bytes" "n \<le> length (bytes b)"
  shows "\<exists>b'. dequeue_n R n b = Some (take n (bytes b), b') \<and> bytes b' = drop n (bytes b) \<and> rb_capacity R b' = rb_capacity R b"
  using assms (2)
proof (induction n arbitrary: b)
  case (Suc n)
  then obtain x xs where b: "bytes b = x # xs" by (cases "bytes b") auto
  obtain b' where "rb_dequeue R b = Some (x, b')" "bytes b' = xs" "rb_capacity R b' = rb_capacity R b"
    using ring_dequeue [OF assms (1) b] .
  then show ?case using Suc.IH [of b'] Suc.prems b by auto
qed simp

section \<open>One poll\<close>

lemma poll_read_spec:
  assumes "ring_ok R bytes" "bytes (pbuf p) \<noteq> []"
  shows "\<exists>b. poll_read R n p = Some (take n (bytes (pbuf p)),
      (if n = 0 then p else p\<lparr>pbuf := b, write_waker := None\<rparr>), (if n = 0 then [] else opt_list (write_waker p))) \<and>
    (n \<noteq> 0 \<longrightarrow> bytes b = drop n (bytes (pbuf p)) \<and> rb_capacity R b = rb_capacity R (pbuf p))"
proof (cases "n = 0")
  case False
  obtain b where "dequeue_n R (min (length (bytes (pbuf p))) n) (pbuf p) =
      Some (take (min (length (bytes (pbuf p))) n) (bytes (pbuf p)), b)"
    "bytes b = drop (min (length (bytes (pbuf p))) n) (bytes (pbuf p))" "rb_capacity R b = rb_capacity R (pbuf p)"
    using ring_dequeue_n [OF assms (1), of "min (length (bytes (pbuf p))) n" "pbuf p"] min.cobounded1 by blast
  then show ?thesis
    using False assms by (intro exI [of _ b]) (auto simp: poll_read_def ring_len rassert_def min_def split: if_splits)
qed (use assms in \<open>auto simp: poll_read_def ring_len rassert_def\<close>)

lemma poll_write_spec:
  assumes "ring_ok R bytes" "length (bytes (pbuf p)) < rb_capacity R (pbuf p)"
  shows "\<exists>b. poll_write R xs p = Some (min (rb_capacity R (pbuf p) - length (bytes (pbuf p))) (length xs),
      (if xs = [] then p else p\<lparr>pbuf := b, read_waker := None\<rparr>), (if xs = [] then [] else opt_list (read_waker p))) \<and>
    (xs \<noteq> [] \<longrightarrow> bytes b = bytes (pbuf p) @ take (rb_capacity R (pbuf p) - length (bytes (pbuf p))) xs \<and>
      rb_capacity R b = rb_capacity R (pbuf p))"
proof (cases "xs = []")
  case False
  let ?n = "min (rb_capacity R (pbuf p) - length (bytes (pbuf p))) (length xs)"
  have "length (bytes (pbuf p)) + length (take ?n xs) \<le> rb_capacity R (pbuf p)" using assms (2) by simp
  from ring_push_all [OF assms (1) this] show ?thesis
    using False assms by (intro exI [of _ "fold (rb_push R) (take ?n xs) (pbuf p)"])
      (auto simp: poll_write_def ring_len rassert_def min_def Let_def split: if_splits)
qed (use assms in \<open>auto simp: poll_write_def ring_len rassert_def\<close>)

section \<open>Two tasks\<close>

datatype side = Rd | Wr

text \<open>The ends that are open, the signal buses of the two tasks, the calls in progress (none: the task is not in a call),
  whether a sleeping task was woken, and what went in and out.\<close>

record 'b pipe_sys =
  ps_pipe :: "('b, side) Pipe"
  ps_live :: "side \<Rightarrow> bool"
  ps_bus :: "side \<Rightarrow> side EventBus"
  ps_call :: "side \<Rightarrow> side EventBusWaitForFuture option"
  ps_woken :: "side \<Rightarrow> bool"
  ps_written :: "u8 list"
  ps_got :: "u8 list"

definition ps_init :: "'b RingBuffer \<Rightarrow> 'b pipe_sys" where
  "ps_init R = \<lparr>ps_pipe = pipe_new R, ps_live = (\<lambda>_. True), ps_bus = (\<lambda>_. bus_new), ps_call = (\<lambda>_. None), ps_woken = (\<lambda>_. False),
     ps_written = [], ps_got = []\<rparr>"

text \<open>A task that is in a call runs again when it was woken.\<close>

definition ps_runs :: "side \<Rightarrow> 'b pipe_sys \<Rightarrow> bool" where
  "ps_runs t s \<longleftrightarrow> ps_live s t \<and> (ps_call s t = None \<or> ps_woken s t)"

definition ps_future :: "side \<Rightarrow> 'b pipe_sys \<Rightarrow> side EventBusWaitForFuture" where
  "ps_future t s = (case ps_call s t of None \<Rightarrow> wait_for_event Ev_Signal t | Some f \<Rightarrow> f)"

definition ps_wake :: "side list \<Rightarrow> 'b pipe_sys \<Rightarrow> 'b pipe_sys" where
  "ps_wake ws s = s\<lparr>ps_woken := (\<lambda>t. ps_woken s t \<or> t \<in> set ws)\<rparr>"

text \<open>After a poll the call goes on, or it is over and its future is dropped.\<close>

definition ps_polled ::
  "side \<Rightarrow> bool \<Rightarrow> side EventBusWaitForFuture \<Rightarrow> ('b, side) Pipe \<Rightarrow> side EventBus \<Rightarrow> 'b pipe_sys \<Rightarrow> 'b pipe_sys option" where
  "ps_polled t ready f p bus s = do {
     bus \<leftarrow> (if ready then wait_drop f bus else Some bus);
     Some (s\<lparr>ps_pipe := p, ps_bus := (ps_bus s)(t := bus), ps_call := (ps_call s)(t := if ready then None else Some f),
             ps_woken := (ps_woken s)(t := False)\<rparr>) }"

definition ps_read :: "'b RingBuffer \<Rightarrow> nat \<Rightarrow> 'b pipe_sys \<Rightarrow> 'b pipe_sys option" where
  "ps_read R n s = do {
     (res, f, (p, bus), ws) \<leftarrow> read_at_poll R Rd n (ps_future Rd s) (ps_pipe s, ps_bus s Rd);
     s \<leftarrow> ps_polled Rd (res \<noteq> None) f p bus s;
     Some (ps_wake ws (s\<lparr>ps_got := ps_got s @ (case res of Some (Inr xs) \<Rightarrow> xs | _ \<Rightarrow> [])\<rparr>)) }"

definition ps_write :: "'b RingBuffer \<Rightarrow> u8 list \<Rightarrow> 'b pipe_sys \<Rightarrow> 'b pipe_sys option" where
  "ps_write R xs s = do {
     (res, f, (p, bus), ws) \<leftarrow> write_at_poll R Wr xs (ps_future Wr s) (ps_pipe s, ps_bus s Wr);
     s \<leftarrow> ps_polled Wr (res \<noteq> None) f p bus s;
     Some (ps_wake ws (s\<lparr>ps_written := ps_written s @ (case res of Some (Inr n) \<Rightarrow> take n xs | _ \<Rightarrow> [])\<rparr>)) }"

inductive pipe_step :: "'b RingBuffer \<Rightarrow> 'b pipe_sys \<Rightarrow> 'b pipe_sys \<Rightarrow> bool" for R where
  Step_Read: "pipe_step R s s'" if "ps_runs Rd s" "ps_read R n s = Some s'"
| Step_Write: "pipe_step R s s'" if "ps_runs Wr s" "ps_write R xs s = Some s'"
| Step_Signal: "pipe_step R s (ps_wake ws (s\<lparr>ps_bus := (ps_bus s)(t := bus)\<rparr>))"
    if "bus_notify Ev_Signal (ps_bus s t) = Some (ws, bus)"
| Step_Drop_Read: "pipe_step R s (ps_wake ws (s\<lparr>ps_pipe := p, ps_live := (ps_live s)(Rd := False)\<rparr>))"
    if "ps_live s Rd" "ps_call s Rd = None" "read_end_drop (ps_pipe s) = (p, ws)"
| Step_Drop_Write: "pipe_step R s (ps_wake ws (s\<lparr>ps_pipe := p, ps_live := (ps_live s)(Wr := False)\<rparr>))"
    if "ps_live s Wr" "ps_call s Wr = None" "write_end_drop (ps_pipe s) = (p, ws)"

text \<open>The invariant: the bytes in order, and a task that sleeps left its waker with a pipe that is not ready for it.\<close>

definition ps_asleep :: "side \<Rightarrow> 'b pipe_sys \<Rightarrow> bool" where
  "ps_asleep t s \<longleftrightarrow> ps_call s t \<noteq> None \<and> \<not> ps_woken s t"

definition ps_inv :: "'b RingBuffer \<Rightarrow> ('b \<Rightarrow> u8 list) \<Rightarrow> 'b pipe_sys \<Rightarrow> bool" where
  "ps_inv R bytes s \<longleftrightarrow> (let p = ps_pipe s; q = bytes (pbuf p) in
     ps_got s @ q = ps_written s \<and> length q \<le> MAX_PIPE_SIZE \<and> rb_capacity R (pbuf p) = MAX_PIPE_SIZE \<and>
     (ps_asleep Rd s \<longrightarrow> q = [] \<and> \<not> is_closed p \<and> read_waker p = Some Rd) \<and>
     (ps_asleep Wr s \<longrightarrow> length q = MAX_PIPE_SIZE \<and> \<not> is_closed p \<and> write_waker p = Some Wr))"

lemma ps_polled_simps:
  assumes "ps_polled t ready f p bus s = Some s'"
  shows "ps_pipe s' = p" "ps_written s' = ps_written s" "ps_got s' = ps_got s" "ps_live s' = ps_live s"
    "ps_asleep t s' \<longleftrightarrow> \<not> ready" "u \<noteq> t \<Longrightarrow> ps_asleep u s' = ps_asleep u s"
  using assms by (auto simp: ps_polled_def ps_asleep_def split: bind_splits if_splits)

lemma ps_wake_simps [simp]:
  "ps_pipe (ps_wake ws s) = ps_pipe s" "ps_written (ps_wake ws s) = ps_written s" "ps_got (ps_wake ws s) = ps_got s"
  "ps_asleep t (ps_wake ws s) \<longleftrightarrow> ps_asleep t s \<and> t \<notin> set ws"
  by (auto simp: ps_wake_def ps_asleep_def)

lemma ps_asleep_upd [simp]:
  "ps_asleep t (s\<lparr>ps_got := x\<rparr>) = ps_asleep t s" "ps_asleep t (s\<lparr>ps_written := x\<rparr>) = ps_asleep t s"
  "ps_asleep t (s\<lparr>ps_bus := b\<rparr>) = ps_asleep t s" "ps_asleep t (s\<lparr>ps_pipe := p, ps_live := l\<rparr>) = ps_asleep t s"
  by (simp_all add: ps_asleep_def)

text \<open>The results of a poll of \<open>read_at\<close> and of \<open>write_at\<close>.\<close>

lemma read_at_poll_cases:
  assumes ring: "ring_ok R bytes" and r: "read_at_poll R w n f (p, bus) = Some (res, f', (p', bus'), ws)"
  obtains (Got) b where "bytes (pbuf p) \<noteq> []" "res = Some (Inr (take n (bytes (pbuf p))))"
      "p' = (if n = 0 then p else p\<lparr>pbuf := b, write_waker := None\<rparr>)" "ws = (if n = 0 then [] else opt_list (write_waker p))"
      "n \<noteq> 0 \<longrightarrow> bytes b = drop n (bytes (pbuf p)) \<and> rb_capacity R b = rb_capacity R (pbuf p)"
  | (Closed) "bytes (pbuf p) = []" "is_closed p" "res = Some (Inl EPIPE)" "p' = p" "ws = []"
  | (Waits) "bytes (pbuf p) = []" "\<not> is_closed p" "res = None \<or> res = Some (Inl EINTR)" "p' = p\<lparr>read_waker := Some w\<rparr>" "ws = []"
proof (cases "bytes (pbuf p) = []")
  case True
  note s = read_at_poll_def await_or_signal_poll_def read_future_poll_def ring_len [OF ring] True
  show thesis
  proof (cases "is_closed p")
    case c: True
    have "res = Some (Inl EPIPE)" "p' = p" "ws = []" using r c by (simp_all add: s)
    then show thesis by (rule Closed [OF True c])
  next
    case o: False
    obtain ready where "res = (if ready then Some (Inl EINTR) else None)" "p' = p\<lparr>read_waker := Some w\<rparr>" "ws = []"
      using r o by (auto simp: s bind_eq_Some_conv split: if_splits)
    then show thesis by (intro Waits [OF True o]) auto
  qed
next
  case False
  obtain b where b: "poll_read R n p = Some (take n (bytes (pbuf p)),
      (if n = 0 then p else p\<lparr>pbuf := b, write_waker := None\<rparr>), (if n = 0 then [] else opt_list (write_waker p)))"
    "n \<noteq> 0 \<longrightarrow> bytes b = drop n (bytes (pbuf p)) \<and> rb_capacity R b = rb_capacity R (pbuf p)"
    using poll_read_spec [OF ring False, of n] by blast
  show thesis
    using r False b (1) ring_len [OF ring, of "pbuf p"]
    by (intro Got [OF False _ _ _ b (2)])
      (simp_all add: read_at_poll_def await_or_signal_poll_def read_future_poll_def)
qed

lemma write_at_poll_cases:
  assumes ring: "ring_ok R bytes" and r: "write_at_poll R w xs f (p, bus) = Some (res, f', (p', bus'), ws)"
    and le: "length (bytes (pbuf p)) \<le> rb_capacity R (pbuf p)"
  obtains (Put) b where "length (bytes (pbuf p)) < rb_capacity R (pbuf p)" "\<not> is_closed p"
      "res = Some (Inr (min (rb_capacity R (pbuf p) - length (bytes (pbuf p))) (length xs)))"
      "p' = (if xs = [] then p else p\<lparr>pbuf := b, read_waker := None\<rparr>)" "ws = (if xs = [] then [] else opt_list (read_waker p))"
      "xs \<noteq> [] \<longrightarrow> bytes b = bytes (pbuf p) @ take (rb_capacity R (pbuf p) - length (bytes (pbuf p))) xs \<and>
        rb_capacity R b = rb_capacity R (pbuf p)"
  | (Closed) "is_closed p" "res = Some (Inl EPIPE)" "p' = p" "ws = []"
  | (Waits) "length (bytes (pbuf p)) = rb_capacity R (pbuf p)" "\<not> is_closed p" "res = None \<or> res = Some (Inl EINTR)"
      "p' = p\<lparr>write_waker := Some w\<rparr>" "ws = []"
proof (cases "\<not> is_closed p \<and> length (bytes (pbuf p)) < rb_capacity R (pbuf p)")
  case True
  obtain b where b: "poll_write R xs p = Some (min (rb_capacity R (pbuf p) - length (bytes (pbuf p))) (length xs),
      (if xs = [] then p else p\<lparr>pbuf := b, read_waker := None\<rparr>), (if xs = [] then [] else opt_list (read_waker p)))"
    "xs \<noteq> [] \<longrightarrow> bytes b = bytes (pbuf p) @ take (rb_capacity R (pbuf p) - length (bytes (pbuf p))) xs \<and>
      rb_capacity R b = rb_capacity R (pbuf p)"
    using poll_write_spec [OF ring conjunct2 [OF True], of xs] by blast
  show thesis
    using r True b (1) ring_len [OF ring, of "pbuf p"]
    by (intro Put [OF conjunct2 [OF True] conjunct1 [OF True] _ _ _ b (2)])
      (simp_all add: write_at_poll_def await_or_signal_poll_def write_future_poll_def rassert_def)
next
  case False
  note s = write_at_poll_def await_or_signal_poll_def write_future_poll_def ring_len [OF ring] rassert_def
  show thesis
  proof (cases "is_closed p")
    case c: True
    have "res = Some (Inl EPIPE)" "p' = p" "ws = []" using r c le by (simp_all add: s)
    then show thesis by (rule Closed [OF c])
  next
    case o: False
    then have full: "length (bytes (pbuf p)) = rb_capacity R (pbuf p)" using False le by simp
    obtain ready where "res = (if ready then Some (Inl EINTR) else None)" "p' = p\<lparr>write_waker := Some w\<rparr>" "ws = []"
      using r o full by (auto simp: s bind_eq_Some_conv split: if_splits)
    then show thesis by (intro Waits [OF full o]) auto
  qed
qed

section \<open>The invariant holds\<close>

lemma ps_idle: "ps_call s t = None \<Longrightarrow> \<not> ps_asleep t s"
  by (simp add: ps_asleep_def)

lemma ps_inv_init: "ring_ok R bytes \<Longrightarrow> ps_inv R bytes (ps_init R)"
  by (simp add: ps_inv_def ps_init_def pipe_new_def ring_ok_def ps_asleep_def)

lemma ps_inv_read:
  assumes ring: "ring_ok R bytes" and inv: "ps_inv R bytes s" and r: "ps_read R n s = Some s'"
  shows "ps_inv R bytes s'"
proof -
  obtain res f p bus ws s1 where
    poll: "read_at_poll R Rd n (ps_future Rd s) (ps_pipe s, ps_bus s Rd) = Some (res, f, (p, bus), ws)"
    and s1: "ps_polled Rd (res \<noteq> None) f p bus s = Some s1"
    and s': "s' = ps_wake ws (s1\<lparr>ps_got := ps_got s1 @ (case res of Some (Inr xs) \<Rightarrow> xs | _ \<Rightarrow> [])\<rparr>)"
    using r by (auto simp: ps_read_def split: bind_splits)
  note simps = ps_polled_simps [OF s1]
  from ring poll show ?thesis
  proof (cases rule: read_at_poll_cases)
    case (Got b)
    then show ?thesis
      using inv simps (1-3, 5) simps (6) [of Wr] by (cases "n = 0") (auto simp: ps_inv_def s' Let_def opt_list_def)
  qed (use inv simps (1-3, 5) simps (6) [of Wr] in \<open>auto simp: ps_inv_def s' Let_def MAX_PIPE_SIZE_def\<close>)
qed

lemma ps_inv_write:
  assumes ring: "ring_ok R bytes" and inv: "ps_inv R bytes s" and r: "ps_write R xs s = Some s'"
  shows "ps_inv R bytes s'"
proof -
  obtain res f p bus ws s1 where
    poll: "write_at_poll R Wr xs (ps_future Wr s) (ps_pipe s, ps_bus s Wr) = Some (res, f, (p, bus), ws)"
    and s1: "ps_polled Wr (res \<noteq> None) f p bus s = Some s1"
    and s': "s' = ps_wake ws (s1\<lparr>ps_written := ps_written s1 @ (case res of Some (Inr n) \<Rightarrow> take n xs | _ \<Rightarrow> [])\<rparr>)"
    using r by (auto simp: ps_write_def split: bind_splits)
  note simps = ps_polled_simps [OF s1]
  have le: "length (bytes (pbuf (ps_pipe s))) \<le> rb_capacity R (pbuf (ps_pipe s))" using inv by (simp add: ps_inv_def Let_def)
  from ring poll le show ?thesis
  proof (cases rule: write_at_poll_cases)
    case (Put b)
    then show ?thesis
      using inv simps (1-3, 5) simps (6) [of Rd] by (cases "xs = []") (auto simp: ps_inv_def s' Let_def opt_list_def min_def)
  qed (use inv simps (1-3, 5) simps (6) [of Rd] in \<open>auto simp: ps_inv_def s' Let_def MAX_PIPE_SIZE_def\<close>)
qed

lemma ps_inv_step: "pipe_step R s s' \<Longrightarrow> ring_ok R bytes \<Longrightarrow> ps_inv R bytes s \<Longrightarrow> ps_inv R bytes s'"
proof (induction rule: pipe_step.induct)
  case (Step_Drop_Read s p ws)
  then show ?case by (auto simp: ps_inv_def Let_def read_end_drop_def opt_list_def ps_idle)
next
  case (Step_Drop_Write s p ws)
  then show ?case by (auto simp: ps_inv_def Let_def write_end_drop_def opt_list_def ps_idle)
next
  case (Step_Signal s t ws bus)
  then show ?case by (simp add: ps_inv_def Let_def)
qed (auto intro: ps_inv_read ps_inv_write)

lemma ps_inv_reach:
  assumes "ring_ok R bytes" "(pipe_step R)\<^sup>*\<^sup>* (ps_init R) s"
  shows "ps_inv R bytes s"
  using assms (2) by (induction rule: rtranclp_induct) (auto intro: ps_inv_init [OF assms (1)] ps_inv_step [OF _ assms (1)])

section \<open>Claims\<close>

text \<open>A ring buffer as a list with its capacity, which drops the oldest byte when it is full.\<close>

definition list_ring :: "(u8 list \<times> nat) RingBuffer" where
  "list_ring = \<lparr>rb_with_capacity = (\<lambda>n. ([], n)), rb_len = (\<lambda>(q, _). length q), rb_capacity = snd,
     rb_push = (\<lambda>x (q, n). ((if length q < n then q else tl q) @ [x], n)),
     rb_dequeue = (\<lambda>(q, n). case q of [] \<Rightarrow> None | x # q \<Rightarrow> Some (x, q, n))\<rparr>"

lemma list_ring_ok: "ring_ok list_ring fst"
  by (auto simp: ring_ok_def list_ring_def split: list.splits)

text \<open>
  (C19) A pipe is a queue. However reads, writes, signals and the closing of the two ends are interleaved, the bytes that the reader
  has got followed by the bytes in the buffer are the bytes that the writer has written, so that nothing is lost, doubled or
  reordered; and the buffer never holds more than its capacity, so that the ring never overwrites.
\<close>

theorem pipe_fifo:
  assumes "ring_ok R bytes" "(pipe_step R)\<^sup>*\<^sup>* (ps_init R) s"
  shows "ps_got s @ bytes (pbuf (ps_pipe s)) = ps_written s \<and> length (bytes (pbuf (ps_pipe s))) \<le> MAX_PIPE_SIZE"
  using ps_inv_reach [OF assms] by (simp add: ps_inv_def Let_def)

text \<open>
  (C20) No wake-up is lost with one reader and one writer: a reader sleeps only on an empty pipe with both ends open, a writer
  only on a full one, so that each write, read or close that makes the pipe ready wakes the other side.
\<close>

theorem pipe_no_lost_wakeup:
  assumes "ring_ok R bytes" "(pipe_step R)\<^sup>*\<^sup>* (ps_init R) s" "ps_call s t \<noteq> None" "\<not> ps_woken s t"
  shows "\<not> is_closed (ps_pipe s) \<and> length (bytes (pbuf (ps_pipe s))) = (case t of Rd \<Rightarrow> 0 | Wr \<Rightarrow> MAX_PIPE_SIZE)"
  using ps_inv_reach [OF assms (1, 2)] assms (3, 4) by (cases t) (auto simp: ps_inv_def Let_def ps_asleep_def)

text \<open>A reader that waits, then a writer that writes three bytes, then the reader again.\<close>

definition demo_waiting :: "(u8 list \<times> nat) pipe_sys" where
  "demo_waiting = the (ps_read list_ring 2 (ps_init list_ring))"

definition demo_written :: "(u8 list \<times> nat) pipe_sys" where
  "demo_written = the (ps_write list_ring [1, 2, 3] demo_waiting)"

definition demo_read :: "(u8 list \<times> nat) pipe_sys" where
  "demo_read = the (ps_read list_ring 2 demo_written)"

lemmas pipe_demo_simps = ps_read_def ps_write_def read_at_poll_def write_at_poll_def await_or_signal_poll_def read_future_poll_def
  write_future_poll_def poll_read_def poll_write_def ps_init_def pipe_new_def list_ring_def wait_poll_def wait_drop_def
  bus_remove_def bus_drop_def bus_register_def bus_new_def pool_get_def pool_new_def pool_release_def uadd_def rassert_def ps_polled_def
  ps_wake_def ps_future_def wait_for_event_def MAX_PIPE_SIZE_def opt_list_def ps_runs_def

lemma dequeue_2: "dequeue_n list_ring 2 (x # y # q, n) = Some ([x, y], q, n)"
  by (simp add: numeral_2_eq_2 list_ring_def)

lemma demo_waiting_step:
  "ps_read list_ring 2 (ps_init list_ring) = Some demo_waiting" "ps_runs Rd (ps_init list_ring)"
  "ps_call demo_waiting Rd \<noteq> None" "\<not> ps_woken demo_waiting Rd"
  by (simp_all add: demo_waiting_def pipe_demo_simps last_of_def)

lemma demo_written_step:
  "ps_write list_ring [1, 2, 3] demo_waiting = Some demo_written" "ps_runs Wr demo_waiting" "ps_runs Rd demo_written"
  by (simp_all add: demo_written_def demo_waiting_def pipe_demo_simps last_of_def)

lemma demo_read_step:
  "ps_read list_ring 2 demo_written = Some demo_read" "ps_got demo_read = [1, 2]" "ps_written demo_read = [1, 2, 3]"
  using dequeue_2 [of 1 2 "[3]" 4096]
  by (simp_all add: demo_read_def demo_written_def demo_waiting_def pipe_demo_simps last_of_def)

lemma demo_reach: "(pipe_step list_ring)\<^sup>*\<^sup>* (ps_init list_ring) demo_waiting" "(pipe_step list_ring)\<^sup>*\<^sup>* (ps_init list_ring) demo_read"
proof -
  have 1: "pipe_step list_ring (ps_init list_ring) demo_waiting" using demo_waiting_step (2, 1) by (rule Step_Read)
  have 2: "pipe_step list_ring demo_waiting demo_written" using demo_written_step (2, 1) by (rule Step_Write)
  have 3: "pipe_step list_ring demo_written demo_read" using demo_written_step (3) demo_read_step (1) by (rule Step_Read)
  show "(pipe_step list_ring)\<^sup>*\<^sup>* (ps_init list_ring) demo_waiting" using 1 by (rule r_into_rtranclp)
  show "(pipe_step list_ring)\<^sup>*\<^sup>* (ps_init list_ring) demo_read"
    using 1 2 3 by (blast intro: rtranclp.rtrancl_into_rtrancl rtranclp.rtrancl_refl)
qed

lemma pipe_fifo_witness: "[1, 2] @ fst (pbuf (ps_pipe demo_read)) = [1, 2, 3]"
  using pipe_fifo [OF list_ring_ok demo_reach (2)] demo_read_step (2, 3) by simp

lemma pipe_no_lost_wakeup_witness: "\<not> is_closed (ps_pipe demo_waiting) \<and> fst (pbuf (ps_pipe demo_waiting)) = []"
  using pipe_no_lost_wakeup [OF list_ring_ok demo_reach (1) demo_waiting_step (3, 4)] by simp

end
