(* ===== verification/Syscall_Io.thy ===== *)
theory Syscall_Io
  imports Syscall_Misc Vfs_Types
begin

text \<open>
  The system calls that read and write files, \<^verbatim>\<open>syscall/io.rs\<close>, with the two helpers of \<^verbatim>\<open>syscall/fs.rs\<close> that find a file. The
  state is the kernel state with the state \<open>'v\<close> of the file systems; \<open>V\<close> has the methods of the files. \<open>Y\<close> is what the other
  tasks do while a call is suspended in a future of its own. The bytes of a slice of user memory are read when the slice is made.
\<close>

type_synonym ('f, 'fa, 'w, 'v) sst = "('f, 'fa, 'w) kstate \<times> 'v"
type_synonym ('f, 'fa, 'w, 'v, 'a) iom = "('a SysResult \<times> ('f, 'fa, 'w, 'v) sst) option"
type_synonym ('f, 'q, 'fa, 'w, 'v) vfs = "('f, 'q, ('f, 'fa, 'w, 'v) sst) vfs_ops"

section \<open>Descriptors\<close>

definition get_fd :: "usize \<Rightarrow> nat \<Rightarrow> ('f, 'fa, 'w, 'v) sst \<Rightarrow> ('f, 'fa, 'w, 'v, nat) iom" where
  "get_fd fd r s = do {
     p \<leftarrow> k_procs (fst s) r;
     Some (case fdt_get fd (k_fdtables (fst s) (lp_fdtable p)) of None \<Rightarrow> Inl EBADF | Some a \<Rightarrow> Inr a, s) }"

definition file_of :: "nat \<Rightarrow> ('f, 'fa, 'w, 'v) sst \<Rightarrow> 'f" where
  "file_of a s = fd_file (fds (k_fds (fst s)) a)"

definition curr_of :: "nat \<Rightarrow> ('f, 'fa, 'w, 'v) sst \<Rightarrow> usize" where
  "curr_of a s = get_curr a (k_fds (fst s))"

definition upd_fds :: "('f fd_store \<Rightarrow> 'f fd_store) \<Rightarrow> ('f, 'fa, 'w, 'v) sst \<Rightarrow> ('f, 'fa, 'w, 'v) sst" where
  "upd_fds g s = ((fst s)\<lparr>k_fds := g (k_fds (fst s))\<rparr>, snd s)"

text \<open>An operation on the descriptor table of a process.\<close>

definition with_fdtable ::
  "nat \<Rightarrow> (FdTable \<times> 'f fd_store \<Rightarrow> 'f fd_result) \<Rightarrow> ('f, 'fa, 'w, 'v) sst \<Rightarrow> ('f, 'fa, 'w, 'v, usize) iom" where
  "with_fdtable r f s = do {
     p \<leftarrow> k_procs (fst s) r;
     (res, t, st) \<leftarrow> f (k_fdtables (fst s) (lp_fdtable p), k_fds (fst s));
     Some (res, (fst s)\<lparr>k_fdtables := (k_fdtables (fst s))(lp_fdtable p := t), k_fds := st\<rparr>, snd s) }"

section \<open>Finding files\<close>

definition AT_FDCWD :: usize where "AT_FDCWD = - 100"

definition lookup_helper :: "('f, 'q, 'fa, 'w, 'v) vfs \<Rightarrow> 'f \<Rightarrow> string \<Rightarrow> ('f, 'fa, 'w, 'v) sst \<Rightarrow> ('f, 'fa, 'w, 'v, 'f) iom" where
  "lookup_helper V dir file_name s = (if file_name = [] then Some (Inr dir, s) else vf_lookup V dir file_name s)"

definition dir_and_last ::
  "('f, 'q, 'fa, 'w, 'v) vfs \<Rightarrow> 'f \<Rightarrow> Path \<Rightarrow> ('f, 'fa, 'w, 'v) sst \<Rightarrow> ('f, 'fa, 'w, 'v, 'f \<times> string) iom" where
  "dir_and_last V f path s = do {
     dir_path \<leftarrow> remove_tail path;
     sys_bind (vf_resolve V f dir_path s) (\<lambda>dir s. do {
       n \<leftarrow> path_last path;
       Some (Inr (dir, n), s) }) }"

definition at_helper ::
  "('f, 'q, 'fa, 'w, 'v) vfs \<Rightarrow> usize \<Rightarrow> string \<Rightarrow> nat \<Rightarrow> ('f, 'fa, 'w, 'v) sst \<Rightarrow> ('f, 'fa, 'w, 'v, 'f \<times> string) iom" where
  "at_helper V dir_fd path_name r s = (
     let path = from_string path_name in
     if is_absolute path then
       if is_root path then Some (Inr (vf_root_dir V, []), s) else dir_and_last V (vf_root_dir V) path s
     else sys_bind
       (if dir_fd = AT_FDCWD then do {
          p \<leftarrow> k_procs (fst s) r;
          let cwd = k_fsinfos (fst s) (lp_fsinfo p);
          if is_root cwd then Some (Inr (vf_root_dir V), s) else vf_resolve V (vf_root_dir V) cwd s }
        else sys_bind (get_fd dir_fd r s) (\<lambda>a s. Some (Inr (file_of a s), s)))
       (\<lambda>fd_dir s. if is_current path then Some (Inr (fd_dir, []), s) else dir_and_last V fd_dir path s))"

section \<open>Reading and writing\<close>

text \<open>\<open>read_at\<close> into a slice of user memory.\<close>

definition read_into ::
  "('f, 'q, 'fa, 'w, 'v) vfs \<Rightarrow> 'f \<Rightarrow> usize \<Rightarrow> usize \<Rightarrow> usize \<Rightarrow> nat \<Rightarrow> ('f, 'fa, 'w, 'v) sst \<Rightarrow> ('f, 'fa, 'w, 'v, usize) iom" where
  "read_into V f off buf len r s = do {
     (bs, res, s) \<leftarrow> vf_read_at V f off len s;
     k \<leftarrow> user_store buf (take (unat len) bs) r (fst s);
     Some (res, k, snd s) }"

definition sys_write ::
  "('f, 'fa) senv \<Rightarrow> ('f, 'q, 'fa, 'w, 'v) vfs \<Rightarrow> nat \<Rightarrow> ('f, 'fa, 'w, 'v) sst \<Rightarrow> ('f, 'fa, 'w, 'v, usize) iom" where
  "sys_write E V r s = do {
     args \<leftarrow> sys_args r (fst s);
     sys_bind (get_fd (args ! 0) r s) (\<lambda>a s.
       sys_bind (lift_sys (up_as_slice E 1 (args ! 1) (args ! 2) r) s) (\<lambda>buf s.
         sys_bind (vf_write_at V (file_of a s) (curr_of a s) buf s) (\<lambda>write_len s.
           Some (Inr write_len, upd_fds (add_curr a write_len) s)))) }"

definition replace_cr :: "usize \<Rightarrow> nat \<Rightarrow> ('f, 'fa, 'w, 'v) sst \<Rightarrow> ('f, 'fa, 'w, 'v) sst option" where
  "replace_cr buf r s = do {
     bs \<leftarrow> user_load buf 1 r (fst s);
     if bs = [0xd] then do { k \<leftarrow> user_store buf [0xa] r (fst s); Some (k, snd s) } else Some s }"

definition sys_read ::
  "('f, 'fa) senv \<Rightarrow> ('f, 'q, 'fa, 'w, 'v) vfs \<Rightarrow> nat \<Rightarrow> ('f, 'fa, 'w, 'v) sst \<Rightarrow> ('f, 'fa, 'w, 'v, usize) iom" where
  "sys_read E V r s = do {
     args \<leftarrow> sys_args r (fst s);
     let buf = args ! 1;
     sys_bind (get_fd (args ! 0) r s) (\<lambda>a s.
       sys_bind (lift_sys (up_as_mut_slice E 1 buf (args ! 2) r) s) (\<lambda>_ s.
         sys_bind (read_into V (file_of a s) (curr_of a s) buf (args ! 2) r s) (\<lambda>read_len s. do {
           s \<leftarrow> (if args ! 0 = 0 \<and> read_len = 1 then replace_cr buf r s else Some s);
           Some (Inr read_len, upd_fds (add_curr a read_len) s) }))) }"

definition sys_pread ::
  "('f, 'fa) senv \<Rightarrow> ('f, 'q, 'fa, 'w, 'v) vfs \<Rightarrow> nat \<Rightarrow> ('f, 'fa, 'w, 'v) sst \<Rightarrow> ('f, 'fa, 'w, 'v, usize) iom" where
  "sys_pread E V r s = do {
     args \<leftarrow> sys_args r (fst s);
     sys_bind (lift_sys (up_as_mut_slice E 1 (args ! 1) (args ! 2) r) s) (\<lambda>_ s.
       sys_bind (get_fd (args ! 0) r s) (\<lambda>a s. read_into V (file_of a s) (args ! 3) (args ! 1) (args ! 2) r s)) }"

definition sys_pwrite ::
  "('f, 'fa) senv \<Rightarrow> ('f, 'q, 'fa, 'w, 'v) vfs \<Rightarrow> nat \<Rightarrow> ('f, 'fa, 'w, 'v) sst \<Rightarrow> ('f, 'fa, 'w, 'v, usize) iom" where
  "sys_pwrite E V r s = do {
     args \<leftarrow> sys_args r (fst s);
     sys_bind (lift_sys (up_as_slice E 1 (args ! 1) (args ! 2) r) s) (\<lambda>buf s.
       sys_bind (get_fd (args ! 0) r s) (\<lambda>a s. vf_write_at V (file_of a s) (args ! 3) buf s)) }"

subsection \<open>Vectors\<close>

text \<open>The loops of \<open>writev\<close> and \<open>pwritev\<close>, and of \<open>readv\<close> and \<open>preadv\<close>, over the pairs of base and length; \<open>skip\<close> says
  that empty pieces are left out.\<close>

definition iovec_of :: "u8 list \<Rightarrow> usize \<times> usize" where
  "iovec_of bs = (from_le (take 8 bs), from_le (drop 8 bs))"

fun writev_loop ::
  "('f, 'fa) senv \<Rightarrow> ('f, 'q, 'fa, 'w, 'v) vfs \<Rightarrow> bool \<Rightarrow> 'f \<Rightarrow> nat \<Rightarrow> usize \<Rightarrow> usize \<Rightarrow> (usize \<times> usize) list \<Rightarrow>
   ('f, 'fa, 'w, 'v) sst \<Rightarrow> ('f, 'fa, 'w, 'v, usize) iom" where
  "writev_loop E V skip f r offset total_len [] s = Some (Inr total_len, s)"
| "writev_loop E V skip f r offset total_len ((base, len) # iovs) s =
     (if skip \<and> len = 0 then writev_loop E V skip f r offset total_len iovs s
      else sys_bind (lift_sys (up_as_slice E 1 base len r) s) (\<lambda>buf s.
        sys_bind (vf_write_at V f offset buf s) (\<lambda>write_len s. do {
          total_len \<leftarrow> uadd total_len write_len;
          offset \<leftarrow> uadd offset write_len;
          writev_loop E V skip f r offset total_len iovs s })))"

fun readv_loop ::
  "('f, 'fa) senv \<Rightarrow> ('f, 'q, 'fa, 'w, 'v) vfs \<Rightarrow> bool \<Rightarrow> 'f \<Rightarrow> nat \<Rightarrow> usize \<Rightarrow> usize \<Rightarrow> (usize \<times> usize) list \<Rightarrow>
   ('f, 'fa, 'w, 'v) sst \<Rightarrow> ('f, 'fa, 'w, 'v, usize) iom" where
  "readv_loop E V skip f r offset total_len [] s = Some (Inr total_len, s)"
| "readv_loop E V skip f r offset total_len ((base, len) # iovs) s =
     (if skip \<and> len = 0 then readv_loop E V skip f r offset total_len iovs s
      else sys_bind (lift_sys (up_as_mut_slice E 1 base len r) s) (\<lambda>_ s.
        sys_bind (read_into V f offset base len r s) (\<lambda>read_len s. do {
          total_len \<leftarrow> uadd total_len read_len;
          offset \<leftarrow> uadd offset read_len;
          readv_loop E V skip f r offset total_len iovs s })))"

definition sys_writev ::
  "('f, 'fa) senv \<Rightarrow> ('f, 'q, 'fa, 'w, 'v) vfs \<Rightarrow> nat \<Rightarrow> ('f, 'fa, 'w, 'v) sst \<Rightarrow> ('f, 'fa, 'w, 'v, usize) iom" where
  "sys_writev E V r s = do {
     args \<leftarrow> sys_args r (fst s);
     sys_bind (get_fd (args ! 0) r s) (\<lambda>a s. do {
       let f = file_of a s;
       let offset = curr_of a s;
       sys_bind (lift_sys (up_read_array E 16 (args ! 1) (args ! 2) r) s) (\<lambda>iovs s.
         sys_bind (writev_loop E V True f r offset 0 (map iovec_of iovs) s) (\<lambda>total_len s.
           Some (Inr total_len, upd_fds (add_curr a total_len) s))) }) }"

definition sys_readv ::
  "('f, 'fa) senv \<Rightarrow> ('f, 'q, 'fa, 'w, 'v) vfs \<Rightarrow> nat \<Rightarrow> ('f, 'fa, 'w, 'v) sst \<Rightarrow> ('f, 'fa, 'w, 'v, usize) iom" where
  "sys_readv E V r s = do {
     args \<leftarrow> sys_args r (fst s);
     sys_bind (get_fd (args ! 0) r s) (\<lambda>a s. do {
       let f = file_of a s;
       let offset = curr_of a s;
       sys_bind (lift_sys (up_read_array E 16 (args ! 1) (args ! 2) r) s) (\<lambda>iovs s.
         sys_bind (readv_loop E V True f r offset 0 (map iovec_of iovs) s) (\<lambda>total_len s.
           Some (Inr total_len, upd_fds (add_curr a total_len) s))) }) }"

definition sys_preadv ::
  "('f, 'fa) senv \<Rightarrow> ('f, 'q, 'fa, 'w, 'v) vfs \<Rightarrow> nat \<Rightarrow> ('f, 'fa, 'w, 'v) sst \<Rightarrow> ('f, 'fa, 'w, 'v, usize) iom" where
  "sys_preadv E V r s = do {
     args \<leftarrow> sys_args r (fst s);
     sys_bind (get_fd (args ! 0) r s) (\<lambda>a s. do {
       let f = file_of a s;
       sys_bind (lift_sys (up_read_array E 16 (args ! 1) (args ! 2) r) s) (\<lambda>iovs s.
         readv_loop E V False f r (args ! 3) 0 (map iovec_of iovs) s) }) }"

definition sys_pwritev ::
  "('f, 'fa) senv \<Rightarrow> ('f, 'q, 'fa, 'w, 'v) vfs \<Rightarrow> nat \<Rightarrow> ('f, 'fa, 'w, 'v) sst \<Rightarrow> ('f, 'fa, 'w, 'v, usize) iom" where
  "sys_pwritev E V r s = do {
     args \<leftarrow> sys_args r (fst s);
     sys_bind (get_fd (args ! 0) r s) (\<lambda>a s. do {
       let f = file_of a s;
       sys_bind (lift_sys (up_read_array E 16 (args ! 1) (args ! 2) r) s) (\<lambda>iovs s.
         writev_loop E V False f r (args ! 3) 0 (map iovec_of iovs) s) }) }"

subsection \<open>Control and copying\<close>

definition sys_ioctl :: "('f, 'q, 'fa, 'w, 'v) vfs \<Rightarrow> nat \<Rightarrow> ('f, 'fa, 'w, 'v) sst \<Rightarrow> ('f, 'fa, 'w, 'v, usize) iom" where
  "sys_ioctl V r s = do {
     args \<leftarrow> sys_args r (fst s);
     sys_bind (get_fd (args ! 0) r s) (\<lambda>a s. vf_ioctl V (file_of a s) (args ! 1) (args ! 2) s) }"

text \<open>The offset of a side of \<open>copy_file_range\<close>: the user's, or the one of the descriptor.\<close>

definition off_get :: "('f, 'fa) senv \<Rightarrow> usize \<Rightarrow> nat \<Rightarrow> nat \<Rightarrow> ('f, 'fa, 'w, 'v) sst \<Rightarrow> ('f, 'fa, 'w, 'v, usize) iom" where
  "off_get E ptr a r s = (
     if ptr = 0 then Some (Inr (curr_of a s), s)
     else sys_bind (lift_sys (up_read E 8 ptr r) s) (\<lambda>bs s. Some (Inr (from_le bs), s)))"

definition off_put :: "('f, 'fa) senv \<Rightarrow> usize \<Rightarrow> nat \<Rightarrow> usize \<Rightarrow> nat \<Rightarrow> ('f, 'fa, 'w, 'v) sst \<Rightarrow> ('f, 'fa, 'w, 'v, unit) iom" where
  "off_put E ptr a off r s = (
     if ptr = 0 then Some (Inr (), upd_fds (set_curr a off) s) else lift_sys (up_write E ptr (to_le 8 off) r) s)"

definition sys_copy_file_range ::
  "('f, 'fa) senv \<Rightarrow> ('f, 'q, 'fa, 'w, 'v) vfs \<Rightarrow> nat \<Rightarrow> ('f, 'fa, 'w, 'v) sst \<Rightarrow> ('f, 'fa, 'w, 'v, usize) iom" where
  "sys_copy_file_range E V r s = do {
     args \<leftarrow> sys_args r (fst s);
     let off_in_ptr = args ! 1;
     let off_out_ptr = args ! 3;
     let len = args ! 4;
     rassert (args ! 5 = 0);
     rassert (args ! 0 \<noteq> args ! 2);
     sys_bind (get_fd (args ! 0) r s) (\<lambda>fd_in s. sys_bind (get_fd (args ! 2) r s) (\<lambda>fd_out s.
     sys_bind (off_get E off_in_ptr fd_in r s) (\<lambda>off_in s. sys_bind (off_get E off_out_ptr fd_out r s) (\<lambda>off_out s. do {
       rassert (unat len < 2 ^ 63);
       (bs, res, s) \<leftarrow> vf_read_at V (file_of fd_in s) off_in len s;
       sys_bind (Some (res, s)) (\<lambda>read_len s. do {
         rassert (read_len \<le> len);
         let buf = take (unat read_len) (take (unat len) bs @ replicate (unat len - length bs) 0);
         sys_bind (vf_write_at V (file_of fd_out s) off_out buf s) (\<lambda>write_len s. do {
           new_in \<leftarrow> uadd off_in read_len;
           sys_bind (off_put E off_in_ptr fd_in new_in r s) (\<lambda>_ s. do {
             new_out \<leftarrow> uadd off_out write_len;
             sys_bind (off_put E off_out_ptr fd_out new_out r s) (\<lambda>_ s. Some (Inr write_len, s)) }) }) }) })))) }"

section \<open>Opening and closing\<close>

type_synonym OpenFlags = u32

definition O_CREATE :: OpenFlags where "O_CREATE = push_bit 6 1"
definition O_NOFOLLOW :: OpenFlags where "O_NOFOLLOW = push_bit 17 1"

definition open_from_bits_truncate :: "u32 \<Rightarrow> OpenFlags" where
  "open_from_bits_truncate b = b AND 0x2BCBC3"

definition MAX_OPEN_FILES :: nat where "MAX_OPEN_FILES = 512"

text \<open>\<open>core::str::from_utf8\<close> for the characters that a \<open>string\<close> of the model holds, those below 256.\<close>

fun utf8_text :: "u8 list \<Rightarrow> string option" where
  "utf8_text [] = Some []"
| "utf8_text (b # bs) =
     (if b < 0x80 then map_option ((#) (char_of (unat b))) (utf8_text bs)
      else if b = 0xC2 \<or> b = 0xC3 then
        (case bs of
           c # cs \<Rightarrow> if c AND 0xC0 = 0x80 then map_option ((#) (char_of (unat (b AND 3) * 64 + unat (c AND 0x3F)))) (utf8_text cs) else None
         | [] \<Rightarrow> None)
      else None)"

text \<open>The loop that follows symbolic links.\<close>

partial_function (option) follow_links ::
  "('f, 'q, 'fa, 'w, 'v) vfs \<Rightarrow> Path \<Rightarrow> 'f \<Rightarrow> ('f, 'fa, 'w, 'v) sst \<Rightarrow> ('f, 'fa, 'w, 'v, 'f) iom" where
  "follow_links V curr_path f s = (
     if vf_kind V f s = SymbolLink then
       (case vf_read_at V f 0 512 s of
          None \<Rightarrow> None
        | Some (bs, Inl e, s) \<Rightarrow> Some (Inl e, s)
        | Some (bs, Inr read_len, s) \<Rightarrow>
            if read_len \<ge> 512 then None
            else (case utf8_text (take (unat read_len) (bs @ replicate 512 0)) of
              None \<Rightarrow> None
            | Some txt \<Rightarrow>
                (case (if is_absolute (from_string txt) then Some (from_string txt) else path_append curr_path (from_string txt)) of
                   None \<Rightarrow> None
                 | Some next_path \<Rightarrow>
                     (case vf_resolve V (vf_root_dir V) next_path s of
                        None \<Rightarrow> None
                      | Some (Inl e, s) \<Rightarrow> Some (Inl e, s)
                      | Some (Inr f, s) \<Rightarrow> follow_links V next_path f s))))
     else Some (Inr f, s))"

definition open_lookup ::
  "('f, 'q, 'fa, 'w, 'v) vfs \<Rightarrow> OpenFlags \<Rightarrow> 'f \<Rightarrow> string \<Rightarrow> ('f, 'fa, 'w, 'v) sst \<Rightarrow> ('f, 'fa, 'w, 'v, 'f) iom" where
  "open_lookup V flags dir file_name s = do {
     (res, s) \<leftarrow> lookup_helper V dir file_name s;
     (case res of
        Inr f \<Rightarrow> Some (Inr f, s)
      | Inl e \<Rightarrow>
          if e = ENOENT then
            if \<not> prot_contains flags O_CREATE then Some (Inl ENOENT, s) else vf_create V dir file_name RegularFile s
          else Some (Inl e, s)) }"

definition sys_openat ::
  "('f, 'fa) senv \<Rightarrow> ('f, 'q, 'fa, 'w, 'v) vfs \<Rightarrow> nat \<Rightarrow> ('f, 'fa, 'w, 'v) sst \<Rightarrow> ('f, 'fa, 'w, 'v, usize) iom" where
  "sys_openat E V r s = do {
     args \<leftarrow> sys_args r (fst s);
     let flags = open_from_bits_truncate (ucast (args ! 2));
     sys_bind (lift_sys (up_read_cstr E (args ! 1) r) s) (\<lambda>path s. do {
       p \<leftarrow> k_procs (fst s) r;
       if length (fd_table (k_fdtables (fst s) (lp_fdtable p))) \<ge> MAX_OPEN_FILES then Some (Inl EMFILE, s)
       else sys_bind (at_helper V (args ! 0) path r s) (\<lambda>(dir, file_name) s.
         sys_bind (open_lookup V flags dir file_name s) (\<lambda>f s.
           sys_bind (if \<not> prot_contains flags O_NOFOLLOW then follow_links V (from_string path) f s else Some (Inr f, s)) (\<lambda>f s.
             with_fdtable r (fdt_alloc f) s))) }) }"

definition sys_readlinkat ::
  "('f, 'fa) senv \<Rightarrow> ('f, 'q, 'fa, 'w, 'v) vfs \<Rightarrow> nat \<Rightarrow> ('f, 'fa, 'w, 'v) sst \<Rightarrow> ('f, 'fa, 'w, 'v, usize) iom" where
  "sys_readlinkat E V r s = do {
     args \<leftarrow> sys_args r (fst s);
     let buf = args ! 2;
     let buf_len = args ! 3;
     sys_bind (lift_sys (up_read_cstr E (args ! 1) r) s) (\<lambda>path s.
       sys_bind (at_helper V (args ! 0) path r s) (\<lambda>(dir, file_name) s.
         sys_bind (vf_lookup V dir file_name s) (\<lambda>f s.
           if vf_kind V f s \<noteq> SymbolLink then Some (Inl EINVAL, s)
           else do {
             p \<leftarrow> k_procs (fst s) r;
             let k = fst s;
             (us, m) \<leftarrow> force_map_buf (e_platform (s_kenv E)) (e_alloc (s_kenv E)) (e_get_page (s_kenv E)) (k_satp k) (buf, buf_len)
               P_WRITE (k_mems k (lp_memory p), k_mem k);
             read_into V f 0 buf buf_len r (k\<lparr>k_mems := (k_mems k)(lp_memory p := us), k_mem := m\<rparr>, snd s) }))) }"

definition sys_pipe ::
  "('f, 'fa) senv \<Rightarrow> ('f, 'q, 'fa, 'w, 'v) vfs \<Rightarrow> nat \<Rightarrow> ('f, 'fa, 'w, 'v) sst \<Rightarrow> ('f, 'fa, 'w, 'v, usize) iom" where
  "sys_pipe E V r s = do {
     args \<leftarrow> sys_args r (fst s);
     let (pipe_read, pipe_write, s) = vf_new_pipe V s;
     sys_bind (with_fdtable r (fdt_alloc pipe_read) s) (\<lambda>read_fd s.
       sys_bind (with_fdtable r (fdt_alloc pipe_write) s) (\<lambda>write_fd s.
         sys_bind (lift_sys (up_write E (args ! 0) (to_le 4 (ucast read_fd :: u32) @ to_le 4 (ucast write_fd :: u32)) r) s) (\<lambda>_ s.
           Some (Inr 0, s)))) }"

definition sys_close :: "nat \<Rightarrow> ('f, 'fa, 'w) kstate \<Rightarrow> ('f, 'fa, 'w, usize) sysm" where
  "sys_close r k = do {
     args \<leftarrow> sys_args r k;
     p \<leftarrow> k_procs k r;
     (fd_opt, t) \<leftarrow> fdt_remove (args ! 0) (k_fdtables k (lp_fdtable p));
     Some (case fd_opt of Some _ \<Rightarrow> Inr 0 | None \<Rightarrow> Inl EBADF, k\<lparr>k_fdtables := (k_fdtables k)(lp_fdtable p := t)\<rparr>) }"

definition isize_add :: "usize \<Rightarrow> usize \<Rightarrow> usize option" where
  "isize_add a b = do { rassert (- (2 ^ 63) \<le> sint a + sint b \<and> sint a + sint b < 2 ^ 63); Some (a + b) }"

definition sys_lseek :: "('f, 'q, 'fa, 'w, 'v) vfs \<Rightarrow> nat \<Rightarrow> ('f, 'fa, 'w, 'v) sst \<Rightarrow> ('f, 'fa, 'w, 'v, usize) iom" where
  "sys_lseek V r s = do {
     args \<leftarrow> sys_args r (fst s);
     let offset = args ! 1;
     let whence = args ! 2;
     sys_bind (get_fd (args ! 0) r s) (\<lambda>a s.
       sys_bind
         (if whence = 0 then Some (Inr (), upd_fds (set_curr a offset) s)
          else if whence = 1 then do {
            result \<leftarrow> isize_add (curr_of a s) offset;
            Some (Inr (), upd_fds (set_curr a result) s) }
          else if whence = 2 then sys_bind (vf_size V (file_of a s) s) (\<lambda>si s. do {
            result \<leftarrow> isize_add (si_bytes si) offset;
            Some (Inr (), upd_fds (set_curr a result) s) })
          else Some (Inl EINVAL, s))
         (\<lambda>_ s. Some (Inr (curr_of a s), s))) }"

section \<open>Waiting for several files\<close>

text \<open>The futures in the vector: the one that is ready at once, one that has not been polled yet, and one that has.\<close>

datatype 'q poll_future = Pf_Zero | Pf_New nat PollKind | Pf_Polled 'q

definition poll_future_poll ::
  "('f, 'q, 'fa, 'w, 'v) vfs \<Rightarrow> 'q poll_future \<Rightarrow> ('f, 'fa, 'w, 'v) sst \<Rightarrow>
   (usize SysResult option \<times> 'q poll_future \<times> ('f, 'fa, 'w, 'v) sst) option" where
  "poll_future_poll V f s = (case f of
     Pf_Zero \<Rightarrow> Some (Some (Inr 0), f, s)
   | Pf_New a pk \<Rightarrow> do {
       (res, q, s) \<leftarrow> vf_poll V (vf_poll_ready V (file_of a s) (curr_of a s) 1 pk) s;
       Some (res, Pf_Polled q, s) }
   | Pf_Polled q \<Rightarrow> do { (res, q, s) \<leftarrow> vf_poll V q s; Some (res, Pf_Polled q, s) })"

text \<open>Waiting for the first future that is ready, with a time limit when there is one. The result is its number.\<close>

partial_function (option) any_wait ::
  "('f, 'q, 'fa, 'w, 'v) vfs \<Rightarrow> (('f, 'fa, 'w, 'v) sst \<Rightarrow> ('f, 'fa, 'w, 'v) sst) \<Rightarrow> usize option \<Rightarrow> 'q poll_future list \<times> bool \<Rightarrow>
   ('f, 'fa, 'w, 'v) sst \<Rightarrow> (nat option \<times> ('f, 'fa, 'w, 'v) sst) option" where
  "any_wait V Y limit this s = (case any_poll (poll_future_poll V) this s of
     None \<Rightarrow> None
   | Some (Some (i, _), _, s) \<Rightarrow> Some (Some i, s)
   | Some (None, this, s) \<Rightarrow>
       if (case limit of Some t \<Rightarrow> t \<le> k_now_ms (fst s) | None \<Rightarrow> False) then Some (None, s)
       else any_wait V Y limit this (Y s))"

definition POLLIN :: u16 where "POLLIN = 1"
definition POLLOUT :: u16 where "POLLOUT = 4"

text \<open>The futures of one entry of \<open>ppoll\<close>, each with the number of the entry and the event.\<close>

definition ppoll_entry ::
  "nat \<Rightarrow> nat \<times> u8 list \<Rightarrow> ('f, 'fa, 'w, 'v) sst \<Rightarrow> ('f, 'fa, 'w, 'v, ('q poll_future \<times> nat \<times> u16) list) iom" where
  "ppoll_entry r e s = (case e of (i, bs) \<Rightarrow>
     let fd = (scast (from_le (take 4 bs) :: u32) :: usize); events = (from_le (take 2 (drop 4 bs)) :: u16)
     in sys_bind (get_fd fd r s) (\<lambda>a s. Some (Inr (
          (if events = 0 then [(Pf_Zero, i, 0)] else []) @
          (if events AND POLLIN \<noteq> 0 then [(Pf_New a Poll_Read, i, POLLIN)] else []) @
          (if events AND POLLOUT \<noteq> 0 then [(Pf_New a Poll_Write, i, POLLOUT)] else [])), s)))"

fun ppoll_entries ::
  "nat \<Rightarrow> (nat \<times> u8 list) list \<Rightarrow> ('f, 'fa, 'w, 'v) sst \<Rightarrow> ('f, 'fa, 'w, 'v, ('q poll_future \<times> nat \<times> u16) list) iom" where
  "ppoll_entries r [] s = Some (Inr [], s)"
| "ppoll_entries r (e # es) s = sys_bind (ppoll_entry r e s) (\<lambda>fs s.
     sys_bind (ppoll_entries r es s) (\<lambda>gs s. Some (Inr (fs @ gs), s)))"

definition sys_ppoll ::
  "('f, 'fa) senv \<Rightarrow> ('f, 'q, 'fa, 'w, 'v) vfs \<Rightarrow> (('f, 'fa, 'w, 'v) sst \<Rightarrow> ('f, 'fa, 'w, 'v) sst) \<Rightarrow> nat \<Rightarrow>
   ('f, 'fa, 'w, 'v) sst \<Rightarrow> ('f, 'fa, 'w, 'v, usize) iom" where
  "sys_ppoll E V Y r s = do {
     args \<leftarrow> sys_args r (fst s);
     sys_bind (lift_sys (up_read_array E 8 (args ! 0) (args ! 1) r) s) (\<lambda>poll_fds s.
       sys_bind (ppoll_entries r (enumerate 0 poll_fds) s) (\<lambda>fs s. do {
         this \<leftarrow> any_new_with (map fst fs);
         (ready, s) \<leftarrow> any_wait V Y None this s;
         future_id \<leftarrow> ready;
         let (fd_idx, event) = snd (fs ! future_id);
         let ptr = up_add 8 (args ! 0) (word_of_nat fd_idx);
         sys_bind (lift_sys (up_read E 8 ptr r) s) (\<lambda>bs s.
           sys_bind (lift_sys (up_write E ptr (take 6 bs @ to_le 2 event) r) s) (\<lambda>_ s. Some (Inr 1, s))) })) }"

subsection \<open>Select\<close>

type_synonym FdSet = "u64 list"

definition fdset_zero :: FdSet where "fdset_zero = replicate 16 0"

definition fdset_set :: "nat \<Rightarrow> FdSet \<Rightarrow> FdSet option" where
  "fdset_set fd b = do { rassert (fd div 64 < 16); Some (b[fd div 64 := b ! (fd div 64) OR push_bit (fd mod 64) 1]) }"

definition fdset_is_set :: "nat \<Rightarrow> FdSet \<Rightarrow> bool option" where
  "fdset_is_set fd b = do { rassert (fd div 64 < 16); Some (b ! (fd div 64) AND push_bit (fd mod 64) 1 \<noteq> 0) }"

definition fdset_bytes :: "FdSet \<Rightarrow> u8 list" where
  "fdset_bytes b = concat (map (to_le 8) b)"

definition fdset_of_bytes :: "u8 list \<Rightarrow> FdSet" where
  "fdset_of_bytes bs = map (\<lambda>i. from_le (take 8 (drop (i * 8) bs))) [0..<16]"

definition fdset_read :: "('f, 'fa) senv \<Rightarrow> usize \<Rightarrow> nat \<Rightarrow> ('f, 'fa, 'w, 'v) sst \<Rightarrow> ('f, 'fa, 'w, 'v, FdSet) iom" where
  "fdset_read E ptr r s = (if ptr = 0 then Some (Inr fdset_zero, s)
     else sys_bind (lift_sys (up_read E 128 ptr r) s) (\<lambda>bs s. Some (Inr (fdset_of_bytes bs), s)))"

definition fdset_write :: "('f, 'fa) senv \<Rightarrow> usize \<Rightarrow> FdSet \<Rightarrow> nat \<Rightarrow> ('f, 'fa, 'w, 'v) sst \<Rightarrow> ('f, 'fa, 'w, 'v, unit) iom" where
  "fdset_write E ptr b r s = (if ptr = 0 then Some (Inr (), s) else lift_sys (up_write E ptr (fdset_bytes b) r) s)"

fun select_futures ::
  "FdTable \<Rightarrow> FdSet \<Rightarrow> FdSet \<Rightarrow> nat list \<Rightarrow> ('q poll_future \<times> nat \<times> PollKind) list option" where
  "select_futures t rs ws [] = Some []"
| "select_futures t rs ws (fd # nums) = (case fdt_get (word_of_nat fd) t of
     None \<Rightarrow> select_futures t rs ws nums
   | Some a \<Rightarrow> do {
       rd \<leftarrow> fdset_is_set fd rs;
       wr \<leftarrow> fdset_is_set fd ws;
       rest \<leftarrow> select_futures t rs ws nums;
       Some ((if rd then [(Pf_New a Poll_Read, fd, Poll_Read)] else []) @
             (if wr then [(Pf_New a Poll_Write, fd, Poll_Write)] else []) @ rest) })"

definition select_timeout :: "('f, 'fa) senv \<Rightarrow> usize \<Rightarrow> nat \<Rightarrow> ('f, 'fa, 'w, 'v) sst \<Rightarrow> ('f, 'fa, 'w, 'v, usize option) iom" where
  "select_timeout E ptr r s = (if ptr = 0 then Some (Inr None, s)
     else sys_bind (lift_sys (up_read E 16 ptr r) s) (\<lambda>bs s. do {
       let tv = timeval_of_bytes bs;
       ms \<leftarrow> umul (tv_sec tv) 1000;
       t \<leftarrow> uadd ms (tv_usec tv);
       Some (Inr (Some t), s) }))"

definition select_wait ::
  "('f, 'q, 'fa, 'w, 'v) vfs \<Rightarrow> (('f, 'fa, 'w, 'v) sst \<Rightarrow> ('f, 'fa, 'w, 'v) sst) \<Rightarrow> usize option \<Rightarrow> 'q poll_future list \<Rightarrow>
   ('f, 'fa, 'w, 'v) sst \<Rightarrow> (nat option \<times> ('f, 'fa, 'w, 'v) sst) option" where
  "select_wait V Y timeout futures s = do {
     limit \<leftarrow> (case timeout of None \<Rightarrow> Some None | Some ms \<Rightarrow> map_option Some (uadd (k_now_ms (fst s)) ms));
     this \<leftarrow> any_new_with futures;
     any_wait V Y limit this s }"

definition sys_pselect ::
  "('f, 'fa) senv \<Rightarrow> ('f, 'q, 'fa, 'w, 'v) vfs \<Rightarrow> (('f, 'fa, 'w, 'v) sst \<Rightarrow> ('f, 'fa, 'w, 'v) sst) \<Rightarrow> nat \<Rightarrow>
   ('f, 'fa, 'w, 'v) sst \<Rightarrow> ('f, 'fa, 'w, 'v, usize) iom" where
  "sys_pselect E V Y r s = do {
     args \<leftarrow> sys_args r (fst s);
     sys_bind (select_timeout E (args ! 4) r s) (\<lambda>timeout s.
       if args ! 0 = 0 then do {
         s \<leftarrow> (case timeout of None \<Rightarrow> Some s | Some ms \<Rightarrow> wake_after Y ms s);
         Some (Inr 0, s) }
       else sys_bind (fdset_read E (args ! 1) r s) (\<lambda>readfds s. sys_bind (fdset_read E (args ! 2) r s) (\<lambda>writefds s. do {
         p \<leftarrow> k_procs (fst s) r;
         fs \<leftarrow> select_futures (k_fdtables (fst s) (lp_fdtable p)) readfds writefds [0..<unat (args ! 0)];
         (ready, s) \<leftarrow> select_wait V Y timeout (map fst fs) s;
         (readfds, writefds, ready_cnt) \<leftarrow> (case ready of
            None \<Rightarrow> Some (fdset_zero, fdset_zero, 0)
          | Some i \<Rightarrow> (case snd (fs ! i) of
              (fd, Poll_Read) \<Rightarrow> do { b \<leftarrow> fdset_set fd fdset_zero; Some (b, fdset_zero, 1) }
            | (fd, Poll_Write) \<Rightarrow> do { b \<leftarrow> fdset_set fd fdset_zero; Some (fdset_zero, b, 1) }));
         sys_bind (fdset_write E (args ! 1) readfds r s) (\<lambda>_ s. sys_bind (fdset_write E (args ! 2) writefds r s) (\<lambda>_ s.
           sys_bind (fdset_write E (args ! 3) fdset_zero r s) (\<lambda>_ s. Some (Inr ready_cnt, s)))) }))) }"

end
