(* ===== verification/Syscall_Fs.thy ===== *)
theory Syscall_Fs
  imports Syscall_Io
begin

text \<open>
  The system calls on files and directories, \<^verbatim>\<open>syscall/fs.rs\<close>, with \<open>chdir\<close> and \<open>execve\<close> of \<^verbatim>\<open>syscall/process.rs\<close>.
\<close>

section \<open>Attributes of files\<close>

definition BLOCK_SIZE_FS :: nat where "BLOCK_SIZE_FS = 512"

text \<open>The fields of \<open>Kstat\<close> in the order of the structure, as they lie in memory.\<close>

definition kstat_bytes :: "VfsFileKind \<Rightarrow> DeviceInfo \<Rightarrow> SizeInfo \<Rightarrow> TimeInfo \<Rightarrow> u8 list" where
  "kstat_bytes fk device si time = (
     let st_mode = kind_mode fk OR 0x1FF
     in to_le 8 (di_device_id device) @ to_le 8 (1 :: u64) @ to_le 4 st_mode @ to_le 4 (1 :: u32) @ to_le 4 (0 :: u32) @ to_le 4 (0 :: u32) @
        to_le 8 (0 :: u64) @ to_le 8 (0 :: u64) @ to_le 8 (si_bytes si) @ to_le 4 (word_of_nat BLOCK_SIZE_FS :: u32) @ to_le 4 (0 :: u32) @
        to_le 8 (si_blocks si) @ to_le 8 (ti_access time div NSEC_PER_SEC) @ to_le 8 (ti_access time mod NSEC_PER_SEC) @
        to_le 8 (ti_modify time div NSEC_PER_SEC) @ to_le 8 (ti_modify time mod NSEC_PER_SEC) @
        to_le 8 (ti_change time div NSEC_PER_SEC) @ to_le 8 (ti_change time mod NSEC_PER_SEC))"

definition from_vfs_file :: "('f, 'q, 'fa, 'w, 'v) vfs \<Rightarrow> 'f \<Rightarrow> ('f, 'fa, 'w, 'v) sst \<Rightarrow> ('f, 'fa, 'w, 'v, u8 list) iom" where
  "from_vfs_file V f s = (
     let fk = vf_kind V f s; device = vf_device V f s
     in sys_bind (vf_size V f s) (\<lambda>si s. sys_bind (vf_time V f s) (\<lambda>time s. Some (Inr (kstat_bytes fk device si time), s))))"

definition write_stat ::
  "('f, 'fa) senv \<Rightarrow> ('f, 'q, 'fa, 'w, 'v) vfs \<Rightarrow> usize \<Rightarrow> 'f \<Rightarrow> nat \<Rightarrow> ('f, 'fa, 'w, 'v) sst \<Rightarrow> ('f, 'fa, 'w, 'v, usize) iom" where
  "write_stat E V ptr f r s = sys_bind (from_vfs_file V f s) (\<lambda>bs s. lift_sys (write_out E ptr bs r) s)"

definition sys_fstat ::
  "('f, 'fa) senv \<Rightarrow> ('f, 'q, 'fa, 'w, 'v) vfs \<Rightarrow> nat \<Rightarrow> ('f, 'fa, 'w, 'v) sst \<Rightarrow> ('f, 'fa, 'w, 'v, usize) iom" where
  "sys_fstat E V r s = do {
     args \<leftarrow> sys_args r (fst s);
     sys_bind (get_fd (args ! 0) r s) (\<lambda>a s. write_stat E V (args ! 1) (file_of a s) r s) }"

text \<open>The start of the calls that take a directory and a path.\<close>

definition at_path ::
  "('f, 'fa) senv \<Rightarrow> ('f, 'q, 'fa, 'w, 'v) vfs \<Rightarrow> usize \<Rightarrow> usize \<Rightarrow> nat \<Rightarrow> ('f, 'fa, 'w, 'v) sst \<Rightarrow> ('f, 'fa, 'w, 'v, 'f \<times> string) iom" where
  "at_path E V dir_fd ptr r s = sys_bind (lift_sys (up_read_cstr E ptr r) s) (\<lambda>path s. at_helper V dir_fd path r s)"

definition sys_fstatat ::
  "('f, 'fa) senv \<Rightarrow> ('f, 'q, 'fa, 'w, 'v) vfs \<Rightarrow> nat \<Rightarrow> ('f, 'fa, 'w, 'v) sst \<Rightarrow> ('f, 'fa, 'w, 'v, usize) iom" where
  "sys_fstatat E V r s = do {
     args \<leftarrow> sys_args r (fst s);
     sys_bind (at_path E V (args ! 0) (args ! 1) r s) (\<lambda>(dir, file_name) s.
       sys_bind (lookup_helper V dir file_name s) (\<lambda>f s. write_stat E V (args ! 2) f r s)) }"

definition sys_fturncate :: "('f, 'q, 'fa, 'w, 'v) vfs \<Rightarrow> nat \<Rightarrow> ('f, 'fa, 'w, 'v) sst \<Rightarrow> ('f, 'fa, 'w, 'v, usize) iom" where
  "sys_fturncate V r s = do {
     args \<leftarrow> sys_args r (fst s);
     sys_bind (get_fd (args ! 0) r s) (\<lambda>a s.
       sys_bind (vf_truncate V (file_of a s) (args ! 1) s) (\<lambda>_ s. Some (Inr 0, s))) }"

definition time_change_of :: "TimeSpec \<Rightarrow> TimeChange option" where
  "time_change_of t = (
     if ts_nsec t = UTIME_NOW then Some UTIME_NOW
     else if ts_nsec t = UTIME_OMIT then Some UTIME_OMIT
     else do { ns \<leftarrow> timespec_in_ns t; time_change_new ns })"

definition sys_utimensat ::
  "('f, 'fa) senv \<Rightarrow> ('f, 'q, 'fa, 'w, 'v) vfs \<Rightarrow> nat \<Rightarrow> ('f, 'fa, 'w, 'v) sst \<Rightarrow> ('f, 'fa, 'w, 'v, usize) iom" where
  "sys_utimensat E V r s = do {
     args \<leftarrow> sys_args r (fst s);
     sys_bind
       (if args ! 1 \<noteq> 0 then sys_bind (at_path E V (args ! 0) (args ! 1) r s) (\<lambda>(dir, file_name) s.
          if \<not> vf_is_dir V dir s then Some (Inl ENOTDIR, s) else lookup_helper V dir file_name s)
        else sys_bind (get_fd (args ! 0) r s) (\<lambda>a s. Some (Inr (file_of a s), s)))
       (\<lambda>f s. sys_bind (lift_sys (up_read_array E 16 (args ! 2) 2 r) s) (\<lambda>times s. do {
          access \<leftarrow> time_change_of (timespec_of_bytes (times ! 0));
          modify \<leftarrow> time_change_of (timespec_of_bytes (times ! 1));
          sys_bind (vf_update_time V f \<lparr>tc_access = access, tc_modify = modify\<rparr> s) (\<lambda>_ s. Some (Inr 0, s)) })) }"

section \<open>Names\<close>

definition sys_mkdir ::
  "('f, 'fa) senv \<Rightarrow> ('f, 'q, 'fa, 'w, 'v) vfs \<Rightarrow> nat \<Rightarrow> ('f, 'fa, 'w, 'v) sst \<Rightarrow> ('f, 'fa, 'w, 'v, usize) iom" where
  "sys_mkdir E V r s = do {
     args \<leftarrow> sys_args r (fst s);
     sys_bind (at_path E V (args ! 0) (args ! 1) r s) (\<lambda>(dir, file_name) s.
       sys_bind (vf_create V dir file_name Directory s) (\<lambda>_ s. Some (Inr 0, s))) }"

definition sys_renameat2 ::
  "('f, 'fa) senv \<Rightarrow> ('f, 'q, 'fa, 'w, 'v) vfs \<Rightarrow> nat \<Rightarrow> ('f, 'fa, 'w, 'v) sst \<Rightarrow> ('f, 'fa, 'w, 'v, usize) iom" where
  "sys_renameat2 E V r s = do {
     args \<leftarrow> sys_args r (fst s);
     sys_bind (lift_sys (up_read_cstr E (args ! 1) r) s) (\<lambda>old_path s. sys_bind (lift_sys (up_read_cstr E (args ! 3) r) s) (\<lambda>new_path s.
     sys_bind (at_helper V (args ! 0) old_path r s) (\<lambda>(old_dir, old_name) s. sys_bind (at_helper V (args ! 2) new_path r s) (\<lambda>(new_dir, new_name) s.
       if vf_kind V old_dir s \<noteq> Directory then Some (Inl ENOTDIR, s)
       else if vf_kind V new_dir s \<noteq> Directory then Some (Inl ENOTDIR, s)
       else do {
         (found, s) \<leftarrow> lookup_helper V new_dir new_name s;
         (case found of
            Inr new_file \<Rightarrow>
              if vf_is_dir V new_file s then sys_bind (vf_list V new_file s) (\<lambda>subdirs s.
                if subdirs \<noteq> [] then Some (Inl ENOTEMPTY, s)
                else sys_bind (vf_detach V old_dir old_name s) (\<lambda>old_file s.
                  sys_bind (vf_remove V new_dir new_name s) (\<lambda>_ s.
                    sys_bind (vf_attach V new_dir new_name old_file s) (\<lambda>_ s. Some (Inr 0, s)))))
              else Some (Inr 0, s)
          | Inl e \<Rightarrow>
              if e = ENOENT then sys_bind (vf_detach V old_dir old_name s) (\<lambda>old_file s.
                sys_bind (vf_attach V new_dir new_name old_file s) (\<lambda>_ s. Some (Inr 0, s)))
              else Some (Inl e, s)) })))) }"

definition AT_REMOVEDIR :: usize where "AT_REMOVEDIR = push_bit 9 1"

definition sys_unlinkat ::
  "('f, 'fa) senv \<Rightarrow> ('f, 'q, 'fa, 'w, 'v) vfs \<Rightarrow> nat \<Rightarrow> ('f, 'fa, 'w, 'v) sst \<Rightarrow> ('f, 'fa, 'w, 'v, usize) iom" where
  "sys_unlinkat E V r s = do {
     args \<leftarrow> sys_args r (fst s);
     let need_to_be_dir = (args ! 2 AND AT_REMOVEDIR \<noteq> 0);
     sys_bind (at_path E V (args ! 0) (args ! 1) r s) (\<lambda>(dir, file_name) s.
       sys_bind (vf_lookup V dir file_name s) (\<lambda>f s.
         if need_to_be_dir \<and> vf_kind V f s \<noteq> Directory then Some (Inl ENOTDIR, s)
         else if \<not> need_to_be_dir \<and> vf_kind V f s = Directory then Some (Inl EISDIR, s)
         else sys_bind (vf_remove V dir file_name s) (\<lambda>_ s. Some (Inr 0, s)))) }"

definition sys_faccessat ::
  "('f, 'fa) senv \<Rightarrow> ('f, 'q, 'fa, 'w, 'v) vfs \<Rightarrow> nat \<Rightarrow> ('f, 'fa, 'w, 'v) sst \<Rightarrow> ('f, 'fa, 'w, 'v, usize) iom" where
  "sys_faccessat E V r s = do {
     args \<leftarrow> sys_args r (fst s);
     sys_bind (at_path E V (args ! 0) (args ! 1) r s) (\<lambda>(dir, file_name) s.
       sys_bind (vf_lookup V dir file_name s) (\<lambda>_ s. Some (Inr 0, s))) }"

section \<open>Descriptors\<close>

definition sys_dup :: "nat \<Rightarrow> ('f, 'fa, 'w, 'v) sst \<Rightarrow> ('f, 'fa, 'w, 'v, usize) iom" where
  "sys_dup r s = do {
     args \<leftarrow> sys_args r (fst s);
     with_fdtable r (\<lambda>(t, st).
       if length (fd_table t) \<ge> MAX_OPEN_FILES then Some (Inl EMFILE, t, st)
       else (case fdt_get (args ! 0) t of
         Some old_fd \<Rightarrow> fdt_dup NoRequirement old_fd (t, st)
       | None \<Rightarrow> Some (Inl EBADF, t, st))) s }"

definition sys_dup3 :: "nat \<Rightarrow> ('f, 'fa, 'w, 'v) sst \<Rightarrow> ('f, 'fa, 'w, 'v, usize) iom" where
  "sys_dup3 r s = do {
     args \<leftarrow> sys_args r (fst s);
     let new_fd = args ! 1;
     with_fdtable r (\<lambda>(t, st).
       if fdt_get new_fd t = None \<and> length (fd_table t) \<ge> MAX_OPEN_FILES then Some (Inl EMFILE, t, st)
       else (case fdt_get (args ! 0) t of
         Some old_fd \<Rightarrow> do {
           (res, t, st) \<leftarrow> fdt_dup (Exactly new_fd) old_fd (t, st);
           Some (case res of Inl e \<Rightarrow> Inl e | Inr _ \<Rightarrow> Inr new_fd, t, st) }
       | None \<Rightarrow> Some (Inl EBADF, t, st))) s }"

definition sys_fcntl :: "nat \<Rightarrow> ('f, 'fa, 'w, 'v) sst \<Rightarrow> ('f, 'fa, 'w, 'v, usize) iom" where
  "sys_fcntl r s = do {
     args \<leftarrow> sys_args r (fst s);
     if args ! 1 = 1030 then
       with_fdtable r (\<lambda>(t, st). do {
         old_fd \<leftarrow> fdt_get (args ! 0) t;
         fdt_dup (GreaterThan (args ! 2)) old_fd (t, st) }) s
     else Some (Inr 0, s) }"

section \<open>Directories\<close>

definition as_dtype :: "VfsFileKind \<Rightarrow> u8" where
  "as_dtype k = (case k of
     Unknown \<Rightarrow> 0 | Pipe \<Rightarrow> 1 | CharDevice \<Rightarrow> 2 | Directory \<Rightarrow> 4 | BlockDevice \<Rightarrow> 6 | RegularFile \<Rightarrow> 8 | SymbolLink \<Rightarrow> 10
   | SocketFile \<Rightarrow> 12)"

definition dirent_front :: "nat \<Rightarrow> VfsFileKind \<Rightarrow> u8 list" where
  "dirent_front this_entry_len fk =
     to_le 8 (1 :: u64) @ to_le 8 (word_of_nat this_entry_len :: u64) @ to_le 2 (word_of_nat this_entry_len :: u16) @ [as_dtype fk]"

text \<open>The loop over the entries; the result is what was written and the new progress.\<close>

fun getdents_loop ::
  "('f, 'fa) senv \<Rightarrow> ('f, 'q, 'fa, 'w, 'v) vfs \<Rightarrow> usize \<Rightarrow> usize \<Rightarrow> nat \<Rightarrow> (string \<times> 'f) list \<Rightarrow> usize \<Rightarrow> usize \<Rightarrow>
   ('f, 'fa, 'w, 'v) sst \<Rightarrow> ('f, 'fa, 'w, 'v, usize \<times> usize) iom" where
  "getdents_loop E V buf len r [] wroten progress s = Some (Inr (wroten, progress), s)"
| "getdents_loop E V buf len r ((name, f) # es) wroten progress s = do {
     let this_entry_len = 19 + length (as_bytes name) + 1;
     end_len \<leftarrow> uadd wroten (word_of_nat this_entry_len);
     if end_len > len then Some (Inr (wroten, progress), s)
     else do {
       dirent_beg \<leftarrow> uadd buf wroten;
       d_name_beg \<leftarrow> uadd dirent_beg 19;
       sys_bind (lift_sys (up_write E dirent_beg (dirent_front this_entry_len (vf_kind V f s)) r) s) (\<lambda>_ s.
         sys_bind (lift_sys (up_write_cstr E d_name_beg name r) s) (\<lambda>_ s. do {
           progress \<leftarrow> uadd progress 1;
           getdents_loop E V buf len r es end_len progress s })) } }"

definition sys_getdents ::
  "('f, 'fa) senv \<Rightarrow> ('f, 'q, 'fa, 'w, 'v) vfs \<Rightarrow> nat \<Rightarrow> ('f, 'fa, 'w, 'v) sst \<Rightarrow> ('f, 'fa, 'w, 'v, usize) iom" where
  "sys_getdents E V r s = do {
     args \<leftarrow> sys_args r (fst s);
     sys_bind (get_fd (args ! 0) r s) (\<lambda>a s. sys_bind (vf_list V (file_of a s) s) (\<lambda>files s. do {
       let progress = get_dents_progress a (k_fds (fst s));
       if length files = unat progress then Some (Inr 0, upd_fds (clear_dents_progress a) s)
       else do {
         rassert (unat progress \<le> length files);
         sys_bind (getdents_loop E V (args ! 1) (args ! 2) r (drop (unat progress) files) 0 progress s) (\<lambda>(wroten, progress) s.
           Some (Inr wroten, upd_fds (set_dents_progress a progress) s)) } })) }"

section \<open>File systems\<close>

definition statfs_bytes :: "VfsFSAttr \<Rightarrow> u8 list" where
  "statfs_bytes attr = (
     let f_type = (case fsa_kind attr of Fs_Fat \<Rightarrow> 0x4d44 | Fs_Dev \<Rightarrow> 0x1373 | Fs_Tmp \<Rightarrow> 0x01021994 | Fs_Proc \<Rightarrow> 0x9fa0);
         bs = word_of_nat BLOCK_SIZE_FS
     in concat (map (to_le 8) [f_type, bs, total_block_size attr, free_block_size attr, free_block_size attr,
          total_file_count attr, total_file_count attr, fs_id attr, max_file_name_length attr, bs, 0, 0, 0, 0, 0]))"

definition sys_statfs ::
  "('f, 'fa) senv \<Rightarrow> ('f, 'q, 'fa, 'w, 'v) vfs \<Rightarrow> nat \<Rightarrow> ('f, 'fa, 'w, 'v) sst \<Rightarrow> ('f, 'fa, 'w, 'v, usize) iom" where
  "sys_statfs E V r s = do {
     args \<leftarrow> sys_args r (fst s);
     sys_bind (lift_sys (up_read_cstr E (args ! 0) r) s) (\<lambda>path_name s.
       (case mount_get (from_string path_name) (vf_mount_points V s) of
          None \<Rightarrow> Some (Inl ENOENT, s)
        | Some attr \<Rightarrow> lift_sys (write_out E (args ! 1) (statfs_bytes attr) r) s)) }"

definition sys_mount ::
  "('f, 'fa) senv \<Rightarrow> ('f, 'q, 'fa, 'w, 'v) vfs \<Rightarrow> nat \<Rightarrow> ('f, 'fa, 'w, 'v) sst \<Rightarrow> ('f, 'fa, 'w, 'v, usize) iom" where
  "sys_mount E V r s = do {
     args \<leftarrow> sys_args r (fst s);
     sys_bind (lift_sys (up_read_cstr E (args ! 0) r) s) (\<lambda>device s. sys_bind (lift_sys (up_read_cstr E (args ! 1) r) s) (\<lambda>mount_point s. do {
       p \<leftarrow> k_procs (fst s) r;
       let cwd = k_fsinfos (fst s) (lp_fsinfo p);
       let mount_point = from_string mount_point;
       let canonical = (if is_root mount_point then mount_point
                        else from_string (to_string cwd @ ''/'' @ to_string mount_point));
       rassert (is_absolute canonical);
       (path, name) \<leftarrow> split_dir_file canonical;
       sys_bind (vf_resolve V (vf_root_dir V) path s) (\<lambda>dir s. do {
         (found, s) \<leftarrow> vf_lookup V dir name s;
         sys_bind (case found of Inr _ \<Rightarrow> Some (Inr (), s)
                   | Inl _ \<Rightarrow> sys_bind (vf_create V dir name Directory s) (\<lambda>_ s. Some (Inr (), s))) (\<lambda>_ s.
           sys_bind (vf_attach V dir name (vf_zero_dev V) s) (\<lambda>_ s. Some (Inr 0, s))) }) })) }"

definition sys_umount ::
  "('f, 'fa) senv \<Rightarrow> ('f, 'q, 'fa, 'w, 'v) vfs \<Rightarrow> nat \<Rightarrow> ('f, 'fa, 'w, 'v) sst \<Rightarrow> ('f, 'fa, 'w, 'v, usize) iom" where
  "sys_umount E V r s = do {
     args \<leftarrow> sys_args r (fst s);
     sys_bind (lift_sys (up_read_cstr E (args ! 0) r) s) (\<lambda>mount_point s. do {
       p \<leftarrow> k_procs (fst s) r;
       let cwd = k_fsinfos (fst s) (lp_fsinfo p);
       (dir_path, file_name) \<leftarrow> split_dir_file (from_string (to_string cwd @ ''/'' @ mount_point));
       sys_bind (vf_resolve V (vf_root_dir V) dir_path s) (\<lambda>dir s.
         sys_bind (vf_detach V dir file_name s) (\<lambda>_ s. Some (Inr 0, s))) }) }"

section \<open>The working directory and programs\<close>

definition sys_chdir ::
  "('f, 'fa) senv \<Rightarrow> ('f, 'q, 'fa, 'w, 'v) vfs \<Rightarrow> nat \<Rightarrow> ('f, 'fa, 'w, 'v) sst \<Rightarrow> ('f, 'fa, 'w, 'v, usize) iom" where
  "sys_chdir E V r s = do {
     args \<leftarrow> sys_args r (fst s);
     sys_bind (lift_sys (up_read_cstr E (args ! 0) r) s) (\<lambda>path s. do {
       let path = from_string path;
       sys_bind (vf_resolve V (vf_root_dir V) path s) (\<lambda>f s.
         if \<not> vf_is_dir V f s then Some (Inl ENOTDIR, s)
         else do {
           p \<leftarrow> k_procs (fst s) r;
           Some (Inr 0, (fst s)\<lparr>k_fsinfos := (k_fsinfos (fst s))(lp_fsinfo p := path)\<rparr>, snd s) }) }) }"

text \<open>The loop of \<open>read_2d_cstr\<close>.\<close>

partial_function (option) read_2d_cstr ::
  "('f, 'fa) senv \<Rightarrow> usize \<Rightarrow> string list \<Rightarrow> nat \<Rightarrow> ('f, 'fa, 'w) kstate \<Rightarrow> ('f, 'fa, 'w, string list) sysm" where
  "read_2d_cstr E ptr2d result r k = (case up_read E 8 ptr2d r k of
     None \<Rightarrow> None
   | Some (Inl e, k) \<Rightarrow> Some (Inl e, k)
   | Some (Inr bs, k) \<Rightarrow>
       if (from_le bs :: usize) = 0 then Some (Inr result, k)
       else (case up_read_cstr E (from_le bs) r k of
         None \<Rightarrow> None
       | Some (Inl e, k) \<Rightarrow> Some (Inl e, k)
       | Some (Inr str, k) \<Rightarrow> read_2d_cstr E (up_add 8 ptr2d 1) (result @ [str]) r k))"

definition extra_env :: "string list" where
  "extra_env = [''LD_LIBRARY_PATH=.'', ''SHELL=/busybox'', ''PWD=/'', ''USER=root'', ''MOTD_SHOWN=pam'', ''LANG=C.UTF-8'',
     ''INVOCATION_ID=e9500a871cf044d9886a157f53826684'', ''TERM=vt220'', ''SHLVL=2'', ''JOURNAL_STREAM=8:9265'', ''OLDPWD=/root'',
     ''_=busybox'', ''LOGNAME=root'', ''HOME=/'', ''PATH=/'']"

definition ends_with :: "string \<Rightarrow> string \<Rightarrow> bool" where
  "ends_with str suf \<longleftrightarrow> length suf \<le> length str \<and> drop (length str - length suf) str = suf"

definition sys_execve ::
  "('f, 'fa) senv \<Rightarrow> ('f, 'q, 'fa, 'w, 'v) vfs \<Rightarrow> nat \<Rightarrow> ('f, 'fa, 'w, 'v) sst \<Rightarrow> ('f, 'fa, 'w, 'v, usize) iom" where
  "sys_execve E V r s = do {
     args \<leftarrow> sys_args r (fst s);
     sys_bind (lift_sys (up_read_cstr E (args ! 0) r) s) (\<lambda>path_str s. do {
       p \<leftarrow> k_procs (fst s) r;
       path \<leftarrow> (if is_absolute (from_string path_str) then Some (from_string path_str)
               else path_append (k_fsinfos (fst s) (lp_fsinfo p)) (from_string path_str));
       filename \<leftarrow> path_last path;
       sys_bind (lift_sys (read_2d_cstr E (args ! 1) [] r) s) (\<lambda>argv s. sys_bind (lift_sys (read_2d_cstr E (args ! 2) [] r) s) (\<lambda>envp s. do {
         let script = ends_with filename ''.sh'';
         let argv = (if script then ''busybox'' # ''sh'' # argv else argv);
         sys_bind (if script then vf_lookup V (vf_root_dir V) ''busybox'' s else vf_resolve V (vf_root_dir V) path s) (\<lambda>f s. do {
           k \<leftarrow> do_exec (s_kenv E) f (map as_bytes argv) (map as_bytes (envp @ extra_env)) r (fst s);
           Some (Inr 0, upd_lproc r (\<lambda>p. p\<lparr>lp_exe_path := Some path\<rparr>) k, snd s) }) })) }) }"

end
