(* ===== verification/Syscall_Dispatch.thy ===== *)
theory Syscall_Dispatch
  imports Syscall_Fs
begin

text \<open>
  The dispatch of system calls, \<^verbatim>\<open>syscall/mod.rs\<close>, and the loop that runs a process, \<^verbatim>\<open>process/userloop.rs\<close> and \<^verbatim>\<open>process/mod.rs\<close>.
  The program in user mode is a parameter: from the registers and the memory of the process it gives the trap that ends
  its run and what it has changed.
\<close>

section \<open>The table of system calls\<close>

text \<open>What the calls are given besides the state: the environment, the files, the other tasks and the layout of \<open>SigAction\<close>.\<close>

record ('f, 'q, 'fa, 'w, 'v) xenv =
  x_env :: "('f, 'fa) senv"
  x_vfs :: "('f, 'q, 'fa, 'w, 'v) vfs"
  x_yield :: "('f, 'fa, 'w, 'v) sst \<Rightarrow> ('f, 'fa, 'w, 'v) sst"
  x_sig_enc :: "SigAction \<Rightarrow> u8 list"
  x_sig_dec :: "u8 list \<Rightarrow> SigAction"

text \<open>A handler gives its result, whether the process exits, and the state.\<close>

type_synonym ('f, 'fa, 'w, 'v) handler =
  "('f, 'fa, 'w, 'v) sst \<Rightarrow> (usize SysResult \<times> bool \<times> ('f, 'fa, 'w, 'v) sst) option"

definition h_io :: "(('f, 'fa, 'w, 'v) sst \<Rightarrow> ('f, 'fa, 'w, 'v, usize) iom) \<Rightarrow> ('f, 'fa, 'w, 'v) handler" where
  "h_io f s = do { (res, s) \<leftarrow> f s; Some (res, False, s) }"

definition h_sys :: "(('f, 'fa, 'w) kstate \<Rightarrow> ('f, 'fa, 'w, usize) sysm) \<Rightarrow> ('f, 'fa, 'w, 'v) handler" where
  "h_sys f = h_io (lift_sys f)"

definition h_exit ::
  "(('f, 'fa, 'w) kstate \<Rightarrow> (usize SysResult \<times> bool \<times> ('f, 'fa, 'w) kstate) option) \<Rightarrow> ('f, 'fa, 'w, 'v) handler" where
  "h_exit f s = do { (res, do_exit, k) \<leftarrow> f (fst s); Some (res, do_exit, k, snd s) }"

definition do_nothing :: "('f, 'fa, 'w, 'v) handler" where
  "do_nothing s = Some (Inr 0, False, s)"

definition sys_futex :: "nat \<Rightarrow> ('f, 'fa, 'w) kstate \<Rightarrow> (usize SysResult \<times> bool \<times> ('f, 'fa, 'w) kstate) option" where
  "sys_futex r k = sys_exit r (upd_lproc r (\<lambda>p. p\<lparr>lp_context := set_user_a0 0 (lp_context p)\<rparr>) k)"

definition sys_sched_yield :: "('f, 'q, 'fa, 'w, 'v) xenv \<Rightarrow> ('f, 'fa, 'w, 'v) handler" where
  "sys_sched_yield X s = Some (Inr 0, False, x_yield X s)"

definition io_calls :: "('f, 'q, 'fa, 'w, 'v) xenv \<Rightarrow> nat \<Rightarrow> (nat \<times> ('f, 'fa, 'w, 'v) handler) list" where
  "io_calls X r = (let E = x_env X; V = x_vfs X; Y = x_yield X in [
     (56, h_io (sys_openat E V r)), (59, h_io (sys_pipe E V r)), (23, h_io (sys_dup r)), (24, h_io (sys_dup3 r)),
     (57, h_sys (sys_close r)), (63, h_io (sys_read E V r)), (64, h_io (sys_write E V r)), (73, h_io (sys_ppoll E V Y r)),
     (72, h_io (sys_pselect E V Y r)), (66, h_io (sys_writev E V r)), (65, h_io (sys_readv E V r)), (62, h_io (sys_lseek V r)),
     (67, h_io (sys_pread E V r)), (68, h_io (sys_pwrite E V r)), (69, h_io (sys_preadv E V r)), (70, h_io (sys_pwritev E V r)),
     (29, h_io (sys_ioctl V r)), (285, h_io (sys_copy_file_range E V r))])"

definition fs_calls :: "('f, 'q, 'fa, 'w, 'v) xenv \<Rightarrow> nat \<Rightarrow> (nat \<times> ('f, 'fa, 'w, 'v) handler) list" where
  "fs_calls X r = (let E = x_env X; V = x_vfs X in [
     (80, h_io (sys_fstat E V r)), (79, h_io (sys_fstatat E V r)), (61, h_io (sys_getdents E V r)), (37, \<lambda>_. None),
     (35, h_io (sys_unlinkat E V r)), (25, h_io (sys_fcntl r)), (34, h_io (sys_mkdir E V r)), (39, h_io (sys_umount E V r)),
     (40, h_io (sys_mount E V r)), (81, do_nothing), (82, do_nothing), (46, h_io (sys_fturncate V r)),
     (78, h_io (sys_readlinkat E V r)), (276, h_io (sys_renameat2 E V r)), (88, h_io (sys_utimensat E V r)),
     (48, h_io (sys_faccessat E V r)), (43, h_io (sys_statfs E V r))])"

definition process_calls :: "('f, 'q, 'fa, 'w, 'v) xenv \<Rightarrow> nat \<Rightarrow> (nat \<times> ('f, 'fa, 'w, 'v) handler) list" where
  "process_calls X r = (let E = x_env X; V = x_vfs X; Y = x_yield X in [
     (17, h_sys (sys_getcwd E r)), (49, h_io (sys_chdir E V r)), (220, h_sys (sys_clone E r)), (221, h_io (sys_execve E V r)),
     (260, h_io (sys_wait E Y r)), (93, h_exit (sys_exit r)), (173, h_sys (sys_getppid r)), (172, h_sys (sys_getpid r)),
     (178, h_sys (sys_gettid r)), (96, h_sys (sys_set_tid_address r)), (163, do_nothing), (261, h_sys (sys_prlimit E r)),
     (94, h_exit (sys_exitgroup r)), (155, h_sys (sys_getpgid r)), (154, h_sys (sys_setpgid r)), (98, h_exit (sys_futex r))])"

definition signal_calls :: "('f, 'q, 'fa, 'w, 'v) xenv \<Rightarrow> nat \<Rightarrow> (nat \<times> ('f, 'fa, 'w, 'v) handler) list" where
  "signal_calls X r = (let E = x_env X; Y = x_yield X in [
     (137, h_io (sys_sigwait E Y r)), (134, h_sys (sys_sigaction (x_sig_enc X) (x_sig_dec X) E r)), (139, h_sys (call_sigreturn r)),
     (129, h_sys (sys_kill r)), (130, h_sys (sys_tkill r))])"

definition memory_calls :: "('f, 'q, 'fa, 'w, 'v) xenv \<Rightarrow> nat \<Rightarrow> (nat \<times> ('f, 'fa, 'w, 'v) handler) list" where
  "memory_calls X r = (let E = x_env X in [
     (214, h_sys (sys_brk r)), (215, h_sys (sys_munmap E r)), (222, h_sys (sys_mmap r)), (226, h_sys (sys_mprotect r)),
     (194, h_sys (sys_shmget E r)), (195, h_sys (sys_shmctl E r)), (196, h_sys (sys_shmat E r)), (197, h_sys (sys_shmdt E r)),
     (233, do_nothing)])"

definition misc_calls :: "('f, 'q, 'fa, 'w, 'v) xenv \<Rightarrow> nat \<Rightarrow> (nat \<times> ('f, 'fa, 'w, 'v) handler) list" where
  "misc_calls X r = (let E = x_env X; Y = x_yield X in [
     (119, do_nothing), (120, do_nothing), (121, do_nothing), (122, do_nothing), (123, h_sys (sys_sched_getaffinity E r)),
     (153, h_sys (sys_times E r)), (160, h_sys (sys_uname E r)), (124, sys_sched_yield X), (169, h_sys (sys_gettimeofday E r)),
     (113, h_sys (sys_clockgettime E r)), (114, h_sys (sys_clock_getres E r)), (101, h_io (sys_nanosleep E Y r)),
     (115, h_io (sys_clock_nanosleep E Y r)), (174, do_nothing), (165, h_sys (sys_getrusage E r)), (116, do_nothing),
     (103, h_sys (sys_setitimer E r)), (135, do_nothing), (166, do_nothing), (175, do_nothing), (176, do_nothing), (177, do_nothing)])"

definition syscall_table :: "('f, 'q, 'fa, 'w, 'v) xenv \<Rightarrow> nat \<Rightarrow> (nat \<times> ('f, 'fa, 'w, 'v) handler) list" where
  "syscall_table X r = io_calls X r @ fs_calls X r @ process_calls X r @ signal_calls X r @ memory_calls X r @ misc_calls X r"

definition set_context :: "UKContext \<Rightarrow> nat \<Rightarrow> ('f, 'fa, 'w, 'v) sst \<Rightarrow> ('f, 'fa, 'w, 'v) sst" where
  "set_context cx r s = (upd_lproc r (\<lambda>p. p\<lparr>lp_context := cx\<rparr>) (fst s), snd s)"

definition syscall :: "('f, 'q, 'fa, 'w, 'v) xenv \<Rightarrow> nat \<Rightarrow> ('f, 'fa, 'w, 'v) sst \<Rightarrow> (bool \<times> ('f, 'fa, 'w, 'v) sst) option" where
  "syscall X r s = do {
     p \<leftarrow> k_procs (fst s) r;
     cx \<leftarrow> set_user_pc_to_next 4 (lp_context p);
     let s = set_context cx r s;
     (result, do_exit, s) \<leftarrow> (case map_of (syscall_table X r) (unat (syscall_no cx)) of
        Some h \<Rightarrow> h s
      | None \<Rightarrow> Some (Inl EINVAL, False, s));
     p \<leftarrow> k_procs (fst s) r;
     Some (do_exit, set_context (set_user_a0 (syscall_return result) (lp_context p)) r s) }"

section \<open>The user loop\<close>

datatype trap_cause =
    UserEnvCall | InstructionPageFault | LoadPageFault | StorePageFault | InstructionFault | IllegalInstruction | OtherException
  | SupervisorTimer | SupervisorExternal | OtherInterrupt

text \<open>A run in user mode: the cause of the trap, \<open>stval\<close>, the registers, the memory and the clock afterwards.\<close>

record user_run =
  ur_cause :: trap_cause
  ur_stval :: usize
  ur_context :: UKContext
  ur_umem :: umem
  ur_now :: usize
  ur_now_ms :: usize

type_synonym user_program = "UKContext \<Rightarrow> umem \<Rightarrow> usize \<Rightarrow> user_run"

definition upd_timer :: "(TimeStat \<Rightarrow> TimeStat option) \<Rightarrow> nat \<Rightarrow> ('f, 'fa, 'w, 'v) sst \<Rightarrow> ('f, 'fa, 'w, 'v) sst option" where
  "upd_timer f r s = do {
     p \<leftarrow> k_procs (fst s) r;
     t \<leftarrow> f (lp_timer p);
     Some (upd_lproc r (\<lambda>p. p\<lparr>lp_timer := t\<rparr>) (fst s), snd s) }"

definition run_user_program :: "user_program \<Rightarrow> nat \<Rightarrow> ('f, 'fa, 'w, 'v) sst \<Rightarrow> (trap_cause \<times> usize \<times> ('f, 'fa, 'w, 'v) sst) option" where
  "run_user_program U r s = do {
     s \<leftarrow> upd_timer (kernel_to_user (k_now (fst s))) r s;
     p \<leftarrow> k_procs (fst s) r;
     let u = U (lp_context p) (k_umem (fst s) (lp_memory p)) (k_now (fst s));
     let s = set_context (ur_context u) r s;
     let s = ((fst s)\<lparr>k_umem := (k_umem (fst s))(lp_memory p := ur_umem u), k_now := ur_now u, k_now_ms := ur_now_ms u\<rparr>, snd s);
     s \<leftarrow> upd_timer (user_to_kernel (k_now (fst s))) r s;
     Some (ur_cause u, ur_stval u, s) }"

text \<open>The head of an iteration: whether the program runs, the iteration starts over or the loop is left.\<close>

definition loop_head :: "nat \<Rightarrow> ('f, 'fa, 'w, 'v) sst \<Rightarrow> (loop_step \<times> ('f, 'fa, 'w, 'v) sst) option" where
  "loop_head r s = do {
     p \<leftarrow> k_procs (fst s) r;
     (case lp_status p of
        UNINIT \<Rightarrow> None
      | READY \<Rightarrow> do {
          (st, sg, cx) \<leftarrow> check_signal (k_signals (fst s) (lp_signal p), lp_context p);
          let k = (fst s)\<lparr>k_signals := (k_signals (fst s))(lp_signal p := sg)\<rparr>;
          let s = set_context cx r (k, snd s);
          s \<leftarrow> (if st = Run_User then upd_timer (\<lambda>t. Some (switch_into (k_now (fst s)) t)) r s else Some s);
          Some (st, s) }
      | RUNNING \<Rightarrow> Some (Run_User, s)
      | _ \<Rightarrow> do {
          s \<leftarrow> upd_timer (switch_out (k_now (fst s))) r s;
          Some (Leave_Loop, s) }) }"

text \<open>The trap at the end of a run; the result says whether the process exits. \<open>D\<close> is the interrupt handler of the devices.\<close>

definition handle_trap ::
  "('f, 'q, 'fa, 'w, 'v) xenv \<Rightarrow> (('f, 'fa, 'w, 'v) sst \<Rightarrow> ('f, 'fa, 'w, 'v) sst) \<Rightarrow> nat \<Rightarrow> trap_cause \<Rightarrow> usize \<Rightarrow>
   ('f, 'fa, 'w, 'v) sst \<Rightarrow> (bool \<times> ('f, 'fa, 'w, 'v) sst) option" where
  "handle_trap X D r cause stval s = (
     let fault = (\<lambda>acc. do {
       (res, k) \<leftarrow> lproc_pagefault (x_env X) stval acc r (fst s);
       Some (case res of Inl _ \<Rightarrow> True | Inr _ \<Rightarrow> False, k, snd s) })
     in case cause of
       UserEnvCall \<Rightarrow> syscall X r s
     | InstructionPageFault \<Rightarrow> fault A_RX
     | LoadPageFault \<Rightarrow> fault A_RO
     | StorePageFault \<Rightarrow> fault A_RW
     | InstructionFault \<Rightarrow> Some (True, s)
     | IllegalInstruction \<Rightarrow> Some (True, s)
     | OtherException \<Rightarrow> Some (True, s)
     | SupervisorTimer \<Rightarrow> do { k \<leftarrow> timer_tick (fst s); Some (False, x_yield X (k, snd s)) }
     | SupervisorExternal \<Rightarrow> Some (False, D s)
     | OtherInterrupt \<Rightarrow> None)"

definition loop_round ::
  "('f, 'q, 'fa, 'w, 'v) xenv \<Rightarrow> (('f, 'fa, 'w, 'v) sst \<Rightarrow> ('f, 'fa, 'w, 'v) sst) \<Rightarrow> user_program \<Rightarrow> nat \<Rightarrow>
   ('f, 'fa, 'w, 'v) sst \<Rightarrow> (bool \<times> ('f, 'fa, 'w, 'v) sst) option" where
  "loop_round X D U r s = do {
     (st, s) \<leftarrow> loop_head r s;
     (case st of
        Next_Iteration \<Rightarrow> Some (False, s)
      | Leave_Loop \<Rightarrow> Some (True, s)
      | Run_User \<Rightarrow> do {
          (cause, stval, s) \<leftarrow> run_user_program U r s;
          handle_trap X D r cause stval s }) }"

partial_function (option) userloop_rounds ::
  "('f, 'q, 'fa, 'w, 'v) xenv \<Rightarrow> (('f, 'fa, 'w, 'v) sst \<Rightarrow> ('f, 'fa, 'w, 'v) sst) \<Rightarrow> user_program \<Rightarrow> nat \<Rightarrow>
   ('f, 'fa, 'w, 'v) sst \<Rightarrow> ('f, 'fa, 'w, 'v) sst option" where
  "userloop_rounds X D U r s = (case loop_round X D U r s of
     None \<Rightarrow> None
   | Some (leaves, s) \<Rightarrow> if leaves then Some s else userloop_rounds X D U r s)"

definition userloop ::
  "('f, 'q, 'fa, 'w, 'v) xenv \<Rightarrow> (('f, 'fa, 'w, 'v) sst \<Rightarrow> ('f, 'fa, 'w, 'v) sst) \<Rightarrow> user_program \<Rightarrow> nat \<Rightarrow>
   ('f, 'fa, 'w, 'v) sst \<Rightarrow> ('f, 'fa, 'w, 'v) sst option" where
  "userloop X D U r s = do {
     s \<leftarrow> userloop_rounds X D U r s;
     k \<leftarrow> do_exit r (fst s);
     Some (k, snd s) }"

text \<open>One poll of the future that wraps the user loop: the page table of the process is current while it is polled.\<close>

definition outermost_poll ::
  "nat \<Rightarrow> (('f, 'fa, 'w, 'v) sst \<Rightarrow> ('o option \<times> ('f, 'fa, 'w, 'v) sst) option) \<Rightarrow> ('f, 'fa, 'w, 'v) sst \<Rightarrow>
   ('o option \<times> ('f, 'fa, 'w, 'v) sst) option" where
  "outermost_poll r poll s = do {
     p \<leftarrow> k_procs (fst s) r;
     let old_pgtbl = k_satp (fst s);
     (res, s) \<leftarrow> poll ((fst s)\<lparr>k_satp := root_paddr (page_table (k_mems (fst s) (lp_memory p)))\<rparr>, snd s);
     Some (res, (fst s)\<lparr>k_satp := old_pgtbl\<rparr>, snd s) }"

text \<open>Starting programs.\<close>

definition spawn_proc_from_file :: "('f, 'fa) kenv \<Rightarrow> Path \<Rightarrow> 'f \<Rightarrow> ('f, 'fa, 'w) kstate \<Rightarrow> ('f, 'fa, 'w) kstate option" where
  "spawn_proc_from_file K path f k = do {
     (r, k) \<leftarrow> lproc_new K k;
     k \<leftarrow> do_exec K f [] [] r k;
     Some (spawn_proc r (upd_lproc r (\<lambda>p. p\<lparr>lp_exe_path := Some path\<rparr>) k)) }"

definition spawn_init ::
  "('f, 'fa) kenv \<Rightarrow> ('f, 'q, 'fa, 'w, 'v) vfs \<Rightarrow> ('f, 'fa, 'w, 'v) sst \<Rightarrow> ('f, 'fa, 'w, 'v) sst option" where
  "spawn_init K V s = do {
     (res, s) \<leftarrow> vf_lookup V (vf_root_dir V) ''busybox'' s;
     busybox \<leftarrow> (case res of Inl _ \<Rightarrow> None | Inr f \<Rightarrow> Some f);
     (r, k) \<leftarrow> lproc_new K (fst s);
     k \<leftarrow> do_exec K busybox (map as_bytes [''busybox'', ''sh'']) (map as_bytes extra_env) r k;
     Some (spawn_proc r (upd_lproc r (\<lambda>p. p\<lparr>lp_exe_path := Some (from_string ''/busybox'')\<rparr>) k), snd s) }"

end
