(* ===== verification/Mem_Files.thy ===== *)
theory Mem_Files
  imports Syscall_Io Pipe "HOL-Library.List_Lexorder" "HOL-Library.Char_ord"
begin

text \<open>
  The files that need no disk: \<^verbatim>\<open>fs/memfs/zero.rs\<close>, \<^verbatim>\<open>fs/memfs/tmpdir.rs\<close>, \<^verbatim>\<open>fs/memfs/tty.rs\<close>, \<^verbatim>\<open>fs/stdio.rs\<close>, the mount points of
  \<^verbatim>\<open>fs/new_vfs/mount.rs\<close> and the pipes of \<^verbatim>\<open>fs/npipe.rs\<close> as files. Together they are an instance of the operations that
  the system calls use. A file object is a value of \<open>mem_file\<close>; what it shares is found under its number in \<open>memfs\<close>.
  Panics of operations that a kind of file does not have are \<open>None\<close>; the terminal output leaves no trace.
\<close>

section \<open>Files and their state\<close>

datatype mem_file =
    ZeroDev | Stdin | Stdout | Stderr | TTY nat | TmpFile nat | TmpDir nat
  | PipeReadEnd nat | PipeWriteEnd nat | MountPoint mem_file

record TmpFile =
  tf_time :: TimeInfo
  tf_content :: "u8 list"

record ('b, 'w) memfs =
  mf_holding_pgid :: "nat \<Rightarrow> usize"
  mf_files :: "nat \<Rightarrow> TmpFile"
  mf_children :: "nat \<Rightarrow> (string, mem_file) btree"
  mf_pipes :: "nat \<Rightarrow> ('b, 'w) Pipe"
  mf_mounts :: "(Path \<times> VfsFSAttr) list"
  mf_next :: nat

type_synonym ('fa, 'w, 'b) mst = "(mem_file, 'fa, 'w, ('b, 'w) memfs) sst"

text \<open>What the operations are given: the ring buffer of pipes, the other tasks, the current process with its waker, and the
  first serial device, which fills a buffer, gives the length or an error, and may wait.\<close>

record ('fa, 'w, 'b) menv =
  me_env :: "(mem_file, 'fa) senv"
  me_ring :: "'b RingBuffer"
  me_yield :: "('fa, 'w, 'b) mst \<Rightarrow> ('fa, 'w, 'b) mst"
  me_proc :: nat
  me_waker :: 'w
  me_serial :: "(usize \<Rightarrow> ('fa, 'w, 'b) mst \<Rightarrow> (u8 list \<times> usize option \<times> ('fa, 'w, 'b) mst) option) option"
  me_root :: mem_file

definition upd_file :: "nat \<Rightarrow> (TmpFile \<Rightarrow> TmpFile) \<Rightarrow> ('fa, 'w, 'b) mst \<Rightarrow> ('fa, 'w, 'b) mst" where
  "upd_file i g s = (fst s, (snd s)\<lparr>mf_files := (mf_files (snd s))(i := g (mf_files (snd s) i))\<rparr>)"

definition upd_children :: "nat \<Rightarrow> (string, mem_file) btree \<Rightarrow> ('fa, 'w, 'b) mst \<Rightarrow> ('fa, 'w, 'b) mst" where
  "upd_children i m s = (fst s, (snd s)\<lparr>mf_children := (mf_children (snd s))(i := m)\<rparr>)"

section \<open>Attributes\<close>

definition DEV_FS_ID :: usize where "DEV_FS_ID = 1"

fun mem_kind :: "mem_file \<Rightarrow> VfsFileKind" where
  "mem_kind (TmpFile _) = RegularFile"
| "mem_kind (TmpDir _) = Directory"
| "mem_kind (PipeReadEnd _) = VfsFileKind.Pipe"
| "mem_kind (PipeWriteEnd _) = VfsFileKind.Pipe"
| "mem_kind (MountPoint root) = mem_kind root"
| "mem_kind _ = CharDevice"

definition device :: "usize \<Rightarrow> usize \<Rightarrow> DeviceInfo" where
  "device d self = \<lparr>di_device_id = d, di_self_device_id = self\<rparr>"

fun mem_device :: "mem_file \<Rightarrow> DeviceInfo" where
  "mem_device ZeroDev = device DEV_FS_ID 0"
| "mem_device (TTY _) = device DEV_FS_ID 0"
| "mem_device Stdin = device DEV_FS_ID 3"
| "mem_device Stdout = device DEV_FS_ID 4"
| "mem_device Stderr = device DEV_FS_ID 5"
| "mem_device (TmpFile _) = device 0 0"
| "mem_device (TmpDir _) = device 0 0"
| "mem_device (PipeReadEnd _) = device 2 0"
| "mem_device (PipeWriteEnd _) = device 2 0"
| "mem_device (MountPoint root) = mem_device root"

fun mem_size :: "mem_file \<Rightarrow> ('fa, 'w, 'b) mst \<Rightarrow> (('fa, 'w, 'b) mst, SizeInfo) vfsm" where
  "mem_size (TmpFile i) s = Some (Inr \<lparr>si_bytes = word_of_nat (length (tf_content (mf_files (snd s) i))), si_blocks = 0\<rparr>, s)"
| "mem_size (MountPoint root) s = mem_size root s"
| "mem_size _ s = Some (Inr \<lparr>si_bytes = 0, si_blocks = 0\<rparr>, s)"

fun mem_time :: "mem_file \<Rightarrow> ('fa, 'w, 'b) mst \<Rightarrow> (('fa, 'w, 'b) mst, TimeInfo) vfsm" where
  "mem_time (TmpFile i) s = Some (Inr (tf_time (mf_files (snd s) i)), s)"
| "mem_time (MountPoint root) s = mem_time root s"
| "mem_time _ s = Some (Inr time_info_zero, s)"

fun mem_update_time :: "mem_file \<Rightarrow> TimeInfoChange \<Rightarrow> ('fa, 'w, 'b) mst \<Rightarrow> (('fa, 'w, 'b) mst, unit) vfsm" where
  "mem_update_time (TmpFile i) c s = do {
     t \<leftarrow> apply_change (k_now (fst s)) c (tf_time (mf_files (snd s) i));
     Some (Inr (), upd_file i (\<lambda>f. f\<lparr>tf_time := t\<rparr>) s) }"
| "mem_update_time (MountPoint root) c s = mem_update_time root c s"
| "mem_update_time _ c s = None"

section \<open>The contents of a file of tmpfs\<close>

text \<open>\<open>Vec::resize\<close> with zeros.\<close>

definition resize :: "nat \<Rightarrow> u8 list \<Rightarrow> u8 list" where
  "resize n xs = take n xs @ replicate (n - length xs) 0"

definition tmp_read_at :: "usize \<Rightarrow> usize \<Rightarrow> u8 list \<Rightarrow> u8 list option" where
  "tmp_read_at offset buf_len content = do {
     rest \<leftarrow> usub (word_of_nat (length content)) offset;
     let len = min buf_len rest;
     Some (take (unat len) (drop (unat offset) content)) }"

definition tmp_write_at :: "nat \<Rightarrow> u8 list \<Rightarrow> u8 list \<Rightarrow> u8 list" where
  "tmp_write_at offset buf content = (
     let content = (if length content < offset then resize offset content else content);
         in_content_len = min (length buf) (length content - offset);
         content = fold (\<lambda>i c. c[i + offset := buf ! i]) [0..<in_content_len] content;
         out_content_len = length buf - in_content_len
     in fold (\<lambda>i c. c @ [buf ! (i + in_content_len)]) [0..<out_content_len] content)"

section \<open>Pipes\<close>

definition put_pipe :: "nat \<Rightarrow> nat \<Rightarrow> ('b, 'w) Pipe \<Rightarrow> 'w EventBus \<Rightarrow> 'w list \<Rightarrow> ('fa, 'w, 'b) mst \<Rightarrow> ('fa, 'w, 'b) mst" where
  "put_pipe r i p bus ws s = (
     upd_lproc r (\<lambda>q. q\<lparr>lp_event_bus := bus\<rparr>) ((fst s)\<lparr>k_woken := k_woken (fst s) @ ws\<rparr>),
     (snd s)\<lparr>mf_pipes := (mf_pipes (snd s))(i := p)\<rparr>)"

text \<open>Reading and writing: polled until the call is done; then the future that waits for a signal is dropped.\<close>

partial_function (option) pipe_wait ::
  "('fa, 'w, 'b) menv \<Rightarrow> nat \<Rightarrow>
   ('w EventBusWaitForFuture \<Rightarrow> ('b, 'w) Pipe \<times> 'w EventBus \<Rightarrow>
     ('a option \<times> 'w EventBusWaitForFuture \<times> (('b, 'w) Pipe \<times> 'w EventBus) \<times> 'w list) option) \<Rightarrow>
   'w EventBusWaitForFuture \<Rightarrow> ('fa, 'w, 'b) mst \<Rightarrow> ('a \<times> ('fa, 'w, 'b) mst) option" where
  "pipe_wait M i poll f s = (case k_procs (fst s) (me_proc M) of
     None \<Rightarrow> None
   | Some q \<Rightarrow> (case poll f (mf_pipes (snd s) i, lp_event_bus q) of
       None \<Rightarrow> None
     | Some (None, f, (p, bus), ws) \<Rightarrow> pipe_wait M i poll f (me_yield M (put_pipe (me_proc M) i p bus ws s))
     | Some (Some res, f, (p, bus), ws) \<Rightarrow> (case wait_drop f bus of
           None \<Rightarrow> None
         | Some bus \<Rightarrow> Some (res, put_pipe (me_proc M) i p bus ws s))))"

definition pipe_read_at ::
  "('fa, 'w, 'b) menv \<Rightarrow> nat \<Rightarrow> usize \<Rightarrow> ('fa, 'w, 'b) mst \<Rightarrow> (u8 list \<times> usize SysResult \<times> ('fa, 'w, 'b) mst) option" where
  "pipe_read_at M i n s = do {
     (res, s) \<leftarrow> pipe_wait M i (read_at_poll (me_ring M) (me_waker M) (unat n)) (wait_for_event Ev_Signal (me_waker M)) s;
     Some (case res of Inl e \<Rightarrow> ([], Inl e, s) | Inr xs \<Rightarrow> (xs, Inr (word_of_nat (length xs)), s)) }"

definition pipe_write_at ::
  "('fa, 'w, 'b) menv \<Rightarrow> nat \<Rightarrow> u8 list \<Rightarrow> ('fa, 'w, 'b) mst \<Rightarrow> (('fa, 'w, 'b) mst, usize) vfsm" where
  "pipe_write_at M i xs s = do {
     (res, s) \<leftarrow> pipe_wait M i (write_at_poll (me_ring M) (me_waker M) xs) (wait_for_event Ev_Signal (me_waker M)) s;
     Some (case res of Inl e \<Rightarrow> Inl e | Inr n \<Rightarrow> Inr (word_of_nat n), s) }"

definition mem_new_pipe :: "('fa, 'w, 'b) menv \<Rightarrow> ('fa, 'w, 'b) mst \<Rightarrow> mem_file \<times> mem_file \<times> ('fa, 'w, 'b) mst" where
  "mem_new_pipe M s = (let v = snd s; i = mf_next v in
     (PipeReadEnd i, PipeWriteEnd i, fst s, v\<lparr>mf_pipes := (mf_pipes v)(i := pipe_new (me_ring M)), mf_next := Suc i\<rparr>))"

section \<open>Reading and writing\<close>

definition stdin_read_at ::
  "('fa, 'w, 'b) menv \<Rightarrow> usize \<Rightarrow> ('fa, 'w, 'b) mst \<Rightarrow> (u8 list \<times> usize SysResult \<times> ('fa, 'w, 'b) mst) option" where
  "stdin_read_at M n s = (
     if n = 0 then Some ([], Inr 0, s)
     else case me_serial M of
       None \<Rightarrow> Some ([], Inr 0, s)
     | Some serial \<Rightarrow> do {
         (xs, res, s) \<leftarrow> serial n s;
         Some (xs, case res of None \<Rightarrow> Inl EIO | Some len \<Rightarrow> Inr len, s) })"

fun mem_read_at ::
  "('fa, 'w, 'b) menv \<Rightarrow> mem_file \<Rightarrow> usize \<Rightarrow> usize \<Rightarrow> ('fa, 'w, 'b) mst \<Rightarrow> (u8 list \<times> usize SysResult \<times> ('fa, 'w, 'b) mst) option" where
  "mem_read_at M ZeroDev offset n s = Some (replicate (unat n) 0, Inr n, s)"
| "mem_read_at M (TmpFile i) offset n s = do {
     xs \<leftarrow> tmp_read_at offset n (tf_content (mf_files (snd s) i));
     Some (xs, Inr (word_of_nat (length xs)), s) }"
| "mem_read_at M Stdin offset n s = stdin_read_at M n s"
| "mem_read_at M (TTY i) offset n s = stdin_read_at M n s"
| "mem_read_at M Stdout offset n s = Some ([], Inl EPERM, s)"
| "mem_read_at M Stderr offset n s = Some ([], Inl EPERM, s)"
| "mem_read_at M (PipeReadEnd i) offset n s = pipe_read_at M i n s"
| "mem_read_at M (PipeWriteEnd i) offset n s = Some ([], Inl EPERM, s)"
| "mem_read_at M (TmpDir i) offset n s = None"
| "mem_read_at M (MountPoint root) offset n s = None"

fun mem_write_at :: "('fa, 'w, 'b) menv \<Rightarrow> mem_file \<Rightarrow> usize \<Rightarrow> u8 list \<Rightarrow> ('fa, 'w, 'b) mst \<Rightarrow> (('fa, 'w, 'b) mst, usize) vfsm" where
  "mem_write_at M (TmpFile i) offset xs s =
     Some (Inr (word_of_nat (length xs)), upd_file i (\<lambda>f. f\<lparr>tf_content := tmp_write_at (unat offset) xs (tf_content f)\<rparr>) s)"
| "mem_write_at M Stdin offset xs s = Some (Inl EPERM, s)"
| "mem_write_at M (PipeWriteEnd i) offset xs s = pipe_write_at M i xs s"
| "mem_write_at M (PipeReadEnd i) offset xs s = Some (Inl EPERM, s)"
| "mem_write_at M (TmpDir i) offset xs s = None"
| "mem_write_at M (MountPoint root) offset xs s = None"
| "mem_write_at M _ offset xs s = Some (Inr (word_of_nat (length xs)), s)"

fun mem_truncate :: "mem_file \<Rightarrow> usize \<Rightarrow> ('fa, 'w, 'b) mst \<Rightarrow> (('fa, 'w, 'b) mst, unit) vfsm" where
  "mem_truncate (TmpFile i) n s = Some (Inr (), upd_file i (\<lambda>f. f\<lparr>tf_content := resize (unat n) (tf_content f)\<rparr>) s)"
| "mem_truncate ZeroDev n s = Some (Inr (), s)"
| "mem_truncate _ n s = None"

definition TIOCGPGRP :: usize where "TIOCGPGRP = 0x540F"
definition TIOCSPGRP :: usize where "TIOCSPGRP = 0x5410"

fun mem_ioctl :: "('fa, 'w, 'b) menv \<Rightarrow> mem_file \<Rightarrow> usize \<Rightarrow> usize \<Rightarrow> ('fa, 'w, 'b) mst \<Rightarrow> (('fa, 'w, 'b) mst, usize) vfsm" where
  "mem_ioctl M (TTY i) cmd arg s = (
     if cmd = TIOCGPGRP then
       sys_bind (lift_sys (up_write (me_env M) arg (to_le 4 (ucast (mf_holding_pgid (snd s) i) :: u32)) (me_proc M)) s) (\<lambda>_ s. Some (Inr 0, s))
     else if cmd = TIOCSPGRP then
       sys_bind (lift_sys (up_read (me_env M) 4 arg (me_proc M)) s) (\<lambda>bs s.
         Some (Inr 0, fst s, (snd s)\<lparr>mf_holding_pgid := (mf_holding_pgid (snd s))(i := scast (from_le bs :: u32))\<rparr>))
     else Some (Inr 0, s))"
| "mem_ioctl M _ cmd arg s = Some (Inr 0, s)"

section \<open>Readiness\<close>

datatype 'w mem_future = Ready_Now "usize SysResult" | Never_Implemented
  | Await_Read nat "'w EventBusWaitForFuture" | Await_Write nat "'w EventBusWaitForFuture"

definition mem_poll_ready :: "('fa, 'w, 'b) menv \<Rightarrow> mem_file \<Rightarrow> usize \<Rightarrow> usize \<Rightarrow> PollKind \<Rightarrow> 'w mem_future" where
  "mem_poll_ready M f offset len pk = (case f of
     ZeroDev \<Rightarrow> Ready_Now (Inr len)
   | Stdin \<Rightarrow> Ready_Now (if pk = Poll_Read then Inr 1 else Inl EPERM)
   | TTY _ \<Rightarrow> Ready_Now (if pk = Poll_Read then Inr 1 else Inl EPERM)
   | Stdout \<Rightarrow> Ready_Now (if pk = Poll_Write then Inr len else Inl EPERM)
   | Stderr \<Rightarrow> Ready_Now (if pk = Poll_Write then Inr len else Inl EPERM)
   | PipeReadEnd i \<Rightarrow>
       if pk = Poll_Read then Await_Read i (wait_for_event Ev_Signal (me_waker M)) else Ready_Now (Inl EPERM)
   | PipeWriteEnd i \<Rightarrow>
       if pk = Poll_Write then Await_Write i (wait_for_event Ev_Signal (me_waker M)) else Ready_Now (Inl EPERM)
   | _ \<Rightarrow> Never_Implemented)"

text \<open>One poll of \<open>await_or_signal\<close> at a pipe.\<close>

definition mem_await ::
  "('fa, 'w, 'b) menv \<Rightarrow> nat \<Rightarrow> (('b, 'w) Pipe \<Rightarrow> (nat SysResult option \<times> ('b, 'w) Pipe) option) \<Rightarrow> 'w EventBusWaitForFuture \<Rightarrow>
   ('fa, 'w, 'b) mst \<Rightarrow> (usize SysResult option \<times> 'w EventBusWaitForFuture \<times> ('fa, 'w, 'b) mst) option" where
  "mem_await M i pipe_future f s = do {
     q \<leftarrow> k_procs (fst s) (me_proc M);
     (res, f, p, bus) \<leftarrow> await_or_signal_poll pipe_future f (mf_pipes (snd s) i, lp_event_bus q);
     bus \<leftarrow> (if res = None then Some bus else wait_drop f bus);
     Some (map_option (map_sum id word_of_nat) res, f, put_pipe (me_proc M) i p bus [] s) }"

definition mem_poll ::
  "('fa, 'w, 'b) menv \<Rightarrow> 'w mem_future \<Rightarrow> ('fa, 'w, 'b) mst \<Rightarrow> (usize SysResult option \<times> 'w mem_future \<times> ('fa, 'w, 'b) mst) option" where
  "mem_poll M q s = (case q of
     Ready_Now res \<Rightarrow> Some (Some res, q, s)
   | Never_Implemented \<Rightarrow> None
   | Await_Read i f \<Rightarrow> do {
       (res, f, s) \<leftarrow> mem_await M i (\<lambda>p. Some (read_future_poll (me_ring M) (me_waker M) p)) f s;
       Some (res, Await_Read i f, s) }
   | Await_Write i f \<Rightarrow> do {
       (res, f, s) \<leftarrow> mem_await M i (write_future_poll (me_ring M) (me_waker M)) f s;
       Some (res, Await_Write i f, s) })"

section \<open>Directories\<close>

fun mem_list :: "mem_file \<Rightarrow> ('fa, 'w, 'b) mst \<Rightarrow> (('fa, 'w, 'b) mst, (string \<times> mem_file) list) vfsm" where
  "mem_list (TmpDir i) s = Some (Inr (mf_children (snd s) i), s)"
| "mem_list (MountPoint root) s = mem_list root s"
| "mem_list _ s = None"

fun mem_lookup :: "mem_file \<Rightarrow> string \<Rightarrow> ('fa, 'w, 'b) mst \<Rightarrow> (('fa, 'w, 'b) mst, mem_file) vfsm" where
  "mem_lookup (TmpDir i) name s = Some (case bt_get name (mf_children (snd s) i) of Some f \<Rightarrow> Inr f | None \<Rightarrow> Inl ENOENT, s)"
| "mem_lookup (MountPoint root) name s = mem_lookup root name s"
| "mem_lookup _ name s = None"

text \<open>A new directory, or a new file stamped with the clock; other kinds panic.\<close>

definition tmp_new :: "VfsFileKind \<Rightarrow> ('fa, 'w, 'b) mst \<Rightarrow> (mem_file \<times> ('fa, 'w, 'b) mst) option" where
  "tmp_new fk s = (let v = snd s; i = mf_next v in
     if fk = Directory then Some (TmpDir i, fst s, v\<lparr>mf_children := (mf_children v)(i := []), mf_next := Suc i\<rparr>)
     else if fk = RegularFile then do {
       change \<leftarrow> umul (k_now (fst s)) 1000;
       Some (TmpFile i, fst s, v\<lparr>mf_files := (mf_files v)(i := \<lparr>tf_time = \<lparr>ti_access = 0, ti_modify = 0, ti_change = change\<rparr>, tf_content = []\<rparr>),
         mf_next := Suc i\<rparr>) }
     else None)"

fun mem_create :: "mem_file \<Rightarrow> string \<Rightarrow> VfsFileKind \<Rightarrow> ('fa, 'w, 'b) mst \<Rightarrow> (('fa, 'w, 'b) mst, mem_file) vfsm" where
  "mem_create (TmpDir i) name fk s = (
     if bt_get name (mf_children (snd s) i) \<noteq> None then Some (Inl EEXIST, s)
     else do {
       (f, s) \<leftarrow> tmp_new fk s;
       Some (Inr f, upd_children i (bt_insert name f (mf_children (snd s) i)) s) })"
| "mem_create (MountPoint root) name fk s = mem_create root name fk s"
| "mem_create _ name fk s = None"

fun mem_detach :: "mem_file \<Rightarrow> string \<Rightarrow> ('fa, 'w, 'b) mst \<Rightarrow> (('fa, 'w, 'b) mst, mem_file) vfsm" where
  "mem_detach (TmpDir i) name s = (case bt_get name (mf_children (snd s) i) of
     Some f \<Rightarrow> Some (Inr f, upd_children i (bt_remove name (mf_children (snd s) i)) s)
   | None \<Rightarrow> Some (Inl ENOENT, s))"
| "mem_detach (MountPoint root) name s = mem_detach root name s"
| "mem_detach _ name s = None"

fun mem_attach :: "mem_file \<Rightarrow> string \<Rightarrow> mem_file \<Rightarrow> ('fa, 'w, 'b) mst \<Rightarrow> (('fa, 'w, 'b) mst, unit) vfsm" where
  "mem_attach (TmpDir i) name f s = Some (
     case bt_get name (mf_children (snd s) i) of Some _ \<Rightarrow> Inl EEXIST | None \<Rightarrow> Inr (),
     upd_children i (bt_insert name f (mf_children (snd s) i)) s)"
| "mem_attach (MountPoint root) name f s = mem_attach root name f s"
| "mem_attach _ name f s = None"

definition mem_remove :: "mem_file \<Rightarrow> string \<Rightarrow> ('fa, 'w, 'b) mst \<Rightarrow> (('fa, 'w, 'b) mst, unit) vfsm" where
  "mem_remove d name s = sys_bind (mem_detach d name s) (\<lambda>_ s. Some (Inr (), s))"

section \<open>The operations as an instance of the interface\<close>

definition mem_vfs :: "('fa, 'w, 'b) menv \<Rightarrow> (mem_file, 'w mem_future, 'fa, 'w, ('b, 'w) memfs) vfs" where
  "mem_vfs M = \<lparr>vf_kind = (\<lambda>f _. mem_kind f), vf_device = (\<lambda>f _. mem_device f), vf_size = mem_size, vf_time = mem_time,
     vf_update_time = mem_update_time, vf_read_at = mem_read_at M, vf_write_at = mem_write_at M, vf_truncate = mem_truncate,
     vf_ioctl = mem_ioctl M, vf_poll_ready = mem_poll_ready M, vf_poll = mem_poll M, vf_list = mem_list, vf_lookup = mem_lookup,
     vf_create = mem_create, vf_remove = mem_remove, vf_detach = mem_detach, vf_attach = mem_attach, vf_root_dir = me_root M,
     vf_zero_dev = ZeroDev, vf_new_pipe = mem_new_pipe M, vf_mount_points = (\<lambda>s. mf_mounts (snd s))\<rparr>"

section \<open>Files of tmpfs\<close>

lemma overwrite_loop:
  "n \<le> length buf \<Longrightarrow> off + n \<le> length c \<Longrightarrow>
   fold (\<lambda>i c. c[i + off := buf ! i]) [0..<n] c = take off c @ take n buf @ drop (off + n) c"
proof (induction n)
  case (Suc n)
  let ?a = "take off c @ take n buf"
  have l: "length ?a = off + n" using Suc.prems by simp
  have "(?a @ drop (off + n) c)[off + n := buf ! n] = ?a @ (drop (off + n) c)[0 := buf ! n]"
    unfolding list_update_append l by simp
  also have "(drop (off + n) c)[0 := buf ! n] = buf ! n # drop (off + Suc n) c"
    using Suc.prems by (simp add: Cons_nth_drop_Suc [symmetric])
  finally show ?case using Suc by (simp add: take_Suc_conv_app_nth add.commute)
qed simp

lemma push_loop: "m + k \<le> length buf \<Longrightarrow> fold (\<lambda>i c. c @ [buf ! (i + k)]) [0..<m] c = c @ take m (drop k buf)"
  by (induction m) (auto simp: take_Suc_conv_app_nth add.commute)

text \<open>The loops of \<open>write_at\<close> put the buffer at the offset, behind zeros when the file ends before it.\<close>

lemma tmp_write_at_eq:
  "tmp_write_at off buf c = take off c @ replicate (off - length c) 0 @ buf @ drop (off + length buf) c"
proof -
  define d where "d = (if length c < off then resize off c else c)"
  have d: "off \<le> length d" "take off d = take off c @ replicate (off - length c) 0" "drop off d = drop off c"
    by (auto simp: d_def resize_def)
  let ?n = "min (length buf) (length d - off)"
  have "tmp_write_at off buf c = (take off d @ take ?n buf @ drop (off + ?n) d) @ take (length buf - ?n) (drop ?n buf)"
    using d (1) by (simp add: tmp_write_at_def d_def [symmetric] Let_def overwrite_loop push_loop)
  also have "\<dots> = take off d @ buf @ drop (length buf) (drop off d)"
    using d (1) by (cases "length buf \<le> length d - off") (auto simp: min_def add.commute)
  finally show ?thesis by (simp add: d add.commute)
qed

lemma tmp_read_at_eq:
  assumes "length c < 2 ^ 64"
  shows "tmp_read_at off n c = (if unat off \<le> length c then Some (take (unat n) (drop (unat off) c)) else None)"
  using assms by (auto simp: tmp_read_at_def usub_def unat_word_of_nat Let_def min_def unat_sub word_le_nat_alt split: if_splits)

end
