(* ===== verification/Syscall_Inv.thy ===== *)
theory Syscall_Inv
  imports Syscall_Dispatch
begin

text \<open>
  Every system call, and so the whole user loop, keeps the invariant of the process table. The proofs follow the text of the
  calls: a computation \<open>keeps\<close> a property of the state if it holds after every run that returns.
\<close>

section \<open>Computations that keep a property\<close>

named_theorems keeps_rules \<open>computations that keep a property of the state\<close>
named_theorems keeps_ops \<open>operations that keep the process table, as computations\<close>
named_theorems keeps_inv \<open>operations that keep the process table\<close>

definition keeps :: "('s \<Rightarrow> bool) \<Rightarrow> ('a \<times> 's) option \<Rightarrow> bool" where
  "keeps P m \<longleftrightarrow> (case m of None \<Rightarrow> True | Some (_, s) \<Rightarrow> P s)"

definition keeps_state :: "('s \<Rightarrow> bool) \<Rightarrow> 's option \<Rightarrow> bool" where
  "keeps_state P m \<longleftrightarrow> (case m of None \<Rightarrow> True | Some s \<Rightarrow> P s)"

lemma keepsD: "keeps P m \<Longrightarrow> m = Some (x, s) \<Longrightarrow> P s"
  by (simp add: keeps_def)

lemma keepsI: "(\<And>x s. m = Some (x, s) \<Longrightarrow> P s) \<Longrightarrow> keeps P m"
  by (simp add: keeps_def split: option.splits prod.splits)

lemma keeps_stateD: "keeps_state P m \<Longrightarrow> m = Some s \<Longrightarrow> P s"
  by (simp add: keeps_state_def)

lemma keeps_stateI: "(\<And>s. m = Some s \<Longrightarrow> P s) \<Longrightarrow> keeps_state P m"
  by (simp add: keeps_state_def split: option.splits)

lemma keeps_return [keeps_rules]: "P s \<Longrightarrow> keeps P (Some (x, s))" "P s \<Longrightarrow> keeps_state P (Some s)"
  "keeps P None" "keeps_state P None"
  by (simp_all add: keeps_def keeps_state_def)

lemma keeps_bind [keeps_rules]: "keeps P m \<Longrightarrow> (\<And>x s. P s \<Longrightarrow> keeps P (f x s)) \<Longrightarrow> keeps P (sys_bind m f)"
  by (rule keepsI) (auto simp: sys_bind_eq_Some dest: keepsD)

lemma keeps_opt:
  "keeps P m \<Longrightarrow> (\<And>x s. P s \<Longrightarrow> keeps P (f x s)) \<Longrightarrow> keeps P (Option.bind m (case_prod f))"
  "keeps P m \<Longrightarrow> (\<And>x s. P s \<Longrightarrow> keeps_state P (g x s)) \<Longrightarrow> keeps_state P (Option.bind m (case_prod g))"
  "keeps_state P n \<Longrightarrow> (\<And>s. P s \<Longrightarrow> keeps P (h s)) \<Longrightarrow> keeps P (Option.bind n h)"
  "keeps_state P n \<Longrightarrow> (\<And>s. P s \<Longrightarrow> keeps_state P (l s)) \<Longrightarrow> keeps_state P (Option.bind n l)"
  by (rule keepsI keeps_stateI; auto simp: bind_eq_Some_conv dest: keepsD keeps_stateD)+

lemma keeps_cases:
  assumes "keeps P m" "\<And>x s. P s \<Longrightarrow> keeps P (f x s)"
  shows "keeps P (case m of None \<Rightarrow> None | Some (Inl e, s) \<Rightarrow> Some (Inl e, s) | Some (Inr x, s) \<Rightarrow> f x s)"
  using assms keepsD [OF assms(1)] by (auto intro: keeps_return split: option.splits sum.splits)

lemma keeps_handler:
  "keeps (\<lambda>u. P (snd u)) m \<Longrightarrow> (\<And>x y s. P s \<Longrightarrow> keeps P (f x y s)) \<Longrightarrow> keeps P (Option.bind m (\<lambda>(x, y, s). f x y s))"
  by (cases m) (auto simp: keeps_def)

text \<open>A computation that only looks at the state.\<close>

lemma keeps_look: "(\<And>x. m = Some x \<Longrightarrow> keeps P (f x)) \<Longrightarrow> keeps P (Option.bind m f)"
  "(\<And>x. m = Some x \<Longrightarrow> keeps_state P (g x)) \<Longrightarrow> keeps_state P (Option.bind m g)"
  by (cases m; simp add: keeps_return)+

lemma keeps_split [keeps_rules]:
  "keeps P a \<Longrightarrow> keeps P b \<Longrightarrow> keeps P (if c then a else b)"
  "keeps_state P d \<Longrightarrow> keeps_state P e \<Longrightarrow> keeps_state P (if c then d else e)"
  "keeps P a \<Longrightarrow> (\<And>x. keeps P (f x)) \<Longrightarrow> keeps P (case u of None \<Rightarrow> a | Some x \<Rightarrow> f x)"
  "(\<And>x. keeps P (g x)) \<Longrightarrow> (\<And>x. keeps P (h x)) \<Longrightarrow> keeps P (case v of Inl x \<Rightarrow> g x | Inr x \<Rightarrow> h x)"
  "(\<And>x y. keeps P (l x y)) \<Longrightarrow> keeps P (case w of (x, y) \<Rightarrow> l x y)"
  "(\<And>x y. keeps P (n x y s)) \<Longrightarrow> keeps P ((case w of (x, y) \<Rightarrow> n x y) s)"
  by (simp_all split: option.splits sum.splits prod.splits)

lemma keeps_bind_split [keeps_rules]:
  "keeps P (f x) \<Longrightarrow> keeps P (Option.bind (Some x) f)"
  "keeps P (Option.bind a f) \<Longrightarrow> keeps P (Option.bind b f) \<Longrightarrow> keeps P (Option.bind (if c then a else b) f)"
  "keeps P (Option.bind a f) \<Longrightarrow> (\<And>x. keeps P (Option.bind (g x) f)) \<Longrightarrow> keeps P (Option.bind (case u of None \<Rightarrow> a | Some x \<Rightarrow> g x) f)"
  by (simp_all split: option.splits)

lemma keeps_split_return [keeps_rules]:
  "keeps P (Some a) \<Longrightarrow> keeps P (Some b) \<Longrightarrow> keeps P (Some (if c then a else b))"
  "keeps P (Some a) \<Longrightarrow> (\<And>x. keeps P (Some (f x))) \<Longrightarrow> keeps P (Some (case u of None \<Rightarrow> a | Some x \<Rightarrow> f x))"
  "(\<And>x. keeps P (Some (g x))) \<Longrightarrow> (\<And>x. keeps P (Some (h x))) \<Longrightarrow> keeps P (Some (case v of Inl x \<Rightarrow> g x | Inr x \<Rightarrow> h x))"
  "(\<And>x y. keeps P (Some (l x y))) \<Longrightarrow> keeps P (Some (case w of (x, y) \<Rightarrow> l x y))"
  by (simp_all split: option.splits sum.splits prod.splits)

lemma keeps_lift [keeps_rules]: "keeps P (f (fst s)) \<Longrightarrow> keeps (\<lambda>s. P (fst s)) (lift_sys f s)"
  by (rule keepsI) (auto simp: lift_sys_def bind_eq_Some_conv dest: keepsD)

abbreviation s_inv :: "('f, 'fa, 'w, 'v) sst \<Rightarrow> bool" where
  "s_inv s \<equiv> k_inv (fst s)"

section \<open>Parts of the state\<close>

lemma k_inv_tables [keeps_inv]:
  assumes "k_inv k"
  shows "k_inv (k\<lparr>k_fdtables := a\<rparr>)" "k_inv (k\<lparr>k_fds := b\<rparr>)" "k_inv (k\<lparr>k_signals := c\<rparr>)" "k_inv (k\<lparr>k_fsinfos := d\<rparr>)"
  using assms by (simp_all add: k_inv_def k_core_def lp_inv_def pids_def)

lemmas table_parts [keeps_inv] = k_inv_cells clear_signal_inv set_field_inv

lemma keeps_links_fields:
  "keeps_links (\<lambda>p. p\<lparr>lp_context := f (lp_context p)\<rparr>)" "keeps_links (\<lambda>p. p\<lparr>lp_context := c\<rparr>)"
  "keeps_links (\<lambda>p. p\<lparr>lp_private_info := i (lp_private_info p)\<rparr>)" "keeps_links (\<lambda>p. p\<lparr>lp_exe_path := e\<rparr>)"
  "keeps_links (\<lambda>p. p\<lparr>lp_shm_table := t\<rparr>)" "keeps_links (\<lambda>p. p\<lparr>lp_timer := ti\<rparr>)"
  "keeps_links (\<lambda>p. p\<lparr>lp_timer_map := m (lp_timer_map p)\<rparr>)"
  by (simp_all add: keeps_links_def lp_cells_def)

lemma upd_fields_inv [keeps_inv]:
  assumes "k_inv k"
  shows "k_inv (upd_lproc r (\<lambda>p. p\<lparr>lp_context := f (lp_context p)\<rparr>) k)" "k_inv (upd_lproc r (\<lambda>p. p\<lparr>lp_context := c\<rparr>) k)"
    "k_inv (upd_lproc r (\<lambda>p. p\<lparr>lp_private_info := i (lp_private_info p)\<rparr>) k)" "k_inv (upd_lproc r (\<lambda>p. p\<lparr>lp_exe_path := e\<rparr>) k)"
    "k_inv (upd_lproc r (\<lambda>p. p\<lparr>lp_shm_table := t\<rparr>) k)" "k_inv (upd_lproc r (\<lambda>p. p\<lparr>lp_timer := ti\<rparr>) k)"
    "k_inv (upd_lproc r (\<lambda>p. p\<lparr>lp_timer_map := m (lp_timer_map p)\<rparr>) k)"
  using assms by (simp_all add: upd_lproc_inv keeps_links_fields)

lemma mgr_get_inv [keeps_inv]: "k_inv k \<Longrightarrow> k_inv (snd (mgr_get pid k))"
proof -
  assume i: "k_inv k"
  have "k_procs k r \<noteq> None" if "bt_get pid (k_mgr k) = Some r" for r
    using i that by (auto simp: k_inv_def k_core_def)
  then show ?thesis using i by (auto simp: mgr_get_def split: option.splits)
qed

section \<open>User memory\<close>

lemma user_store_keeps [keeps_ops]: "k_inv k \<Longrightarrow> keeps_state k_inv (upd_umem f r k)" "k_inv k \<Longrightarrow> keeps_state k_inv (user_store va bs r k)"
  by (auto intro!: keeps_stateI simp: user_store_def upd_umem_def bind_eq_Some_conv k_inv_cells)

lemma lproc_pagefault_keeps [keeps_ops]: "k_inv k \<Longrightarrow> keeps k_inv (lproc_pagefault E va acc r k)"
  by (rule keepsI) (auto simp: lproc_pagefault_def bind_eq_Some_conv Let_def k_inv_cells)

lemma test_fn_keeps [keeps_ops]: "k_inv k \<Longrightarrow> keeps k_inv (test_fn E acc va r k)"
  unfolding test_fn_def Let_def
  by ((rule keeps_rules | (rule keeps_opt, rule keeps_ops, (simp add: keeps_inv; fail)) | rule keeps_look | (simp add: keeps_inv; fail))+)

lemma ensure_page_keeps [keeps_ops]: "k_inv k \<Longrightarrow> keeps k_inv (ensure_page E acc va r k)"
  unfolding ensure_page_def
  by ((rule keeps_rules | (rule keeps_opt, rule keeps_ops, (simp add: keeps_inv; fail)) | rule keeps_look | (simp add: keeps_inv; fail))+)

lemma ensure_loop_keeps:
  assumes f: "\<And>cur n s. k_inv (snd s) \<Longrightarrow> keeps (\<lambda>s. k_inv (snd s)) (f cur n s)"
  shows "k_inv (snd s) \<Longrightarrow> keeps (\<lambda>s. k_inv (snd s)) (ensure_loop E acc r f len cur readable s)"
  using f
proof (induction E acc r f len cur readable s rule: ensure_loop.induct)
  case (1 E acc r f len cur readable s)
  show ?case
  proof (rule keepsI)
    fix x s' assume run: "ensure_loop E acc r f len cur readable s = Some (x, s')"
    show "k_inv (snd s')"
    proof (cases "len \<le> readable")
      case True
      then show ?thesis using run 1 (2) by (auto simp: ensure_loop.simps [of E acc r f len cur] k_inv_cells)
    next
      case False
      obtain res k where page: "ensure_page E acc cur r (snd s) = Some (res, k)"
        using run False by (cases "ensure_page E acc cur r (snd s)") (auto simp: ensure_loop.simps [of E acc r f len cur])
      have ki: "k_inv k" using keepsD [OF ensure_page_keeps [OF 1 (2)] page] .
      show ?thesis
      proof (cases res)
        case (Inl e)
        then show ?thesis using run False page ki by (auto simp: ensure_loop.simps [of E acc r f len cur])
      next
        case (Inr u)
        obtain nxt cf s1 where n: "next_page (round_down cur) = Some nxt" "f cur (nxt - cur) (fst s, k) = Some (cf, s1)"
          using run False page Inr by (auto simp: ensure_loop.simps [of E acc r f len cur] split: option.splits)
        have s1: "k_inv (snd s1)" using keepsD [OF 1 (3) n (2)] ki by simp
        show ?thesis
        proof (cases cf)
          case (Break b)
          then show ?thesis using run False page Inr n s1 by (cases b) (auto simp: ensure_loop.simps [of E acc r f len cur])
        next
          case Continue
          obtain rd where rd: "uadd readable (nxt - cur) = Some rd" "ensure_loop E acc r f len nxt rd s1 = Some (x, s')"
            using run False page Inr n Continue by (auto simp: ensure_loop.simps [of E acc r f len cur] split: option.splits)
          show ?thesis
            using keepsD [OF 1 (1) [OF False page, of "Inr u" k u, OF _ _ n (1) n (2), of cf s1] rd (2)] Inr Continue rd (1) s1 1 (3)
            by blast
        qed
      qed
    qed
  qed
qed

lemma ensure_area_keeps:
  assumes "\<And>cur n s. k_inv (snd s) \<Longrightarrow> keeps (\<lambda>s. k_inv (snd s)) (f cur n s)" "k_inv (snd s)"
  shows "keeps (\<lambda>s. k_inv (snd s)) (ensure_user_area E beg len acc r f s)"
  using assms ensure_loop_keeps [OF assms (1), where s = "(fst s, (snd s)\<lparr>k_rw_trap := True\<rparr>)"]
  by (simp add: ensure_user_area_def keeps_return k_inv_cells)

lemma keeps_area:
  assumes "\<And>cur n s. k_inv (snd s) \<Longrightarrow> keeps (\<lambda>s. k_inv (snd s)) (f cur n s)" "k_inv k"
    and "\<And>res x k. k_inv k \<Longrightarrow> keeps k_inv (g res x k)"
  shows "keeps k_inv (Option.bind (ensure_user_area E beg len acc r f (st, k)) (\<lambda>(res, x, k). g res x k))"
proof (rule keepsI)
  fix y k' assume "Option.bind (ensure_user_area E beg len acc r f (st, k)) (\<lambda>(res, x, k). g res x k) = Some (y, k')"
  then obtain res x k1 where e: "ensure_user_area E beg len acc r f (st, k) = Some (res, x, k1)" and g: "g res x k1 = Some (y, k')"
    by (auto simp: bind_eq_Some_conv)
  have "k_inv k1" using keepsD [OF ensure_area_keeps [of f "(st, k)"] e] assms (1, 2) by simp
  then show "k_inv k'" using keepsD [OF assms (3) g] by simp
qed

lemma just_ensure_keeps [keeps_ops]: "k_inv k \<Longrightarrow> keeps k_inv (just_ensure_user_area E beg len acc r k)"
  unfolding just_ensure_user_area_def by (rule keeps_area) (simp_all add: keeps_return)

lemma read_piece_keeps: "k_inv (snd s) \<Longrightarrow> keeps (\<lambda>s. k_inv (snd s)) (read_cstr_piece r cur n s)"
  unfolding read_cstr_piece_def Let_def by (cases s) (auto intro!: keeps_rules keeps_look)

lemma write_piece_keeps: "k_inv (snd s) \<Longrightarrow> keeps (\<lambda>s. k_inv (snd s)) (write_cstr_piece r cur n s)"
  by (auto intro!: keepsI simp: write_cstr_piece_def bind_eq_Some_conv Let_def split: prod.split_asm if_split_asm
      dest!: keeps_stateD [OF user_store_keeps (2), rotated])

lemma up_read_cstr_keeps [keeps_ops]: "k_inv k \<Longrightarrow> keeps k_inv (up_read_cstr E ptr r k)"
  unfolding up_read_cstr_def
  by (rule keeps_look, rule keeps_area [OF read_piece_keeps]) (simp_all add: keeps_return split_beta)

lemma up_write_cstr_keeps [keeps_ops]: "k_inv k \<Longrightarrow> keeps k_inv (up_write_cstr E ptr val r k)"
  unfolding up_write_cstr_def
  by (rule keeps_look, rule keeps_look, rule keeps_area [OF write_piece_keeps]) (simp_all add: keeps_return split_beta)

lemma user_pointers_keep [keeps_ops]:
  assumes "k_inv k"
  shows "keeps k_inv (up_read E sz ptr r k)" "keeps k_inv (up_as_slice E sz ptr n r k)" "keeps k_inv (up_as_mut_slice E sz ptr n r k)"
    "keeps k_inv (up_write E ptr val r k)" "keeps k_inv (up_write_array E sz ptr vals r k)"
  unfolding up_read_def up_as_slice_def up_as_mut_slice_def up_write_def up_write_array_def using assms
  by - ((rule keeps_rules keeps_ops | (rule keeps_opt, rule keeps_ops, (simp add: keeps_inv; fail)) | rule keeps_look | (simp add: keeps_inv; fail))+)

lemma up_read_array_keeps [keeps_ops]: "k_inv k \<Longrightarrow> keeps k_inv (up_read_array E sz ptr n r k)"
  unfolding up_read_array_def
  by ((rule keeps_rules keeps_ops | (rule keeps_opt, rule keeps_ops, (simp add: keeps_inv; fail)) | rule keeps_look | (simp add: keeps_inv; fail))+)

section \<open>Calls on the kernel state\<close>

lemma call_parts_keep [keeps_ops]:
  assumes "k_inv k"
  shows "keeps k_inv (write_out E ptr bs r k)" "keeps k_inv (write_rem E ptr r k)"
  unfolding write_rem_def write_out_def using assms
  by - ((rule keeps_rules keeps_ops | (rule keeps_opt, rule keeps_ops, (simp add: keeps_inv; fail)) | rule keeps_look | (simp add: keeps_inv; fail))+)

lemma clock_calls_keep [keeps_ops]:
  assumes "k_inv k"
  shows "keeps k_inv (sys_uname E r k)" "keeps k_inv (sys_gettimeofday E r k)" "keeps k_inv (sys_clockgettime E r k)"
    "keeps k_inv (sys_times E r k)" "keeps k_inv (sys_clock_getres E r k)" "keeps k_inv (sys_getrusage E r k)"
    "keeps k_inv (sys_sched_getaffinity E r k)"
  unfolding sys_uname_def sys_gettimeofday_def sys_clockgettime_def sys_times_def sys_clock_getres_def sys_getrusage_def
    sys_sched_getaffinity_def Let_def using assms
  by - ((rule keeps_rules keeps_ops | (rule keeps_opt, rule keeps_ops, (simp add: keeps_inv; fail)) | rule keeps_look | (simp add: keeps_inv; fail))+)

lemma target_keeps [keeps_ops]: "k_inv k \<Longrightarrow> keeps k_inv (target_lproc pid r k)"
  using mgr_get_inv [of k pid] by (auto simp: target_lproc_def keeps_def split: prod.splits)

lemma send_signal_keeps [keeps_ops]: "k_inv k \<Longrightarrow> keeps_state k_inv (lproc_send_signal signum r k)"
  by (rule keeps_stateI) (rule send_signal_inv)

lemma foldM_keeps:
  assumes "\<And>x s. P s \<Longrightarrow> keeps_state P (f x s)"
  shows "P s \<Longrightarrow> keeps_state P (foldM f xs s)"
proof (induction xs arbitrary: s)
  case (Cons x xs)
  then show ?case using keeps_opt (4) [OF assms] by simp
qed (simp add: keeps_return)

lemma kill_children_keeps [keeps_ops]: "k_inv k \<Longrightarrow> keeps_state k_inv (kill_children signum g cs k)"
  unfolding kill_children_def
  by (rule foldM_keeps)
    ((rule keeps_rules keeps_ops | (rule keeps_opt, rule keeps_ops, (simp add: keeps_inv; fail)) | rule keeps_look | (simp add: keeps_inv; fail))+)

lemma process_calls_keep [keeps_ops]:
  assumes "k_inv k"
  shows "keeps k_inv (sys_getpid r k)" "keeps k_inv (sys_gettid r k)" "keeps k_inv (sys_getppid r k)"
    "keeps k_inv (sys_set_tid_address r k)" "keeps k_inv (sys_getpgid r k)" "keeps k_inv (sys_setpgid r k)"
    "keeps k_inv (sys_prlimit E r k)" "keeps k_inv (sys_getcwd E r k)" "keeps k_inv (sys_kill r k)" "keeps k_inv (sys_tkill r k)"
    "keeps k_inv (sys_sigaction enc dec E r k)" "keeps k_inv (call_sigreturn r k)"
  unfolding sys_getpid_def sys_gettid_def sys_getppid_def sys_set_tid_address_def sys_getpgid_def sys_setpgid_def sys_prlimit_def
    sys_getcwd_def sys_kill_def sys_tkill_def sys_sigaction_def call_sigreturn_def Let_def using assms
  by - ((rule keeps_rules keeps_ops | (rule keeps_opt, rule keeps_ops, (simp add: keeps_inv; fail)) | rule keeps_look | (simp add: keeps_inv; fail))+)

lemma clone_parts_keep [keeps_ops]:
  assumes "k_inv k"
  shows "keeps k_inv (do_clone K flags us r k)" "keeps k_inv (checked_write_u32 E n ptr v r k)"
  using assms by (auto intro!: keepsI simp: checked_write_u32_def bind_eq_Some_conv split: if_splits
      dest: do_clone_inv keeps_stateD [OF user_store_keeps (2), rotated])

lemma clone_keeps [keeps_ops]:
  assumes "k_inv k"
  shows "keeps k_inv (clone_settid E flags pt ct n r k)" "keeps k_inv (sys_clone E r k)"
  unfolding sys_clone_def clone_settid_def spawn_proc_def Let_def using assms
  by - ((rule keeps_rules keeps_ops | (rule keeps_opt, rule keeps_ops, (simp add: keeps_inv; fail)) | rule keeps_look | (simp add: keeps_inv; fail))+)

lemma memory_calls_keep [keeps_ops]:
  assumes "k_inv k"
  shows "keeps k_inv (sys_brk r k)" "keeps k_inv (sys_mmap r k)" "keeps k_inv (sys_munmap E r k)" "keeps k_inv (sys_mprotect r k)"
    "keeps k_inv (sys_shmget E r k)" "keeps k_inv (sys_shmat E r k)" "keeps k_inv (sys_shmdt E r k)" "keeps k_inv (sys_shmctl E r k)"
  unfolding sys_brk_def sys_mmap_def sys_munmap_def sys_mprotect_def sys_shmget_def sys_shmat_def sys_shmdt_def sys_shmctl_def
    mmap_result_def shm_result_def set_areas_def set_space_def set_shm_table_def Let_def using assms
  by - ((rule keeps_rules keeps_ops | (rule keeps_opt, rule keeps_ops, (simp add: keeps_inv; fail)) | rule keeps_look | (simp add: keeps_inv; fail))+)

lemma call_after_keeps [keeps_ops]: "k_inv k \<Longrightarrow> keeps_state k_inv (call_after ms c k)"
  by (rule keeps_stateI) (auto simp: call_after_def bind_eq_Some_conv k_inv_cells)

lemma setitimer_keeps [keeps_ops]: "k_inv k \<Longrightarrow> keeps k_inv (sys_setitimer E r k)"
  unfolding sys_setitimer_def Let_def
  by ((rule keeps_rules keeps_ops | (rule keeps_opt, rule keeps_ops, (simp add: keeps_inv; fail)) | rule keeps_look | (simp add: keeps_inv; fail))+)

lemma run_delayed_keeps [keeps_ops]: "k_inv k \<Longrightarrow> keeps_state k_inv (run_delayed c k)"
proof (induction c k rule: run_delayed.induct)
  fix pid k assume "k_inv (k :: ('a, 'b, 'c) kstate)"
  then have "k_inv k'" if "mgr_get pid k = (t, k')" for t k' using mgr_get_inv [of k pid] that by simp
  note m = this
  show "keeps_state k_inv (run_delayed (One_Shot pid i) k)" "keeps_state k_inv (run_delayed (Periodic pid i period) k)"
    "keeps_state k_inv (run_delayed (Periodic_Again pid i) k)" for i period
    using m by (auto simp: Let_def keeps_inv split: option.splits prod.splits
        intro!: keeps_look keeps_opt (4) keeps_split (2) keeps_return keeps_ops intro: send_signal_inv)
qed

lemma timer_tick_keeps [keeps_ops]: "k_inv k \<Longrightarrow> keeps_state k_inv (timer_tick k)"
  by (auto simp: timer_tick_def k_inv_cells keeps_ops split: prod.splits intro!: foldM_keeps)

lemma exit_calls_keep:
  assumes "k_inv k"
  shows "sys_exit r k = Some (res, x, k') \<Longrightarrow> k_inv k'" "sys_futex r k = Some (res, x, k') \<Longrightarrow> k_inv k'"
    "sys_exitgroup r k = Some (res, x, k') \<Longrightarrow> k_inv k'"
proof -
  have fold: "k_inv (fold (\<lambda>(_, lp) k. set_exit_code c lp (set_status STOPPED lp k)) ms k)" for c and ms :: "(usize \<times> nat) list"
    using assms by (induction ms arbitrary: k) (auto simp: set_field_inv)
  show "sys_exit r k = Some (res, x, k') \<Longrightarrow> k_inv k'" "sys_futex r k = Some (res, x, k') \<Longrightarrow> k_inv k'"
    "sys_exitgroup r k = Some (res, x, k') \<Longrightarrow> k_inv k'"
    using assms fold by (auto simp: sys_futex_def sys_exit_def sys_exitgroup_def bind_eq_Some_conv Let_def keeps_inv)
qed

lemma wait_round_keeps: "k_inv k \<Longrightarrow> keeps k_inv (wait_round options pid r k)"
  by (rule keepsI)
    (auto simp: wait_round_def bind_eq_Some_conv split: if_splits option.splits
      intro!: clear_signal_inv dest: remove_child_inv [rotated])

section \<open>Calls on files, and calls that wait\<close>

text \<open>What the calls rely on: the methods of the files and the other tasks keep the process table.\<close>

definition h_keeps :: "('f, 'fa, 'w, 'v) handler \<Rightarrow> bool" where
  "h_keeps h \<longleftrightarrow> (\<forall>s. s_inv s \<longrightarrow> keeps (\<lambda>u. s_inv (snd u)) (h s))"

lemma h_io_keeps: "(\<And>s. s_inv s \<Longrightarrow> keeps s_inv (f s)) \<Longrightarrow> h_keeps (h_io f)"
  unfolding h_keeps_def h_io_def by (auto simp: bind_eq_Some_conv intro!: keepsI) (metis fst_conv keepsD)

lemma handlers_keep: "(\<And>k. k_inv k \<Longrightarrow> keeps k_inv (g k)) \<Longrightarrow> h_keeps (h_sys g)" "h_keeps do_nothing" "h_keeps (\<lambda>_. None)"
  unfolding h_sys_def by (rule h_io_keeps, rule keeps_lift) (auto simp: h_keeps_def do_nothing_def keeps_def)

lemma exit_handlers_keep: "h_keeps (h_exit (sys_exit r))" "h_keeps (h_exit (sys_futex r))" "h_keeps (h_exit (sys_exitgroup r))"
  by (auto simp: h_keeps_def h_exit_def bind_eq_Some_conv intro!: keepsI dest!: exit_calls_keep [rotated])

locale kernel_files =
  fixes V :: "('f, 'q, 'fa, 'w, 'v) vfs" and Y :: "('f, 'fa, 'w, 'v) sst \<Rightarrow> ('f, 'fa, 'w, 'v) sst"
  assumes yield_inv: "s_inv s \<Longrightarrow> s_inv (Y s)"
    and attr_inv: "s_inv s \<Longrightarrow> keeps s_inv (vf_size V f s)" "s_inv s \<Longrightarrow> keeps s_inv (vf_time V f s)"
      "s_inv s \<Longrightarrow> keeps s_inv (vf_update_time V f c s)"
    and read_inv: "s_inv s \<Longrightarrow> vf_read_at V f off n s = Some (bs, res, s') \<Longrightarrow> s_inv s'"
    and write_inv: "s_inv s \<Longrightarrow> keeps s_inv (vf_write_at V f off xs s)" "s_inv s \<Longrightarrow> keeps s_inv (vf_truncate V f n s)"
      "s_inv s \<Longrightarrow> keeps s_inv (vf_ioctl V f cmd arg s)"
    and poll_inv: "s_inv s \<Longrightarrow> vf_poll V q s = Some (res', q', s') \<Longrightarrow> s_inv s'"
    and dir_inv: "s_inv s \<Longrightarrow> keeps s_inv (vf_list V f s)" "s_inv s \<Longrightarrow> keeps s_inv (vf_lookup V f name s)"
      "s_inv s \<Longrightarrow> keeps s_inv (vf_create V f name fk s)" "s_inv s \<Longrightarrow> keeps s_inv (vf_remove V f name s)"
      "s_inv s \<Longrightarrow> keeps s_inv (vf_detach V f name s)" "s_inv s \<Longrightarrow> keeps s_inv (vf_attach V f name g s)"
    and pipe_inv: "s_inv s \<Longrightarrow> vf_new_pipe V s = (f1, f2, s') \<Longrightarrow> s_inv s'"
begin

lemmas file_laws [keeps_ops] = attr_inv write_inv dir_inv

lemma resolve_keeps [keeps_ops]: "s_inv s \<Longrightarrow> keeps s_inv (vf_resolve V f p s)"
proof -
  have "s_inv s \<Longrightarrow> keeps s_inv (resolve_names V f ns s)" for ns
    by (induction ns arbitrary: f s) (auto intro!: keeps_rules keeps_ops)
  then show "s_inv s \<Longrightarrow> keeps s_inv (vf_resolve V f p s)" by (simp add: vf_resolve_def)
qed

lemma fd_parts_keep [keeps_ops]:
  assumes "s_inv s"
  shows "keeps s_inv (get_fd fd r s)" "keeps s_inv (with_fdtable r g s)" "keeps s_inv (read_into V f off buf len r s)"
    "keeps_state s_inv (replace_cr buf r s)"
  using assms
  by (auto intro!: keepsI keeps_stateI simp: get_fd_def with_fdtable_def read_into_def replace_cr_def bind_eq_Some_conv k_inv_tables
      split: if_splits dest!: read_inv [rotated] keeps_stateD [OF user_store_keeps (2), rotated])

text \<open>\<open>read_at\<close> and \<open>poll\<close> give the state last.\<close>

lemma keeps_read:
  assumes "s_inv s" "\<And>bs res s. s_inv s \<Longrightarrow> keeps s_inv (g bs res s)"
  shows "keeps s_inv (Option.bind (vf_read_at V f off n s) (\<lambda>(bs, res, s). g bs res s))"
  using assms (2) read_inv [OF assms (1)] by (auto intro!: keeps_look split: prod.splits)

lemma at_keeps [keeps_ops]:
  assumes "s_inv s"
  shows "keeps s_inv (lookup_helper V f name s)" "keeps s_inv (dir_and_last V f p s)" 
  unfolding lookup_helper_def dir_and_last_def using assms
  by - ((rule keeps_rules keeps_ops | (rule keeps_opt, rule keeps_ops, (simp add: keeps_inv; fail)) | rule keeps_look | (simp add: keeps_inv; fail))+)

lemma at_helper_keeps [keeps_ops]: "s_inv s \<Longrightarrow> keeps s_inv (at_helper V dfd name r s)"
  unfolding at_helper_def Let_def
  by ((rule keeps_rules keeps_ops | (rule keeps_opt, rule keeps_ops, (simp add: keeps_inv; fail)) | rule keeps_look | (simp add: keeps_inv; fail))+)

lemma rw_calls_keep [keeps_ops]:
  assumes "s_inv s"
  shows "keeps s_inv (sys_write E V r s)" "keeps s_inv (sys_read E V r s)" "keeps s_inv (sys_pread E V r s)"
    "keeps s_inv (sys_pwrite E V r s)" "keeps s_inv (sys_ioctl V r s)"
  unfolding sys_write_def sys_read_def sys_pread_def sys_pwrite_def sys_ioctl_def upd_fds_def Let_def using assms
  by - ((rule keeps_rules keeps_ops | (rule keeps_opt, rule keeps_ops, (simp add: keeps_inv; fail)) | rule keeps_look | (simp add: keeps_inv; fail))+)

lemma rwv_loops_keep [keeps_ops]:
  "s_inv s \<Longrightarrow> keeps s_inv (writev_loop E V skip f r off n iovs s)"
  "s_inv s \<Longrightarrow> keeps s_inv (readv_loop E V skip f r off n iovs s)"
proof (induction iovs arbitrary: off n s)
  case (Cons io iovs)
  {
    case 1
    then show ?case using Cons.IH (1) by (cases io; cases s) (auto intro!: keeps_rules keeps_ops keeps_look)
  next
    case 2
    then show ?case using Cons.IH (2) by (cases io; cases s) (auto intro!: keeps_rules keeps_ops keeps_look)
  }
qed (simp_all add: keeps_return)

lemma rwv_calls_keep [keeps_ops]:
  assumes "s_inv s"
  shows "keeps s_inv (sys_writev E V r s)" "keeps s_inv (sys_readv E V r s)" "keeps s_inv (sys_preadv E V r s)"
    "keeps s_inv (sys_pwritev E V r s)"
  unfolding sys_writev_def sys_readv_def sys_preadv_def sys_pwritev_def upd_fds_def Let_def using assms
  by - ((rule keeps_rules keeps_ops | (rule keeps_opt, rule keeps_ops, (simp add: keeps_inv; fail)) | rule keeps_look | (simp add: keeps_inv; fail))+)

lemma keeps_pipe:
  assumes "s_inv s" "\<And>a b s. s_inv s \<Longrightarrow> keeps s_inv (g a b s)"
  shows "keeps s_inv (case vf_new_pipe V s of (a, b, s) \<Rightarrow> g a b s)"
  using assms (2) pipe_inv [OF assms (1)] by (auto split: prod.splits)

lemma copy_parts_keep [keeps_ops]:
  assumes "s_inv s"
  shows "keeps s_inv (off_get E ptr a r s)" "keeps s_inv (off_put E ptr a off r s)" "keeps s_inv (sys_pipe E V r s)" "keeps s_inv (sys_lseek V r s)"
  unfolding off_get_def off_put_def sys_pipe_def sys_lseek_def upd_fds_def Let_def using assms
  by - ((rule keeps_pipe | rule keeps_rules keeps_ops | (rule keeps_opt, rule keeps_ops, (simp add: keeps_inv; fail)) | rule keeps_look
      | (simp add: keeps_inv; fail))+)

lemma copy_keeps [keeps_ops]: "s_inv s \<Longrightarrow> keeps s_inv (sys_copy_file_range E V r s)"
  unfolding sys_copy_file_range_def Let_def
  by ((rule keeps_rules keeps_ops keeps_read | (rule keeps_opt, rule keeps_ops, (simp add: keeps_inv; fail)) | rule keeps_look
      | (simp add: keeps_inv; fail))+)

lemma follow_keeps [keeps_ops]:
  assumes "s_inv s"
  shows "keeps s_inv (follow_links V p f s)"
proof -
  have "follow_links W p f s = Some y \<Longrightarrow> W = V \<longrightarrow> s_inv s \<longrightarrow> s_inv (snd y)" for W y
  proof (erule follow_links.raw_induct [rotated, where P = "\<lambda>W p f s y. W = V \<longrightarrow> s_inv s \<longrightarrow> s_inv (snd y)"], intro impI, goal_cases)
    case (1 follow W p f s y)
    show "s_inv (snd y)"
    proof (cases "vf_read_at V f 0 512 s")
      case (Some x)
      obtain bs res s1 where x: "x = (bs, res, s1)" by (cases x)
      have s1: "s_inv s1" using read_inv [OF 1 (4)] Some x by blast
      have "s_inv s2" if "vf_resolve V (vf_root_dir V) q s1 = Some (r2, s2)" for q r2 s2
        using keepsD [OF resolve_keeps [OF s1] that] .
      then show ?thesis
        using 1 s1 Some x by (cases res; cases y) (auto split: if_split_asm option.split_asm sum.split_asm)
    qed (use 1 in \<open>auto split: if_split_asm\<close>)
  qed
  then show ?thesis using assms by (intro keepsI) fastforce
qed

lemma open_keeps [keeps_ops]:
  assumes "s_inv s"
  shows "keeps s_inv (open_lookup V flags f name s)" "keeps s_inv (sys_dup r s)" "keeps s_inv (sys_dup3 r s)" "keeps s_inv (sys_fcntl r s)"
  unfolding open_lookup_def sys_dup_def sys_dup3_def sys_fcntl_def Let_def using assms
  by - ((rule keeps_rules keeps_ops | (rule keeps_opt, rule keeps_ops, (simp add: keeps_inv; fail)) | rule keeps_look | (simp add: keeps_inv; fail))+)

lemma openat_keeps [keeps_ops]: "s_inv s \<Longrightarrow> keeps s_inv (sys_openat E V r s)" "s_inv s \<Longrightarrow> keeps s_inv (sys_readlinkat E V r s)"
  unfolding sys_openat_def sys_readlinkat_def Let_def
  by ((rule keeps_rules keeps_ops | (rule keeps_opt, rule keeps_ops, (simp add: keeps_inv; fail)) | rule keeps_look | (simp add: keeps_inv; fail))+)

lemma close_keeps [keeps_ops]: "k_inv k \<Longrightarrow> keeps k_inv (sys_close r k)"
  unfolding sys_close_def
  by ((rule keeps_rules keeps_ops | (rule keeps_opt, rule keeps_ops, (simp add: keeps_inv; fail)) | rule keeps_look | (simp add: keeps_inv; fail))+)

subsection \<open>Directories and attributes\<close>

lemma stat_keeps [keeps_ops]:
  assumes "s_inv s"
  shows "keeps s_inv (from_vfs_file V f s)" "keeps s_inv (at_path E V dfd ptr r s)"
  unfolding from_vfs_file_def at_path_def Let_def using assms
  by - ((rule keeps_rules keeps_ops | (rule keeps_opt, rule keeps_ops, (simp add: keeps_inv; fail)) | rule keeps_look | (simp add: keeps_inv; fail))+)

lemma write_stat_keeps [keeps_ops]: "s_inv s \<Longrightarrow> keeps s_inv (write_stat E V ptr f r s)"
  unfolding write_stat_def
  by ((rule keeps_rules keeps_ops | (rule keeps_opt, rule keeps_ops, (simp add: keeps_inv; fail)) | rule keeps_look | (simp add: keeps_inv; fail))+)

lemma getdents_loop_keeps [keeps_ops]: "s_inv s \<Longrightarrow> keeps s_inv (getdents_loop E V buf len r es n m s)"
proof (induction es arbitrary: n m s)
  case (Cons e es)
  then show ?case by (cases e; cases s) (auto simp: Let_def intro!: keeps_rules keeps_ops keeps_look)
qed (simp add: keeps_return)

lemma fs_calls_keep [keeps_ops]:
  assumes "s_inv s"
  shows "keeps s_inv (sys_fstat E V r s)" "keeps s_inv (sys_fstatat E V r s)" "keeps s_inv (sys_fturncate V r s)"
    "keeps s_inv (sys_utimensat E V r s)" "keeps s_inv (sys_mkdir E V r s)" "keeps s_inv (sys_unlinkat E V r s)"
    "keeps s_inv (sys_faccessat E V r s)" "keeps s_inv (sys_statfs E V r s)" "keeps s_inv (sys_umount E V r s)"
    "keeps s_inv (sys_chdir E V r s)"
  unfolding sys_fstat_def sys_fstatat_def sys_fturncate_def sys_utimensat_def sys_mkdir_def sys_unlinkat_def sys_faccessat_def
    sys_statfs_def sys_umount_def sys_chdir_def Let_def using assms
  by - ((rule keeps_rules keeps_ops | (rule keeps_opt, rule keeps_ops, (simp add: keeps_inv; fail)) | rule keeps_look | (simp add: keeps_inv; fail))+)

lemma fs_calls_keep2 [keeps_ops]:
  assumes "s_inv s"
  shows "keeps s_inv (sys_renameat2 E V r s)" "keeps s_inv (sys_mount E V r s)" "keeps s_inv (sys_getdents E V r s)"
  unfolding sys_renameat2_def sys_mount_def sys_getdents_def upd_fds_def Let_def using assms
  by - ((rule keeps_rules keeps_ops | (rule keeps_opt, rule keeps_ops, (simp add: keeps_inv; fail)) | rule keeps_look | (simp add: keeps_inv; fail))+)

subsection \<open>Waiting\<close>

lemma any_scan_inv:
  "s_inv s \<Longrightarrow> any_scan (poll_future_poll V) i qs s = Some (res, qs', s') \<Longrightarrow> s_inv s'"
proof (induction qs arbitrary: i s qs' res)
  case (Cons f qs)
  obtain x g s1 where p: "poll_future_poll V f s = Some (x, g, s1)" using Cons.prems (2) by (auto simp: bind_eq_Some_conv)
  have "s_inv s1" using p Cons.prems (1) by (auto simp: poll_future_poll_def bind_eq_Some_conv dest!: poll_inv [rotated] split: poll_future.splits)
  then show ?case using Cons p by (cases s1) (auto simp: bind_eq_Some_conv split: option.splits)
qed simp

lemma any_poll_inv: "s_inv s \<Longrightarrow> any_poll (poll_future_poll V) this s = Some (res, this', s') \<Longrightarrow> s_inv s'"
  by (auto simp: any_poll_def bind_eq_Some_conv split: prod.splits if_splits dest!: any_scan_inv [rotated])

lemma any_wait_keeps [keeps_ops]:
  assumes "s_inv s"
  shows "keeps s_inv (any_wait V Y limit this s)"
proof -
  have "any_wait W Z limit this s = Some y \<Longrightarrow> W = V \<longrightarrow> Z = Y \<longrightarrow> s_inv s \<longrightarrow> s_inv (snd y)" for W Z y
  proof (erule any_wait.raw_induct [rotated, where P = "\<lambda>W Z limit this s y. W = V \<longrightarrow> Z = Y \<longrightarrow> s_inv s \<longrightarrow> s_inv (snd y)"],
      intro impI, goal_cases)
    case (1 wait W Z limit this s y)
    show ?case
    proof (cases "any_poll (poll_future_poll V) this s")
      case (Some x)
      obtain res this1 s1 where x: "x = (res, this1, s1)" by (cases x)
      have s1: "s_inv s1" using any_poll_inv [OF 1 (5)] Some x by blast
      have "snd y = s1 \<or> wait V Y limit this1 (Y s1) = Some y"
        using 1 (2-4) Some x by (cases res) (auto split: if_split_asm option.split_asm)
      then show ?thesis using 1 (1) [of V Y limit this1 "Y s1" y] s1 yield_inv [OF s1] by auto
    qed (use 1 in simp)
  qed
  then show ?thesis using assms by (intro keepsI) fastforce
qed

lemma sleep_until_keeps [keeps_ops]:
  assumes "s_inv s"
  shows "keeps_state s_inv (sleep_until Y t s)"
proof -
  have "sleep_until Z t s = Some y \<Longrightarrow> Z = Y \<longrightarrow> s_inv s \<longrightarrow> s_inv y" for Z y
  proof (erule sleep_until.raw_induct [rotated, where P = "\<lambda>Z t s y. Z = Y \<longrightarrow> s_inv s \<longrightarrow> s_inv y"], intro impI, goal_cases)
    case (1 sleep Z t s y)
    then show ?case using yield_inv by (auto split: if_split_asm)
  qed
  then show ?thesis using assms by (intro keeps_stateI) blast
qed

lemma wait_loop_keeps:
  assumes "s_inv s" "wait_loop Y options pid r s = Some (res, s')"
  shows "s_inv s'"
proof -
  have "wait_loop Z options pid r s = Some y \<Longrightarrow> Z = Y \<longrightarrow> s_inv s \<longrightarrow> s_inv (snd y)" for Z y
  proof (erule wait_loop.raw_induct [rotated, where P = "\<lambda>Z options pid r s y. Z = Y \<longrightarrow> s_inv s \<longrightarrow> s_inv (snd y)"],
      intro impI, goal_cases)
    case (1 loop Z options pid r s y)
    have "s_inv (Y s)" using 1 (4) by (rule yield_inv)
    then have "k_inv k" if "wait_round options pid r (fst (Y s)) = Some (st, k)" for st k
      using keepsD [OF wait_round_keeps that] by simp
    then show ?case using 1 by (cases y) (auto split: option.split_asm prod.split_asm wait_step.split_asm)
  qed
  then show ?thesis using assms by fastforce
qed

lemma wake_after_keeps [keeps_ops]: "s_inv s \<Longrightarrow> keeps_state s_inv (wake_after Y ms s)"
  unfolding wake_after_def by (rule keeps_look) (rule sleep_until_keeps)

lemma sleep_calls_keep [keeps_ops]:
  assumes "s_inv s"
  shows "keeps s_inv (sys_nanosleep E Y r s)" "keeps s_inv (sys_clock_nanosleep E Y r s)"
  unfolding sys_nanosleep_def sys_clock_nanosleep_def Let_def using assms
  by - ((rule keeps_rules keeps_ops | (rule keeps_opt, rule keeps_ops, (simp add: keeps_inv; fail)) | rule keeps_look | (simp add: keeps_inv; fail))+)

lemma ppoll_entries_keep [keeps_ops]:
  fixes s :: "('f, 'fa, 'w, 'v) sst"
  shows "s_inv s \<Longrightarrow> keeps s_inv (ppoll_entries r es s)"
proof (induction es arbitrary: s)
  case (Cons e es)
  have "keeps s_inv (ppoll_entry r e s)"
    unfolding ppoll_entry_def Let_def using Cons.prems
    by - ((rule keeps_rules keeps_ops | rule keeps_look | (simp add: keeps_inv; fail))+)
  then show ?case using Cons.IH by (auto intro!: keeps_rules)
qed (simp add: keeps_return)

lemma select_parts_keep [keeps_ops]:
  assumes "s_inv s"
  shows "keeps s_inv (fdset_read E ptr r s)" "keeps s_inv (fdset_write E ptr b r s)" "keeps s_inv (select_timeout E ptr r s)"
    "keeps s_inv (select_wait V Y timeout qs s)"
  unfolding fdset_read_def fdset_write_def select_timeout_def select_wait_def Let_def using assms
  by - ((rule keeps_rules keeps_ops | rule keeps_look | (simp add: keeps_inv; fail))+)

lemma poll_calls_keep [keeps_ops]:
  assumes "s_inv s"
  shows "keeps s_inv (sys_ppoll E V Y r s)" "keeps s_inv (sys_pselect E V Y r s)"
  unfolding sys_ppoll_def sys_pselect_def Let_def using assms
  by - ((rule keeps_rules keeps_ops | (rule keeps_opt, rule keeps_ops, (simp add: keeps_inv; fail)) | rule keeps_look | (simp add: keeps_inv; fail))+)

lemma sys_wait_keeps [keeps_ops]: "s_inv s \<Longrightarrow> keeps s_inv (sys_wait E Y r s)"
  by (rule keepsI, cases s)
    (auto simp: sys_wait_def bind_eq_Some_conv Let_def split: if_split_asm option.split_asm
      dest!: wait_loop_keeps [rotated] keepsD [OF user_pointers_keep (4), rotated])

lemma sigwait_loop_keeps: "s_inv s \<Longrightarrow> keeps s_inv (sigwait_loop Y n w r s)"
proof (induction n arbitrary: s)
  case (Suc n)
  then show ?case
    unfolding sigwait_loop.simps Let_def by (intro keeps_look keeps_split keeps_return) (simp_all add: yield_inv)
qed (simp add: keeps_return)

lemma sys_sigwait_keeps [keeps_ops]:
  assumes "s_inv s"
  shows "keeps s_inv (sys_sigwait E Y r s)"
proof (rule keepsI)
  fix x s'
  obtain k v where s: "s = (k, v)" by (cases s)
  assume "sys_sigwait E Y r s = Some (x, s')"
  then obtain args res k1 where rd: "up_read E 8 (args ! 0) r k = Some (res, k1)"
    and rest: "(case res of Inl e \<Rightarrow> Some (Inl e, k1, v) | Inr bs \<Rightarrow> sigwait_loop Y 100000 (from_le bs) r (k1, v)) = Some (x, s')"
    unfolding s sys_sigwait_def by (auto simp only: prod.case bind_eq_Some_conv)
  have "s_inv (k1, v)"
    using keepsD [OF user_pointers_keep (1) rd] assms s by simp
  then show "s_inv s'"
    using rest keepsD [OF sigwait_loop_keeps, of "(k1, v)"] by (cases res) auto
qed

lemma read_2d_keeps [keeps_ops]:
  assumes "k_inv k"
  shows "keeps k_inv (read_2d_cstr E ptr acc r k)"
proof -
  have "read_2d_cstr E ptr acc r k = Some y \<Longrightarrow> k_inv k \<longrightarrow> k_inv (snd y)" for y
  proof (erule read_2d_cstr.raw_induct [rotated, where P = "\<lambda>E ptr acc r k y. k_inv k \<longrightarrow> k_inv (snd y)"], intro impI, goal_cases)
    case (1 read E ptr acc r k y)
    have ih: "keeps k_inv (read E p acc r k)" if "k_inv k" for E p acc r k
      using 1 (1) that by (intro keepsI) fastforce
    have "keeps k_inv (Some y)"
      unfolding 1 (2) [symmetric] using 1 (3)
      by - ((rule keeps_cases | rule keeps_rules keeps_ops ih | (simp add: keeps_inv; fail))+)
    then show ?case by (cases y) (simp add: keeps_def)
  qed
  then show ?thesis using assms by (intro keepsI) fastforce
qed

lemma exec_keeps [keeps_ops]:
  "k_inv k \<Longrightarrow> (\<And>k'. k_inv k' \<Longrightarrow> keeps s_inv (h k')) \<Longrightarrow> keeps s_inv (Option.bind (do_exec K f a e r k) h)"
  by (cases "do_exec K f a e r k") (auto simp: keeps_return dest: do_exec_inv)

lemma sys_execve_keeps [keeps_ops]: "s_inv s \<Longrightarrow> keeps s_inv (sys_execve E V r s)"
  unfolding sys_execve_def Let_def
  by ((rule keeps_rules keeps_ops | (rule keeps_opt, rule keeps_ops, (simp add: keeps_inv; fail)) | rule keeps_look | (simp add: keeps_inv; fail))+)

subsection \<open>The table of calls\<close>

lemma sched_yield_keeps: "x_yield X = Y \<Longrightarrow> h_keeps (sys_sched_yield X)"
  by (auto simp: h_keeps_def sys_sched_yield_def keeps_def yield_inv)

lemma tables_keep:
  assumes "x_vfs X = V" "x_yield X = Y"
  shows "list_all (\<lambda>c. h_keeps (snd c)) (io_calls X r)" "list_all (\<lambda>c. h_keeps (snd c)) (fs_calls X r)"
    "list_all (\<lambda>c. h_keeps (snd c)) (process_calls X r)" "list_all (\<lambda>c. h_keeps (snd c)) (signal_calls X r)"
    "list_all (\<lambda>c. h_keeps (snd c)) (memory_calls X r)" "list_all (\<lambda>c. h_keeps (snd c)) (misc_calls X r)"
  unfolding io_calls_def fs_calls_def process_calls_def signal_calls_def memory_calls_def misc_calls_def Let_def assms list.pred_inject snd_conv
  by - ((rule conjI list.pred_inject (1) exit_handlers_keep h_io_keeps handlers_keep sched_yield_keeps assms | (rule keeps_ops, assumption))+)

lemma syscall_keeps:
  assumes X: "x_vfs X = V" "x_yield X = Y" and s: "s_inv s"
  shows "keeps s_inv (syscall X r s)"
proof -
  have cx: "s_inv (set_context c r t)" if "s_inv t" for c t
    using that by (simp add: set_context_def upd_fields_inv)
  have "list_all (\<lambda>c. h_keeps (snd c)) (syscall_table X r)"
    unfolding syscall_table_def list_all_append using tables_keep [OF X] by simp
  then have "h_keeps h" if "map_of (syscall_table X r) n = Some h" for n h
    using that by (auto simp: list_all_iff dest!: map_of_SomeD)
  then have "keeps (\<lambda>u. s_inv (snd u)) (case map_of (syscall_table X r) n of Some h \<Rightarrow> h t | None \<Rightarrow> Some (Inl EINVAL, False, t))"
    if "s_inv t" for n t
    using that by (cases "map_of (syscall_table X r) n") (simp_all add: h_keeps_def keeps_return del: split_paired_All)
  note h = this
  show ?thesis
    unfolding syscall_def Let_def
    by (rule keeps_look, rule keeps_look, rule keeps_handler [OF h [OF cx [OF s]]], rule keeps_look, rule keeps_return, rule cx)
qed

subsection \<open>The user loop\<close>

lemma upd_timer_keeps [keeps_ops]: "s_inv s \<Longrightarrow> keeps_state s_inv (upd_timer f r s)"
  unfolding upd_timer_def by (intro keeps_look keeps_return) (simp add: upd_fields_inv)

lemma loop_head_keeps:
  assumes "s_inv s"
  shows "keeps s_inv (loop_head r s)"
  unfolding loop_head_def
proof (rule keeps_look)
  fix p
  show "keeps s_inv (case lp_status p of
      UNINIT \<Rightarrow> None
    | READY \<Rightarrow> do {
        (st, sg, cx) \<leftarrow> check_signal (k_signals (fst s) (lp_signal p), lp_context p);
        let k = (fst s)\<lparr>k_signals := (k_signals (fst s))(lp_signal p := sg)\<rparr>;
        let s = set_context cx r (k, snd s);
        s \<leftarrow> (if st = Run_User then upd_timer (\<lambda>t. Some (switch_into (k_now (fst s)) t)) r s else Some s);
        Some (st, s) }
    | RUNNING \<Rightarrow> Some (Run_User, s)
    | _ \<Rightarrow> do {
        s \<leftarrow> upd_timer (switch_out (k_now (fst s))) r s;
        Some (Leave_Loop, s) })"
    using assms
    by (cases "lp_status p")
      (auto simp: bind_eq_Some_conv Let_def set_context_def keeps_inv keeps_return split: if_split_asm intro!: keepsI
        dest!: keeps_stateD [OF upd_timer_keeps, rotated])
qed

lemma run_user_keeps: "s_inv s \<Longrightarrow> run_user_program U r s = Some (c, v, s') \<Longrightarrow> s_inv s'"
  unfolding run_user_program_def
  by (auto simp: bind_eq_Some_conv Let_def set_context_def keeps_inv dest!: keeps_stateD [OF upd_timer_keeps, rotated])

lemma handle_trap_keeps:
  assumes X: "x_vfs X = V" "x_yield X = Y" and D: "\<And>s. s_inv s \<Longrightarrow> s_inv (D s)" and s: "s_inv s"
  shows "keeps s_inv (handle_trap X D r cause stval s)"
proof -
  have "keeps s_inv (do {
      (res, k) \<leftarrow> lproc_pagefault (x_env X) stval acc r (fst s);
      Some (case res of Inl _ \<Rightarrow> True | Inr _ \<Rightarrow> False, k, snd s) })" for acc
    using s by (auto simp: bind_eq_Some_conv intro!: keepsI dest!: keepsD [OF lproc_pagefault_keeps, rotated])
  moreover have "keeps s_inv (do { k \<leftarrow> timer_tick (fst s); Some (False, Y (k, snd s)) })"
    using s by (intro keeps_look keeps_return yield_inv) (auto dest!: keeps_stateD [OF timer_tick_keeps, rotated])
  ultimately show ?thesis
    using syscall_keeps [OF X s, of r] s D unfolding handle_trap_def Let_def X (2) by (cases cause) (simp_all add: keeps_return)
qed

lemma loop_round_keeps:
  assumes X: "x_vfs X = V" "x_yield X = Y" and D: "\<And>s. s_inv s \<Longrightarrow> s_inv (D s)" and s: "s_inv s"
  shows "keeps s_inv (loop_round X D U r s)"
  unfolding loop_round_def
proof (rule keeps_opt (1) [OF loop_head_keeps [OF s]])
  fix st and t :: "('f, 'fa, 'w, 'v) sst"
  assume t: "s_inv t"
  have "keeps s_inv (do { (cause, stval, s) \<leftarrow> run_user_program U r t; handle_trap X D r cause stval s })"
    using run_user_keeps [OF t] handle_trap_keeps [OF X D] by (auto intro!: keeps_look)
  then show "keeps s_inv (case st of Next_Iteration \<Rightarrow> Some (False, t) | Leave_Loop \<Rightarrow> Some (True, t)
      | Run_User \<Rightarrow> do { (cause, stval, s) \<leftarrow> run_user_program U r t; handle_trap X D r cause stval s })"
    using t by (cases st) (simp_all add: keeps_return)
qed

lemma rounds_keep:
  assumes X: "x_vfs X = V" "x_yield X = Y" and D: "\<And>s. s_inv s \<Longrightarrow> s_inv (D s)"
    and run: "userloop_rounds X D U r s = Some s'" and s: "s_inv s"
  shows "s_inv s'"
proof -
  have "userloop_rounds X' D' U' r' s = Some s' \<Longrightarrow> X' = X \<and> D' = D \<longrightarrow> s_inv s \<longrightarrow> s_inv s'" for X' D' U' r' s'
  proof (erule userloop_rounds.raw_induct [rotated, where P = "\<lambda>X' D' U r s s'. X' = X \<and> D' = D \<longrightarrow> s_inv s \<longrightarrow> s_inv s'"],
      intro impI, goal_cases)
    case (1 rounds X' D' U r s s')
    have k: "keeps s_inv (loop_round X D U r s)" by (rule loop_round_keeps [OF X _ 1 (4)]) (rule D)
    have eq: "X' = X" "D' = D" using 1 (3) by simp_all
    obtain leaves t where l: "loop_round X D U r s = Some (leaves, t)"
      and n: "(if leaves then Some t else rounds X D U r t) = Some s'"
      using 1 (2) unfolding eq by (cases "loop_round X D U r s") auto
    have "s_inv t" using keepsD [OF k l] .
    then show ?case using n 1 (1) [of X D U r t s'] by (cases leaves) simp_all
  qed
  then show ?thesis using run s by blast
qed

lemma userloop_keeps:
  assumes "x_vfs X = V" "x_yield X = Y" "\<And>s. s_inv s \<Longrightarrow> s_inv (D s)" "s_inv s" "userloop X D U r s = Some s'"
  shows "s_inv s'"
proof -
  obtain t k where t: "userloop_rounds X D U r s = Some t" "do_exit r (fst t) = Some k" "s' = (k, snd t)"
    using assms (5) by (auto simp: userloop_def bind_eq_Some_conv)
  have "s_inv t" by (rule rounds_keep [OF assms (1, 2) _ t (1) assms (4)]) (rule assms (3))
  then show ?thesis using do_exit_inv [OF _ t (2)] t (3) by simp
qed

end

end
