(* ===== verification/Mem_Files_Laws.thy ===== *)
theory Mem_Files_Laws
  imports Mem_Files Syscall_Inv Pipe_Laws
begin

text \<open>
  The files that need no disk: what a file of tmpfs holds after a write, and that all of them leave the process table alone,
  so that they are an instance of the contract \<open>kernel_files\<close>.
\<close>

section \<open>The contents of files\<close>

text \<open>
  (C21) A file of tmpfs is the sequence of its bytes. A write at any offset succeeds, keeps what is before the offset and behind
  the written part, fills a gap with zeros and touches no other file; a read from within the file then gives the bytes
  there, in particular the ones just written, and changes nothing; a read from behind the end panics.
\<close>

theorem tmpfs_write_read:
  fixes s :: "('fa, 'w, 'b) mst"
  assumes "length (tf_content (mf_files (snd s) i)) < 2 ^ 64" "unat off + length xs < 2 ^ 64"
  shows "\<exists>s' c'. mem_write_at M (TmpFile i) off xs s = Some (Inr (word_of_nat (length xs)), s') \<and> fst s' = fst s \<and>
    (\<forall>j. j \<noteq> i \<longrightarrow> mf_files (snd s') j = mf_files (snd s) j) \<and> tf_content (mf_files (snd s') i) = c' \<and>
    c' = take (unat off) (tf_content (mf_files (snd s) i)) @ replicate (unat off - length (tf_content (mf_files (snd s) i))) 0 @ xs @
      drop (unat off + length xs) (tf_content (mf_files (snd s) i)) \<and>
    mem_read_at M (TmpFile i) off (word_of_nat (length xs)) s' = Some (xs, Inr (word_of_nat (length xs)), s') \<and>
    (\<forall>o' n. mem_read_at M (TmpFile i) o' n s' = (if unat o' \<le> length c'
       then Some (take (unat n) (drop (unat o') c'), Inr (word_of_nat (length (take (unat n) (drop (unat o') c')))), s')
       else None))"
proof -
  define c where "c = tf_content (mf_files (snd s) i)"
  define c' where "c' = take (unat off) c @ replicate (unat off - length c) 0 @ xs @ drop (unat off + length xs) c"
  let ?s = "upd_file i (\<lambda>f. f\<lparr>tf_content := c'\<rparr>) s"
  have w: "mem_write_at M (TmpFile i) off xs s = Some (Inr (word_of_nat (length xs)), ?s)"
    by (simp add: tmp_write_at_eq c'_def c_def upd_file_def)
  have t: "tf_content (mf_files (snd ?s) i) = c'" by (simp add: upd_file_def)
  have l: "length c' < 2 ^ 64" "unat off + length xs \<le> length c'" using assms by (auto simp: c'_def c_def)
  have r: "mem_read_at M (TmpFile i) o' n ?s = (if unat o' \<le> length c'
       then Some (take (unat n) (drop (unat o') c'), Inr (word_of_nat (length (take (unat n) (drop (unat o') c')))), ?s)
       else None)" for o' n
    using tmp_read_at_eq [OF l (1)] t by simp
  have "unat (word_of_nat (length xs) :: usize) = length xs" using assms (2) by (simp add: unat_word_of_nat)
  moreover have "take (length xs) (drop (unat off) c') = xs" by (auto simp: c'_def)
  ultimately have "mem_read_at M (TmpFile i) off (word_of_nat (length xs)) ?s = Some (xs, Inr (word_of_nat (length xs)), ?s)"
    using r l (2) by simp
  then show ?thesis
    using w t r unfolding c'_def c_def by (intro exI [of _ ?s] exI [of _ c'] conjI allI impI) (simp_all add: c'_def c_def upd_file_def)
qed

definition one_file :: "(u8 list \<times> nat, nat) memfs" where
  "one_file = \<lparr>mf_holding_pgid = (\<lambda>_. 1), mf_files = (\<lambda>_. \<lparr>tf_time = time_info_zero, tf_content = [1, 2]\<rparr>),
     mf_children = (\<lambda>_. [(''a'', TmpFile 0)]), mf_pipes = (\<lambda>_. pipe_new list_ring), mf_mounts = [], mf_next = 1\<rparr>"

theorem tmpfs_write_read_witness:
  "\<forall>M k. \<exists>s'. mem_write_at M (TmpFile 0) 3 [7, 8] (k, one_file) = Some (Inr 2, s') \<and>
     tf_content (mf_files (snd s') 0) = [1, 2, 0, 7, 8] \<and> mem_read_at M (TmpFile 0) 3 2 s' = Some ([7, 8], Inr 2, s') \<and>
     mem_read_at M (TmpFile 0) 6 1 s' = None"
proof (intro allI)
  fix M :: "('fa, nat, u8 list \<times> nat) menv" and k :: "(mem_file, 'fa, nat) kstate"
  have len: "length (tf_content (mf_files (snd (k, one_file)) 0)) < 2 ^ 64" "unat (3 :: usize) + length [7, 8 :: u8] < 2 ^ 64"
    by (simp_all add: one_file_def)
  obtain s' where w: "mem_write_at M (TmpFile 0) 3 [7, 8] (k, one_file) = Some (Inr (word_of_nat (length [7, 8 :: u8])), s')"
    and c: "tf_content (mf_files (snd s') 0) = take (unat (3 :: usize)) (tf_content (mf_files (snd (k, one_file)) 0)) @
      replicate (unat (3 :: usize) - length (tf_content (mf_files (snd (k, one_file)) 0))) 0 @ [7, 8] @
      drop (unat (3 :: usize) + length [7, 8 :: u8]) (tf_content (mf_files (snd (k, one_file)) 0))"
    and r: "mem_read_at M (TmpFile 0) 3 (word_of_nat (length [7, 8 :: u8])) s' = Some ([7, 8], Inr (word_of_nat (length [7, 8 :: u8])), s')"
    and far: "unat (6 :: usize) > length (tf_content (mf_files (snd s') 0)) \<longrightarrow> mem_read_at M (TmpFile 0) 6 1 s' = None"
    using tmpfs_write_read [OF len, of M] by force
  have v: "tf_content (mf_files (snd s') 0) = [1, 2, 0, 7, 8]" unfolding c by (simp add: one_file_def)
  have "word_of_nat (length [7, 8 :: u8]) = (2 :: usize)" by simp
  note res = w [unfolded this] v r [unfolded this] far [unfolded v]
  show "\<exists>s'. mem_write_at M (TmpFile 0) 3 [7, 8] (k, one_file) = Some (Inr 2, s') \<and>
     tf_content (mf_files (snd s') 0) = [1, 2, 0, 7, 8] \<and> mem_read_at M (TmpFile 0) 3 2 s' = Some ([7, 8], Inr 2, s') \<and>
     mem_read_at M (TmpFile 0) 6 1 s' = None" using res by force
qed

text \<open>A directory of tmpfs to which a file is attached under a taken name reports \<open>EEXIST\<close>, but has the new file.\<close>

lemma attach_replaces:
  assumes "bt_get name (mf_children (snd s) i) = Some g"
  shows "\<exists>s'. mem_attach (TmpDir i) name f s = Some (Inl EEXIST, s') \<and> mem_lookup (TmpDir i) name s' = Some (Inr f, s')"
  using assms by (simp add: upd_children_def bt.lookup_insert)

section \<open>The process table\<close>

lemma put_pipe_inv: "s_inv s \<Longrightarrow> bus_inv bus \<Longrightarrow> s_inv (put_pipe r i p bus ws s)"
  by (simp add: put_pipe_def upd_lproc_inv keeps_links_def lp_cells_def)

lemma proc_bus_inv: "k_inv k \<Longrightarrow> k_procs k r = Some q \<Longrightarrow> bus_inv (lp_event_bus q)"
  using k_core_lp [of k r q] by (simp add: lp_inv_def)

lemma wait_drop_inv: "bus_inv bus \<Longrightarrow> wait_drop f bus = Some bus' \<Longrightarrow> bus_inv bus'"
  using bus_drop_inv [of bus] by (auto simp: wait_drop_def bus_remove_def split: option.split_asm) (metis option.inject)

lemma await_bus_inv:
  assumes "await_or_signal_poll g f (p, bus) = Some (res, f', p', bus')" "bus_inv bus"
  shows "bus_inv bus'"
  using assms
  by (auto simp: await_or_signal_poll_def wait_poll_def bind_eq_Some_conv split: option.split_asm dest: bus_register_inv (1))

lemma pipe_polls_bus_inv:
  assumes "bus_inv bus"
  shows "read_at_poll R w n f (p, bus) = Some (res, f', (p', bus'), ws) \<Longrightarrow> bus_inv bus'"
    "write_at_poll R w xs f (p, bus) = Some (res', f', (p', bus'), ws) \<Longrightarrow> bus_inv bus'"
  using assms
  by (auto simp: read_at_poll_def write_at_poll_def split: bind_splits option.split_asm sum.split_asm dest: await_bus_inv)

lemma upd_mem_fst [simp]: "fst (upd_file i g s) = fst s" "fst (upd_children i m s) = fst s"
  by (simp_all add: upd_file_def upd_children_def)

lemma mem_attrs_keep:
  assumes "s_inv s"
  shows "keeps s_inv (mem_size f s)" "keeps s_inv (mem_time f s)" "keeps s_inv (mem_update_time f c s)"
    "keeps s_inv (mem_truncate f n s)"
  using assms by (induction f) (auto simp: keeps_return intro!: keeps_look)

lemma tmp_new_fst: "tmp_new fk s = Some (f, s') \<Longrightarrow> fst s' = fst s"
  by (auto simp: tmp_new_def Let_def bind_eq_Some_conv split: if_split_asm)

lemma mem_dirs_keep:
  assumes "s_inv s"
  shows "keeps s_inv (mem_list f s)" "keeps s_inv (mem_lookup f name s)" "keeps s_inv (mem_create f name fk s)"
    "keeps s_inv (mem_detach f name s)" "keeps s_inv (mem_attach f name g s)" "keeps s_inv (mem_remove f name s)"
proof -
  show "keeps s_inv (mem_list f s)" "keeps s_inv (mem_lookup f name s)" "keeps s_inv (mem_attach f name g s)"
    using assms by (induction f) (auto simp: keeps_return)
  show "keeps s_inv (mem_create f name fk s)"
    using assms by (induction f) (auto simp: keeps_return intro!: keeps_look dest: tmp_new_fst)
  show d: "keeps s_inv (mem_detach f name s)"
    using assms by (induction f) (auto simp: keeps_return split: option.split)
  show "keeps s_inv (mem_remove f name s)"
    unfolding mem_remove_def by (rule keeps_bind [OF d]) (rule keeps_return)
qed

lemma mem_await_inv:
  assumes "s_inv s" "mem_await M i g f s = Some (res, f', s')"
  shows "s_inv s'"
proof -
  obtain q r0 p bus bus' where q: "k_procs (fst s) (me_proc M) = Some q"
    and a: "await_or_signal_poll g f (mf_pipes (snd s) i, lp_event_bus q) = Some (r0, f', p, bus)"
    and d: "(if r0 = None then Some bus else wait_drop f' bus) = Some bus'" and s': "s' = put_pipe (me_proc M) i p bus' [] s"
    using assms (2) by (auto simp: mem_await_def bind_eq_Some_conv)
  have "bus_inv bus" using await_bus_inv [OF a proc_bus_inv [OF assms (1) q]] .
  then have "bus_inv bus'" using d wait_drop_inv by (auto split: if_split_asm)
  then show ?thesis using put_pipe_inv assms (1) s' by simp
qed

lemma mem_poll_inv: "s_inv s \<Longrightarrow> mem_poll M q s = Some (res, q', s') \<Longrightarrow> s_inv s'"
  by (auto simp: mem_poll_def bind_eq_Some_conv split: mem_future.split_asm dest: mem_await_inv)

lemma mem_ioctl_keeps: "s_inv s \<Longrightarrow> keeps s_inv (mem_ioctl M f cmd arg s)"
  by (cases f) (auto simp: keeps_return intro!: keeps_bind keeps_lift user_pointers_keep)

text \<open>The other tasks and the serial line keep the table; then the files do.\<close>

locale task_env =
  fixes M :: "('fa, 'w, 'b) menv"
  assumes others_inv: "s_inv s \<Longrightarrow> s_inv (me_yield M s)"
    and serial_inv: "me_serial M = Some serial \<Longrightarrow> s_inv s \<Longrightarrow> serial n s = Some (xs, res, s') \<Longrightarrow> s_inv s'"
begin

lemma pipe_wait_inv:
  assumes "s_inv s" "pipe_wait M i poll f s = Some (res, s')"
    and poll: "\<And>f p bus res f' p' bus' ws. poll f (p, bus) = Some (res, f', (p', bus'), ws) \<Longrightarrow> bus_inv bus \<Longrightarrow> bus_inv bus'"
  shows "s_inv s'"
proof -
  have "pipe_wait N i poll' f s = Some y \<Longrightarrow> N = M \<and> poll' = poll \<longrightarrow> s_inv s \<longrightarrow> s_inv (snd y)" for N poll' y
  proof (erule pipe_wait.raw_induct
      [rotated, where P = "\<lambda>N i poll' f s y. N = M \<and> poll' = poll \<longrightarrow> s_inv s \<longrightarrow> s_inv (snd y)"], intro impI, goal_cases)
    case (1 wait N i poll' f s y)
    then have eq: "N = M" "poll' = poll" by simp_all
    obtain q res f' p bus ws where q: "k_procs (fst s) (me_proc M) = Some q"
      and pl: "poll f (mf_pipes (snd s) i, lp_event_bus q) = Some (res, f', (p, bus), ws)"
      and rest: "(case res of
          None \<Rightarrow> wait M i poll f' (me_yield M (put_pipe (me_proc M) i p bus ws s))
        | Some x \<Rightarrow> (case wait_drop f' bus of None \<Rightarrow> None | Some bus \<Rightarrow> Some (x, put_pipe (me_proc M) i p bus ws s))) = Some y"
      using 1 (2) unfolding eq by (auto split: option.split_asm)
    have b: "bus_inv bus" using poll [OF pl proc_bus_inv [OF 1 (4) q]] .
    show ?case
    proof (cases res)
      case None
      then show ?thesis
        using rest 1 (1) [of M i poll f' "me_yield M (put_pipe (me_proc M) i p bus ws s)" y] others_inv [OF put_pipe_inv [OF 1 (4) b]]
        by simp
    next
      case (Some x)
      then show ?thesis using rest put_pipe_inv [OF 1 (4) wait_drop_inv [OF b]] by (auto split: option.split_asm)
    qed
  qed
  then show ?thesis using assms (1, 2) by fastforce
qed

lemma pipe_calls_inv:
  assumes "s_inv s"
  shows "pipe_read_at M i n s = Some (bs, res, s') \<Longrightarrow> s_inv s'" "pipe_write_at M i xs s = Some (res, s') \<Longrightarrow> s_inv s'"
proof -
  have rd: "s_inv t" if "pipe_wait M i (read_at_poll (me_ring M) (me_waker M) m) f s = Some (x, t)" for m f x t
    by (rule pipe_wait_inv [OF assms that]) (rule pipe_polls_bus_inv (1))
  have wr: "s_inv t" if "pipe_wait M i (write_at_poll (me_ring M) (me_waker M) ys) f s = Some (x, t)" for ys f x t
    by (rule pipe_wait_inv [OF assms that]) (rule pipe_polls_bus_inv (2))
  show "pipe_read_at M i n s = Some (bs, res, s') \<Longrightarrow> s_inv s'" "pipe_write_at M i xs s = Some (res, s') \<Longrightarrow> s_inv s'"
    by (auto simp: pipe_read_at_def pipe_write_at_def split: bind_splits sum.split_asm dest: rd wr)
qed

lemma mem_read_inv: "s_inv s \<Longrightarrow> mem_read_at M f off n s = Some (bs, res, s') \<Longrightarrow> s_inv s'"
  by (cases f)
    (auto simp: stdin_read_at_def bind_eq_Some_conv split: if_split_asm option.split_asm dest: serial_inv pipe_calls_inv)

lemma mem_write_keeps: "s_inv s \<Longrightarrow> keeps s_inv (mem_write_at M f off xs s)"
  by (cases f) (auto simp: keeps_return intro!: keepsI dest: pipe_calls_inv)

end

sublocale task_env \<subseteq> files: kernel_files "mem_vfs M" "me_yield M"
  by unfold_locales
    (auto simp: mem_vfs_def others_inv mem_attrs_keep mem_dirs_keep mem_write_keeps mem_ioctl_keeps mem_new_pipe_def Let_def
      dest: mem_read_inv mem_poll_inv)

text \<open>A kernel in which nothing but the timer runs while a process waits, without a serial line.\<close>

definition lone :: "('fa, 'w, 'b) menv \<Rightarrow> ('fa, 'w, 'b) menv" where
  "lone M = M\<lparr>me_yield := (\<lambda>s. case timer_tick (fst s) of None \<Rightarrow> s | Some k \<Rightarrow> (k, snd s)), me_serial := None\<rparr>"

interpretation lone: task_env "lone M"
  by unfold_locales (auto simp: lone_def split: option.split dest: keeps_stateD [OF timer_tick_keeps])

end
