(* ===== verification/Kernel_Run.thy ===== *)
theory Kernel_Run
  imports Mem_Files_Laws
begin

text \<open>
  Runs of the whole kernel on the files that need no disk: the rounds of the user loops of all processes in any order, that they keep
  the process table, and the environments in which other tasks run while a process waits.
\<close>

section \<open>Runs\<close>

text \<open>
  The states between the rounds of all processes: in any order, a process runs one round of its loop with any program, leaves the kernel
  by \<open>do_exit\<close>, or the timer ticks. \<open>E r\<close> is what the kernel gives the process \<open>r\<close>.
\<close>

inductive kernel_run ::
  "(nat \<Rightarrow> ('f, 'q, 'fa, 'w, 'v) xenv) \<Rightarrow> (('f, 'fa, 'w, 'v) sst \<Rightarrow> ('f, 'fa, 'w, 'v) sst) \<Rightarrow> ('f, 'fa, 'w, 'v) sst \<Rightarrow>
   ('f, 'fa, 'w, 'v) sst \<Rightarrow> bool" for E D s where
  run_start: "kernel_run E D s s"
| run_round: "kernel_run E D s t \<Longrightarrow> loop_round (E r) D U r t = Some (leaves, t') \<Longrightarrow> kernel_run E D s t'"
| run_exit: "kernel_run E D s t \<Longrightarrow> do_exit r (fst t) = Some k \<Longrightarrow> kernel_run E D s (k, snd t)"
| run_tick: "kernel_run E D s t \<Longrightarrow> timer_tick (fst t) = Some k \<Longrightarrow> kernel_run E D s (k, snd t)"

lemma kernel_run_inv:
  assumes E: "\<And>r. kernel_files (x_vfs (E r)) (x_yield (E r))" and D: "\<And>s. s_inv s \<Longrightarrow> s_inv (D s)"
    and run: "kernel_run E D s t" and s: "s_inv s"
  shows "s_inv t"
  using run
proof induction
  case (run_round t r U leaves t')
  have "keeps s_inv (loop_round (E r) D U r t)"
    by (rule kernel_files.loop_round_keeps [OF E refl refl _ run_round.IH]) (rule D)
  then show ?case using run_round.hyps (2) by (rule keepsD)
qed (use s in \<open>auto dest: do_exit_inv keeps_stateD [OF timer_tick_keeps]\<close>)

lemma userloop_rounds_run:
  assumes "userloop_rounds (E r) D U r t = Some t'" "kernel_run E D s t"
  shows "kernel_run E D s t'"
proof -
  have "userloop_rounds X D' U' r' t = Some t' \<Longrightarrow> X = E r' \<and> D' = D \<longrightarrow> kernel_run E D s t \<longrightarrow> kernel_run E D s t'" for X D' U' r' t t'
  proof (erule userloop_rounds.raw_induct
      [rotated, where P = "\<lambda>X D' U r t t'. X = E r \<and> D' = D \<longrightarrow> kernel_run E D s t \<longrightarrow> kernel_run E D s t'"], intro impI, goal_cases)
    case (1 rounds X D' U r t t')
    have eq: "X = E r" "D' = D" using 1 (3) by simp_all
    obtain leaves u where l: "loop_round (E r) D U r t = Some (leaves, u)"
      and n: "(if leaves then Some u else rounds (E r) D U r u) = Some t'"
      using 1 (2) unfolding eq by (cases "loop_round (E r) D U r t") auto
    have "kernel_run E D s u" by (rule run_round [OF 1 (4) l])
    then show ?case using n 1 (1) [of "E r" D U r u t'] by (cases leaves) simp_all
  qed
  then show ?thesis using assms by blast
qed

lemma userloop_run:
  assumes "userloop (E r) D U r t = Some t'" "kernel_run E D s t"
  shows "kernel_run E D s t'"
proof -
  obtain u k where u: "userloop_rounds (E r) D U r t = Some u" "do_exit r (fst u) = Some k" "t' = (k, snd u)"
    using assms (1) by (auto simp: userloop_def bind_eq_Some_conv)
  then show ?thesis using run_exit [OF userloop_rounds_run [of E, OF u (1) assms (2)] u (2)] by simp
qed

section \<open>Other tasks\<close>

definition mem_xenv ::
  "('fa, 'w, 'b) menv \<Rightarrow> (SigAction \<Rightarrow> u8 list) \<Rightarrow> (u8 list \<Rightarrow> SigAction) \<Rightarrow> (mem_file, 'w mem_future, 'fa, 'w, ('b, 'w) memfs) xenv" where
  "mem_xenv M enc dec = \<lparr>x_env = me_env M, x_vfs = mem_vfs M, x_yield = me_yield M, x_sig_enc = enc, x_sig_dec = dec\<rparr>"

text \<open>A kernel in which other tasks run while a process waits: after the timer, each process of a schedule runs a round of its program,
  in which it may wait in turn, down to \<open>n\<close> waits inside one another.\<close>

definition run_task ::
  "('f, 'q, 'fa, 'w, 'v) xenv \<Rightarrow> nat \<times> user_program \<Rightarrow> ('f, 'fa, 'w, 'v) sst \<Rightarrow> ('f, 'fa, 'w, 'v) sst" where
  "run_task X task s = (case loop_round X (\<lambda>s. s) (snd task) (fst task) s of
     None \<Rightarrow> s
   | Some (leaves, s) \<Rightarrow> if leaves then (case do_exit (fst task) (fst s) of None \<Rightarrow> s | Some k \<Rightarrow> (k, snd s)) else s)"

primrec tasks ::
  "(SigAction \<Rightarrow> u8 list) \<Rightarrow> (u8 list \<Rightarrow> SigAction) \<Rightarrow> (nat \<times> user_program) list \<Rightarrow> nat \<Rightarrow> ('fa, 'w, 'b) menv \<Rightarrow> ('fa, 'w, 'b) menv" where
  "tasks enc dec schedule 0 M = lone M"
| "tasks enc dec schedule (Suc n) M = (lone M)\<lparr>me_yield :=
     (\<lambda>s. fold (\<lambda>task. run_task (mem_xenv ((tasks enc dec schedule n M)\<lparr>me_proc := fst task\<rparr>) enc dec) task) schedule
       (me_yield (lone M) s))\<rparr>"

lemma task_env_proc: "task_env M \<Longrightarrow> task_env (M\<lparr>me_proc := r\<rparr>)"
  by (simp add: task_env_def)

context task_env begin

lemma files_axioms: "kernel_files (mem_vfs M) (me_yield M)"
  by (rule files.kernel_files_axioms)

end

lemma mem_xenv_files: "task_env M \<Longrightarrow> kernel_files (x_vfs (mem_xenv M enc dec)) (x_yield (mem_xenv M enc dec))"
  by (simp add: mem_xenv_def task_env.files_axioms)

lemma run_task_inv:
  assumes "task_env M" "s_inv s"
  shows "s_inv (run_task (mem_xenv M enc dec) task s)"
proof -
  have "keeps s_inv (loop_round (mem_xenv M enc dec) (\<lambda>s. s) (snd task) (fst task) s)"
    by (rule kernel_files.loop_round_keeps [OF mem_xenv_files [OF assms (1)] refl refl _ assms (2)])
  note k = keepsD [OF this]
  show ?thesis
    using assms (2) by (auto simp: run_task_def split: option.split dest!: k intro: do_exit_inv)
qed

lemma fold_inv: "(\<And>x s. P s \<Longrightarrow> P (f x s)) \<Longrightarrow> P s \<Longrightarrow> P (fold f xs s)"
  by (induction xs arbitrary: s) auto

interpretation tasks: task_env "tasks enc dec schedule n M"
proof (induction n)
  case 0
  show ?case unfolding tasks.simps by (rule lone.task_env_axioms)
next
  case (Suc n)
  have "s_inv (fold (\<lambda>task. run_task (mem_xenv ((tasks enc dec schedule n M)\<lparr>me_proc := fst task\<rparr>) enc dec) task) schedule t)"
    if "s_inv t" for t :: "('a, 'b, 'c) mst"
    using that by (rule fold_inv [where P = s_inv, rotated]) (rule run_task_inv [OF task_env_proc [OF Suc]])
  then show ?case using lone.others_inv [of _ M] by unfold_locales (simp_all add: lone_def)
qed

text \<open>What the process \<open>r\<close> is given when the tasks of a schedule run while it waits.\<close>

definition tasks_xenv ::
  "('fa, 'w, 'b) menv \<Rightarrow> (SigAction \<Rightarrow> u8 list) \<Rightarrow> (u8 list \<Rightarrow> SigAction) \<Rightarrow> (nat \<times> user_program) list \<Rightarrow> nat \<Rightarrow> nat \<Rightarrow>
   (mem_file, 'w mem_future, 'fa, 'w, ('b, 'w) memfs) xenv" where
  "tasks_xenv M enc dec schedule n r = mem_xenv ((tasks enc dec schedule n M)\<lparr>me_proc := r\<rparr>) enc dec"

lemma tasks_xenv_files: "kernel_files (x_vfs (tasks_xenv M enc dec schedule n r)) (x_yield (tasks_xenv M enc dec schedule n r))"
  unfolding tasks_xenv_def by (rule mem_xenv_files [OF task_env_proc [OF tasks.task_env_axioms]])

section \<open>A concrete run\<close>

text \<open>The family of three processes, with the standard files.\<close>

definition mem_k :: "(mem_file, usize list, nat) kstate" where
  "mem_k = \<lparr>k_pids = k_pids demo_k, k_procs = k_procs demo_k, k_mgr = k_mgr demo_k, k_parents = k_parents demo_k,
     k_children = k_children demo_k, k_groups = k_groups demo_k, k_mems = (\<lambda>_. \<lparr>page_table = empty_pt, areas = []\<rparr>),
     k_fsinfos = k_fsinfos demo_k, k_fdtables = k_fdtables demo_k, k_signals = k_signals demo_k, k_next = k_next demo_k,
     k_fds = \<lparr>fds = (\<lambda>a. \<lparr>fd_file = [Stdin, Stdout, Stderr] ! (a mod 3), dents_progress = 0, fd_curr = 0\<rparr>), fd_fresh = 3\<rparr>,
     k_shm = k_shm demo_k, k_shm_mgr = [], k_mem = empty_mem, k_umem = (\<lambda>_ _. 0), k_satp = 0, k_now = 0, k_now_ms = 0,
     k_woken = [], k_rw_trap = False, k_spawned = [], k_timer_ids = pool_new 1, k_delayed = []\<rparr>"

lemma mem_k_inv: "k_inv mem_k"
  using demo_inv by (simp add: mem_k_def k_inv_def k_core_def lp_inv_def pids_def)

text \<open>Programs that are interrupted by the timer, and that make a system call.\<close>

definition tick_program :: user_program where
  "tick_program cx um now = \<lparr>ur_cause = SupervisorTimer, ur_stval = 0, ur_context = cx, ur_umem = um, ur_now = now, ur_now_ms = 0\<rparr>"

definition call_program :: "usize \<Rightarrow> user_program" where
  "call_program nr cx um now = \<lparr>ur_cause = UserEnvCall, ur_stval = 0, ur_context = cx\<lparr>user_rx := (user_rx cx)[17 := nr]\<rparr>, ur_umem = um,
     ur_now = now, ur_now_ms = 0\<rparr>"

lemma tick_idle: "k_delayed k = [] \<Longrightarrow> timer_tick k = Some k"
  by (simp add: timer_tick_def wake_ready.simps [of _ "[]"] heap_peek_def)

text \<open>A round of a running process at time zero.\<close>

lemma running_round:
  assumes p: "k_procs (fst s) r = Some p" "lp_status p = RUNNING" "lp_timer p = timestat_new 0"
    and z: "k_now (fst s) = 0" "k_now_ms (fst s) = 0"
    and u: "U (lp_context p) (k_umem (fst s) (lp_memory p)) 0 =
      \<lparr>ur_cause = cause, ur_stval = stval, ur_context = cx, ur_umem = k_umem (fst s) (lp_memory p), ur_now = 0, ur_now_ms = 0\<rparr>"
  shows "loop_round X D U r s = handle_trap X D r cause stval (upd_lproc r (\<lambda>p. p\<lparr>lp_context := cx\<rparr>) (fst s), snd s)"
proof -
  have t: "kernel_to_user 0 (timestat_new 0) = Some (timestat_new 0)" "user_to_kernel 0 (timestat_new 0) = Some (timestat_new 0)"
    by (simp_all add: kernel_to_user_def user_to_kernel_def timestat_new_def usub_def uadd_def)
  have c: "p\<lparr>lp_context := cx, lp_timer := timestat_new 0\<rparr> = p\<lparr>lp_context := cx\<rparr>" "p\<lparr>lp_timer := timestat_new 0\<rparr> = p"
    using p (3) by (cases p; simp)+
  have k: "(fst s)\<lparr>k_now := 0, k_now_ms := 0, k_procs := Q\<rparr> = (fst s)\<lparr>k_procs := Q\<rparr>" for Q
    using z by (cases "fst s") simp
  have "(k_procs (fst s))(r \<mapsto> p) = k_procs (fst s)" using p by auto
  then show ?thesis
    using p u z t
    by (simp add: loop_round_def loop_head_def run_user_program_def upd_timer_def set_context_def upd_lproc_def Let_def c k)
qed

text \<open>\<open>getpid\<close> and \<open>exit\<close>.\<close>

lemma getpid_call:
  "map_of (syscall_table X r) 172 = Some (h_sys (sys_getpid r))"
  by (simp add: syscall_table_def io_calls_def fs_calls_def process_calls_def Let_def)

lemma getpid_round:
  assumes p: "k_procs (fst s) r = Some p" "lp_status p = RUNNING" "lp_timer p = timestat_new 0" "lp_context p = uniform_ctx"
    and z: "k_now (fst s) = 0" "k_now_ms (fst s) = 0"
    and g: "leader (k_groups (fst s) (lp_group p)) = Some r"
  shows "loop_round X D (call_program 172) r s = Some (False, upd_lproc r (\<lambda>p. p\<lparr>lp_context := set_user_a0 (lp_id p)
    (uniform_ctx\<lparr>user_rx := (user_rx uniform_ctx)[17 := 172], user_sepc := user_sepc uniform_ctx + 4\<rparr>)\<rparr>) (fst s), snd s)"
  by (subst running_round [OF p(1-3) z, where cause = UserEnvCall and stval = 0 and
        cx = "uniform_ctx\<lparr>user_rx := (user_rx uniform_ctx)[17 := 172]\<rparr>"])
    (simp add: call_program_def p, simp add: handle_trap_def syscall_def set_context_def upd_lproc_def p g uniform_ctx_def
        set_user_pc_to_next_def uadd_def syscall_no_def nth_list_update getpid_call h_sys_def h_io_def lift_sys_def sys_getpid_def
        lproc_tgid_def tg_tgid_def set_user_a0_def syscall_return_def)


lemma tick_round:
  assumes p: "k_procs (fst s) r = Some p" "lp_status p = RUNNING" "lp_timer p = timestat_new 0"
    and z: "k_now (fst s) = 0" "k_now_ms (fst s) = 0" "k_delayed (fst s) = []"
  shows "loop_round X D tick_program r s = Some (False, x_yield X s)"
proof -
  have "p\<lparr>lp_context := lp_context p\<rparr> = p" "(k_procs (fst s))(r \<mapsto> p) = k_procs (fst s)" using p by auto
  then have u: "(upd_lproc r (\<lambda>q. q\<lparr>lp_context := lp_context p\<rparr>) (fst s), snd s) = s" using p by (simp add: upd_lproc_def)
  show ?thesis
    by (subst running_round [OF p z (1,2), where cause = SupervisorTimer and stval = 0 and cx = "lp_context p"])
      (simp_all add: tick_program_def u handle_trap_def tick_idle z)
qed

lemma exit_call: "map_of (syscall_table X r) 93 = Some (h_exit (sys_exit r))"
  by (simp add: syscall_table_def io_calls_def fs_calls_def process_calls_def Let_def)

lemma exit_round:
  assumes p: "k_procs (fst s) r = Some p" "lp_status p = RUNNING" "lp_timer p = timestat_new 0" "lp_context p = uniform_ctx"
    and z: "k_now (fst s) = 0" "k_now_ms (fst s) = 0"
  shows "\<exists>cx. loop_round X D (call_program 93) r s = Some (True, upd_lproc r (\<lambda>p. p\<lparr>lp_exit_code := 5, lp_context := cx\<rparr>) (fst s), snd s)"
  by (subst running_round [OF p(1-3) z, where cause = UserEnvCall and stval = 0 and
        cx = "uniform_ctx\<lparr>user_rx := (user_rx uniform_ctx)[17 := 93]\<rparr>"])
    (simp add: call_program_def p, rule exI, simp add: handle_trap_def syscall_def set_context_def upd_lproc_def p uniform_ctx_def
        set_user_pc_to_next_def uadd_def syscall_no_def nth_list_update exit_call h_exit_def sys_exit_def sys_args_def set_exit_code_def
        set_user_a0_def syscall_return_def syscall_args_def)

definition getpid_done :: UKContext where
  "getpid_done = set_user_a0 1 (uniform_ctx\<lparr>user_rx := (user_rx uniform_ctx)[17 := 172], user_sepc := user_sepc uniform_ctx + 4\<rparr>)"

lemma sigchld_sent:
  "\<exists>ws sg bus. send_signal (get_signum SIGCHLD) (signal_new uniform_ctx, one_listener) = Some (ws, sg, bus) \<and> bit (signal_pending sg) 16"
proof -
  have "get_signum SIGCHLD = 17" by code_simp
  then show ?thesis
    by (simp add: send_signal_def signal_bit_eq bus_notify_def bus_drop_def one_listener_def pool_release_def ev_contains_def Ev_Signal_def
        signal_new_def bit_simps)
qed

lemma exit_2:
  "\<exists>k p. do_exit 2 (upd_lproc 2 (\<lambda>p. p\<lparr>lp_exit_code := 5, lp_context := cx\<rparr>) (upd_lproc 0 (\<lambda>p. p\<lparr>lp_context := cy\<rparr>) mem_k)) = Some k \<and>
     k_procs k 2 = Some p \<and> lp_status p = STOPPED \<and> lp_exit_code p = 5 \<and> bit (signal_pending (k_signals k 19)) 16"
proof -
  obtain ws sg bus where "send_signal (get_signum SIGCHLD) (signal_new uniform_ctx, one_listener) = Some (ws, sg, bus)"
    "bit (signal_pending sg) 16" using sigchld_sent by blast
  then show ?thesis
    by (simp add: do_exit_def upd_lproc_def mem_k_def demo_k_def demo_proc_def lproc_send_signal_def set_status_def leave_children_def
     fdt_release_all_def std_table_def pool_release_def pool_new_def Let_def)
qed


lemma mem_k_procs: "r < 3 \<Longrightarrow> k_procs mem_k r = Some (demo_proc r)"
  by (simp add: mem_k_def demo_proc_cases)

lemma mem_k_idle: "k_now mem_k = 0" "k_now_ms mem_k = 0" "k_delayed mem_k = []"
  by (simp_all add: mem_k_def)

lemma demo_running:
  "lp_status (demo_proc r) = RUNNING" "lp_timer (demo_proc r) = timestat_new 0" "lp_context (demo_proc r) = uniform_ctx"
  by (simp_all add: demo_proc_def)

lemma getpid_while_waiting:
  fixes M :: "(usize list, nat, 'b) menv"
  shows "x_yield (tasks_xenv M enc dec [(0, call_program 172)] 1 r) (mem_k, v) = (upd_lproc 0 (\<lambda>p. p\<lparr>lp_context := getpid_done\<rparr>) mem_k, v)"
proof -
  have "leader (k_groups mem_k (lp_group (demo_proc 0))) = Some 0" by (simp add: mem_k_def demo_k_def demo_proc_def)
  then have "loop_round X D (call_program 172) 0 (mem_k, v) = Some (False, upd_lproc 0 (\<lambda>p. p\<lparr>lp_context := set_user_a0 (lp_id p)
    (uniform_ctx\<lparr>user_rx := (user_rx uniform_ctx)[17 := 172], user_sepc := user_sepc uniform_ctx + 4\<rparr>)\<rparr>) mem_k, v)"
    for X :: "(mem_file, nat mem_future, usize list, nat, ('b, nat) memfs) xenv" and D
    using getpid_round [of "(mem_k, v)" 0 "demo_proc 0"] by (simp add: mem_k_procs mem_k_idle demo_running)
  then have "run_task X (0, call_program 172) (mem_k, v) = (upd_lproc 0 (\<lambda>p. p\<lparr>lp_context := getpid_done\<rparr>) mem_k, v)"
    for X :: "(mem_file, nat mem_future, usize list, nat, ('b, nat) memfs) xenv"
    by (simp add: run_task_def getpid_done_def upd_lproc_def mem_k_procs) (simp add: demo_proc_def)
  moreover have "me_yield (lone M) (mem_k, v) = (mem_k, v)" by (simp add: lone_def tick_idle mem_k_idle)
  ultimately show ?thesis by (simp add: tasks_xenv_def mem_xenv_def)
qed

section \<open>Properties\<close>

text \<open>
  (C6) The process table through any run of the kernel. Suppose that for every process the file operations and whatever runs while it
  waits keep the table consistent, and so does the handler of device interrupts. Then, from a consistent table, the table is consistent
  in every state between rounds of the user loop, after any number of rounds of any processes with any programs in any order, with their
  system calls, page faults, timer interrupts, signals and exits, whether or not the loops ever end; a system call made there and a
  user loop run to its end from there keep it so, and such a loop is again a part of the run. Consistent means: each process is found
  under its pid, pids are unique and none in use is handed out, each process is in its thread group, and parents and children are alive.
  A call or round that panics or waits forever has no next state.
\<close>

theorem syscalls_keep_process_table:
  assumes "\<And>r. kernel_files (x_vfs (E r)) (x_yield (E r))" "\<And>s. k_inv (fst s) \<Longrightarrow> k_inv (fst (D s))" "k_inv (fst s)"
    and "kernel_run E D s t"
  shows "k_inv (fst t) \<and> (syscall (E r) r t = Some (e, t') \<longrightarrow> k_inv (fst t')) \<and>
    (userloop (E r) D U r t = Some t'' \<longrightarrow> kernel_run E D s t'' \<and> k_inv (fst t''))"
proof -
  have inv: "k_inv (fst u)" if "kernel_run E D s u" for u
    by (rule kernel_run_inv [OF assms (1) _ that assms (3)]) (rule assms (2))
  then show ?thesis
    using keepsD [OF kernel_files.syscall_keeps [OF assms (1) refl refl inv [OF assms (4)]]] assms (4) userloop_run [of E r D U t t'' s]
    by blast
qed


theorem syscalls_keep_process_table_witness:
  "\<forall>M enc dec v. let E = tasks_xenv M enc dec [(0, call_program 172)] 1 in \<exists>t t' p.
     kernel_run E (\<lambda>s. s) (mem_k, v) t \<and> map_option (\<lambda>p. user_rx (lp_context p) ! 10) (k_procs (fst t) 0) = Some 1 \<and> k_inv (fst t) \<and>
     userloop (E 2) (\<lambda>s. s) (call_program 93) 2 t = Some t' \<and> kernel_run E (\<lambda>s. s) (mem_k, v) t' \<and> k_inv (fst t') \<and>
     k_procs (fst t') 2 = Some p \<and> lp_status p = STOPPED \<and> lp_exit_code p = 5 \<and> bit (signal_pending (k_signals (fst t') 19)) 16"
proof (intro allI)
  fix M :: "(usize list, nat, 'b) menv" and enc dec and v :: "('b, nat) memfs"
  let ?E = "tasks_xenv M enc dec [(0, call_program 172)] 1"
  define k1 where "k1 = upd_lproc 0 (\<lambda>p. p\<lparr>lp_context := getpid_done\<rparr>) mem_k"
  have "loop_round (?E 1) (\<lambda>s. s) tick_program 1 (mem_k, v) = Some (False, k1, v)"
    using tick_round [of "(mem_k, v)" 1 "demo_proc 1" "?E 1" "\<lambda>s. s"] getpid_while_waiting [of M enc dec 1 v]
    by (simp add: mem_k_procs mem_k_idle demo_running k1_def)
  then have run: "kernel_run ?E (\<lambda>s. s) (mem_k, v) (k1, v)" by (rule run_round [OF run_start])
  have k1: "k_procs k1 2 = Some (demo_proc 2)" "k_now k1 = 0" "k_now_ms k1 = 0"
    "map_option (\<lambda>p. user_rx (lp_context p) ! 10) (k_procs k1 0) = Some 1"
    by (simp_all add: k1_def upd_lproc_def mem_k_procs mem_k_idle getpid_done_def set_user_a0_def uniform_ctx_def)
  obtain cx where l: "loop_round (?E 2) (\<lambda>s. s) (call_program 93) 2 (k1, v) =
      Some (True, upd_lproc 2 (\<lambda>p. p\<lparr>lp_exit_code := 5, lp_context := cx\<rparr>) k1, v)"
    using exit_round [of "(k1, v)" 2 "demo_proc 2" "?E 2" "\<lambda>s. s"] k1 by (auto simp: demo_running)
  obtain k' p where e: "do_exit 2 (upd_lproc 2 (\<lambda>p. p\<lparr>lp_exit_code := 5, lp_context := cx\<rparr>) k1) = Some k'"
    and p: "k_procs k' 2 = Some p" "lp_status p = STOPPED" "lp_exit_code p = 5" "bit (signal_pending (k_signals k' 19)) 16"
    using exit_2 [of cx getpid_done] unfolding k1_def by blast
  have u: "userloop (?E 2) (\<lambda>s. s) (call_program 93) 2 (k1, v) = Some (k', v)"
    using l e by (simp add: userloop_def userloop_rounds.simps)
  have keep: "k_inv (fst (k1, v)) \<and> kernel_run ?E (\<lambda>s. s) (mem_k, v) (k', v) \<and> k_inv (fst (k', v))"
    using syscalls_keep_process_table [where E = ?E and D = "\<lambda>s. s" and s = "(mem_k, v)" and t = "(k1, v)" and r = 2 and
        U = "call_program 93" and t'' = "(k', v)"] tasks_xenv_files mem_k_inv run u by (metis fst_conv)
  then show "let E = ?E in \<exists>t t' p.
     kernel_run E (\<lambda>s. s) (mem_k, v) t \<and> map_option (\<lambda>p. user_rx (lp_context p) ! 10) (k_procs (fst t) 0) = Some 1 \<and> k_inv (fst t) \<and>
     userloop (E 2) (\<lambda>s. s) (call_program 93) 2 t = Some t' \<and> kernel_run E (\<lambda>s. s) (mem_k, v) t' \<and> k_inv (fst t') \<and>
     k_procs (fst t') 2 = Some p \<and> lp_status p = STOPPED \<and> lp_exit_code p = 5 \<and> bit (signal_pending (k_signals (fst t') 19)) 16"
    unfolding Let_def using run k1 (4) u p by (intro exI [of _ "(k1, v)"] exI [of _ "(k', v)"] exI [of _ p]) simp
qed

end
