(* ===== verification/Spec2Isabelle.thy ===== *)
theory Spec2Isabelle
  imports Prelude BTree_Map Bytes Range_Map Range_Map_Laws Range_Map_Remove Range_Map_Free Address
    Pte Frame Pagetable Pagetable_Laws User_Area User_Area_Laws Page_Fault Id_Pool Tables
    Tables_Laws Shm_Mgr User_Space Init_Stack Elf Elf_Laws Timer Trap_Entry Trap_Context Signal
    Signal_Laws Vfs_Path Vfs_Types Lproc Lproc_Laws Process_Table Fat_Table Fat_Dir Fat_File
    Fat_Chain Fat_Sectors Fat_Pages Fat_Names User_Ptr User_Ptr_Laws Syscall_Memory Sleep_Queue
    Syscall_Process Syscall_Misc Pipe Pipe_Laws Syscall_Io Syscall_Fs Syscall_Dispatch Mem_Files
    Syscall_Inv Mem_Files_Laws Kernel_Run
begin

text \<open>
  MankorOS (\<^verbatim>\<open>src/src/\<close>) is a RISC-V kernel in Rust with an asynchronous system-call layer. This library models
  its memory management, its processes, its signals and traps, its system calls and the loop that runs them, its pipes,
  paths and FAT32 file system, and proves what these parts do. File names below are relative to \<^verbatim>\<open>src/src/\<close>.

  \<^bold>\<open>Conventions.\<close> The debug build is modelled: overflow of \<open>+\<close>, \<open>-\<close> and \<open>*\<close>, a failed \<open>debug_assert!\<close>, \<open>unwrap\<close> of
  nothing and an index out of range are panics, and a panic is \<open>None\<close>. A \<open>SysResult\<close> is a sum with the error number
  on the left, so a call that can do both returns an option of a sum. A \<open>usize\<close> is a word of 64 bits. State is passed
  explicitly, in records with the fields of the Rust structs. An \<open>async\<close> function runs to its end; a system
  call that waits is given, as a function on the state, what the other tasks do meanwhile. The futures of pipes and of
  the sleep queue are modelled poll by poll. Logging, TLB flushes and locks leave no trace in the model. \<open>BTreeMap\<close> is a sorted association list.

  \<^bold>\<open>Parameters.\<close> Code outside the repository is an argument of the definitions, with a contract as a named hypothesis:
  the frame bitmap (crate \<^verbatim>\<open>bitmap_allocator\<close>), the block device (\<open>blk_ops\<close>, contract \<open>blk_ok\<close>), the parsed ELF
  file (crate \<^verbatim>\<open>xmas_elf\<close>), the ring buffer of a pipe (crate \<^verbatim>\<open>ringbuffer\<close>, contract \<open>ring_ok\<close>), the file behind
  a mapping and the clock. So are the program in user mode, the handler of device interrupts and the byte layout of
  \<open>SigAction\<close>. The trait \<open>VfsFile\<close> is the record \<open>vfs_ops\<close>, an argument of the calls on files. The witness of each theorem with such a
  hypothesis instantiates it.

  \<^bold>\<open>Shared theories.\<close>
  \<^item> \<open>Prelude\<close>, \<open>Bytes\<close>: machine integers, checked arithmetic, error numbers (\<^verbatim>\<open>tools/errors.rs\<close>), little-endian bytes.
  \<^item> \<open>BTree_Map\<close>: the sorted association list and the locale \<open>ordered_map\<close>, interpreted on it.
  \<^item> \<open>Range_Map\<close>, \<open>Range_Map_Laws\<close>, \<open>Range_Map_Remove\<close>, \<open>Range_Map_Free\<close>: \<^verbatim>\<open>process/user_space/range_map.rs\<close>; disjoint
    ranges stay disjoint, removal splits the ranges it cuts by the contract of the locale \<open>splitting\<close>, and the search for free space
    looks only behind the last range of its window.
  \<^item> \<open>Id_Pool\<close>: \<^verbatim>\<open>tools/handler_pool.rs\<close>, with the locale \<open>id_pool\<close>.

  \<^bold>\<open>Memory.\<close>
  \<^item> \<open>Address\<close>, \<open>Pte\<close>: address arithmetic and page-table entries; entries round-trip, page iteration visits each page.
  \<^item> \<open>Frame\<close>: frame allocation and reference counts; a frame is freed with its last reference. The table of counts has one slot
    for each page of memory but is indexed by the page number of the address. \<open>count_inv\<close> says that free frames with a slot have count
    zero, \<open>frame_inv\<close> that in addition each free frame has a slot. \<open>frame_init_counts\<close> shows that booting sets up the former, and the
    latter only when memory starts at address zero; a free frame without a slot makes \<open>alloc_frame\<close> panic. The theorems on mapping
    pages, page faults and shared memory that need new frames assume \<open>frame_inv\<close>.
  \<^item> \<open>Pagetable\<close>, \<open>Pagetable_Laws\<close>: the three-level tables of \<^verbatim>\<open>memory/pagetable/pagetable.rs\<close> over an explicit memory;
    the tree refines a map from page numbers to entries.
  \<^item> \<open>User_Area\<close>, \<open>User_Area_Laws\<close>, \<open>Page_Fault\<close>: segments, \<open>mmap\<close>, \<open>munmap\<close>, the heap break, and the fault handler on
    every branch, copy on write included.
  \<^item> \<open>User_Space\<close>, \<open>Shm_Mgr\<close>, \<open>Init_Stack\<close>, \<open>Elf\<close>, \<open>Elf_Laws\<close>: address spaces, shared memory, the initial stack, the loader.
  \<^item> \<open>User_Ptr\<close>, \<open>User_Ptr_Laws\<close>: checked access to user memory (\<^verbatim>\<open>memory/user_ptr.rs\<close>); values and C strings are read
    back as they were written, and a range that cannot be accessed gives \<open>EFAULT\<close>. The bytes that a program sees are a
    function \<open>k_umem\<close> of the address for each address space; that two spaces share a frame does not show in it.

  \<^bold>\<open>Processes.\<close>
  \<^item> \<open>Tables\<close>, \<open>Tables_Laws\<close>: descriptor tables, shared-memory tables and the event bus of \<^verbatim>\<open>process/lproc.rs\<close>, which wakes
    each listener once in any sequence of operations.
  \<^item> \<open>Lproc\<close>, \<open>Lproc_Laws\<close>, \<open>Process_Table\<close>: processes on an explicit heap of objects; clone, exec and exit, and that
    every operation keeps the invariant of the process table.
  \<^item> \<open>Timer\<close>: time values and accounting.
  \<^item> \<open>Trap_Entry\<close>, \<open>Trap_Context\<close>: the assembly of \<^verbatim>\<open>trap/trap.asm\<close> as instruction lists, and the saved contexts; entering
    and leaving the kernel preserves the registers of the program.
  \<^item> \<open>Signal\<close>, \<open>Signal_Laws\<close>: signal sets, delivery and the return from a handler.

  \<^bold>\<open>System calls and the user loop.\<close>
  \<^item> \<open>Sleep_Queue\<close>: \<^verbatim>\<open>timer/async_sleep.rs\<close> and \<^verbatim>\<open>executor/util_futures.rs\<close>; a sleeper is woken once, when its time has come.
  \<^item> \<open>Syscall_Memory\<close>, \<open>Syscall_Process\<close>, \<open>Syscall_Misc\<close>, \<open>Syscall_Io\<close>, \<open>Syscall_Fs\<close>: one definition for each call of
    \<^verbatim>\<open>syscall/\<close>, on the kernel state \<open>kstate\<close> or on the pair \<open>sst\<close> of it and the state of the file systems.
  \<^item> \<open>Syscall_Dispatch\<close>: the table of calls of \<^verbatim>\<open>syscall/mod.rs\<close> and the loop of \<^verbatim>\<open>process/userloop.rs\<close>.
  \<^item> \<open>Syscall_Inv\<close>: every call and the user loop keep the invariant of the process table, by rules that follow the text of
    the calls. The locale \<open>kernel_files\<close> is the contract of the files they use: files do not disturb the table.

  \<^bold>\<open>File systems.\<close>
  \<^item> \<open>Vfs_Types\<close>: the trait and the attribute types of \<^verbatim>\<open>fs/new_vfs/\<close>, path resolution and the mount table.
  \<^item> \<open>Pipe\<close>, \<open>Pipe_Laws\<close>: \<^verbatim>\<open>fs/npipe.rs\<close>; under every interleaving of the polls of the two ends a pipe is a queue, and no
    wake-up is lost.
  \<^item> \<open>Mem_Files\<close>, \<open>Mem_Files_Laws\<close>: \<^verbatim>\<open>fs/memfs/\<close>, \<^verbatim>\<open>fs/stdio.rs\<close>, mount points and pipes as an instance of \<open>vfs_ops\<close>. The locale
    \<open>task_env\<close> says that the other tasks and the serial line keep the table; it gives \<open>kernel_files\<close> for these files, and
    is interpreted for a kernel in which only the timer runs besides the process.
  \<^item> \<open>Kernel_Run\<close>: runs of the kernel as sequences of rounds of the user loops of all processes; the process table is consistent
    between any two of them. \<open>task_env\<close> is interpreted here for kernels in which the processes of a schedule run their rounds, with their
    own programs, while another one waits, to any depth of waiting.
  \<^item> \<open>Vfs_Path\<close>: \<^verbatim>\<open>fs/new_vfs/path.rs\<close>; printing and parsing, and appending one path to another.
  \<^item> \<open>Fat_Table\<close>, \<open>Fat_Dir\<close>, \<open>Fat_File\<close>: \<^verbatim>\<open>fs/nfat32/\<close>, from mounting to reading, writing, creating and renaming files.
    \<open>Fat_Chain\<close> treats the cluster chains, \<open>Fat_Sectors\<close> the mounted geometry and the sectors of a file, \<open>Fat_Pages\<close>
    reading and writing as operations on the bytes of a file, and \<open>Fat_Names\<close> the encoding and placing of entries.
    Several of these theorems state what the code does where that is not what it means to do.

  \<^bold>\<open>Bounds and loops.\<close> Loops over data are recursion with a measure that falls. The loops that follow the links of the
  allocation table and the scans of a directory are \<open>partial_function (option)\<close>: not ending is \<open>None\<close>, as a panic is.
  For reading and writing pages and for \<open>alloc_next\<close> and \<open>alloc_push\<close> a result is proved; \<open>create_entry_place\<close>,
  \<open>created_entry_erased\<close> and \<open>mount_geometry\<close> speak of the runs that succeed; nothing is proved of the directory
  scans \<open>mark_next\<close>, \<open>lookup\<close>, \<open>list\<close> and \<open>attach\<close> but their definitions. \<open>alloc_next_extends\<close> takes a table of at most
  \<open>0x0FFFFFF8\<close> entries, so that no cluster number reads as the end of a chain. The loops of system calls that wait and
  the user loop are \<open>partial_function (option)\<close> too, since they may run for ever. \<open>sigwait\<close> gives up after the 100000
  rounds of the source.

  \<^bold>\<open>Not modelled.\<close> Boot, logging and back traces, and device drivers: they touch hardware whose behaviour is not in the
  repository. The executor: it runs futures of the crate \<^verbatim>\<open>async_task\<close>. Locks: operations run without interleaving.
  The caches of \<^verbatim>\<open>fs/new_vfs/\<close>, procfs, disks and partitions, and the containers of \<^verbatim>\<open>tools/\<close>; the calls use
  them through \<open>vfs_ops\<close>. The drop of a file when its last descriptor is closed, and of a future that \<open>poll\<close> or
  \<open>select\<close> gives up, is left out.
  Of FAT32, the multi-block transfers, the use counter of a cached block and \<open>delete_recursive\<close> are left out, and so are the
  reads of the allocation table that mounting makes for its debug messages; the contract \<open>blk_ok\<close> is that of a device without errors.
\<close>

end
